(* ===== verification/JSValue.thy ===== *)
theory JSValue
  imports Prelude
begin

section \<open>Values of the language\<close>

text \<open>
  The portal reads untyped JSON from the server and from local storage. A \<open>jsval\<close> is such a
  value; the operations below are the operators the code applies to it, with the coercions of
  the language written out. Numbers are exact rationals (rounding of doubles is not modelled)
  with \<open>NaN\<close> beside them.
\<close>

datatype jsval =
    Undef
  | Null
  | BoolV bool
  | Num rat
  | NaN
  | Str string
  | Arr "jsval list"
  | Obj "(string \<times> jsval) list"

text \<open>What a statement may throw. \<open>ErrMsg m\<close> is \<open>new Error(m)\<close>.\<close>

datatype exn =
    TypeError
  | SyntaxError
  | NetworkError
  | AbortError
  | ErrMsg jsval
  | VisibilityError string int

subsection \<open>Tests\<close>

fun truthy :: "jsval \<Rightarrow> bool" where
  "truthy Undef = False"
| "truthy Null = False"
| "truthy (BoolV b) = b"
| "truthy (Num q) = (q \<noteq> 0)"
| "truthy NaN = False"
| "truthy (Str s) = (s \<noteq> [])"
| "truthy (Arr _) = True"
| "truthy (Obj _) = True"

definition nullish :: "jsval \<Rightarrow> bool" where
  "nullish v = (v = Undef \<or> v = Null)"

fun is_arr :: "jsval \<Rightarrow> bool" where
  "is_arr (Arr _) = True"
| "is_arr _ = False"

fun is_str :: "jsval \<Rightarrow> bool" where
  "is_str (Str _) = True"
| "is_str _ = False"

fun is_num :: "jsval \<Rightarrow> bool" where
  "is_num (Num _) = True"
| "is_num NaN = True"
| "is_num _ = False"

text \<open>\<open>typeof v === 'object'\<close> holds of null, arrays and objects.\<close>

fun typeof_object :: "jsval \<Rightarrow> bool" where
  "typeof_object Null = True"
| "typeof_object (Arr _) = True"
| "typeof_object (Obj _) = True"
| "typeof_object _ = False"

text \<open>The elements of an array, and no element of anything else.\<close>

fun elems :: "jsval \<Rightarrow> jsval list" where
  "elems (Arr xs) = xs"
| "elems _ = []"

subsection \<open>Operators\<close>

text \<open>\<open>a || b\<close>, \<open>a ?? b\<close> and \<open>a === b\<close> for a primitive \<open>b\<close>.\<close>

definition js_or :: "jsval \<Rightarrow> jsval \<Rightarrow> jsval" where
  "js_or a b = (if truthy a then a else b)"

definition js_nn :: "jsval \<Rightarrow> jsval \<Rightarrow> jsval" where
  "js_nn a b = (if nullish a then b else a)"

fun seq :: "jsval \<Rightarrow> jsval \<Rightarrow> bool" where
  "seq Undef Undef = True"
| "seq Null Null = True"
| "seq (BoolV a) (BoolV b) = (a = b)"
| "seq (Num a) (Num b) = (a = b)"
| "seq (Str a) (Str b) = (a = b)"
| "seq _ _ = False"

text \<open>
  A property of a value that is not nullish; reading one of \<open>undefined\<close> or \<open>null\<close> throws.
  \<open>v?.k\<close> is \<open>undefined\<close> there. Inherited properties other than \<open>length\<close> are not modelled.
\<close>

definition field :: "(string \<times> jsval) list \<Rightarrow> string \<Rightarrow> jsval" where
  "field fs k = (case map_of fs k of None \<Rightarrow> Undef | Some v \<Rightarrow> v)"

fun oget :: "jsval \<Rightarrow> string \<Rightarrow> jsval" where
  "oget (Obj fs) k = field fs k"
| "oget (Arr xs) k = (if k = ''length'' then Num (of_nat (length xs)) else Undef)"
| "oget (Str s) k = (if k = ''length'' then Num (of_nat (length s)) else Undef)"
| "oget _ k = Undef"

definition get :: "jsval \<Rightarrow> string \<Rightarrow> exn + jsval" where
  "get v k = (if nullish v then Inl TypeError else Inr (oget v k))"

text \<open>\<open>{...v, k: x}\<close>: the spread of a value that is no object has no fields.\<close>

fun obj_fields :: "jsval \<Rightarrow> (string \<times> jsval) list" where
  "obj_fields (Obj fs) = fs"
| "obj_fields _ = []"

definition set_field :: "string \<Rightarrow> jsval \<Rightarrow> jsval \<Rightarrow> jsval" where
  "set_field k x v = Obj (AList.update k x (obj_fields v))"

text \<open>
  \<open>parseInt\<close>: leading white space and a sign are skipped, the longest run of digits is read,
  and no digit gives \<open>NaN\<close>. With no radix given, a \<open>0x\<close> prefix selects radix 16.
\<close>

definition hex_val :: "char \<Rightarrow> nat option" where
  "hex_val c = (let n = (of_char c :: nat) in
     if is_digit c then Some (n - 48)
     else if 97 \<le> n \<and> n \<le> 102 then Some (n - 87)
     else if 65 \<le> n \<and> n \<le> 70 then Some (n - 55)
     else None)"

definition is_hex :: "char \<Rightarrow> bool" where
  "is_hex c = (hex_val c \<noteq> None)"

definition read_hex :: "string \<Rightarrow> nat" where
  "read_hex s = foldl (\<lambda>n c. 16 * n + the (hex_val c)) 0 s"

fun parse_digits :: "string \<Rightarrow> nat option" where
  "parse_digits s = (let ds = takeWhile is_digit s in if ds = [] then None else Some (read_nat ds))"

fun parse_auto :: "string \<Rightarrow> nat option" where
  "parse_auto (z # x # s) =
     (if z = CHR ''0'' \<and> (x = CHR ''x'' \<or> x = CHR ''X'')
      then (let ds = takeWhile is_hex s in if ds = [] then None else Some (read_hex ds))
      else parse_digits (z # x # s))"
| "parse_auto s = parse_digits s"

definition signed :: "(string \<Rightarrow> nat option) \<Rightarrow> string \<Rightarrow> jsval" where
  "signed p s =
     (let t = dropWhile is_ws s;
          neg = (case t of c # _ \<Rightarrow> c = CHR ''-'' | [] \<Rightarrow> False);
          u = (case t of c # r \<Rightarrow> if c = CHR ''-'' \<or> c = CHR ''+'' then r else t | [] \<Rightarrow> t)
      in case p u of None \<Rightarrow> NaN
         | Some n \<Rightarrow> Num (if neg then - of_nat n else of_nat n))"

definition parseInt :: "string \<Rightarrow> jsval" where
  "parseInt s = signed parse_auto s"

definition parseInt10 :: "string \<Rightarrow> jsval" where
  "parseInt10 s = signed parse_digits s"

subsection \<open>Conversions\<close>

text \<open>
  \<open>String(v)\<close>. Numbers are printed exactly when they are integers or have a finite decimal
  expansion of at most twenty digits, which covers what the code prints.
\<close>

fun frac_digits :: "nat \<Rightarrow> rat \<Rightarrow> string" where
  "frac_digits 0 r = []"
| "frac_digits (Suc n) r =
     (if r = 0 then [] else digit (nat \<lfloor>10 * r\<rfloor>) # frac_digits n (10 * r - of_int \<lfloor>10 * r\<rfloor>))"

definition show_num :: "rat \<Rightarrow> string" where
  "show_num q =
     (if q = of_int \<lfloor>q\<rfloor> then show_int \<lfloor>q\<rfloor>
      else let a = \<bar>q\<bar> in
        (if q < 0 then ''-'' else []) @ show_int \<lfloor>a\<rfloor> @ ''.'' @ frac_digits 20 (a - of_int \<lfloor>a\<rfloor>))"

fun join :: "string \<Rightarrow> string list \<Rightarrow> string" where
  "join d [] = []"
| "join d [x] = x"
| "join d (x # y # ys) = x @ d @ join d (y # ys)"

fun js_string :: "jsval \<Rightarrow> string" where
  "js_string Undef = ''undefined''"
| "js_string Null = ''null''"
| "js_string (BoolV b) = (if b then ''true'' else ''false'')"
| "js_string (Num q) = show_num q"
| "js_string NaN = ''NaN''"
| "js_string (Str s) = s"
| "js_string (Arr xs) = join '','' (map (\<lambda>x. if x = Undef \<or> x = Null then [] else js_string x) xs)"
| "js_string (Obj _) = ''[object Object]''"

text \<open>
  Arithmetic on values that are numbers or \<open>undefined\<close>, as in \<open>Date.now() - state.startTime\<close>:
  a missing field makes the result \<open>NaN\<close>, and every comparison with \<open>NaN\<close> is false.
  \<open>as_num\<close> is \<open>Number(v)\<close>; numeric texts with an exponent or a radix prefix are not modelled.
\<close>

definition str_num :: "string \<Rightarrow> rat option" where
  "str_num s =
     (let t = trim s;
          neg = (case t of c # _ \<Rightarrow> c = CHR ''-'' | [] \<Rightarrow> False);
          u = (case t of c # r \<Rightarrow> if c = CHR ''-'' \<or> c = CHR ''+'' then r else t | [] \<Rightarrow> t);
          ip = takeWhile is_digit u;
          sg = (if neg then - 1 else 1 :: rat)
      in if t = [] then Some 0
         else case dropWhile is_digit u of
             [] \<Rightarrow> if ip = [] then None else Some (sg * of_nat (read_nat ip))
           | c # f \<Rightarrow>
               if c = CHR ''.'' \<and> list_all is_digit f \<and> (ip \<noteq> [] \<or> f \<noteq> [])
               then Some (sg * (of_nat (read_nat ip) + of_nat (read_nat f) / 10 ^ length f))
               else None)"

fun as_num :: "jsval \<Rightarrow> rat option" where
  "as_num (Num q) = Some q"
| "as_num Null = Some 0"
| "as_num (BoolV b) = Some (if b then 1 else 0)"
| "as_num (Str s) = str_num s"
| "as_num (Arr xs) = str_num (js_string (Arr xs))"
| "as_num _ = None"

definition num_gt :: "rat option \<Rightarrow> rat option \<Rightarrow> bool" where
  "num_gt a b = (case (a, b) of (Some x, Some y) \<Rightarrow> y < x | _ \<Rightarrow> False)"

definition num_ge :: "rat option \<Rightarrow> rat option \<Rightarrow> bool" where
  "num_ge a b = (case (a, b) of (Some x, Some y) \<Rightarrow> y \<le> x | _ \<Rightarrow> False)"

definition num_of :: "rat option \<Rightarrow> jsval" where
  "num_of a = (case a of None \<Rightarrow> NaN | Some q \<Rightarrow> Num q)"

subsection \<open>Rules\<close>

lemma nullish_simps [simp]:
  "nullish Undef" "nullish Null" "\<not> nullish (BoolV b)" "\<not> nullish (Num q)" "\<not> nullish NaN"
  "\<not> nullish (Str s)" "\<not> nullish (Arr xs)" "\<not> nullish (Obj fs)"
  by (simp_all add: nullish_def)

lemma nullish_not_truthy [simp]: "nullish v \<Longrightarrow> \<not> truthy v"
  by (auto simp: nullish_def)

lemma oget_nullish [simp]: "nullish v \<Longrightarrow> oget v k = Undef"
  by (auto simp: nullish_def)

lemma field_simps' [simp]:
  "field [] k = Undef"
  "field ((k', v) # fs) k = (if k' = k then v else field fs k)"
  by (auto simp: field_def)

lemma field_update [simp]:
  "field (AList.update k x fs) k' = (if k' = k then x else field fs k')"
  by (simp add: field_def update_conv')

lemma oget_set_field [simp]:
  "oget (set_field k x v) k' = (if k' = k then x else field (obj_fields v) k')"
  by (simp add: set_field_def)

lemma set_field_not_nullish [simp]: "\<not> nullish (set_field k x v)"
  by (simp add: set_field_def)

lemma oget_fields: "is_arr v \<or> is_str v \<or> oget v k = field (obj_fields v) k"
  by (cases v) auto

lemma js_or_simps [simp]: "truthy a \<Longrightarrow> js_or a b = a" "\<not> truthy a \<Longrightarrow> js_or a b = b"
  by (simp_all add: js_or_def)

lemma js_nn_simps [simp]: "nullish a \<Longrightarrow> js_nn a b = b" "\<not> nullish a \<Longrightarrow> js_nn a b = a"
  by (simp_all add: js_nn_def)

lemma truthy_js_or [simp]: "truthy (js_or a b) \<longleftrightarrow> truthy a \<or> truthy b"
  by (simp add: js_or_def)

lemma seq_iff: "seq a b \<longleftrightarrow> a = b \<and> a \<noteq> NaN \<and> \<not> is_arr a \<and> (\<forall>fs. a \<noteq> Obj fs)"
  by (cases a; cases b) auto

lemma seq_true [simp]: "seq v (BoolV True) \<longleftrightarrow> v = BoolV True"
  by (auto simp: seq_iff)

lemma seq_str [simp]: "seq v (Str s) \<longleftrightarrow> v = Str s"
  by (auto simp: seq_iff)

lemma num_gt_simps [simp]:
  "\<not> num_gt None b" "\<not> num_gt a None" "num_gt (Some x) (Some y) \<longleftrightarrow> y < x"
  by (auto simp: num_gt_def split: option.splits)

lemma num_ge_simps [simp]:
  "\<not> num_ge None b" "\<not> num_ge a None" "num_ge (Some x) (Some y) \<longleftrightarrow> y \<le> x"
  by (auto simp: num_ge_def split: option.splits)

lemma num_of_simps [simp]: "num_of None = NaN" "num_of (Some q) = Num q"
  by (simp_all add: num_of_def)

lemma show_num_of_int [simp]: "show_num (of_int i) = show_int i"
  by (simp add: show_num_def)

lemma is_digit_not_ws: "is_digit c \<Longrightarrow> \<not> is_ws c"
  by (auto simp: is_digit_def is_ws_def)

lemma takeWhile_show_nat [simp]: "takeWhile is_digit (show_nat n) = show_nat n"
  by (simp add: takeWhile_eq_all_conv show_nat_digits)

lemma parse_digits_show_nat [simp]: "parse_digits (show_nat n) = Some n"
  by simp

lemma minus_not_ws [simp]: "\<not> is_ws (CHR ''-'')"
  by (simp add: is_ws_def)

lemma drop_ws_show_nat [simp]: "dropWhile is_ws (show_nat n) = show_nat n"
  by (metis dropWhile.simps(2) dropWhile_eq_self_iff hd_in_set is_digit_not_ws show_nat_digits)

lemma x_not_digit: "\<not> is_digit (CHR ''x'')" "\<not> is_digit (CHR ''X'')" "\<not> is_digit (CHR ''+'')"
  by (simp_all add: is_digit_def)

lemma parse_auto_digits: "(\<And>c. c \<in> set s \<Longrightarrow> is_digit c) \<Longrightarrow> parse_auto s = parse_digits s"
  by (cases s rule: parse_auto.cases) (use x_not_digit in auto)

lemma signed_show_int:
  assumes "\<And>n. p (show_nat n) = Some n"
  shows "signed p (show_int i) = Num (of_int i)"
proof (cases "i < 0")
  case True
  then show ?thesis
    by (simp add: signed_def show_int_def assms Let_def)
next
  case False
  obtain c s where cs: "show_nat (nat i) = c # s"
    by (cases "show_nat (nat i)") auto
  then have "is_digit c"
    by (metis list.set_intros(1) show_nat_digits)
  then have "c \<noteq> CHR ''-''" "c \<noteq> CHR ''+''"
    using x_not_digit by auto
  with False cs assms [of "nat i"] drop_ws_show_nat [of "nat i"] show ?thesis
    by (simp add: signed_def show_int_def Let_def)
qed

lemma parseInt_show_int [simp]: "parseInt (show_int i) = Num (of_int i)"
  unfolding parseInt_def
  by (rule signed_show_int) (simp add: parse_auto_digits show_nat_digits)

lemma parseInt10_show_int [simp]: "parseInt10 (show_int i) = Num (of_int i)"
  unfolding parseInt10_def by (rule signed_show_int) simp

end
