(* ===== verification/JsonText.thy ===== *)
theory JsonText
  imports JSValue
begin

section \<open>JSON texts\<close>

text \<open>
  \<open>JSON.parse\<close> and \<open>JSON.stringify\<close>. The parser is a recursive descent over the text; its fuel
  bounds the number of calls, two for each character, and \<open>parse_print\<close> shows that this is enough
  for every text the printer makes. An escape \<open>\\u\<close> above 255 has no character in the model and
  is rejected.
\<close>

definition json_ws :: "char \<Rightarrow> bool" where
  "json_ws c = ((of_char c :: nat) \<in> set [9, 10, 13, 32])"

abbreviation skip :: "string \<Rightarrow> string" where
  "skip s \<equiv> dropWhile json_ws s"

subsection \<open>Strings\<close>

definition QUOTE :: char where "QUOTE = CHR 0x22"
definition BACKSLASH :: char where "BACKSLASH = CHR 0x5C"

text \<open>The escapes of one letter: the letter and the code it stands for.\<close>

definition escapes :: "(char \<times> nat) list" where
  "escapes = [(CHR 0x22, 34), (CHR 0x5C, 92), (CHR ''/'', 47), (CHR ''b'', 8), (CHR ''f'', 12),
     (CHR ''n'', 10), (CHR ''r'', 13), (CHR ''t'', 9)]"

fun unicode :: "string \<Rightarrow> (char \<times> string) option" where
  "unicode (a # b # c # d # r) =
     (case (hex_val a, hex_val b, hex_val c, hex_val d) of
        (Some w, Some x, Some y, Some z) \<Rightarrow>
          (let n = 4096 * w + 256 * x + 16 * y + z in if n < 256 then Some (char_of n, r) else None)
      | _ \<Rightarrow> None)"
| "unicode _ = None"

lemma unicode_shorter: "unicode s = Some (c, r) \<Longrightarrow> length r < length s"
  by (cases s rule: unicode.cases) (auto simp: Let_def split: option.splits if_splits)

text \<open>The characters of a string after its opening quote, and the rest of the text.\<close>

function json_chars :: "string \<Rightarrow> (string \<times> string) option" where
  "json_chars s =
     (case s of
        [] \<Rightarrow> None
      | c # cs \<Rightarrow>
          if c = QUOTE then Some ([], cs)
          else if c = BACKSLASH then
            (case cs of
               [] \<Rightarrow> None
             | e # ds \<Rightarrow>
                 if e = CHR ''u''
                 then (case unicode ds of None \<Rightarrow> None
                       | Some (x, r) \<Rightarrow> map_option (apfst ((#) x)) (json_chars r))
                 else (case map_of escapes e of None \<Rightarrow> None
                       | Some n \<Rightarrow> map_option (apfst ((#) (char_of n))) (json_chars ds)))
          else if (of_char c :: nat) < 32 then None
          else map_option (apfst ((#) c)) (json_chars cs))"
  by pat_completeness auto
termination
  by (relation "measure length") (auto dest: unicode_shorter)

declare json_chars.simps [simp del]

subsection \<open>Numbers\<close>

definition exponent :: "string \<Rightarrow> (rat \<times> string) option" where
  "exponent s =
     (case s of
        e # r \<Rightarrow>
          if e = CHR ''e'' \<or> e = CHR ''E''
          then (let neg = (case r of c # _ \<Rightarrow> c = CHR ''-'' | [] \<Rightarrow> False);
                    u = (case r of c # t \<Rightarrow> if c = CHR ''-'' \<or> c = CHR ''+'' then t else r | [] \<Rightarrow> r);
                    ds = takeWhile is_digit u;
                    p = 10 ^ read_nat ds
                in if ds = [] then None else Some (if neg then 1 / p else p, dropWhile is_digit u))
          else Some (1, s)
      | [] \<Rightarrow> Some (1, s))"

definition fraction :: "string \<Rightarrow> (rat \<times> string) option" where
  "fraction s =
     (case s of
        c # r \<Rightarrow>
          if c = CHR ''.''
          then (let ds = takeWhile is_digit r
                in if ds = [] then None
                   else Some (of_nat (read_nat ds) / 10 ^ length ds, dropWhile is_digit r))
          else Some (0, s)
      | [] \<Rightarrow> Some (0, s))"

definition json_number :: "string \<Rightarrow> (jsval \<times> string) option" where
  "json_number s =
     (let neg = (case s of c # _ \<Rightarrow> c = CHR ''-'' | [] \<Rightarrow> False);
          u = (if neg then tl s else s);
          ip = takeWhile is_digit u
      in if ip = [] \<or> (1 < length ip \<and> hd ip = CHR ''0'') then None
         else case fraction (dropWhile is_digit u) of
             None \<Rightarrow> None
           | Some (f, r) \<Rightarrow>
               (case exponent r of
                  None \<Rightarrow> None
                | Some (e, t) \<Rightarrow>
                    Some (Num ((if neg then -1 else 1) * (of_nat (read_nat ip) + f) * e), t)))"

subsection \<open>Values\<close>

definition literal :: "string \<Rightarrow> (jsval \<times> string) option" where
  "literal s =
     (if starts_with ''true'' s then Some (BoolV True, drop 4 s)
      else if starts_with ''false'' s then Some (BoolV False, drop 5 s)
      else if starts_with ''null'' s then Some (Null, drop 4 s)
      else json_number s)"

fun json_value :: "nat \<Rightarrow> string \<Rightarrow> (jsval \<times> string) option"
  and json_elems :: "nat \<Rightarrow> string \<Rightarrow> (jsval list \<times> string) option"
  and json_members :: "nat \<Rightarrow> string \<Rightarrow> ((string \<times> jsval) list \<times> string) option"
where
  "json_value 0 s = None"
| "json_value (Suc n) s =
     (case skip s of
        [] \<Rightarrow> None
      | c # cs \<Rightarrow>
          if c = CHR ''['' then
            (if take 1 (skip cs) = '']'' then Some (Arr [], drop 1 (skip cs))
             else map_option (apfst Arr) (json_elems n cs))
          else if c = CHR ''{'' then
            (if take 1 (skip cs) = ''}'' then Some (Obj [], drop 1 (skip cs))
             else map_option (apfst (\<lambda>kvs. Obj (fold (\<lambda>(k, v). AList.update k v) kvs []))) (json_members n cs))
          else if c = QUOTE then map_option (apfst Str) (json_chars cs)
          else literal (c # cs))"
| "json_elems 0 s = None"
| "json_elems (Suc n) s =
     (case json_value n s of
        None \<Rightarrow> None
      | Some (v, r) \<Rightarrow>
          (case skip r of
             [] \<Rightarrow> None
           | c # t \<Rightarrow>
               if c = CHR '']'' then Some ([v], t)
               else if c = CHR '','' then map_option (apfst ((#) v)) (json_elems n t)
               else None))"
| "json_members 0 s = None"
| "json_members (Suc n) s =
     (case skip s of
        [] \<Rightarrow> None
      | q # ks \<Rightarrow>
          if q \<noteq> QUOTE then None
          else case json_chars ks of
              None \<Rightarrow> None
            | Some (k, r) \<Rightarrow>
                (case skip r of
                   [] \<Rightarrow> None
                 | d # u \<Rightarrow>
                     if d \<noteq> CHR '':'' then None
                     else case json_value n u of
                         None \<Rightarrow> None
                       | Some (v, x) \<Rightarrow>
                           (case skip x of
                              [] \<Rightarrow> None
                            | c # t \<Rightarrow>
                                if c = CHR ''}'' then Some ([(k, v)], t)
                                else if c = CHR '','' then map_option (apfst ((#) (k, v))) (json_members n t)
                                else None)))"

definition parse_text :: "string \<Rightarrow> exn + jsval" where
  "parse_text s =
     (case json_value (2 * length s + 2) s of
        Some (v, r) \<Rightarrow> if skip r = [] then Inr v else Inl SyntaxError
      | None \<Rightarrow> Inl SyntaxError)"

subsection \<open>Printing\<close>

definition esc_hex :: "nat \<Rightarrow> char" where
  "esc_hex n = (if n < 10 then char_of (48 + n) else char_of (87 + n))"

definition escape_char :: "char \<Rightarrow> string" where
  "escape_char c =
     (let n = (of_char c :: nat) in
      if n = 34 then [BACKSLASH, QUOTE] else if n = 92 then [BACKSLASH, BACKSLASH]
      else if n = 8 then [BACKSLASH, CHR ''b''] else if n = 12 then [BACKSLASH, CHR ''f'']
      else if n = 10 then [BACKSLASH, CHR ''n''] else if n = 13 then [BACKSLASH, CHR ''r'']
      else if n = 9 then [BACKSLASH, CHR ''t'']
      else if n < 32 then [BACKSLASH, CHR ''u'', CHR ''0'', CHR ''0'', esc_hex (n div 16), esc_hex (n mod 16)]
      else [c])"

definition quoted :: "string \<Rightarrow> string" where
  "quoted s = [QUOTE] @ concat (map escape_char s) @ [QUOTE]"

text \<open>
  \<open>JSON.stringify\<close>: fields that are \<open>undefined\<close> are left out; \<open>NaN\<close>, and \<open>undefined\<close> in an
  array or at the top, are written \<open>null\<close> (at the top the language yields no text, which no code
  of the portal stores).
\<close>

fun json_text :: "jsval \<Rightarrow> string" where
  "json_text Undef = ''null''"
| "json_text Null = ''null''"
| "json_text NaN = ''null''"
| "json_text (BoolV b) = (if b then ''true'' else ''false'')"
| "json_text (Num q) = show_num q"
| "json_text (Str s) = quoted s"
| "json_text (Arr xs) = ''['' @ join '','' (map json_text xs) @ '']''"
| "json_text (Obj fs) =
     ''{'' @ join '','' (map (\<lambda>(k, v). quoted k @ '':'' @ json_text v) (filter (\<lambda>(k, v). v \<noteq> Undef) fs)) @ ''}''"

subsection \<open>What is printed is read back\<close>

text \<open>
  Values that JSON can express as they are: no \<open>undefined\<close>, no \<open>NaN\<close>, integers as numbers
  (the printer writes other numbers with at most twenty decimals), and no field twice.
\<close>

fun plain :: "jsval \<Rightarrow> bool" where
  "plain Null = True"
| "plain (BoolV b) = True"
| "plain (Num q) = (q = of_int \<lfloor>q\<rfloor>)"
| "plain (Str s) = True"
| "plain (Arr xs) = list_all plain xs"
| "plain (Obj fs) = (distinct (map fst fs) \<and> list_all (\<lambda>(k, v). plain v) fs)"
| "plain v = False"

definition sep :: "string \<Rightarrow> bool" where
  "sep r = (case r of [] \<Rightarrow> True | c # _ \<Rightarrow> c = CHR '','' \<or> c = CHR '']'' \<or> c = CHR ''}'')"

lemma sep_simps [simp]:
  "sep []" "sep (CHR '','' # r)" "sep (CHR '']'' # r)" "sep (CHR ''}'' # r)"
  by (simp_all add: sep_def)

lemma json_ws_simps [simp]:
  "\<not> json_ws QUOTE" "\<not> json_ws (CHR ''['')" "\<not> json_ws (CHR ''{'')" "\<not> json_ws (CHR '']'')"
  "\<not> json_ws (CHR ''}'')" "\<not> json_ws (CHR '','')" "\<not> json_ws (CHR '':'')" "\<not> json_ws (CHR ''-'')"
  "\<not> json_ws (CHR ''t'')" "\<not> json_ws (CHR ''f'')" "\<not> json_ws (CHR ''n'')"
  by (simp_all add: json_ws_def QUOTE_def)

lemma digit_not_json_ws: "is_digit c \<Longrightarrow> \<not> json_ws c"
  by (auto simp: is_digit_def json_ws_def)

lemma sep_not_digit: "sep r \<Longrightarrow> takeWhile is_digit r = [] \<and> dropWhile is_digit r = r"
  by (cases r) (auto simp: sep_def is_digit_def)

lemma take_drop_show_nat:
  assumes "sep r"
  shows "takeWhile is_digit (show_nat n @ r) = show_nat n" "dropWhile is_digit (show_nat n @ r) = r"
  using sep_not_digit [OF assms] show_nat_digits [of _ n] by auto

lemma show_nat_zero_lead: "length (show_nat n) \<le> 1 \<or> hd (show_nat n) \<noteq> CHR ''0''"
proof (induction n rule: show_nat.induct)
  case (1 n)
  have d: "digit m \<noteq> CHR ''0''" if "0 < m" "m < 10" for m
  proof
    assume "digit m = CHR ''0''"
    then have "digit_val (digit m) = digit_val (CHR ''0'')" by simp
    then show False using that by (simp add: digit_val_def)
  qed
  show ?case
  proof (cases "n < 10")
    case False
    have "hd (show_nat (n div 10)) \<noteq> CHR ''0''"
    proof (cases "n div 10 < 10")
      case True
      moreover have "0 < n div 10" using False by simp
      ultimately show ?thesis using d [of "n div 10"] by (simp add: show_nat.simps [of "n div 10"])
    next
      case ge: False
      then have "1 < length (show_nat (n div 10))"
        using show_nat_nonempty [of "n div 10 div 10"]
        by (subst show_nat.simps) (simp del: show_nat_nonempty)
      then show ?thesis using 1 False by simp
    qed
    then show ?thesis using False by (simp add: show_nat.simps [of n] hd_append)
  qed (simp add: show_nat.simps [of n])
qed

lemma json_number_show_int:
  assumes "sep r"
  shows "json_number (show_int i @ r) = Some (Num (of_int i), r)"
proof -
  have f: "fraction r = Some (0, r)" "exponent r = Some (1, r)"
    using assms by (cases r; auto simp: fraction_def exponent_def sep_def)+
  have z: "\<not> (1 < length (show_nat n) \<and> hd (show_nat n) = CHR ''0'')" for n
    using show_nat_zero_lead [of n] by auto
  show ?thesis
  proof (cases "i < 0")
    case True
    then show ?thesis
      using f z by (simp add: json_number_def show_int_def take_drop_show_nat [OF assms] Let_def)
  next
    case False
    obtain c s where "show_nat (nat i) = c # s" by (cases "show_nat (nat i)") auto
    moreover from this have "c \<noteq> CHR ''-''"
      using show_nat_hd_not_minus [of "nat i"] by auto
    ultimately have "(case show_int i @ r of c # _ \<Rightarrow> c = CHR ''-'' | [] \<Rightarrow> False) = False"
      using False by (simp add: show_int_def)
    then show ?thesis
      using f z False by (simp add: json_number_def show_int_def take_drop_show_nat [OF assms] Let_def)
  qed
qed

lemma hex_val_esc_hex: "n < 16 \<Longrightarrow> hex_val (esc_hex n) = Some n"
  by (auto simp: hex_val_def esc_hex_def is_digit_def Let_def)

lemma unicode_escape: "n < 32 \<Longrightarrow> unicode (CHR ''0'' # CHR ''0'' # esc_hex (n div 16) # esc_hex (n mod 16) # r) =
    Some (char_of n, r)"
proof -
  assume "n < 32"
  then have "hex_val (esc_hex (n div 16)) = Some (n div 16)" "hex_val (esc_hex (n mod 16)) = Some (n mod 16)"
    "n div 16 * 16 + n mod 16 = n" "n < 256"
    by (simp_all add: hex_val_esc_hex)
  moreover have "hex_val (CHR ''0'') = Some 0" by (simp add: hex_val_def is_digit_def)
  ultimately show ?thesis by (simp add: Let_def mult.commute)
qed

lemma json_chars_plain: "c \<noteq> QUOTE \<Longrightarrow> c \<noteq> BACKSLASH \<Longrightarrow> 32 \<le> (of_char c :: nat) \<Longrightarrow>
    json_chars (c # cs) = map_option (apfst ((#) c)) (json_chars cs)"
  by (subst json_chars.simps) simp

lemma json_chars_end: "json_chars (QUOTE # r) = Some ([], r)"
  by (subst json_chars.simps) simp

lemma json_chars_escape: "map_of escapes e = Some n \<Longrightarrow> e \<noteq> CHR ''u'' \<Longrightarrow>
    json_chars (BACKSLASH # e # cs) = map_option (apfst ((#) (char_of n))) (json_chars cs)"
  by (subst json_chars.simps) (simp add: BACKSLASH_def QUOTE_def)

lemma json_chars_unicode: "unicode ds = Some (x, r) \<Longrightarrow>
    json_chars (BACKSLASH # CHR ''u'' # ds) = map_option (apfst ((#) x)) (json_chars r)"
  by (subst json_chars.simps) (simp add: BACKSLASH_def QUOTE_def)

lemma char_of_eq: "(of_char c :: nat) = n \<Longrightarrow> char_of n = c"
  by auto

lemma json_chars_escape_char:
  "json_chars (escape_char c @ r) = map_option (apfst ((#) c)) (json_chars r)"
proof -
  let ?n = "of_char c :: nat"
  have e: "map_of escapes (CHR 0x22) = Some 34" "map_of escapes (CHR 0x5C) = Some 92"
      "map_of escapes (CHR ''b'') = Some 8" "map_of escapes (CHR ''f'') = Some 12"
      "map_of escapes (CHR ''n'') = Some 10" "map_of escapes (CHR ''r'') = Some 13"
      "map_of escapes (CHR ''t'') = Some 9"
    by (simp_all add: escapes_def)
  have esc: "json_chars ([BACKSLASH, x] @ r) = map_option (apfst ((#) c)) (json_chars r)"
    if "map_of escapes x = Some ?n" "x \<noteq> CHR ''u''" for x
    using json_chars_escape [OF that] by simp
  consider "?n = 34" | "?n = 92" | "?n = 8" | "?n = 12" | "?n = 10" | "?n = 13" | "?n = 9"
    | "?n < 32" "?n \<notin> {8, 9, 10, 12, 13}" | "32 \<le> ?n" "?n \<noteq> 34" "?n \<noteq> 92"
    by (cases "?n < 32") auto
  then show ?thesis
  proof cases
    case 8
    then have "escape_char c = [BACKSLASH, CHR ''u'', CHR ''0'', CHR ''0'', esc_hex (?n div 16), esc_hex (?n mod 16)]"
      by (simp add: escape_char_def Let_def)
    then show ?thesis
      using json_chars_unicode [OF unicode_escape [OF 8(1)], of r] by simp
  next
    case 9
    then have "escape_char c = [c]" by (simp add: escape_char_def Let_def)
    moreover have "c \<noteq> QUOTE" "c \<noteq> BACKSLASH" using 9 by (auto simp: QUOTE_def BACKSLASH_def)
    ultimately show ?thesis using json_chars_plain 9 by simp
  qed (use esc e in \<open>simp_all add: escape_char_def Let_def QUOTE_def BACKSLASH_def\<close>)
qed

lemma json_chars_quoted: "json_chars (concat (map escape_char s) @ QUOTE # r) = Some (s, r)"
  by (induction s) (simp_all add: json_chars_end json_chars_escape_char)

text \<open>The first character of a printed value selects the branch of the parser.\<close>

lemma show_int_hd: obtains c s where "show_int i = c # s" "is_digit c \<or> c = CHR ''-''"
proof (cases "i < 0")
  case True
  then show ?thesis using that by (simp add: show_int_def)
next
  case False
  obtain c s where cs: "show_nat (nat i) = c # s" by (cases "show_nat (nat i)") auto
  then have "is_digit c" using show_nat_digits [of c "nat i"] by simp
  then show ?thesis using that cs False by (simp add: show_int_def)
qed

lemma literal_show_int: "sep r \<Longrightarrow> literal (show_int i @ r) = Some (Num (of_int i), r)"
proof -
  assume r: "sep r"
  obtain c s where cs: "show_int i = c # s" "is_digit c \<or> c = CHR ''-''" by (rule show_int_hd)
  then have "c \<noteq> CHR ''t''" "c \<noteq> CHR ''f''" "c \<noteq> CHR ''n''" by (auto simp: is_digit_def)
  then have "literal (show_int i @ r) = json_number (show_int i @ r)"
    by (simp add: literal_def starts_with_def cs(1))
  then show ?thesis using json_number_show_int [OF r] by simp
qed

definition opener :: "string \<Rightarrow> bool" where
  "opener s = (case s of [] \<Rightarrow> False | c # _ \<Rightarrow> \<not> json_ws c \<and> c \<noteq> CHR '']'')"

lemma opener_json_text: "plain v \<Longrightarrow> opener (json_text v @ r)"
proof (cases v)
  case (Num q)
  assume "plain v"
  then have "json_text v = show_int \<lfloor>q\<rfloor>" using Num show_num_of_int [of "\<lfloor>q\<rfloor>"] by simp
  moreover obtain c s where "show_int \<lfloor>q\<rfloor> = c # s" "is_digit c \<or> c = CHR ''-''" by (rule show_int_hd)
  ultimately show ?thesis using digit_not_json_ws by (auto simp: opener_def is_digit_def)
qed (auto simp: opener_def quoted_def QUOTE_def json_ws_def)

lemma opener_skip: "opener s \<Longrightarrow> skip s = s \<and> take 1 s \<noteq> '']'' \<and> s \<noteq> []"
  by (cases s) (auto simp: opener_def)

lemma json_value_open:
  assumes "opener s"
  shows "json_value (Suc n) (CHR ''['' # s) = map_option (apfst Arr) (json_elems n s)"
  using opener_skip [OF assms] by simp

lemma json_value_brace:
  "json_value (Suc n) (CHR ''{'' # QUOTE # s) =
   map_option (apfst (\<lambda>kvs. Obj (fold (\<lambda>(k, v). AList.update k v) kvs []))) (json_members n (QUOTE # s))"
  by (simp add: QUOTE_def json_ws_def)

lemma json_value_literal:
  assumes "s = c # cs" "\<not> json_ws c" "c \<noteq> CHR ''[''" "c \<noteq> CHR ''{''" "c \<noteq> QUOTE"
  shows "json_value (Suc n) s = literal s"
  using assms by simp

lemma json_members_step:
  "json_members (Suc n) (quoted k @ CHR '':'' # u) =
     (case json_value n u of
        None \<Rightarrow> None
      | Some (v, x) \<Rightarrow>
          (case skip x of
             [] \<Rightarrow> None
           | c # t \<Rightarrow>
               if c = CHR ''}'' then Some ([(k, v)], t)
               else if c = CHR '','' then map_option (apfst ((#) (k, v))) (json_members n t)
               else None))"
  by (simp add: quoted_def json_chars_quoted)

lemma fold_update_distinct:
  "distinct (map fst (acc @ kvs)) \<Longrightarrow> fold (\<lambda>(k, v). AList.update k v) kvs acc = acc @ kvs"
proof (induction kvs arbitrary: acc)
  case (Cons p kvs)
  obtain k v where p: "p = (k, v)" by (cases p)
  have "AList.update k v acc = acc @ [(k, v)]"
    using Cons.prems p by (induction acc) auto
  then show ?case using Cons.IH [of "acc @ [(k, v)]"] Cons.prems p by simp
qed simp

definition reads :: "jsval \<Rightarrow> bool" where
  "reads v = (\<forall>n r. sep r \<longrightarrow> 2 * length (json_text v) + 1 \<le> n \<longrightarrow>
     json_value n (json_text v @ r) = Some (v, r))"

lemma readsD: "reads v \<Longrightarrow> sep r \<Longrightarrow> 2 * length (json_text v) + 1 \<le> n \<Longrightarrow>
    json_value n (json_text v @ r) = Some (v, r)"
  by (simp add: reads_def)

lemma elems_print:
  assumes "list_all reads xs" "xs \<noteq> []" "2 * length (join '','' (map json_text xs)) + 2 \<le> n"
  shows "json_elems n (join '','' (map json_text xs) @ '']'' @ r) = Some (xs, r)"
  using assms
proof (induction xs arbitrary: n rule: induct_list012)
  case (2 x)
  then obtain m where "n = Suc m" by (cases n) auto
  then show ?case using readsD [of x "'']'' @ r" m] 2 by simp
next
  case (3 x y zs)
  then obtain m where m: "n = Suc m" by (cases n) auto
  let ?t = "join '','' (map json_text (y # zs)) @ '']'' @ r"
  have "json_value m (json_text x @ CHR '','' # ?t) = Some (x, CHR '','' # ?t)"
    using readsD [of x "CHR '','' # ?t" m] 3 m by simp
  moreover have "json_elems m ?t = Some (y # zs, r)"
    using 3 m by simp
  ultimately show ?case using m by simp
qed simp

definition member_text :: "string \<times> jsval \<Rightarrow> string" where
  "member_text p = quoted (fst p) @ '':'' @ json_text (snd p)"

lemma member_text_length: "length (json_text (snd p)) < length (member_text p)"
  by (simp add: member_text_def)

lemma member_step:
  assumes "json_value n (json_text (snd p) @ c # t) = Some (snd p, c # t)" "\<not> json_ws c"
  shows "json_members (Suc n) (member_text p @ c # t) =
     (if c = CHR ''}'' then Some ([p], t)
      else if c = CHR '','' then map_option (apfst ((#) p)) (json_members n t) else None)"
  using assms json_members_step [of n "fst p" "json_text (snd p) @ c # t"]
  by (simp add: member_text_def)

lemma members_print:
  assumes "list_all (\<lambda>p. reads (snd p)) fs" "fs \<noteq> []" "2 * length (join '','' (map member_text fs)) + 2 \<le> n"
  shows "json_members n (join '','' (map member_text fs) @ ''}'' @ r) = Some (fs, r)"
  using assms
proof (induction fs arbitrary: n rule: induct_list012)
  case (2 p)
  then obtain m where m: "n = Suc m" by (cases n) auto
  have "json_value m (json_text (snd p) @ CHR ''}'' # r) = Some (snd p, CHR ''}'' # r)"
    using 2 m member_text_length [of p] by (intro readsD) auto
  then show ?case using m by (simp add: member_step del: json_members.simps)
next
  case (3 p q ps)
  then obtain m where m: "n = Suc m" by (cases n) auto
  let ?t = "join '','' (map member_text (q # ps)) @ ''}'' @ r"
  have "json_value m (json_text (snd p) @ CHR '','' # ?t) = Some (snd p, CHR '','' # ?t)"
    using 3 m member_text_length [of p] by (intro readsD) auto
  moreover have "json_members m ?t = Some (q # ps, r)"
    using 3 m by simp
  ultimately show ?case using m by (simp add: member_step del: json_members.simps)
qed simp

lemma plain_fields: "plain (Obj fs) \<Longrightarrow> filter (\<lambda>(k, v). v \<noteq> Undef) fs = fs"
  by (auto simp: filter_id_conv list_all_iff)

lemma json_text_obj: "plain (Obj fs) \<Longrightarrow> json_text (Obj fs) = ''{'' @ join '','' (map member_text fs) @ ''}''"
proof -
  assume "plain (Obj fs)"
  moreover have "(\<lambda>(k, v). quoted k @ '':'' @ json_text v) = member_text"
    by (auto simp: member_text_def)
  ultimately show ?thesis by (simp add: plain_fields)
qed

lemma reads_plain: "plain v \<Longrightarrow> reads v"
proof (induction v)
  case (Num q)
  then have q: "json_text (Num q) = show_int \<lfloor>q\<rfloor>" using show_num_of_int [of "\<lfloor>q\<rfloor>"] by simp
  obtain c s where cs: "show_int \<lfloor>q\<rfloor> = c # s" "is_digit c \<or> c = CHR ''-''" by (rule show_int_hd)
  show ?case unfolding reads_def
  proof (intro allI impI)
    fix n r assume "sep r" "2 * length (json_text (Num q)) + 1 \<le> n"
    moreover obtain m where "n = Suc m" using calculation by (cases n) auto
    moreover have "json_value (Suc m) (show_int \<lfloor>q\<rfloor> @ r) = literal (show_int \<lfloor>q\<rfloor> @ r)"
      by (rule json_value_literal [of _ c "s @ r"])
         (use cs digit_not_json_ws in \<open>auto simp: is_digit_def QUOTE_def\<close>)
    ultimately show "json_value n (json_text (Num q) @ r) = Some (Num q, r)"
      using literal_show_int [of r "\<lfloor>q\<rfloor>"] q Num by simp
  qed
next
  case (Arr xs)
  then have xs: "list_all plain xs" "list_all reads xs" by (auto simp: list_all_iff)
  show ?case unfolding reads_def
  proof (intro allI impI)
    fix n r assume n: "2 * length (json_text (Arr xs)) + 1 \<le> n"
    obtain m where m: "n = Suc m" using n by (cases n) auto
    show "json_value n (json_text (Arr xs) @ r) = Some (Arr xs, r)"
    proof (cases xs)
      case (Cons x ys)
      then have "opener (join '','' (map json_text xs) @ '']'' @ r)"
        using xs(1) opener_json_text [of x] by (cases ys) auto
      then show ?thesis
        using m n elems_print [OF xs(2), of m r] Cons json_value_open [of _ m] by simp
    qed (use m in simp)
  qed
next
  case (Obj fs)
  then have fs: "list_all (\<lambda>p. reads (snd p)) fs" "distinct (map fst fs)"
    by (fastforce simp: list_all_iff)+
  show ?case unfolding reads_def
  proof (intro allI impI)
    fix n r assume n: "2 * length (json_text (Obj fs)) + 1 \<le> n"
    obtain m where m: "n = Suc m" using n by (cases n) auto
    have ot: "json_text (Obj fs) = ''{'' @ join '','' (map member_text fs) @ ''}''"
      by (rule json_text_obj [OF Obj.prems])
    show "json_value n (json_text (Obj fs) @ r) = Some (Obj fs, r)"
    proof (cases fs)
      case (Cons p ps)
      then obtain t where t: "join '','' (map member_text fs) = QUOTE # t"
        by (cases ps) (auto simp: member_text_def quoted_def)
      then show ?thesis
        using m n members_print [OF fs(1), of m r] json_value_brace [of m "t @ ''}'' @ r"]
          fold_update_distinct [of "[]" fs] fs(2) Cons
        unfolding ot by (simp del: json_value.simps json_members.simps)
    qed (use m in simp)
  qed
next
  case Null
  have "json_value (Suc m) (json_text Null @ r) = Some (Null, r)" for m r
    by (simp add: literal_def starts_with_def QUOTE_def)
  then show ?case unfolding reads_def by (auto dest!: Suc_le_D simp del: json_text.simps)
next
  case (BoolV b)
  have "json_value (Suc m) (json_text (BoolV b) @ r) = Some (BoolV b, r)" for m r
    by (simp add: literal_def starts_with_def QUOTE_def)
  then show ?case unfolding reads_def by (auto dest!: Suc_le_D simp del: json_text.simps)
next
  case (Str s)
  have "json_value (Suc m) (json_text (Str s) @ r) = Some (Str s, r)" for m r
    by (simp add: quoted_def json_chars_quoted) (simp add: QUOTE_def)
  then show ?case unfolding reads_def by (auto dest!: Suc_le_D simp del: json_text.simps)
qed simp_all

text \<open>A value that JSON can express is read back from its text as it was: parsing what
  \<open>JSON.stringify\<close> wrote yields the value, for every nesting of arrays and objects and every escape.\<close>
theorem parse_print:
  assumes "plain v"
  shows "parse_text (json_text v) = Inr v"
  using readsD [OF reads_plain [OF assms], of "[]" "2 * length (json_text v) + 2"]
  by (simp add: parse_text_def)

theorem parse_print_witness:
  "parse_text (json_text (Obj [(''a'', Arr [Num 1, Str [QUOTE]]), (''b'', Null)])) =
   Inr (Obj [(''a'', Arr [Num 1, Str [QUOTE]]), (''b'', Null)])"
  by (rule parse_print) simp

end
