(* ===== verification/WebStorage.thy ===== *)
theory WebStorage
  imports JsonText
begin

section \<open>Local storage\<close>

text \<open>
  The browser's local storage: an association list of string keys. An item is either the text
  \<open>JSON.stringify(v)\<close>, kept as the value it parses to, or a text that was stored as it is.
  The contract the components rely on is the locale \<open>web_storage\<close>; the interpretation
  \<open>ls\<close> proves it of the association list.
\<close>

datatype item = Json jsval | Raw string

fun item_truthy :: "item \<Rightarrow> bool" where
  "item_truthy (Json _) = True"
| "item_truthy (Raw s) = (s \<noteq> [])"

fun json_parse :: "item \<Rightarrow> exn + jsval" where
  "json_parse (Json v) = Inr v"
| "json_parse (Raw s) = parse_text s"

text \<open>
  \<open>JSON.stringify\<close> leaves out fields that are \<open>undefined\<close> and writes \<open>NaN\<close>, and an
  \<open>undefined\<close> array element, as \<open>null\<close>.
\<close>

fun json_clean :: "jsval \<Rightarrow> jsval" where
  "json_clean Undef = Null"
| "json_clean NaN = Null"
| "json_clean (Arr xs) = Arr (map json_clean xs)"
| "json_clean (Obj fs) =
     Obj (map (\<lambda>(k, v). (k, json_clean v)) (filter (\<lambda>(k, v). v \<noteq> Undef) fs))"
| "json_clean v = v"

lemma truthy_clean [simp]: "truthy (json_clean v) = truthy v"
  by (cases v) auto

lemma clean_field: "field fs k \<noteq> Undef \<Longrightarrow> oget (json_clean (Obj fs)) k = json_clean (field fs k)"
  by (induction fs) (auto split: if_splits)

fun item_text :: "item \<Rightarrow> string" where
  "item_text (Raw s) = s"
| "item_text (Json v) = json_text v"

type_synonym storage = "(string \<times> item) list"

definition get_item :: "storage \<Rightarrow> string \<Rightarrow> item option" where
  "get_item st k = map_of st k"

definition set_item :: "string \<Rightarrow> item \<Rightarrow> storage \<Rightarrow> storage" where
  "set_item k v st = AList.update k v st"

definition remove_item :: "string \<Rightarrow> storage \<Rightarrow> storage" where
  "remove_item k st = AList.delete k st"

definition clear_storage :: storage where
  "clear_storage = []"

definition storage_keys :: "storage \<Rightarrow> string list" where
  "storage_keys st = map fst st"

definition storage_ok :: "storage \<Rightarrow> bool" where
  "storage_ok st = distinct (map fst st)"

text \<open>\<open>localStorage.getItem(k)\<close> used as a condition.\<close>

definition has_item :: "storage \<Rightarrow> string \<Rightarrow> bool" where
  "has_item st k = (case get_item st k of None \<Rightarrow> False | Some i \<Rightarrow> item_truthy i)"

subsection \<open>The contract\<close>

locale web_storage =
  fixes lookup :: "'s \<Rightarrow> string \<Rightarrow> item option"
    and store :: "string \<Rightarrow> item \<Rightarrow> 's \<Rightarrow> 's"
    and erase :: "string \<Rightarrow> 's \<Rightarrow> 's"
    and empty :: 's
    and names :: "'s \<Rightarrow> string list"
    and ok :: "'s \<Rightarrow> bool"
  assumes lookup_store: "lookup (store k v s) k' = (if k' = k then Some v else lookup s k')"
    and lookup_erase: "lookup (erase k s) k' = (if k' = k then None else lookup s k')"
    and lookup_empty: "lookup empty k = None"
    and names_lookup: "k \<in> set (names s) \<longleftrightarrow> lookup s k \<noteq> None"
    and ok_empty: "ok empty"
    and ok_store: "ok s \<Longrightarrow> ok (store k v s)"
    and ok_erase: "ok s \<Longrightarrow> ok (erase k s)"
    and ok_distinct: "ok s \<Longrightarrow> distinct (names s)"
begin

lemma erase_list: "lookup (fold erase ks s) k = (if k \<in> set ks then None else lookup s k)"
  by (induction ks arbitrary: s) (auto simp: lookup_erase)

lemma store_list:
  "lookup (fold (\<lambda>(k, v). store k v) kvs s) k =
     (case map_of (rev kvs) k of None \<Rightarrow> lookup s k | Some v \<Rightarrow> Some v)"
  by (induction kvs arbitrary: s)
     (auto simp: lookup_store map_add_def split: option.splits)

lemma erase_store: "lookup (erase k (store k v s)) = lookup (erase k s)"
  by (auto simp: lookup_erase lookup_store fun_eq_iff)

lemma store_store: "lookup (store k v (store k u s)) = lookup (store k v s)"
  by (auto simp: lookup_store fun_eq_iff)

lemma names_store: "set (names (store k v s)) = insert k (set (names s))"
  by (auto simp: names_lookup lookup_store split: if_splits)

lemma names_erase: "set (names (erase k s)) = set (names s) - {k}"
  by (auto simp: names_lookup lookup_erase split: if_splits)

lemma ok_fold_erase: "ok s \<Longrightarrow> ok (fold erase ks s)"
  by (induction ks arbitrary: s) (auto simp: ok_erase)

end

interpretation ls: web_storage get_item set_item remove_item clear_storage storage_keys storage_ok
  by unfold_locales
     (auto simp: get_item_def set_item_def remove_item_def clear_storage_def storage_keys_def
        storage_ok_def update_conv' delete_conv' distinct_update distinct_delete
        map_of_eq_None_iff)

lemmas storage_rules [simp, store_simps] =
  ls.lookup_store ls.lookup_erase ls.lookup_empty ls.ok_empty ls.ok_store ls.ok_erase

lemma get_item_simps [simp]:
  "get_item [] k = None" "get_item ((k', v) # st) k = (if k' = k then Some v else get_item st k)"
  by (simp_all add: get_item_def)

lemma has_item_set [simp]:
  "has_item (set_item k v s) k' = (if k' = k then item_truthy v else has_item s k')"
  by (simp add: has_item_def)

lemma has_item_remove [simp]:
  "has_item (remove_item k s) k' = (k' \<noteq> k \<and> has_item s k')"
  by (simp add: has_item_def)

lemma has_item_clear [simp]: "\<not> has_item clear_storage k"
  by (simp add: has_item_def)

lemma has_item_None [simp]: "get_item s k = None \<Longrightarrow> \<not> has_item s k"
  by (simp add: has_item_def)

subsection \<open>Keys with an identifier\<close>

text \<open>\<open>`prefix_${id}`\<close>: keys of one kind are equal only for equal identifiers.\<close>

definition key :: "string \<Rightarrow> int \<Rightarrow> string" where
  "key p i = p @ show_int i"

lemma key_eq [simp]: "key p i = key p j \<longleftrightarrow> i = j"
  by (simp add: key_def)

lemma key_ne_hd:
  "p \<noteq> [] \<Longrightarrow> q \<noteq> [] \<Longrightarrow> hd p \<noteq> hd q \<Longrightarrow> key p i \<noteq> key q j"
  by (metis hd_append2 key_def)

lemma key_take:
  assumes "n \<le> length p" "n \<le> length q" "take n p \<noteq> take n q"
  shows "key p i \<noteq> key q j"
proof
  assume "key p i = key q j"
  then have "take n (p @ show_int i) = take n (q @ show_int j)"
    by (simp add: key_def)
  with assms show False by simp
qed

end
