(* ===== verification/World.thy ===== *)
theory World
  imports WebStorage
begin

section \<open>The page's world and its effects\<close>

text \<open>
  What the code of one browser tab can observe and change: local storage, the clock
  (\<open>Date.now()\<close>, milliseconds), the requests sent so far, the location, the pop-ups shown
  (\<open>Swal.fire\<close>) and the events dispatched on the window. An asynchronous function that is
  not interrupted by other code is a function of the world that returns a value or throws.
  The server is a parameter: for the requests sent before and a request, it says how long the
  answer takes and what it is.
\<close>

record request =
  req_method :: string
  req_url :: string
  req_headers :: "(string \<times> string) list"
  req_body :: "jsval option"

datatype body = JBody jsval | RawBody string

record response =
  status :: int
  body :: body

datatype outcome = NetFail | Reply response

type_synonym server = "request list \<Rightarrow> request \<Rightarrow> nat \<times> outcome"

datatype popup = Popup string "jsval list"

record world =
  store :: storage
  clock :: int
  sent :: "request list"
  path :: string
  redirect :: "string option"
  popups :: "popup list"
  fired :: "(string \<times> jsval) list"
  base_url :: string

subsection \<open>Sequencing, throwing and catching\<close>

type_synonym ('a, 'w) action = "'w \<Rightarrow> (exn + 'a) \<times> 'w"

definition ret :: "'a \<Rightarrow> ('a, 'w) action" where
  "ret x w = (Inr x, w)"

definition throw :: "exn \<Rightarrow> ('a, 'w) action" where
  "throw e w = (Inl e, w)"

definition bindM :: "('a, 'w) action \<Rightarrow> ('a \<Rightarrow> ('b, 'w) action) \<Rightarrow> ('b, 'w) action" where
  "bindM m k w = (case m w of (Inl e, w') \<Rightarrow> (Inl e, w') | (Inr x, w') \<Rightarrow> k x w')"

definition catchM :: "('a, 'w) action \<Rightarrow> (exn \<Rightarrow> ('a, 'w) action) \<Rightarrow> ('a, 'w) action" where
  "catchM m h w = (case m w of (Inl e, w') \<Rightarrow> h e w' | (Inr x, w') \<Rightarrow> (Inr x, w'))"

definition finallyM :: "('a, 'w) action \<Rightarrow> ('w \<Rightarrow> 'w) \<Rightarrow> ('a, 'w) action" where
  "finallyM m f w = (case m w of (r, w') \<Rightarrow> (r, f w'))"

definition upd :: "('w \<Rightarrow> 'w) \<Rightarrow> (unit, 'w) action" where
  "upd f w = (Inr (), f w)"

definition lift :: "exn + 'a \<Rightarrow> ('a, 'w) action" where
  "lift r w = (r, w)"

lemma ret_run [simp]: "ret x w = (Inr x, w)"
  by (simp add: ret_def)

lemma throw_run [simp]: "throw e w = (Inl e, w)"
  by (simp add: throw_def)

lemma upd_run [simp]: "upd f w = (Inr (), f w)"
  by (simp add: upd_def)

lemma lift_run [simp]: "lift r w = (r, w)"
  by (simp add: lift_def)

lemma bindM_simps [simp]:
  "m w = (Inl e, w') \<Longrightarrow> bindM m k w = (Inl e, w')"
  "m w = (Inr x, w') \<Longrightarrow> bindM m k w = k x w'"
  by (simp_all add: bindM_def)

lemma catchM_simps [simp]:
  "m w = (Inl e, w') \<Longrightarrow> catchM m h w = h e w'"
  "m w = (Inr x, w') \<Longrightarrow> catchM m h w = (Inr x, w')"
  by (simp_all add: catchM_def)

lemma finallyM_simps [simp]: "m w = (r, w') \<Longrightarrow> finallyM m f w = (r, f w')"
  by (simp add: finallyM_def)

subsection \<open>Sending a request\<close>

text \<open>
  \<open>fetch\<close> sends the request and, after the answer's delay, yields the response or throws.
  The two halves are separate because other code may run between them.
\<close>

definition send :: "request \<Rightarrow> 'z world_scheme \<Rightarrow> 'z world_scheme" where
  "send r w = w\<lparr>sent := sent w @ [r]\<rparr>"

definition receive :: "nat \<Rightarrow> outcome \<Rightarrow> (response, 'z world_scheme) action" where
  "receive d out w =
     (let w' = w\<lparr>clock := clock w + int d\<rparr>
      in case out of NetFail \<Rightarrow> (Inl NetworkError, w') | Reply r \<Rightarrow> (Inr r, w'))"

definition fetch :: "server \<Rightarrow> request \<Rightarrow> (response, 'z world_scheme) action" where
  "fetch srv r w = (case srv (sent w) r of (d, out) \<Rightarrow> receive d out (send r w))"

definition resp_ok :: "response \<Rightarrow> bool" where
  "resp_ok r = (200 \<le> status r \<and> status r \<le> 299)"

definition resp_json :: "response \<Rightarrow> exn + jsval" where
  "resp_json r = (case body r of JBody v \<Rightarrow> Inr v | RawBody s \<Rightarrow> parse_text s)"

text \<open>\<open>response.json().catch(() => ({}))\<close>\<close>

definition resp_json_or_empty :: "response \<Rightarrow> jsval" where
  "resp_json_or_empty r = (case resp_json r of Inl _ \<Rightarrow> Obj [] | Inr v \<Rightarrow> v)"

definition show_popup :: "string \<Rightarrow> jsval list \<Rightarrow> 'z world_scheme \<Rightarrow> 'z world_scheme" where
  "show_popup t xs w = w\<lparr>popups := popups w @ [Popup t xs]\<rparr>"

definition dispatch :: "string \<Rightarrow> jsval \<Rightarrow> 'z world_scheme \<Rightarrow> 'z world_scheme" where
  "dispatch n d w = w\<lparr>fired := fired w @ [(n, d)]\<rparr>"

definition set_store :: "string \<Rightarrow> item \<Rightarrow> 'z world_scheme \<Rightarrow> 'z world_scheme" where
  "set_store k v w = w\<lparr>store := set_item k v (store w)\<rparr>"

definition remove_store :: "string \<Rightarrow> 'z world_scheme \<Rightarrow> 'z world_scheme" where
  "remove_store k w = w\<lparr>store := remove_item k (store w)\<rparr>"

lemma world_field_simps [simp, world_simps]:
  "store (send r w) = store w" "clock (send r w) = clock w" "sent (send r w) = sent w @ [r]"
  "path (send r w) = path w" "redirect (send r w) = redirect w" "popups (send r w) = popups w"
  "fired (send r w) = fired w" "base_url (send r w) = base_url w"
  "store (show_popup t xs w) = store w" "clock (show_popup t xs w) = clock w"
  "sent (show_popup t xs w) = sent w" "path (show_popup t xs w) = path w"
  "redirect (show_popup t xs w) = redirect w" "fired (show_popup t xs w) = fired w"
  "popups (show_popup t xs w) = popups w @ [Popup t xs]" "base_url (show_popup t xs w) = base_url w"
  "store (dispatch n d w) = store w" "clock (dispatch n d w) = clock w"
  "sent (dispatch n d w) = sent w" "path (dispatch n d w) = path w"
  "redirect (dispatch n d w) = redirect w" "popups (dispatch n d w) = popups w"
  "fired (dispatch n d w) = fired w @ [(n, d)]" "base_url (dispatch n d w) = base_url w"
  "store (set_store k v w) = set_item k v (store w)" "clock (set_store k v w) = clock w"
  "sent (set_store k v w) = sent w" "path (set_store k v w) = path w"
  "redirect (set_store k v w) = redirect w" "popups (set_store k v w) = popups w"
  "fired (set_store k v w) = fired w" "base_url (set_store k v w) = base_url w"
  "store (remove_store k w) = remove_item k (store w)" "clock (remove_store k w) = clock w"
  "sent (remove_store k w) = sent w" "path (remove_store k w) = path w"
  "redirect (remove_store k w) = redirect w" "popups (remove_store k w) = popups w"
  "fired (remove_store k w) = fired w" "base_url (remove_store k w) = base_url w"
  by (simp_all add: send_def show_popup_def dispatch_def set_store_def remove_store_def)

lemma world_more [simp, world_simps]:
  "world.more (send r w) = world.more w" "world.more (show_popup t xs w) = world.more w"
  "world.more (dispatch n d w) = world.more w" "world.more (set_store k v w) = world.more w"
  "world.more (remove_store k w) = world.more w"
  by (simp_all add: send_def show_popup_def dispatch_def set_store_def remove_store_def)

lemma fetch_NetFail:
  "srv (sent w) r = (d, NetFail) \<Longrightarrow>
   fetch srv r w = (Inl NetworkError, (send r w)\<lparr>clock := clock w + int d\<rparr>)"
  by (simp add: fetch_def receive_def)

lemma fetch_Reply:
  "srv (sent w) r = (d, Reply a) \<Longrightarrow>
   fetch srv r w = (Inr a, (send r w)\<lparr>clock := clock w + int d\<rparr>)"
  by (simp add: fetch_def receive_def)

lemma fetch_cases:
  obtains d where "srv (sent w) r = (d, NetFail)"
    "fetch srv r w = (Inl NetworkError, (send r w)\<lparr>clock := clock w + int d\<rparr>)"
  | d a where "srv (sent w) r = (d, Reply a)"
    "fetch srv r w = (Inr a, (send r w)\<lparr>clock := clock w + int d\<rparr>)"
  by (cases "srv (sent w) r"; cases "snd (srv (sent w) r)")
     (auto simp: fetch_NetFail fetch_Reply)

end
