(* ===== verification/Api.thy ===== *)
theory Api
  imports World
begin

section \<open>Session store, endpoints and authenticated requests\<close>

text \<open>
  \<open>config/endpoints.ts\<close> (the URL of every endpoint), the session part of
  \<open>services/authService.ts\<close> (token and user in local storage) and \<open>services/api.ts\<close>
  (\<open>fetchWithAuth\<close>, \<open>fetchData\<close>, \<open>downloadFile\<close>).
\<close>

subsection \<open>Endpoints\<close>

datatype endpoint =
    AUTH_LOGIN | AUTH_SELECT_CONTEST | AUTH_REGISTER | AUTH_REGISTRATION_METADATA
  | AUTH_LOGOUT | AUTH_CHANGE_PASSWORD
  | CONFIG_DATE_CONFIG | CONFIG_PUBLIC | CONFIG_CONTEST_ACCESS
  | CH_BY_TOPIC | CH_LIST | CH_DETAIL int | CH_SUBMIT int | CH_START | CH_STOP
  | CH_CHECK_CACHE | CH_START_CHECKING | CH_INSTANCES
  | HINTS_GET_ALL int | HINTS_GET_DETAIL int | HINTS_UNLOCK
  | TICKET_LIST | TICKET_CREATE | TICKET_DETAIL string | TICKET_DELETE string
  | USER_PROFILE | ACTION_LOGS_GET | ACTION_LOGS_POST | FLAGS_SUBMIT
  | SB_TOP_STANDINGS | SB_BRACKETS | SB_FREEZE_STATUS

fun endpoint_url :: "endpoint \<Rightarrow> string" where
  "endpoint_url AUTH_LOGIN = ''/api/Auth/login-contestant''"
| "endpoint_url AUTH_SELECT_CONTEST = ''/api/Auth/select-contest''"
| "endpoint_url AUTH_REGISTER = ''/api/Auth/register-contestant''"
| "endpoint_url AUTH_REGISTRATION_METADATA = ''/api/Auth/registration-metadata''"
| "endpoint_url AUTH_LOGOUT = ''/api/Auth/logout''"
| "endpoint_url AUTH_CHANGE_PASSWORD = ''/api/Auth/change-password''"
| "endpoint_url CONFIG_DATE_CONFIG = ''/api/Config/get_date_config''"
| "endpoint_url CONFIG_PUBLIC = ''/api/Config/get_public_config''"
| "endpoint_url CONFIG_CONTEST_ACCESS = ''/api/Config/contest_access''"
| "endpoint_url CH_BY_TOPIC = ''/api/Challenge/by-topic''"
| "endpoint_url CH_LIST = ''/api/Challenge/list_challenge/''"
| "endpoint_url (CH_DETAIL i) = ''/api/Challenge/'' @ show_int i"
| "endpoint_url (CH_SUBMIT i) = ''/api/Challenge/'' @ show_int i @ ''/submit''"
| "endpoint_url CH_START = ''/api/Challenge/start''"
| "endpoint_url CH_STOP = ''/api/Challenge/stop-by-user''"
| "endpoint_url CH_CHECK_CACHE = ''/api/Challenge/check_cache''"
| "endpoint_url CH_START_CHECKING = ''/api/Challenge/check-status''"
| "endpoint_url CH_INSTANCES = ''/api/Challenge/instances''"
| "endpoint_url (HINTS_GET_ALL i) = ''/api/Hint/'' @ show_int i @ ''/all''"
| "endpoint_url (HINTS_GET_DETAIL i) = ''/api/Hint/'' @ show_int i"
| "endpoint_url HINTS_UNLOCK = ''/api/Hint/unlock''"
| "endpoint_url TICKET_LIST = ''/api/Ticket/tickets-user''"
| "endpoint_url TICKET_CREATE = ''/api/Ticket/sendticket''"
| "endpoint_url (TICKET_DETAIL s) = ''/api/Ticket/tickets/'' @ s"
| "endpoint_url (TICKET_DELETE s) = ''/api/Ticket/tickets/'' @ s"
| "endpoint_url USER_PROFILE = ''/api/Users/profile''"
| "endpoint_url ACTION_LOGS_GET = ''/api/ActionLogs/get-logs-team''"
| "endpoint_url ACTION_LOGS_POST = ''/api/ActionLogs/save-logs''"
| "endpoint_url FLAGS_SUBMIT = ''/api/Challenge/attempt''"
| "endpoint_url SB_TOP_STANDINGS = ''/api/Scoreboard/top/200''"
| "endpoint_url SB_BRACKETS = ''/api/Scoreboard/brackets''"
| "endpoint_url SB_FREEZE_STATUS = ''/api/Scoreboard/freeze-status''"

text \<open>
  \<open>encodeURIComponent\<close> on characters below 256: unreserved characters stay, every other
  one becomes the percent-escaped bytes of its UTF-8 encoding.
\<close>

definition hex_digit :: "nat \<Rightarrow> char" where
  "hex_digit n = (if n < 10 then char_of (48 + n) else char_of (55 + n))"

definition percent :: "nat \<Rightarrow> string" where
  "percent n = ''%'' @ [hex_digit (n div 16), hex_digit (n mod 16)]"

definition unreserved :: "char \<Rightarrow> bool" where
  "unreserved c = (let n = (of_char c :: nat) in
     (48 \<le> n \<and> n \<le> 57) \<or> (65 \<le> n \<and> n \<le> 90) \<or> (97 \<le> n \<and> n \<le> 122)
     \<or> n \<in> set [33, 39, 40, 41, 42, 45, 46, 95, 126])"

definition encode_char :: "char \<Rightarrow> string" where
  "encode_char c = (let n = (of_char c :: nat) in
     if unreserved c then [c]
     else if n < 128 then percent n
     else percent (192 + n div 64) @ percent (128 + n mod 64))"

definition encodeURIComponent :: "string \<Rightarrow> string" where
  "encodeURIComponent s = concat (map encode_char s)"

subsection \<open>The session in local storage\<close>

definition TOKEN_KEY :: string where "TOKEN_KEY = ''auth_token''"

definition USER_KEY :: string where "USER_KEY = ''user_info''"

definition getToken :: "'z world_scheme \<Rightarrow> string option" where
  "getToken w = map_option item_text (get_item (store w) TOKEN_KEY)"

definition setToken :: "jsval \<Rightarrow> 'z world_scheme \<Rightarrow> 'z world_scheme" where
  "setToken t w = set_store TOKEN_KEY (Raw (js_string t)) w"

definition getUser :: "'z world_scheme \<Rightarrow> exn + jsval" where
  "getUser w =
     (case get_item (store w) USER_KEY of
        None \<Rightarrow> Inr Null
      | Some i \<Rightarrow> if item_truthy i then json_parse i else Inr Null)"

definition setUser :: "jsval \<Rightarrow> 'z world_scheme \<Rightarrow> 'z world_scheme" where
  "setUser u w = set_store USER_KEY (Json u) w"

definition clearSession :: "'z world_scheme \<Rightarrow> 'z world_scheme" where
  "clearSession w = w\<lparr>store := clear_storage\<rparr>"

text \<open>A token is used when it is neither absent nor the empty text.\<close>

definition token_truthy :: "string option \<Rightarrow> bool" where
  "token_truthy t = (case t of None \<Rightarrow> False | Some s \<Rightarrow> s \<noteq> [])"

definition isAuthenticated :: "'z world_scheme \<Rightarrow> bool" where
  "isAuthenticated w = token_truthy (getToken w)"

definition getTeam :: "'z world_scheme \<Rightarrow> exn + jsval" where
  "getTeam w = (case getUser w of Inl e \<Rightarrow> Inl e
     | Inr u \<Rightarrow> Inr (js_or (oget u ''team'') Null))"

subsection \<open>Requests\<close>

record fetch_opts =
  o_method :: string
  o_headers :: "(string \<times> string) list"
  o_body :: "jsval option"

definition GET_opts :: fetch_opts where
  "GET_opts = \<lparr>o_method = ''GET'', o_headers = [], o_body = None\<rparr>"

definition POST_opts :: "jsval \<Rightarrow> fetch_opts" where
  "POST_opts b = \<lparr>o_method = ''POST'', o_headers = [], o_body = Some b\<rparr>"

text \<open>\<open>{...a, ...b}\<close> on header maps: a later field wins.\<close>

definition spread :: "(string \<times> string) list \<Rightarrow> (string \<times> string) list \<Rightarrow> (string \<times> string) list" where
  "spread a b = foldl (\<lambda>m (k, v). AList.update k v m) a b"

definition json_header :: "(string \<times> string) list" where
  "json_header = [(''Content-Type'', ''application/json'')]"

definition auth_header :: "string option \<Rightarrow> (string \<times> string) list" where
  "auth_header t = (case t of None \<Rightarrow> []
     | Some s \<Rightarrow> if s = [] then [] else [(''Authorization'', ''Bearer '' @ s)])"

definition on_auth_page :: "'z world_scheme \<Rightarrow> bool" where
  "on_auth_page w = (path w = ''/login'' \<or> path w = ''/register'')"

definition goto_login :: "'z world_scheme \<Rightarrow> 'z world_scheme" where
  "goto_login w = w\<lparr>redirect := Some ''/login''\<rparr>"

definition handle_401 :: "response \<Rightarrow> 'z world_scheme \<Rightarrow> 'z world_scheme" where
  "handle_401 r w =
     (if status r = 401 \<and> \<not> on_auth_page w then goto_login (clearSession w) else w)"

definition auth_request :: "string \<Rightarrow> fetch_opts \<Rightarrow> 'z world_scheme \<Rightarrow> request" where
  "auth_request url opts w =
     \<lparr>req_method = o_method opts, req_url = base_url w @ url,
      req_headers = spread (spread json_header (auth_header (getToken w))) (o_headers opts),
      req_body = o_body opts\<rparr>"

definition fetchWithAuth :: "server \<Rightarrow> string \<Rightarrow> fetch_opts \<Rightarrow> (response, 'z world_scheme) action" where
  "fetchWithAuth srv url opts w =
     bindM (fetch srv (auth_request url opts w)) (\<lambda>r w'. (Inr r, handle_401 r w')) w"

definition fetchData :: "server \<Rightarrow> string \<Rightarrow> fetch_opts \<Rightarrow> (response, 'z world_scheme) action" where
  "fetchData srv url opts w =
     fetch srv \<lparr>req_method = o_method opts, req_url = base_url w @ url,
       req_headers = spread json_header (o_headers opts), req_body = o_body opts\<rparr> w"

definition downloadFile :: "server \<Rightarrow> string \<Rightarrow> (body, 'z world_scheme) action" where
  "downloadFile srv url w =
     bindM (fetch srv \<lparr>req_method = ''GET'', req_url = base_url w @ url,
              req_headers = auth_header (getToken w), req_body = None\<rparr>)
       (\<lambda>r w'. let w'' = handle_401 r w' in
          if \<not> resp_ok r
          then throw (ErrMsg (Str (''HTTP error! status: '' @ show_int (status r)))) w''
          else ret (body r) w'') w"

text \<open>The pattern \<open>const data = await response.json()\<close> after an authenticated request.\<close>

definition fetch_json :: "server \<Rightarrow> endpoint \<Rightarrow> fetch_opts \<Rightarrow> (jsval, 'z world_scheme) action" where
  "fetch_json srv e opts = bindM (fetchWithAuth srv (endpoint_url e) opts) (\<lambda>r. lift (resp_json r))"

subsection \<open>Rules\<close>

lemma session_keys [simp]: "TOKEN_KEY \<noteq> USER_KEY" "USER_KEY \<noteq> TOKEN_KEY"
  by (simp_all add: TOKEN_KEY_def USER_KEY_def)

lemma getToken_setToken [simp]: "getToken (setToken t w) = Some (js_string t)"
  by (simp add: getToken_def setToken_def)

lemma getUser_setUser [simp]: "getUser (setUser u w) = Inr u"
  by (simp add: getUser_def setUser_def)

lemma getUser_setToken [simp]: "getUser (setToken t w) = getUser w"
  by (simp add: getUser_def setToken_def)

lemma getToken_setUser [simp]: "getToken (setUser u w) = getToken w"
  by (simp add: getToken_def setUser_def)

lemma clearSession_simps [simp]:
  "getToken (clearSession w) = None" "getUser (clearSession w) = Inr Null"
  "store (clearSession w) = clear_storage" "sent (clearSession w) = sent w"
  "clock (clearSession w) = clock w" "path (clearSession w) = path w"
  "popups (clearSession w) = popups w" "fired (clearSession w) = fired w"
  by (simp_all add: clearSession_def getToken_def getUser_def)

lemma goto_login_simps [simp]:
  "store (goto_login w) = store w" "redirect (goto_login w) = Some ''/login''"
  "sent (goto_login w) = sent w" "clock (goto_login w) = clock w"
  "path (goto_login w) = path w" "popups (goto_login w) = popups w"
  "fired (goto_login w) = fired w"
  by (simp_all add: goto_login_def)

lemma handle_401_simps [simp]:
  "sent (handle_401 r w) = sent w" "clock (handle_401 r w) = clock w"
  "path (handle_401 r w) = path w" "popups (handle_401 r w) = popups w"
  "fired (handle_401 r w) = fired w"
  by (simp_all add: handle_401_def)

lemma handle_401_other [simp]: "status r \<noteq> 401 \<Longrightarrow> handle_401 r w = w"
  by (simp add: handle_401_def)

lemma map_of_spread:
  "distinct (map fst b) \<Longrightarrow>
   map_of (spread a b) k = (case map_of b k of None \<Rightarrow> map_of a k | Some v \<Rightarrow> Some v)"
  by (induction b arbitrary: a)
     (auto simp: spread_def update_conv' map_of_eq_None_iff rev_image_eqI
        split: option.splits)

lemma spread_Nil [simp]: "spread a [] = a"
  by (simp add: spread_def)

lemma encode_char_safe: "c \<in> set (encode_char d) \<Longrightarrow> unreserved c \<or> c = CHR ''%''"
proof -
  have hd: "unreserved (hex_digit n)" if "n < 16" for n
    using that by (auto simp: hex_digit_def unreserved_def Let_def)
  have b: "(of_char d :: nat) < 256"
    by (rule nat_of_char_less_256)
  have p: "c \<in> set (percent n) \<Longrightarrow> n < 256 \<Longrightarrow> unreserved c \<or> c = CHR ''%''" for n
    using hd by (auto simp: percent_def)
  from b have u: "192 + (of_char d :: nat) div 64 < 256" "128 + (of_char d :: nat) mod 64 < 256"
    by arith+
  assume "c \<in> set (encode_char d)"
  with b u p show ?thesis
    by (auto simp: encode_char_def Let_def split: if_splits)
qed

lemma fetchWithAuth_cases:
  obtains d where "srv (sent w) (auth_request url opts w) = (d, NetFail)"
    "fetchWithAuth srv url opts w =
       (Inl NetworkError, (send (auth_request url opts w) w)\<lparr>clock := clock w + int d\<rparr>)"
  | d a where "srv (sent w) (auth_request url opts w) = (d, Reply a)"
    "fetchWithAuth srv url opts w =
       (Inr a, handle_401 a ((send (auth_request url opts w) w)\<lparr>clock := clock w + int d\<rparr>))"
  by (rule fetch_cases [of srv w "auth_request url opts w"]) (auto simp: fetchWithAuth_def)

lemma on_auth_page_simps [simp]:
  "on_auth_page (send r w) = on_auth_page w" "on_auth_page (w\<lparr>clock := t\<rparr>) = on_auth_page w"
  by (simp_all add: on_auth_page_def)

lemma auth_request_Authorization:
  assumes "distinct (map fst (o_headers opts))" "''Authorization'' \<notin> fst ` set (o_headers opts)"
  shows "map_of (req_headers (auth_request url opts w)) ''Authorization'' =
    (if isAuthenticated w then Some (''Bearer '' @ the (getToken w)) else None)"
proof -
  have "map_of (o_headers opts) ''Authorization'' = None"
    using assms(2) by (simp add: map_of_eq_None_iff)
  moreover have "distinct (map fst (auth_header t))" for t
    by (auto simp: auth_header_def split: option.splits)
  ultimately show ?thesis
    by (auto simp: auth_request_def map_of_spread assms(1) json_header_def auth_header_def
        isAuthenticated_def token_truthy_def split: option.splits)
qed

lemma handle_401_more [simp]: "world.more (handle_401 r w) = world.more w"
  by (simp add: handle_401_def goto_login_def clearSession_def)

lemma fetchWithAuth_more: "world.more (snd (fetchWithAuth srv url opts w)) = world.more w"
  by (rule fetchWithAuth_cases [of srv w url opts]) simp_all

lemma handle_401_store: "store (handle_401 r w) = store w \<or> store (handle_401 r w) = clear_storage"
  by (simp add: handle_401_def)

text \<open>C10: an authenticated request sends exactly one request, with the stored token as its bearer
  header and with none when no token is stored; an answer 401 received outside the login and
  register pages empties local storage and redirects to the login page, and every other outcome
  leaves the session as it was.\<close>
theorem fetchWithAuth_session:
  assumes "distinct (map fst (o_headers opts))" "''Authorization'' \<notin> fst ` set (o_headers opts)"
  shows "case fetchWithAuth srv url opts w of (r, w') \<Rightarrow>
    (\<exists>q. sent w' = sent w @ [q] \<and> req_url q = base_url w @ url \<and>
       map_of (req_headers q) ''Authorization'' =
         (if isAuthenticated w then Some (''Bearer '' @ the (getToken w)) else None)) \<and>
    (if (\<exists>a. r = Inr a \<and> status a = 401) \<and> \<not> on_auth_page w
     then store w' = clear_storage \<and> getToken w' = None \<and> redirect w' = Some ''/login''
     else store w' = store w \<and> redirect w' = redirect w)"
proof -
  note auth = auth_request_Authorization [OF assms, of url w]
  show ?thesis
    by (rule fetchWithAuth_cases [of srv w url opts])
       (auto simp: auth handle_401_def auth_request_def [THEN arg_cong [where f = req_url]]
          getToken_def)
qed

theorem fetchWithAuth_session_witness:
  "distinct (map fst (o_headers GET_opts)) \<and> ''Authorization'' \<notin> fst ` set (o_headers GET_opts) \<and>
   (case fetchWithAuth (\<lambda>_ _. (5, Reply \<lparr>status = 401, body = JBody Null\<rparr>)) ''/x'' GET_opts
      \<lparr>store = [(TOKEN_KEY, Raw ''t'')], clock = 0, sent = [], path = ''/contests'', redirect = None,
       popups = [], fired = [], base_url = []\<rparr> of (r, w') \<Rightarrow> store w' = clear_storage)"
  using fetchWithAuth_session [where opts = GET_opts and url = "''/x''"
    and srv = "\<lambda>_ _. (5, Reply \<lparr>status = 401, body = JBody Null\<rparr>)"
    and w = "\<lparr>store = [(TOKEN_KEY, Raw ''t'')], clock = 0, sent = [], path = ''/contests'', redirect = None,
       popups = [], fired = [], base_url = []\<rparr>"]
  by (simp add: GET_opts_def fetchWithAuth_def bindM_def fetch_def receive_def on_auth_page_def
      split: prod.splits)

text \<open>A download throws on every answer outside 200 to 299 and on a failed connection, and
  otherwise returns the body; its 401 handling is that of the other requests.\<close>
theorem downloadFile_result:
  "case downloadFile srv url w of (r, w') \<Rightarrow>
     (\<exists>q d out. sent w' = sent w @ [q] \<and> srv (sent w) q = (d, out) \<and>
        req_headers q = auth_header (getToken w) \<and>
        r = (case out of NetFail \<Rightarrow> Inl NetworkError
             | Reply a \<Rightarrow> if 200 \<le> status a \<and> status a \<le> 299 then Inr (body a)
                 else Inl (ErrMsg (Str (''HTTP error! status: '' @ show_int (status a))))) \<and>
        (store w' = (case out of NetFail \<Rightarrow> store w
             | Reply a \<Rightarrow> if status a = 401 \<and> \<not> on_auth_page w then clear_storage else store w)))"
proof -
  let ?q = "\<lparr>req_method = ''GET'', req_url = base_url w @ url,
              req_headers = auth_header (getToken w), req_body = None\<rparr>"
  show ?thesis
    by (rule fetch_cases [of srv w ?q])
       (auto simp: downloadFile_def Let_def resp_ok_def handle_401_def)
qed

end
