(* ===== verification/Timers.thy ===== *)
theory Timers
  imports Api
begin

section \<open>The timer service\<close>

text \<open>
  \<open>services/challengeTimerService.ts\<close>: a running challenge has an entry in local storage and a
  timeout of the browser; when the timeout fires, or when the periodic check finds the entry
  expired, the service asks the server to stop the challenge and drops the entry when the answer
  arrives. Stopping is asynchronous, so sending the request and receiving its answer are two steps
  and other code runs between them.
\<close>

subsection \<open>State\<close>

record timer_data =
  td_id :: int
  td_name :: string
  td_expire :: rat
  td_deploy :: bool

text \<open>
  Besides the page's world: the service's map from challenges to timeout handles, the timeouts the
  browser has armed (handle, due time, entry), the next handle, the entries whose stop request has
  no answer yet, and whether the periodic check runs.
\<close>

record tworld = world +
  t_handles :: "(int \<times> nat) list"
  t_pending :: "(nat \<times> rat \<times> timer_data) list"
  t_next :: nat
  t_inflight :: "timer_data list"
  t_checking :: bool

definition TIMER_KEY :: string where "TIMER_KEY = ''active_challenge_timers''"

definition enc_timer :: "timer_data \<Rightarrow> jsval" where
  "enc_timer t = Obj [(''challengeId'', Num (of_int (td_id t))), (''challengeName'', Str (td_name t)),
     (''expireTime'', Num (td_expire t)), (''requireDeploy'', BoolV (td_deploy t))]"

text \<open>
  Reading an entry back. An array element the service did not write is outside the model and
  reported as a type error, which is what using it as an entry raises or leads to.
\<close>

definition dec_timer :: "jsval \<Rightarrow> timer_data option" where
  "dec_timer v =
     (case (oget v ''challengeId'', oget v ''challengeName'', oget v ''expireTime'', oget v ''requireDeploy'') of
        (Num i, Str n, Num x, BoolV d) \<Rightarrow>
          if i = of_int \<lfloor>i\<rfloor>
          then Some \<lparr>td_id = \<lfloor>i\<rfloor>, td_name = n, td_expire = x, td_deploy = d\<rparr> else None
      | _ \<Rightarrow> None)"

fun dec_timers :: "jsval list \<Rightarrow> timer_data list option" where
  "dec_timers [] = Some []"
| "dec_timers (v # vs) =
     (case (dec_timer v, dec_timers vs) of (Some t, Some ts) \<Rightarrow> Some (t # ts) | _ \<Rightarrow> None)"

definition getActiveTimers :: "storage \<Rightarrow> exn + timer_data list" where
  "getActiveTimers st =
     (case get_item st TIMER_KEY of
        None \<Rightarrow> Inr []
      | Some i \<Rightarrow>
          if \<not> item_truthy i then Inr []
          else case json_parse i of
              Inl _ \<Rightarrow> Inr []
            | Inr v \<Rightarrow>
                if is_arr v then (case dec_timers (elems v) of None \<Rightarrow> Inl TypeError | Some ts \<Rightarrow> Inr ts)
                else Inl TypeError)"

definition saveTimersToStorage :: "timer_data list \<Rightarrow> 'z world_scheme \<Rightarrow> 'z world_scheme" where
  "saveTimersToStorage ts w = set_store TIMER_KEY (Json (Arr (map enc_timer ts))) w"

subsection \<open>Arming a timeout\<close>

text \<open>
  \<open>setTimeout\<close> takes its delay as a 32-bit signed integer: the fraction is dropped, the integer
  wraps, and a negative delay counts as 0.
\<close>

definition js_trunc :: "rat \<Rightarrow> int" where
  "js_trunc x = (if x < 0 then \<lceil>x\<rceil> else \<lfloor>x\<rfloor>)"

definition js_delay :: "rat \<Rightarrow> int" where
  "js_delay x = (let m = js_trunc x mod 2 ^ 32 in if 2 ^ 31 \<le> m then 0 else m)"

definition clearTimeout :: "nat \<Rightarrow> 'z tworld_scheme \<Rightarrow> 'z tworld_scheme" where
  "clearTimeout h w = w\<lparr>t_pending := filter (\<lambda>(h', _). h' \<noteq> h) (t_pending w)\<rparr>"

definition clear_handle :: "int \<Rightarrow> 'z tworld_scheme \<Rightarrow> 'z tworld_scheme" where
  "clear_handle i w = (case map_of (t_handles w) i of None \<Rightarrow> w | Some h \<Rightarrow> clearTimeout h w)"

definition arm :: "timer_data \<Rightarrow> 'z tworld_scheme \<Rightarrow> 'z tworld_scheme" where
  "arm t w =
     w\<lparr>t_pending := t_pending w @
         [(t_next w, of_int (clock w + js_delay (td_expire t - of_int (clock w))), t)],
       t_handles := AList.update (td_id t) (t_next w) (t_handles w),
       t_next := Suc (t_next w)\<rparr>"

subsection \<open>Stopping\<close>

definition stop_body :: "int \<Rightarrow> jsval" where
  "stop_body i = Obj [(''challengeId'', Num (of_int i))]"

definition stop_request :: "int \<Rightarrow> 'z world_scheme \<Rightarrow> request" where
  "stop_request i w = auth_request (endpoint_url CH_STOP) (POST_opts (stop_body i)) w"

definition autoStop_send :: "timer_data \<Rightarrow> 'z tworld_scheme \<Rightarrow> 'z tworld_scheme" where
  "autoStop_send t w =
     (let w1 = show_popup ''Time's Up!'' [Str (td_name t)] w;
          w2 = send (stop_request (td_id t) w1) w1
      in w2\<lparr>t_inflight := t_inflight w2 @ [t]\<rparr>)"

definition stopTimer :: "int \<Rightarrow> (unit, 'z tworld_scheme) action" where
  "stopTimer i w =
     (let w1 = (clear_handle i w)\<lparr>t_handles := AList.delete i (t_handles w)\<rparr>
      in case getActiveTimers (store w1) of
           Inl e \<Rightarrow> (Inl e, w1)
         | Inr ts \<Rightarrow> (Inr (), saveTimersToStorage (filter (\<lambda>t. td_id t \<noteq> i) ts) w1))"

definition autoStop_answer :: "timer_data \<Rightarrow> outcome \<Rightarrow> 'z tworld_scheme \<Rightarrow> 'z tworld_scheme" where
  "autoStop_answer t out w =
     (let w1 = (case out of
          NetFail \<Rightarrow> w
        | Reply r \<Rightarrow>
            (let w0 = handle_401 r w
             in case resp_json r of
                  Inl _ \<Rightarrow> w0
                | Inr data \<Rightarrow>
                    if truthy (oget data ''success'')
                    then dispatch ''challengeAutoStopped'' (stop_body (td_id t))
                           (show_popup ''Stopped'' [Str (td_name t)] w0)
                    else w0))
      in snd (stopTimer (td_id t) w1))"

definition scheduleAutoStop :: "timer_data \<Rightarrow> 'z tworld_scheme \<Rightarrow> 'z tworld_scheme" where
  "scheduleAutoStop t w =
     (if td_expire t - of_int (clock w) \<le> 0 then autoStop_send t w
      else arm t (clear_handle (td_id t) w))"

subsection \<open>Operations of the service\<close>

fun upsert :: "timer_data \<Rightarrow> timer_data list \<Rightarrow> timer_data list" where
  "upsert t [] = [t]"
| "upsert t (u # us) = (if td_id u = td_id t then t # us else u # upsert t us)"

definition startTimer :: "int \<Rightarrow> string \<Rightarrow> rat \<Rightarrow> bool \<Rightarrow> (unit, 'z tworld_scheme) action" where
  "startTimer i n remaining d w =
     (let t = \<lparr>td_id = i, td_name = n, td_expire = of_int (clock w) + remaining * 1000, td_deploy = d\<rparr>
      in case getActiveTimers (store w) of
           Inl e \<Rightarrow> (Inl e, w)
         | Inr ts \<Rightarrow> (Inr (), scheduleAutoStop t (saveTimersToStorage (upsert t ts) w)))"

definition getTimeRemaining :: "int \<Rightarrow> 'z world_scheme \<Rightarrow> exn + int option" where
  "getTimeRemaining i w =
     (case getActiveTimers (store w) of
        Inl e \<Rightarrow> Inl e
      | Inr ts \<Rightarrow> Inr (map_option (\<lambda>t. max 0 \<lfloor>(td_expire t - of_int (clock w)) / 1000\<rfloor>)
                        (find (\<lambda>t. td_id t = i) ts)))"

definition global_check :: "'z tworld_scheme \<Rightarrow> 'z tworld_scheme" where
  "global_check w =
     (case getActiveTimers (store w) of
        Inl _ \<Rightarrow> w
      | Inr ts \<Rightarrow> fold autoStop_send (filter (\<lambda>t. td_expire t \<le> of_int (clock w)) ts) w)"

definition initializeFromStorage :: "'z tworld_scheme \<Rightarrow> 'z tworld_scheme" where
  "initializeFromStorage w =
     (case get_item (store w) TIMER_KEY of
        None \<Rightarrow> w
      | Some i \<Rightarrow>
          if \<not> item_truthy i then w
          else case json_parse i of
              Inl _ \<Rightarrow> w
            | Inr v \<Rightarrow>
                if \<not> is_arr v then w
                else case dec_timers (elems v) of
                    None \<Rightarrow> w
                  | Some ts \<Rightarrow>
                      (let act = filter (\<lambda>t. td_expire t > of_int (clock w)) ts
                       in fold scheduleAutoStop act (saveTimersToStorage act w)))"

definition destroy :: "'z tworld_scheme \<Rightarrow> 'z tworld_scheme" where
  "destroy w = (fold (\<lambda>(i, h). clearTimeout h) (t_handles w) w)\<lparr>t_handles := [], t_checking := False\<rparr>"

subsection \<open>Steps\<close>

text \<open>
  One step of the service or of its surroundings. \<open>Fire h\<close> is the browser running a due timeout,
  \<open>Check\<close> a tick of the interval, \<open>Answer i d out\<close> the answer to the \<open>i\<close>th open stop request,
  \<open>Elapse\<close> the passing of time and \<open>Wipe\<close> another component clearing local storage (logout).
\<close>

datatype tevent =
    Start int string rat bool
  | Stop int
  | Fire nat
  | Check
  | Answer nat outcome
  | Elapse nat
  | Wipe
  | Destroy

definition due :: "nat \<Rightarrow> 'z tworld_scheme \<Rightarrow> timer_data option" where
  "due h w = (case map_of (t_pending w) h of
     Some (x, t) \<Rightarrow> if x \<le> of_int (clock w) then Some t else None | None \<Rightarrow> None)"

fun tstep :: "tevent \<Rightarrow> 'z tworld_scheme \<Rightarrow> 'z tworld_scheme" where
  "tstep (Start i n r d) w = snd (startTimer i n r d w)"
| "tstep (Stop i) w = snd (stopTimer i w)"
| "tstep (Fire h) w = (case due h w of None \<Rightarrow> w | Some t \<Rightarrow> autoStop_send t (clearTimeout h w))"
| "tstep Check w = (if t_checking w then global_check w else w)"
| "tstep (Answer i out) w =
     (if i < length (t_inflight w)
      then autoStop_answer (t_inflight w ! i) out
             (w\<lparr>t_inflight := take i (t_inflight w) @ drop (Suc i) (t_inflight w)\<rparr>)
      else w)"
| "tstep (Elapse d) w = w\<lparr>clock := clock w + int d\<rparr>"
| "tstep Wipe w = clearSession w"
| "tstep Destroy w = destroy w"

text \<open>A page load: no handle, no timeout, no open request, and whatever local storage holds.\<close>

definition t_load :: "'z tworld_scheme \<Rightarrow> 'z tworld_scheme" where
  "t_load w = (initializeFromStorage
     (w\<lparr>t_handles := [], t_pending := [], t_next := 0, t_inflight := []\<rparr>))\<lparr>t_checking := True\<rparr>"

subsection \<open>Rules: storage\<close>

lemma dec_enc_timer [simp]: "dec_timer (enc_timer t) = Some t"
  by (simp add: dec_timer_def enc_timer_def)

lemma dec_enc_timers [simp]: "dec_timers (map enc_timer ts) = Some ts"
  by (induction ts) auto

lemma getActiveTimers_save [simp]:
  "getActiveTimers (store (saveTimersToStorage ts w)) = Inr ts"
  by (simp add: saveTimersToStorage_def getActiveTimers_def)

lemma getActiveTimers_save' [simp]:
  "getActiveTimers (set_item TIMER_KEY (Json (Arr (map enc_timer ts))) st) = Inr ts"
  by (simp add: getActiveTimers_def)

lemma getActiveTimers_other [simp]:
  "k \<noteq> TIMER_KEY \<Longrightarrow> getActiveTimers (set_item k v st) = getActiveTimers st"
  "k \<noteq> TIMER_KEY \<Longrightarrow> getActiveTimers (remove_item k st) = getActiveTimers st"
  by (simp_all add: getActiveTimers_def)

lemma getActiveTimers_clear [simp]: "getActiveTimers clear_storage = Inr []"
  by (simp add: getActiveTimers_def)

lemma save_simps [simp]:
  "base_url (saveTimersToStorage ts w) = base_url w"
  "clock (saveTimersToStorage ts w) = clock w" "sent (saveTimersToStorage ts w) = sent w"
  "t_handles (saveTimersToStorage ts w') = t_handles w'"
  "t_pending (saveTimersToStorage ts w') = t_pending w'"
  "t_next (saveTimersToStorage ts w') = t_next w'"
  "t_inflight (saveTimersToStorage ts w') = t_inflight w'"
  "t_checking (saveTimersToStorage ts w') = t_checking w'"
  by (simp_all add: saveTimersToStorage_def set_store_def)

lemma tworld_fields [simp]:
  "t_handles (send r w) = t_handles w" "t_pending (send r w) = t_pending w"
  "t_next (send r w) = t_next w" "t_inflight (send r w) = t_inflight w"
  "t_checking (send r w) = t_checking w"
  "t_handles (show_popup a b w) = t_handles w" "t_pending (show_popup a b w) = t_pending w"
  "t_next (show_popup a b w) = t_next w" "t_inflight (show_popup a b w) = t_inflight w"
  "t_checking (show_popup a b w) = t_checking w"
  "t_handles (dispatch n v w) = t_handles w" "t_pending (dispatch n v w) = t_pending w"
  "t_next (dispatch n v w) = t_next w" "t_inflight (dispatch n v w) = t_inflight w"
  "t_checking (dispatch n v w) = t_checking w"
  "t_handles (clearSession w) = t_handles w" "t_pending (clearSession w) = t_pending w"
  "t_next (clearSession w) = t_next w" "t_inflight (clearSession w) = t_inflight w"
  "t_checking (clearSession w) = t_checking w"
  by (simp_all add: send_def show_popup_def dispatch_def clearSession_def)

lemma handle_401_tworld [simp]:
  "t_handles (handle_401 r w) = t_handles w" "t_pending (handle_401 r w) = t_pending w"
  "t_next (handle_401 r w) = t_next w" "t_inflight (handle_401 r w) = t_inflight w"
  "t_checking (handle_401 r w) = t_checking w"
  by (simp_all add: handle_401_def goto_login_def)

lemma autoStop_send_simps [simp]:
  "store (autoStop_send t w) = store w" "clock (autoStop_send t w) = clock w"
  "t_handles (autoStop_send t w) = t_handles w" "t_pending (autoStop_send t w) = t_pending w"
  "t_next (autoStop_send t w) = t_next w" "t_inflight (autoStop_send t w) = t_inflight w @ [t]"
  "t_checking (autoStop_send t w) = t_checking w"
  by (simp_all add: autoStop_send_def Let_def)

lemma stop_request_popup [simp]: "stop_request i (show_popup a b w) = stop_request i w"
  by (simp add: stop_request_def auth_request_def getToken_def)

lemma autoStop_send_sent [simp]:
  "sent (autoStop_send t w) = sent w @ [stop_request (td_id t) w]"
  "base_url (autoStop_send t w) = base_url w"
  by (simp_all add: autoStop_send_def Let_def)

lemma stop_request_cong:
  "store w' = store w \<Longrightarrow> base_url w' = base_url w \<Longrightarrow> stop_request i w' = stop_request i w"
  by (simp add: stop_request_def auth_request_def getToken_def)

lemma clear_handle_simps [simp]:
  "store (clear_handle i w) = store w" "clock (clear_handle i w) = clock w"
  "sent (clear_handle i w) = sent w" "base_url (clear_handle i w) = base_url w"
  "t_handles (clear_handle i w) = t_handles w" "t_next (clear_handle i w) = t_next w"
  "t_inflight (clear_handle i w) = t_inflight w" "t_checking (clear_handle i w) = t_checking w"
  "popups (clear_handle i w) = popups w" "fired (clear_handle i w) = fired w"
  by (simp_all add: clear_handle_def clearTimeout_def split: option.splits)

lemma arm_simps [simp]:
  "store (arm t w) = store w" "clock (arm t w) = clock w" "sent (arm t w) = sent w"
  "base_url (arm t w) = base_url w" "t_inflight (arm t w) = t_inflight w" "t_checking (arm t w) = t_checking w"
  by (simp_all add: arm_def)

lemma schedule_simps [simp]:
  "store (scheduleAutoStop t w) = store w" "clock (scheduleAutoStop t w) = clock w"
  "t_checking (scheduleAutoStop t w) = t_checking w" "base_url (scheduleAutoStop t w) = base_url w"
  by (simp_all add: scheduleAutoStop_def)

lemma fold_schedule_simps [simp]:
  "store (fold scheduleAutoStop ts w) = store w" "clock (fold scheduleAutoStop ts w) = clock w"
  "t_checking (fold scheduleAutoStop ts w) = t_checking w"
  by (induction ts arbitrary: w) auto

subsection \<open>Rules: the operations on the stored entries\<close>

abbreviation timers_of :: "'z world_scheme \<Rightarrow> exn + timer_data list" where
  "timers_of w \<equiv> getActiveTimers (store w)"

lemma stopTimer_run:
  assumes "timers_of w = Inr ts"
  shows "stopTimer i w = (Inr (), saveTimersToStorage (filter (\<lambda>t. td_id t \<noteq> i) ts)
           ((clear_handle i w)\<lparr>t_handles := AList.delete i (t_handles w)\<rparr>))"
  using assms by (simp add: stopTimer_def Let_def)

lemma startTimer_run:
  assumes "timers_of w = Inr ts"
  shows "startTimer i n r d w = (Inr (),
     let t = \<lparr>td_id = i, td_name = n, td_expire = of_int (clock w) + r * 1000, td_deploy = d\<rparr>
     in scheduleAutoStop t (saveTimersToStorage (upsert t ts) w))"
  using assms by (simp add: startTimer_def Let_def)

lemma upsert_ids: "td_id ` set (upsert t ts) = insert (td_id t) (td_id ` set ts)"
  by (induction ts) auto

lemma upsert_distinct: "distinct (map td_id ts) \<Longrightarrow> distinct (map td_id (upsert t ts))"
proof (induction ts)
  case (Cons u us)
  then show ?case
    using upsert_ids [of t us] by (auto simp: image_iff)
qed simp

lemma upsert_find: "find (\<lambda>u. td_id u = i) (upsert t ts) =
    (if i = td_id t then Some t else find (\<lambda>u. td_id u = i) ts)"
  by (induction ts) auto

lemma find_filter_id: "find (\<lambda>u. td_id u = i) (filter (\<lambda>u. td_id u \<noteq> j) ts) =
    (if i = j then None else find (\<lambda>u. td_id u = i) ts)"
  by (induction ts) auto

lemma distinct_filter_ids: "distinct (map td_id ts) \<Longrightarrow> distinct (map td_id (filter P ts))"
  by (induction ts) auto

subsection \<open>The registry a client sees\<close>

text \<open>
  What the challenge panel uses of the service: starting, stopping and reading a timer. A client
  reasons with these laws only.
\<close>

locale timer_registry =
  fixes start :: "int \<Rightarrow> rat \<Rightarrow> 's \<Rightarrow> 's"
    and stop :: "int \<Rightarrow> 's \<Rightarrow> 's"
    and remaining :: "int \<Rightarrow> 's \<Rightarrow> int option"
    and good :: "'s \<Rightarrow> bool"
  assumes good_start: "good s \<Longrightarrow> good (start i r s)"
    and good_stop: "good s \<Longrightarrow> good (stop i s)"
    and remaining_start:
      "good s \<Longrightarrow> remaining j (start i r s) = (if j = i then Some (max 0 \<lfloor>r\<rfloor>) else remaining j s)"
    and remaining_stop: "good s \<Longrightarrow> remaining j (stop i s) = (if j = i then None else remaining j s)"
begin

lemma stop_start: "good s \<Longrightarrow> remaining i (stop i (start i r s)) = None"
  by (simp add: remaining_stop good_start)

lemma last_start_wins: "good s \<Longrightarrow> remaining i (start i q (start i r s)) = Some (max 0 \<lfloor>q\<rfloor>)"
  by (simp add: remaining_start good_start)

lemma frame: "good s \<Longrightarrow> i \<notin> set js \<Longrightarrow> remaining i (fold stop js s) = remaining i s \<and> good (fold stop js s)"
  by (induction js arbitrary: s) (auto simp: remaining_stop good_stop)

lemma stop_all: "good s \<Longrightarrow> i \<in> set js \<Longrightarrow> remaining i (fold stop js s) = None"
proof (induction js arbitrary: s)
  case (Cons j js)
  show ?case
  proof (cases "i \<in> set js")
    case False
    then show ?thesis
      using Cons.prems frame [of "stop j s" i js] by (auto simp: remaining_stop good_stop)
  qed (use Cons good_stop in auto)
qed simp

end

definition reg_start :: "int \<Rightarrow> rat \<Rightarrow> 'z tworld_scheme \<Rightarrow> 'z tworld_scheme" where
  "reg_start i r w = snd (startTimer i [] r True w)"

definition reg_stop :: "int \<Rightarrow> 'z tworld_scheme \<Rightarrow> 'z tworld_scheme" where
  "reg_stop i w = snd (stopTimer i w)"

definition reg_remaining :: "int \<Rightarrow> 'z world_scheme \<Rightarrow> int option" where
  "reg_remaining i w = (case getTimeRemaining i w of Inl _ \<Rightarrow> None | Inr x \<Rightarrow> x)"

definition readable :: "'z world_scheme \<Rightarrow> bool" where
  "readable w = (\<not> isl (timers_of w))"

lemma readableE: assumes "readable w" obtains ts where "timers_of w = Inr ts"
  using assms by (cases "timers_of w") (auto simp: readable_def)

lemma snd_start_store:
  assumes "timers_of w = Inr ts"
  shows "timers_of (snd (startTimer i n r d w)) =
           Inr (upsert \<lparr>td_id = i, td_name = n, td_expire = of_int (clock w) + r * 1000, td_deploy = d\<rparr> ts)"
    and "clock (snd (startTimer i n r d w)) = clock w"
  using assms by (simp_all add: startTimer_run Let_def)

lemma snd_stop_store:
  assumes "timers_of w = Inr ts"
  shows "timers_of (snd (stopTimer i w)) = Inr (filter (\<lambda>t. td_id t \<noteq> i) ts)"
    and "clock (snd (stopTimer i w)) = clock w"
  using assms by (simp_all add: stopTimer_run saveTimersToStorage_def set_store_def)

interpretation reg: timer_registry reg_start reg_stop reg_remaining readable
proof
  fix s :: "'z tworld_scheme" and i j r
  assume good: "readable s"
  then obtain ts where ts: "timers_of s = Inr ts" by (rule readableE)
  show "readable (reg_start i r s)" "readable (reg_stop i s)"
    using ts by (simp_all add: readable_def reg_start_def reg_stop_def snd_start_store snd_stop_store)
  show "reg_remaining j (reg_start i r s) =
      (if j = i then Some (max 0 \<lfloor>r\<rfloor>) else reg_remaining j s)"
    using ts by (simp add: reg_remaining_def getTimeRemaining_def reg_start_def snd_start_store upsert_find)
  show "reg_remaining j (reg_stop i s) = (if j = i then None else reg_remaining j s)"
    using ts by (simp add: reg_remaining_def getTimeRemaining_def reg_stop_def snd_stop_store find_filter_id)
qed

subsection \<open>What holds in every reachable state\<close>

definition store_ok :: "'z world_scheme \<Rightarrow> bool" where
  "store_ok w = (case timers_of w of Inl _ \<Rightarrow> False | Inr ts \<Rightarrow> distinct (map td_id ts))"

definition handles_ok :: "'z tworld_scheme \<Rightarrow> bool" where
  "handles_ok w =
     (distinct (map fst (t_pending w)) \<and>
      (\<forall>(h, x, t) \<in> set (t_pending w).
         h < t_next w \<and> (\<forall>i. (map_of (t_handles w) i = Some h) = (i = td_id t))) \<and>
      (\<forall>i h. map_of (t_handles w) i = Some h \<longrightarrow> h < t_next w))"

lemma store_okE:
  assumes "store_ok w" obtains ts where "timers_of w = Inr ts" "distinct (map td_id ts)"
  using assms by (cases "timers_of w") (auto simp: store_ok_def)

lemma store_ok_cong: "store w' = store w \<Longrightarrow> store_ok w' = store_ok w"
  by (simp add: store_ok_def)

lemma handles_ok_cong:
  assumes "t_pending w' = t_pending w" "t_handles w' = t_handles w" "t_next w' = t_next w"
  shows "handles_ok w' = handles_ok w"
  using assms by (simp add: handles_ok_def)

lemma handles_okD:
  assumes "handles_ok w" "(h, x, t) \<in> set (t_pending w)"
  shows "h < t_next w" "(map_of (t_handles w) i = Some h) = (i = td_id t)"
  using assms by (auto simp: handles_ok_def)

lemma pending_handle:
  assumes "handles_ok w" "(h, x, t) \<in> set (t_pending w)"
  shows "map_of (t_handles w) (td_id t) = Some h"
  using assms by (simp add: handles_okD)

lemma clear_pending: "t_pending (clear_handle i w) =
    (case map_of (t_handles w) i of None \<Rightarrow> t_pending w
     | Some h \<Rightarrow> filter (\<lambda>(h', _). h' \<noteq> h) (t_pending w))"
  by (simp add: clear_handle_def clearTimeout_def split: option.splits)

text \<open>Clearing the handle of a challenge cancels its timeouts and no others.\<close>

lemma clear_pending_ok:
  assumes "handles_ok w"
  shows "t_pending (clear_handle i w) = filter (\<lambda>(h, x, t). td_id t \<noteq> i) (t_pending w)"
proof (cases "map_of (t_handles w) i")
  case None
  then have "\<forall>(h, x, t) \<in> set (t_pending w). td_id t \<noteq> i"
    using assms None pending_handle by fastforce
  then have "filter (\<lambda>(h, x, t). td_id t \<noteq> i) (t_pending w) = t_pending w"
    by (simp add: filter_id_conv)
  then show ?thesis
    using None by (simp add: clear_pending)
next
  case (Some h)
  then have "\<forall>(h', x, t) \<in> set (t_pending w). (h' \<noteq> h) = (td_id t \<noteq> i)"
    using assms Some handles_okD(2) pending_handle by fastforce
  then show ?thesis
    using Some by (auto simp: clear_pending intro: filter_cong)
qed

lemma distinct_fst_filter': "distinct (map fst xs) \<Longrightarrow> distinct (map fst (filter P xs))"
  by (induction xs) auto

lemma clear_handle_ok: "handles_ok w \<Longrightarrow> handles_ok (clear_handle i w)"
  by (simp add: handles_ok_def clear_pending_ok [unfolded handles_ok_def] distinct_fst_filter')

lemma clearTimeout_ok: "handles_ok w \<Longrightarrow> handles_ok (clearTimeout h w)"
  by (simp add: handles_ok_def clearTimeout_def distinct_fst_filter')

lemma stop_handles_ok:
  assumes "handles_ok w"
  shows "handles_ok (snd (stopTimer i w))"
proof -
  have "handles_ok ((clear_handle i w)\<lparr>t_handles := AList.delete i (t_handles w)\<rparr>)"
    using assms
    by (simp add: handles_ok_def clear_pending_ok [unfolded handles_ok_def] distinct_fst_filter'
        delete_conv') (auto simp: map_of_eq_None_iff split: if_splits)
  then show ?thesis
    by (cases "timers_of w") (simp_all add: stopTimer_def Let_def handles_ok_def)
qed

lemma arm_ok:
  assumes ok: "handles_ok w" and free: "\<forall>(h, x, u) \<in> set (t_pending w). td_id u \<noteq> td_id t"
  shows "handles_ok (arm t w)"
proof -
  have "t_next w \<notin> fst ` set (t_pending w)"
    using ok by (fastforce simp: handles_ok_def)
  moreover have "\<forall>i. map_of (t_handles w) i \<noteq> Some (t_next w)"
    using ok by (fastforce simp: handles_ok_def)
  ultimately show ?thesis
    using ok free by (fastforce simp: handles_ok_def arm_def update_conv' less_Suc_eq)
qed

lemma schedule_ok:
  assumes "handles_ok w"
  shows "handles_ok (scheduleAutoStop t w)"
proof (cases "td_expire t - of_int (clock w) \<le> 0")
  case False
  have "handles_ok (arm t (clear_handle (td_id t) w))"
    using assms by (intro arm_ok clear_handle_ok) (auto simp: clear_pending_ok)
  then show ?thesis
    using False by (simp add: scheduleAutoStop_def)
qed (use assms in \<open>simp add: scheduleAutoStop_def handles_ok_def\<close>)

lemma fold_schedule_ok: "handles_ok w \<Longrightarrow> handles_ok (fold scheduleAutoStop ts w)"
  by (induction ts arbitrary: w) (auto simp: schedule_ok)

lemma fold_send_ok: "handles_ok w \<Longrightarrow> handles_ok (fold autoStop_send ts w)"
  by (induction ts arbitrary: w) (auto simp: handles_ok_def)

lemma fold_send_simps [simp]:
  "store (fold autoStop_send ts w) = store w" "clock (fold autoStop_send ts w) = clock w"
  "t_checking (fold autoStop_send ts w) = t_checking w"
  "t_pending (fold autoStop_send ts w) = t_pending w"
  "t_inflight (fold autoStop_send ts w) = t_inflight w @ ts"
  "base_url (fold autoStop_send ts w) = base_url w"
  by (induction ts arbitrary: w) auto

lemma destroy_pending: "t_pending (fold (\<lambda>(i, h). clearTimeout h) hs w) =
    filter (\<lambda>(h, _). h \<notin> snd ` set hs) (t_pending w)"
proof (induction hs arbitrary: w)
  case (Cons p hs)
  then show ?case
    by (cases p) (simp add: clearTimeout_def case_prod_unfold conj_commute)
qed (simp add: case_prod_unfold)

lemma destroy_none_pending:
  assumes "handles_ok w" shows "t_pending (destroy w) = []"
proof -
  have "h \<in> snd ` set (t_handles w)" if "(h, x, t) \<in> set (t_pending w)" for h x t
    using map_of_SomeD [OF pending_handle [OF assms that]] by (metis image_eqI snd_conv)
  then show ?thesis
    by (fastforce simp: destroy_def destroy_pending filter_empty_conv)
qed

lemma start_handles_ok: "handles_ok w \<Longrightarrow> handles_ok (snd (startTimer i n r d w))"
  by (cases "timers_of w")
     (auto simp: startTimer_def Let_def intro!: schedule_ok intro: handles_ok_cong [THEN iffD2])

lemma start_store_ok: "store_ok w \<Longrightarrow> store_ok (snd (startTimer i n r d w))"
  by (erule store_okE) (simp add: store_ok_def snd_start_store upsert_distinct)

lemma stop_store_ok: "store_ok w \<Longrightarrow> store_ok (snd (stopTimer i w))"
  by (erule store_okE) (simp add: store_ok_def snd_stop_store distinct_filter_ids)

text \<open>What an answer does before the entry is dropped.\<close>

definition answer_effect :: "timer_data \<Rightarrow> outcome \<Rightarrow> 'z tworld_scheme \<Rightarrow> 'z tworld_scheme" where
  "answer_effect t out w =
     (case out of
        NetFail \<Rightarrow> w
      | Reply r \<Rightarrow>
          (let w0 = handle_401 r w
           in case resp_json r of
                Inl _ \<Rightarrow> w0
              | Inr data \<Rightarrow>
                  if truthy (oget data ''success'')
                  then dispatch ''challengeAutoStopped'' (stop_body (td_id t))
                         (show_popup ''Stopped'' [Str (td_name t)] w0)
                  else w0))"

lemma autoStop_answer_eq: "autoStop_answer t out w = snd (stopTimer (td_id t) (answer_effect t out w))"
  by (simp add: autoStop_answer_def answer_effect_def)

lemma answer_effect_simps [simp]:
  "t_handles (answer_effect t out w) = t_handles w" "t_pending (answer_effect t out w) = t_pending w"
  "t_next (answer_effect t out w) = t_next w" "t_inflight (answer_effect t out w) = t_inflight w"
  "t_checking (answer_effect t out w) = t_checking w"
  by (simp_all add: answer_effect_def Let_def split: outcome.split sum.split)

lemma answer_effect_store: "store (answer_effect t out w) = store w \<or> store (answer_effect t out w) = clear_storage"
proof (cases out)
  case (Reply r)
  then show ?thesis
    using handle_401_store [of r w] by (auto simp: answer_effect_def Let_def split: sum.split)
qed (simp add: answer_effect_def)

lemma answer_effect_ok: "store_ok w \<Longrightarrow> store_ok (answer_effect t out w)"
  using answer_effect_store [of t out w] by (auto simp: store_ok_def)

lemma initialize_ok:
  assumes "handles_ok w"
  shows "handles_ok (initializeFromStorage w)"
proof -
  have "handles_ok (fold scheduleAutoStop ts (saveTimersToStorage us w))" for ts us
    using assms by (intro fold_schedule_ok) (simp add: handles_ok_def)
  then show ?thesis
    using assms by (auto simp: initializeFromStorage_def Let_def split: option.split sum.split)
qed

lemma initialize_timers:
  assumes "timers_of w = Inr ts"
  shows "timers_of (initializeFromStorage w) = Inr ts \<or>
         timers_of (initializeFromStorage w) = Inr (filter (\<lambda>t. td_expire t > of_int (clock w)) ts)"
  using assms
  by (auto simp: initializeFromStorage_def getActiveTimers_def [of "store w"] Let_def
      split: option.splits sum.splits if_splits)

lemma initialize_store_ok:
  assumes "store_ok w" shows "store_ok (initializeFromStorage w)"
proof -
  from assms obtain ts where ts: "timers_of w = Inr ts" "distinct (map td_id ts)" by (rule store_okE)
  show ?thesis
    using initialize_timers [OF ts(1)] distinct_filter_ids [OF ts(2)] ts(2) by (auto simp: store_ok_def)
qed

definition timers_ok :: "'z tworld_scheme \<Rightarrow> bool" where
  "timers_ok w = (store_ok w \<and> handles_ok w)"

lemma load_ok:
  assumes "store_ok w" shows "timers_ok (t_load w)"
proof -
  let ?w = "w\<lparr>t_handles := [], t_pending := [], t_next := 0, t_inflight := []\<rparr>"
  have "handles_ok ?w" by (simp add: handles_ok_def)
  moreover have "store_ok ?w" using assms by (simp add: store_ok_def)
  ultimately have "handles_ok (initializeFromStorage ?w)" "store_ok (initializeFromStorage ?w)"
    by (simp_all add: initialize_ok initialize_store_ok)
  then show ?thesis
    by (simp add: timers_ok_def t_load_def handles_ok_def store_ok_def)
qed

lemma answer_ok:
  assumes "timers_ok w" shows "timers_ok (autoStop_answer t out w)"
proof -
  have "handles_ok (answer_effect t out w)" "store_ok (answer_effect t out w)"
    using assms by (simp_all add: timers_ok_def answer_effect_ok handles_ok_cong [of "answer_effect t out w" w])
  then show ?thesis
    by (simp add: timers_ok_def autoStop_answer_eq stop_handles_ok stop_store_ok)
qed

lemma destroy_store: "store (fold (\<lambda>(i, h). clearTimeout h) hs w) = store w"
  by (induction hs arbitrary: w) (auto simp: clearTimeout_def)

lemma destroy_ok: "timers_ok w \<Longrightarrow> timers_ok (destroy w)"
  using destroy_none_pending [of w]
  by (simp add: timers_ok_def handles_ok_def [of "destroy w"] store_ok_def)
     (simp add: destroy_def destroy_store)

lemma step_ok:
  assumes "timers_ok w" shows "timers_ok (tstep e w)"
proof (cases e)
  case (Fire h)
  have "timers_ok (autoStop_send t (clearTimeout h w))" for t
    using assms clearTimeout_ok [of w h]
    by (simp add: timers_ok_def handles_ok_def store_ok_def clearTimeout_def)
  then show ?thesis using assms Fire by (simp split: option.split)
next
  case Check
  then show ?thesis using assms
    by (cases "timers_of w") (simp_all add: timers_ok_def global_check_def fold_send_ok store_ok_def)
next
  case (Answer i out)
  have "timers_ok (w\<lparr>t_inflight := xs\<rparr>)" for xs
    using assms by (simp add: timers_ok_def handles_ok_def store_ok_def)
  then show ?thesis using assms Answer by (simp add: answer_ok)
next
  case Wipe
  then show ?thesis using assms
    by (simp add: timers_ok_def handles_ok_cong [of "clearSession w" w]) (simp add: store_ok_def clearSession_def)
next
  case (Start i n r d)
  then show ?thesis using assms by (simp add: timers_ok_def start_handles_ok start_store_ok)
next
  case (Stop i)
  then show ?thesis using assms by (simp add: timers_ok_def stop_handles_ok stop_store_ok)
next
  case (Elapse d)
  then show ?thesis using assms by (simp add: timers_ok_def handles_ok_def store_ok_def)
qed (use assms in \<open>simp add: destroy_ok\<close>)

inductive treach :: "'z tworld_scheme \<Rightarrow> 'z tworld_scheme \<Rightarrow> bool" for w0 where
  treach_load: "treach w0 (t_load w0)"
| treach_step: "treach w0 w \<Longrightarrow> treach w0 (tstep e w)"

lemma treach_ok: "treach w0 w \<Longrightarrow> store_ok w0 \<Longrightarrow> timers_ok w"
  by (induction rule: treach.induct) (simp_all add: load_ok step_ok)

subsection \<open>Rules for the properties\<close>

abbreviation entry :: "int \<Rightarrow> string \<Rightarrow> rat \<Rightarrow> bool \<Rightarrow> 'z world_scheme \<Rightarrow> timer_data" where
  "entry i n r d w \<equiv> \<lparr>td_id = i, td_name = n, td_expire = of_int (clock w) + r * 1000, td_deploy = d\<rparr>"

lemma pending_ids_distinct:
  assumes "handles_ok w"
  shows "distinct (map (\<lambda>p. td_id (snd (snd p))) (t_pending w))"
proof -
  have "fst p = the (map_of (t_handles w) (td_id (snd (snd p))))" if "p \<in> set (t_pending w)" for p
    using assms that pending_handle by (cases p) fastforce
  then have "map fst (t_pending w) =
      map (\<lambda>i. the (map_of (t_handles w) i)) (map (\<lambda>p. td_id (snd (snd p))) (t_pending w))"
    by simp
  moreover have "distinct (map fst (t_pending w))"
    using assms by (simp add: handles_ok_def)
  ultimately show ?thesis
    by (simp only: distinct_map [where xs = "map _ _"])
qed

lemma stop_request_same [simp]:
  "stop_request i (autoStop_send t w) = stop_request i w"
  by (rule stop_request_cong) simp_all

lemma fold_send_sent:
  "sent (fold autoStop_send ts w) = sent w @ map (\<lambda>t. stop_request (td_id t) w) ts"
  by (induction ts arbitrary: w) simp_all

lemma fresh_handle: "handles_ok w \<Longrightarrow> t_next w \<notin> fst ` set (t_pending w)"
  by (auto dest: handles_okD(1))

text \<open>Starting an unexpired timer arms a timeout under the next handle.\<close>

lemma start_positive:
  assumes "timers_of w = Inr ts" "handles_ok w" "0 < r"
  shows "snd (startTimer i n r d w) =
    arm (entry i n r d w) (clear_handle i (saveTimersToStorage (upsert (entry i n r d w) ts) w))"
  using assms by (simp add: startTimer_run scheduleAutoStop_def Let_def)

lemma start_pending:
  assumes "timers_of w = Inr ts" "handles_ok w" "0 < r"
  shows "map_of (t_pending (snd (startTimer i n r d w))) (t_next w) =
           Some (of_int (clock w + js_delay (r * 1000)), entry i n r d w)"
proof -
  let ?c = "clear_handle i (saveTimersToStorage (upsert (entry i n r d w) ts) w)"
  have "t_next w \<notin> fst ` set (t_pending ?c)"
    using fresh_handle [OF assms(2)] by (auto simp: clear_pending split: option.splits)
  then show ?thesis
    using assms by (simp add: start_positive arm_def map_add_def map_of_eq_None_iff [THEN iffD2])
qed

lemma start_sent:
  assumes "timers_of w = Inr ts" "handles_ok w" "0 < r"
  shows "sent (snd (startTimer i n r d w)) = sent w"
  using assms by (simp add: start_positive)

lemma fire_sent:
  assumes "map_of (t_pending w) h = Some (x, t)"
  shows "sent (tstep (Fire h) (tstep (Elapse e) w)) =
    sent w @ (if x \<le> of_int (clock w + int e) then [stop_request (td_id t) w] else [])"
proof -
  have "stop_request (td_id t) (clearTimeout h (w\<lparr>clock := clock w + int e\<rparr>)) = stop_request (td_id t) w"
    by (rule stop_request_cong) (simp_all add: clearTimeout_def)
  then show ?thesis
    using assms by (simp add: due_def) (simp add: clearTimeout_def)
qed

lemma js_delay_small: "0 \<le> x \<Longrightarrow> x < 2 ^ 31 \<Longrightarrow> js_delay x = \<lfloor>x\<rfloor>"
proof -
  assume x: "0 \<le> x" "x < 2 ^ 31"
  then have "\<lfloor>x\<rfloor> < 2 ^ 31" by (simp add: floor_less_iff)
  then show ?thesis using x by (simp add: js_delay_def js_trunc_def Let_def)
qed

lemma js_delay_large: "2 ^ 31 \<le> x \<Longrightarrow> x < 2 ^ 32 \<Longrightarrow> js_delay x = 0"
proof -
  assume x: "2 ^ 31 \<le> x" "x < 2 ^ 32"
  then have "2 ^ 31 \<le> \<lfloor>x\<rfloor>" "\<lfloor>x\<rfloor> < 2 ^ 32" by (simp_all add: floor_less_iff le_floor_iff)
  then show ?thesis using x by (simp add: js_delay_def js_trunc_def Let_def)
qed

lemma start_fields:
  "base_url (snd (startTimer i n r d w)) = base_url w" "clock (snd (startTimer i n r d w)) = clock w"
  by (simp_all add: startTimer_def Let_def split: sum.split)

lemma start_request:
  assumes "timers_of w = Inr ts"
  shows "stop_request j (snd (startTimer i n r d w)) = stop_request j w"
  using assms
  by (simp add: stop_request_def auth_request_def start_fields getToken_def startTimer_run Let_def
      TIMER_KEY_def TOKEN_KEY_def saveTimersToStorage_def [of _ w, THEN arg_cong [where f = store]])

lemma load_timers:
  assumes "timers_of w = Inr ts"
  shows "timers_of (initializeFromStorage w) = Inr (filter (\<lambda>t. td_expire t > of_int (clock w)) ts)"
  using assms
  by (auto simp: initializeFromStorage_def getActiveTimers_def [of "store w"] Let_def
      split: option.splits sum.splits if_splits)

lemma start_fire:
  assumes "timers_of w = Inr ts" "handles_ok w" "0 < r"
  shows "sent (tstep (Fire (t_next w)) (tstep (Elapse e) (snd (startTimer i n r d w)))) =
    sent w @ (if js_delay (r * 1000) \<le> int e then [stop_request i w] else [])"
proof -
  have "((of_int (clock w + js_delay (r * 1000)) :: rat) \<le> of_int (clock w + int e)) =
      (js_delay (r * 1000) \<le> int e)"
    by (simp only: of_int_le_iff) linarith
  then show ?thesis
    using fire_sent [OF start_pending [OF assms, of i n d], of e] start_sent [OF assms, of i n d]
    by (simp only: start_request [OF assms(1)] start_fields timer_data.simps)
qed

abbreviation armed :: "'z tworld_scheme \<Rightarrow> timer_data list" where
  "armed w \<equiv> map (\<lambda>p. snd (snd p)) (t_pending w)"

lemma schedule_armed:
  assumes "handles_ok w" "of_int (clock w) < td_expire t" "td_id t \<notin> td_id ` set (armed w)"
  shows "armed (scheduleAutoStop t w) = armed w @ [t]" "sent (scheduleAutoStop t w) = sent w"
proof -
  have "filter (\<lambda>(h, x, u). td_id u \<noteq> td_id t) (t_pending w) = t_pending w"
    using assms(3) by (auto simp: filter_id_conv image_iff)
  then show "armed (scheduleAutoStop t w) = armed w @ [t]" "sent (scheduleAutoStop t w) = sent w"
    using assms by (simp_all add: scheduleAutoStop_def arm_def clear_pending_ok)
qed

lemma fold_schedule_armed:
  assumes "handles_ok w" "\<forall>t \<in> set ts. of_int (clock w) < td_expire t" "distinct (map td_id ts)"
    "td_id ` set ts \<inter> td_id ` set (armed w) = {}"
  shows "armed (fold scheduleAutoStop ts w) = armed w @ ts \<and> sent (fold scheduleAutoStop ts w) = sent w"
  using assms
proof (induction ts arbitrary: w)
  case (Cons t ts)
  then have "armed (scheduleAutoStop t w) = armed w @ [t]" "sent (scheduleAutoStop t w) = sent w"
    by (simp_all add: schedule_armed)
  then show ?case
    using Cons.IH [of "scheduleAutoStop t w"] Cons.prems schedule_ok [of w t] by auto
qed simp

subsection \<open>Properties\<close>

text \<open>C7: in every state the service can reach after a page load, whatever starts, stops, ticks,
  answers, waits or logouts happen and in whatever order, local storage holds at most one entry per
  challenge, the browser has at most one armed timeout per challenge, and the handle the service
  keeps for a challenge with an armed timeout is the handle of this timeout.\<close>
theorem one_timer_per_challenge:
  assumes "store_ok w0" and "treach w0 w"
  shows "(\<exists>ts. timers_of w = Inr ts \<and> distinct (map td_id ts)) \<and>
    distinct (map td_id (armed w)) \<and>
    (\<forall>(h, x, t) \<in> set (t_pending w). map_of (t_handles w) (td_id t) = Some h)"
  using treach_ok [OF assms(2,1)] pending_ids_distinct [of w] pending_handle [of w]
  by (auto simp: timers_ok_def comp_def elim!: store_okE)

definition tw0 :: "unit tworld_ext world_scheme" where
  "tw0 = \<lparr>store = [(TOKEN_KEY, Raw ''tok'')], clock = 1000, sent = [], path = ''/contest/1'',
     redirect = None, popups = [], fired = [], base_url = ''http://be'', t_handles = [],
     t_pending = [], t_next = 0, t_inflight = [], t_checking = True\<rparr>"

lemma tw0_simps [simp]:
  "timers_of tw0 = Inr []" "clock tw0 = 1000" "t_pending tw0 = []" "t_handles tw0 = []"
  "t_next tw0 = 0" "t_inflight tw0 = []" "sent tw0 = []" "handles_ok tw0" "store_ok tw0"
  "t_checking tw0"
  by (simp_all add: tw0_def getActiveTimers_def TIMER_KEY_def TOKEN_KEY_def handles_ok_def
      store_ok_def get_item_def)

theorem one_timer_per_challenge_witness:
  "distinct (map td_id (armed (tstep (Start 7 ''a'' 60 True) (tstep (Start 7 ''a'' 30 True) (t_load tw0)))))"
  using one_timer_per_challenge [OF _ treach_step [OF treach_step [OF treach_load]], of tw0 "Start 7 ''a'' 60 True" "Start 7 ''a'' 30 True"]
  by simp

text \<open>After a challenge's timer is started with \<open>r\<close> seconds, reading it at once yields
  \<open>\<lfloor>r\<rfloor>\<close> (0 for a negative \<open>r\<close>); after it is stopped, reading it yields null; and neither changes
  what is read for any other challenge.\<close>
theorem timer_read_back:
  assumes "timers_of w = Inr ts"
  shows "getTimeRemaining j (snd (startTimer i n r d w)) =
           (if j = i then Inr (Some (max 0 \<lfloor>r\<rfloor>)) else getTimeRemaining j w) \<and>
         getTimeRemaining j (snd (stopTimer i w)) = (if j = i then Inr None else getTimeRemaining j w)"
  using assms
  by (simp add: getTimeRemaining_def snd_start_store snd_stop_store upsert_find find_filter_id)

theorem timer_read_back_witness:
  "getTimeRemaining 7 (snd (startTimer 7 ''web'' 3 True tw0)) = Inr (Some 3)"
  using timer_read_back [of tw0 "[]" 7 7 "''web''" 3 True] by simp

text \<open>C18: a timer started with \<open>r\<close> seconds (less than 2147483.648) sends its stop request exactly
  when at least \<open>\<lfloor>1000 r\<rfloor>\<close> milliseconds have passed when its timeout is run, and nothing before.\<close>
theorem timer_fires_on_time:
  assumes "timers_of w = Inr ts" and "handles_ok w" and "0 < r" and "r * 1000 < 2 ^ 31"
  shows "sent (tstep (Fire (t_next w)) (tstep (Elapse e) (snd (startTimer i n r d w)))) =
    sent w @ (if \<lfloor>r * 1000\<rfloor> \<le> int e then [stop_request i w] else [])"
  using start_fire [OF assms(1-3)] js_delay_small [of "r * 1000"] assms by simp

theorem timer_fires_on_time_witness:
  "sent (tstep (Fire 0) (tstep (Elapse 2999) (snd (startTimer 7 ''web'' 3 True tw0)))) = []"
  using timer_fires_on_time [of tw0 "[]" 3 2999 7 "''web''" True] by simp

text \<open>A timer started with 2147483.648 seconds (about 24.8 days) or more, up to twice that, is
  stopped at once: the browser's 32-bit delay wraps to 0, so its timeout may run before any time has
  passed and sends the stop request.\<close>
theorem long_timer_fires_at_once:
  assumes "timers_of w = Inr ts" and "handles_ok w" and "2 ^ 31 \<le> r * 1000" and "r * 1000 < 2 ^ 32"
  shows "sent (tstep (Fire (t_next w)) (tstep (Elapse 0) (snd (startTimer i n r d w)))) =
    sent w @ [stop_request i w]"
proof -
  have "0 < r" using assms(3) by simp
  then show ?thesis
    using js_delay_large [OF assms(3,4)] by (subst start_fire [OF assms(1,2)]) simp_all
qed

theorem long_timer_fires_at_once_witness:
  "sent (tstep (Fire 0) (tstep (Elapse 0) (snd (startTimer 7 ''web'' 2592000 True tw0)))) =
   [stop_request 7 tw0]"
  using long_timer_fires_at_once [of tw0 "[]" 2592000 7 "''web''" True] by simp

text \<open>Each tick of the periodic check sends one stop request for every stored entry whose time
  has come, in their order, and for no other; it keeps the entries, so a tick that comes before the
  answers sends the same requests again.\<close>
theorem check_stops_expired:
  assumes "timers_of w = Inr ts" and "t_checking w"
  defines "expired \<equiv> map (\<lambda>t. stop_request (td_id t) w) (filter (\<lambda>t. td_expire t \<le> of_int (clock w)) ts)"
  shows "sent (tstep Check w) = sent w @ expired \<and> timers_of (tstep Check w) = Inr ts \<and>
    sent (tstep Check (tstep Check w)) = sent w @ expired @ expired"
proof -
  let ?w = "fold autoStop_send (filter (\<lambda>t. td_expire t \<le> of_int (clock w)) ts) w"
  have "stop_request i ?w = stop_request i w" for i
    by (rule stop_request_cong) simp_all
  then show ?thesis
    using assms by (simp add: global_check_def fold_send_sent)
qed

theorem check_stops_expired_witness:
  "sent (tstep Check (snd (startTimer 7 ''web'' 3 True tw0))) = []"
  using check_stops_expired [of "snd (startTimer 7 ''web'' 3 True tw0)" "[entry 7 ''web'' 3 True tw0]"]
  by (simp add: snd_start_store start_sent)

lemma stop_pending:
  assumes "timers_of w = Inr ts" "handles_ok w"
  shows "t_pending (snd (stopTimer i w)) = filter (\<lambda>(h, x, t). td_id t \<noteq> i) (t_pending w)"
  using assms by (simp add: stopTimer_run clear_pending_ok)

lemma answer_drops:
  assumes "store_ok w" "handles_ok w"
  shows "getTimeRemaining (td_id t) (autoStop_answer t out w) = Inr None \<and>
         td_id t \<notin> td_id ` set (armed (autoStop_answer t out w))"
proof -
  let ?w = "answer_effect t out w"
  have ok: "handles_ok ?w" "store_ok ?w"
    using assms by (simp_all add: answer_effect_ok handles_ok_cong [of ?w w])
  then obtain us where us: "timers_of ?w = Inr us" by (elim store_okE)
  show ?thesis
    using us ok(1)
    by (auto simp: autoStop_answer_eq getTimeRemaining_def snd_stop_store find_filter_id stop_pending)
qed

text \<open>When a challenge is started again while the stop request of its previous run has no
  answer yet, that answer, whatever it is, removes the new run's entry and its timeout: the new run
  has no timer left.\<close>
theorem restart_lost:
  assumes "store_ok w" and "handles_ok w" and "t_inflight w = [t]" and "0 < r"
  shows "getTimeRemaining (td_id t) (tstep (Start (td_id t) n r d) w) = Inr (Some \<lfloor>r\<rfloor>) \<and>
    (let w2 = tstep (Answer 0 out) (tstep (Start (td_id t) n r d) w)
     in getTimeRemaining (td_id t) w2 = Inr None \<and> td_id t \<notin> td_id ` set (armed w2))"
proof -
  obtain ts where ts: "timers_of w = Inr ts" using assms(1) by (elim store_okE)
  let ?w1 = "snd (startTimer (td_id t) n r d w)"
  have fl: "t_inflight ?w1 = [t]"
    using assms ts by (simp add: start_positive)
  have "store_ok (?w1\<lparr>t_inflight := []\<rparr>)" "handles_ok (?w1\<lparr>t_inflight := []\<rparr>)"
    using start_store_ok [OF assms(1)] start_handles_ok [OF assms(2)]
    by (simp_all add: store_ok_def handles_ok_def)
  note answer_drops [OF this, of t out]
  moreover have "getTimeRemaining (td_id t) ?w1 = Inr (Some \<lfloor>r\<rfloor>)"
    using ts assms(4) by (simp add: getTimeRemaining_def snd_start_store upsert_find)
  ultimately show ?thesis
    using fl by (simp add: Let_def)
qed

theorem restart_lost_witness:
  "getTimeRemaining 7 (tstep (Answer 0 NetFail) (tstep (Start 7 ''web'' 60 True)
     (tw0\<lparr>t_inflight := [entry 7 ''web'' 0 True tw0]\<rparr>))) = Inr None"
  using restart_lost [of "tw0\<lparr>t_inflight := [entry 7 ''web'' 0 True tw0]\<rparr>"
      "entry 7 ''web'' 0 True tw0" 60 "''web''" True NetFail]
  by (simp add: store_ok_def handles_ok_def Let_def del: tstep.simps)

text \<open>Loading the page keeps exactly the entries that have not expired, arms one timeout for
  each of them and sends nothing: an instance whose time ran out while no page was open gets no stop
  request.\<close>
theorem load_keeps_unexpired:
  assumes "timers_of w = Inr ts" and "distinct (map td_id ts)"
  defines "live \<equiv> filter (\<lambda>t. of_int (clock w) < td_expire t) ts"
  shows "timers_of (t_load w) = Inr live \<and> armed (t_load w) = live \<and> sent (t_load w) = sent w"
proof -
  let ?w = "w\<lparr>t_handles := [], t_pending := [], t_next := 0, t_inflight := []\<rparr>"
  have ok: "handles_ok (saveTimersToStorage live ?w)" by (simp add: handles_ok_def)
  have "armed (fold scheduleAutoStop live (saveTimersToStorage live ?w)) = live \<and>
      sent (fold scheduleAutoStop live (saveTimersToStorage live ?w)) = sent w"
    using fold_schedule_armed [OF ok, of live] assms(2) by (simp add: live_def distinct_filter_ids)
  moreover have "initializeFromStorage ?w = fold scheduleAutoStop live (saveTimersToStorage live ?w) \<or>
      initializeFromStorage ?w = ?w \<and> ts = []"
    using assms(1)
    by (auto simp: initializeFromStorage_def getActiveTimers_def [of "store w"] Let_def live_def
        split: option.splits sum.splits if_splits)
  ultimately show ?thesis
    using load_timers [of ?w ts] assms(1) by (auto simp: t_load_def live_def)
qed

theorem load_keeps_unexpired_witness:
  "armed (t_load (saveTimersToStorage [entry 7 ''web'' 5 True tw0, entry 8 ''pwn'' 0 True tw0] tw0)) =
   [entry 7 ''web'' 5 True tw0]"
  using load_keeps_unexpired [of "saveTimersToStorage [entry 7 ''web'' 5 True tw0, entry 8 ''pwn'' 0 True tw0] tw0"]
  by simp

end
