(* ===== verification/TimerSpec.thy ===== *)
theory TimerSpec
  imports Timers
begin

section \<open>The timer service as a registry of running instances\<close>

text \<open>
  What the timer service promises, without handles, timeouts, requests in flight or storage: a
  registry that says for each challenge whether an instance is being timed and until when. Each step
  of the service, on any state whose stored entries are well formed, is one step of the registry.
\<close>

type_synonym registry = "int \<Rightarrow> timer_data option"

definition registry_of :: "'z world_scheme \<Rightarrow> registry" where
  "registry_of w = (\<lambda>i. case timers_of w of Inl _ \<Rightarrow> None | Inr ts \<Rightarrow> find (\<lambda>t. td_id t = i) ts)"

text \<open>An answer that ends the session, as \<open>fetchWithAuth\<close> treats it.\<close>

fun signs_out :: "outcome \<Rightarrow> 'z world_scheme \<Rightarrow> bool" where
  "signs_out NetFail w = False"
| "signs_out (Reply r) w = (status r = 401 \<and> \<not> on_auth_page w)"

fun registry_step :: "tevent \<Rightarrow> 'z tworld_scheme \<Rightarrow> registry \<Rightarrow> registry" where
  "registry_step (Start i n r d) w m = m(i \<mapsto> entry i n r d w)"
| "registry_step (Stop i) w m = m(i := None)"
| "registry_step (Answer k out) w m =
     (if k < length (t_inflight w)
      then (if signs_out out w then Map.empty else m)(td_id (t_inflight w ! k) := None) else m)"
| "registry_step Wipe w m = Map.empty"
| "registry_step (Fire h) w m = m"
| "registry_step Check w m = m"
| "registry_step (Elapse d) w m = m"
| "registry_step Destroy w m = m"

lemma registry_of_Inr: "timers_of w = Inr ts \<Longrightarrow> registry_of w = (\<lambda>i. find (\<lambda>t. td_id t = i) ts)"
  by (simp add: registry_of_def)

lemma registry_cong: "store w' = store w \<Longrightarrow> registry_of w' = registry_of w"
  by (simp add: registry_of_def)

lemma registry_cleared: "store w = clear_storage \<Longrightarrow> registry_of w = Map.empty"
  by (simp add: registry_of_def)

lemma registry_start:
  "store_ok w \<Longrightarrow> registry_of (snd (startTimer i n r d w)) = (registry_of w)(i \<mapsto> entry i n r d w)"
  by (elim store_okE) (simp add: registry_of_Inr snd_start_store upsert_find fun_eq_iff)

lemma registry_stop:
  "store_ok w \<Longrightarrow> registry_of (snd (stopTimer i w)) = (registry_of w)(i := None)"
  by (elim store_okE) (simp add: registry_of_Inr snd_stop_store find_filter_id fun_eq_iff)

lemma answer_effect_signs_out:
  "store (answer_effect t out w) = (if signs_out out w then clear_storage else store w)"
  by (cases out) (auto simp: answer_effect_def Let_def handle_401_def goto_login_def clearSession_def split: sum.split)

lemma registry_answer:
  assumes "store_ok w"
  shows "registry_of (autoStop_answer t out w) =
    (if signs_out out w then Map.empty else registry_of w)(td_id t := None)"
proof -
  have "registry_of (answer_effect t out w) = (if signs_out out w then Map.empty else registry_of w)"
    using answer_effect_signs_out [of t out w] registry_cleared [of "answer_effect t out w"]
      registry_cong [of "answer_effect t out w" w] by (cases "signs_out out w") simp_all
  then show ?thesis
    using registry_stop [OF answer_effect_ok [OF assms], of "td_id t" t out] by (simp only: autoStop_answer_eq)
qed

lemma fold_send_store: "store (fold autoStop_send ts w) = store w"
  by (induction ts arbitrary: w) simp_all

lemma global_check_store: "store (global_check w) = store w"
  by (simp add: global_check_def fold_send_store split: sum.split)

text \<open>C6: the service refines the registry: whatever step is taken in a state whose stored entries are
  well formed (every reachable state), the registry read from local storage afterwards is the one the
  abstract step gives: starting enters the instance with its end time and replaces an earlier entry,
  stopping or the answer to a stop request removes exactly the entry of this challenge, signing out
  empties the registry, and timeouts, ticks, waiting and shutting down leave it alone.\<close>
theorem service_refines_registry:
  assumes "store_ok w"
  shows "registry_of (tstep e w) = registry_step e w (registry_of w)"
proof (cases e)
  case (Answer k out)
  let ?v = "w\<lparr>t_inflight := take k (t_inflight w) @ drop (Suc k) (t_inflight w)\<rparr>"
  have "store_ok ?v" "registry_of ?v = registry_of w" "signs_out out ?v = signs_out out w"
    using assms by (simp_all add: store_ok_def registry_of_def on_auth_page_def) (cases out; simp add: on_auth_page_def)
  then show ?thesis
    using Answer registry_answer [of ?v] by simp
qed (use assms in \<open>auto simp: registry_start registry_stop registry_cleared clearSession_def destroy_store
       destroy_def global_check_store clearTimeout_def intro!: registry_cong split: option.split\<close>)

theorem service_refines_registry_witness:
  "registry_of (tstep (Stop 7) (tstep (Start 7 ''web'' 3 True) tw0)) 7 = None \<and>
   registry_of (tstep (Start 7 ''web'' 3 True) tw0) 7 = Some (entry 7 ''web'' 3 True tw0)"
  using service_refines_registry [of tw0 "Start 7 ''web'' 3 True"]
    service_refines_registry [of "tstep (Start 7 ''web'' 3 True) tw0" "Stop 7"] start_store_ok [of tw0 7 "''web''" 3 True]
  by simp

end
