(* ===== verification/HealthCheck.thy ===== *)
theory HealthCheck
  imports Api
begin

section \<open>The health check service\<close>

text \<open>
  \<open>services/healthCheckService.ts\<close>: a deployment being waited for has a state in local storage;
  each second the service cleans up the states that took too long and polls the server for the
  others, one request at a time. A round of polling is suspended while it waits for an answer,
  and the next tick may start another round meanwhile, so the rounds in progress are part of the
  state.
\<close>

subsection \<open>State\<close>

record poll =
  p_id :: jsval
  p_state :: jsval
  p_rest :: "string list"

record hworld = world +
  h_active :: "jsval list"
  h_timer :: bool
  h_listening :: bool
  h_polls :: "poll list"

definition HC :: string where "HC = ''health_check_''"
definition HCR :: string where "HCR = ''health_check_result_''"

text \<open>Identifiers are numbers, or \<open>NaN\<close> when a key has no number after its prefix.\<close>

definition hkey :: "jsval \<Rightarrow> string" where "hkey i = HC @ js_string i"
definition rkey :: "jsval \<Rightarrow> string" where "rkey i = HCR @ js_string i"
definition dkey :: "jsval \<Rightarrow> string" where "dkey i = ''deployment_'' @ js_string i"

definition hc_keys :: "storage \<Rightarrow> string list" where
  "hc_keys st = filter (starts_with HC) (storage_keys st)"

definition id_of_key :: "string \<Rightarrow> jsval" where
  "id_of_key k = parseInt (replace_first HC [] k)"

definition put_json :: "string \<Rightarrow> jsval \<Rightarrow> 'z world_scheme \<Rightarrow> 'z world_scheme" where
  "put_json k v w = set_store k (Json (json_clean v)) w"

subsection \<open>Operations\<close>

datatype reason = R_success | R_timeout | R_manual

definition stopHealthCheck :: "jsval \<Rightarrow> reason \<Rightarrow> 'z hworld_scheme \<Rightarrow> 'z hworld_scheme" where
  "stopHealthCheck i r w =
     (let w1 = remove_store (hkey i) w;
          w2 = w1\<lparr>h_active := removeAll i (h_active w1)\<rparr>
      in if r = R_timeout
         then put_json (rkey i) (Obj [(''status'', Str ''timeout''), (''challengeId'', i),
                (''timestamp'', Num (of_int (clock w2)))]) w2
         else w2)"

definition startHealthCheck :: "jsval \<Rightarrow> string \<Rightarrow> jsval \<Rightarrow> 'z hworld_scheme \<Rightarrow> 'z hworld_scheme" where
  "startHealthCheck i name team w =
     (if has_item (store w) (hkey i) then w
      else let w1 = put_json (hkey i) (Obj [(''challengeId'', i), (''challengeName'', Str name),
                      (''isChecking'', BoolV True), (''startTime'', Num (of_int (clock w))),
                      (''attempts'', Num 0), (''maxAttempts'', Num 100), (''teamId'', team)]) w
           in w1\<lparr>h_active := List.insert i (h_active w1)\<rparr>)"

text \<open>\<open>(Date.now() - state.startTime) / 1000 > 200\<close> and \<open>state.attempts >= state.maxAttempts\<close>.\<close>

definition over_time :: "jsval \<Rightarrow> int \<Rightarrow> bool" where
  "over_time s now =
     num_gt (map_option (\<lambda>t. (of_int now - t) / 1000) (as_num (oget s ''startTime''))) (Some 200)"

definition over_attempts :: "jsval \<Rightarrow> bool" where
  "over_attempts s = num_ge (as_num (oget s ''attempts'')) (as_num (oget s ''maxAttempts''))"

definition sync_key :: "string \<Rightarrow> 'z hworld_scheme \<Rightarrow> 'z hworld_scheme" where
  "sync_key k w =
     (let i = id_of_key k
      in case get_item (store w) k of
           None \<Rightarrow> w
         | Some it \<Rightarrow>
             if \<not> item_truthy it then w
             else case json_parse it of
                 Inl _ \<Rightarrow> remove_store k w
               | Inr s \<Rightarrow>
                   if nullish s then remove_store k w
                   else if over_time s (clock w) \<or> over_attempts s then stopHealthCheck i R_timeout w
                   else if truthy (oget s ''isChecking'')
                        then w\<lparr>h_active := List.insert i (h_active w)\<rparr>
                        else w)"

definition syncHealthChecks :: "'z hworld_scheme \<Rightarrow> 'z hworld_scheme" where
  "syncHealthChecks w = fold sync_key (hc_keys (store w)) w"

definition check_body :: "jsval \<Rightarrow> jsval \<Rightarrow> jsval" where
  "check_body i s = json_clean (Obj [(''challengeId'', i), (''teamId'', oget s ''teamId'')])"

definition check_request :: "jsval \<Rightarrow> jsval \<Rightarrow> 'z world_scheme \<Rightarrow> request" where
  "check_request i s w = auth_request (endpoint_url CH_START_CHECKING) (POST_opts (check_body i s)) w"

text \<open>A round goes through its keys until a check is sent; then it waits.\<close>

fun perform :: "string list \<Rightarrow> 'z hworld_scheme \<Rightarrow> 'z hworld_scheme" where
  "perform [] w = w"
| "perform (k # ks) w =
     (case get_item (store w) k of
        None \<Rightarrow> perform ks w
      | Some it \<Rightarrow>
          if \<not> item_truthy it then perform ks w
          else case json_parse it of
              Inl _ \<Rightarrow> perform ks w
            | Inr s \<Rightarrow>
                if nullish s \<or> \<not> truthy (oget s ''isChecking'') then perform ks w
                else if over_attempts s \<or> over_time s (clock w)
                     then perform ks (stopHealthCheck (id_of_key k) R_timeout w)
                     else let w1 = send (check_request (id_of_key k) s w) w
                          in w1\<lparr>h_polls := h_polls w1 @ [\<lparr>p_id = id_of_key k, p_state = s, p_rest = ks\<rparr>]\<rparr>)"

definition performHealthChecks :: "'z hworld_scheme \<Rightarrow> 'z hworld_scheme" where
  "performHealthChecks w = perform (hc_keys (store w)) w"

definition bump :: "jsval \<Rightarrow> jsval" where
  "bump s = set_field ''attempts'' (num_of (map_option (\<lambda>n. n + 1) (as_num (oget s ''attempts'')))) s"

definition success_result :: "jsval \<Rightarrow> jsval \<Rightarrow> jsval \<Rightarrow> int \<Rightarrow> jsval" where
  "success_result i s d now =
     Obj [(''status'', Str ''success''), (''challengeId'', i), (''challengeName'', oget s ''challengeName''),
          (''url'', oget d ''challenge_url''),
          (''timeRemaining'', js_or (oget d ''time_remaining'') (oget d ''time_limit'')),
          (''timestamp'', Num (of_int now))]"

text \<open>
  \<open>checkPodHealth\<close> from its answer on. An answer that is the JSON \<open>null\<close> makes reading
  \<open>data.success\<close> throw after the attempt was counted, and the handler counts it again.
\<close>

definition checkPodHealth_answer :: "jsval \<Rightarrow> jsval \<Rightarrow> outcome \<Rightarrow> 'z hworld_scheme \<Rightarrow> 'z hworld_scheme" where
  "checkPodHealth_answer i s out w =
     (case out of
        NetFail \<Rightarrow> put_json (hkey i) (bump s) w
      | Reply r \<Rightarrow>
          (let w0 = handle_401 r w
           in case resp_json r of
                Inl _ \<Rightarrow> put_json (hkey i) (bump s) w0
              | Inr d \<Rightarrow>
                  (let w1 = put_json (hkey i) (bump s) w0
                   in if nullish d then put_json (hkey i) (bump (bump s)) w1
                      else if seq (oget d ''success'') (BoolV True) \<and> truthy (oget d ''challenge_url'')
                      then remove_store (dkey i)
                             (stopHealthCheck i R_success
                               (put_json (rkey i) (success_result i s d (clock w1)) w1))
                      else w1)))"

definition poll_answer :: "nat \<Rightarrow> outcome \<Rightarrow> 'z hworld_scheme \<Rightarrow> 'z hworld_scheme" where
  "poll_answer n out w =
     (if n < length (h_polls w)
      then let p = h_polls w ! n;
               w1 = w\<lparr>h_polls := take n (h_polls w) @ drop (Suc n) (h_polls w)\<rparr>
           in perform (p_rest p) (checkPodHealth_answer (p_id p) (p_state p) out w1)
      else w)"

definition isHealthChecking :: "jsval \<Rightarrow> 'z world_scheme \<Rightarrow> jsval" where
  "isHealthChecking i w =
     (case get_item (store w) (hkey i) of
        None \<Rightarrow> BoolV False
      | Some it \<Rightarrow>
          if \<not> item_truthy it then BoolV False
          else case json_parse it of
              Inl _ \<Rightarrow> BoolV False
            | Inr s \<Rightarrow> (if nullish s then BoolV False else oget s ''isChecking''))"

definition getHealthCheckResult :: "jsval \<Rightarrow> 'z world_scheme \<Rightarrow> jsval \<times> 'z world_scheme" where
  "getHealthCheckResult i w =
     (case get_item (store w) (rkey i) of
        None \<Rightarrow> (Null, w)
      | Some it \<Rightarrow>
          if \<not> item_truthy it then (Null, w)
          else case json_parse it of
              Inl _ \<Rightarrow> (Null, w)
            | Inr v \<Rightarrow> (v, remove_store (rkey i) w))"

subsection \<open>Monitoring\<close>

definition startMonitoring :: "'z hworld_scheme \<Rightarrow> 'z hworld_scheme" where
  "startMonitoring w = (if h_timer w then w else w\<lparr>h_timer := True\<rparr>)"

definition stopMonitoring :: "'z hworld_scheme \<Rightarrow> 'z hworld_scheme" where
  "stopMonitoring w = (if h_timer w then w\<lparr>h_timer := False\<rparr> else w)"

definition handleStorageChange :: "string option \<Rightarrow> 'z hworld_scheme \<Rightarrow> 'z hworld_scheme" where
  "handleStorageChange k w =
     (case k of None \<Rightarrow> w | Some s \<Rightarrow> if starts_with HC s then syncHealthChecks w else w)"

definition cleanup :: "'z hworld_scheme \<Rightarrow> 'z hworld_scheme" where
  "cleanup w = (stopMonitoring w)\<lparr>h_listening := False\<rparr>"

definition h_load :: "'z hworld_scheme \<Rightarrow> 'z hworld_scheme" where
  "h_load w = (startMonitoring (w\<lparr>h_active := [], h_timer := False, h_polls := []\<rparr>))\<lparr>h_listening := True\<rparr>"

datatype hevent =
    H_tick
  | H_storage "string option"
  | H_start int string jsval
  | H_stop int reason
  | H_read int
  | H_answer nat outcome
  | H_elapse nat
  | H_cleanup

fun hstep :: "hevent \<Rightarrow> 'z hworld_scheme \<Rightarrow> 'z hworld_scheme" where
  "hstep H_tick w = (if h_timer w then performHealthChecks (syncHealthChecks w) else w)"
| "hstep (H_storage k) w = (if h_listening w then handleStorageChange k w else w)"
| "hstep (H_start i n t) w = startHealthCheck (Num (of_int i)) n t w"
| "hstep (H_stop i r) w = stopHealthCheck (Num (of_int i)) r w"
| "hstep (H_read i) w = snd (getHealthCheckResult (Num (of_int i)) w)"
| "hstep (H_answer n out) w = poll_answer n out w"
| "hstep (H_elapse d) w = w\<lparr>clock := clock w + int d\<rparr>"
| "hstep H_cleanup w = cleanup w"

subsection \<open>Rules: keys\<close>

abbreviation J :: "int \<Rightarrow> jsval" where "J i \<equiv> Num (of_int i)"

lemma hkey_eq [simp]: "hkey (J i) = hkey (J j) \<longleftrightarrow> i = j"
  by (simp add: hkey_def)

lemma rkey_eq [simp]: "rkey (J i) = rkey (J j) \<longleftrightarrow> i = j"
  by (simp add: rkey_def)

lemma show_int_not_r: "show_int i \<noteq> CHR ''r'' # s"
proof -
  have "\<not> is_digit (CHR ''r'')" by (simp add: is_digit_def)
  then have "show_nat n \<noteq> CHR ''r'' # s" for n
    using show_nat_digits [of "CHR ''r''" n] by auto
  then show ?thesis by (simp add: show_int_def)
qed

lemma rkey_split: "rkey v = HC @ CHR ''r'' # ''esult_'' @ js_string v"
  by (simp add: rkey_def HC_def HCR_def)

lemma hkey_rkey [simp]: "hkey (J i) \<noteq> rkey v" "rkey v \<noteq> hkey (J i)"
proof -
  have "hkey (J i) \<noteq> rkey v" for i :: int
    unfolding rkey_split hkey_def same_append_eq using show_int_not_r [of i] by simp
  then show "hkey (J i) \<noteq> rkey v" "rkey v \<noteq> hkey (J i)"
    by (metis)+
qed

lemma dkey_not_HC: "dkey v \<noteq> HC @ s"
  by (simp add: dkey_def HC_def)

lemma starts_HC [simp]: "starts_with HC (hkey v)" "starts_with HC (rkey v)" "\<not> starts_with HC (dkey v)"
  by (simp_all add: hkey_def rkey_split) (simp add: starts_with_iff dkey_not_HC)

lemma dkey_other [simp]: "dkey v \<noteq> hkey u" "dkey v \<noteq> rkey u" "hkey u \<noteq> dkey v" "rkey u \<noteq> dkey v"
  using starts_HC by metis+

lemma replace_HC: "replace_first HC [] (HC @ s) = s"
  by (rule replace_first_prefix) (simp add: HC_def)

lemma id_of_hkey [simp]: "id_of_key (hkey (J i)) = J i"
  by (simp add: id_of_key_def hkey_def replace_HC)

lemma parseInt_r: "parseInt (CHR ''r'' # CHR ''e'' # s) = NaN"
  by (simp add: parseInt_def signed_def is_ws_def is_digit_def Let_def)

lemma id_of_rkey [simp]: "id_of_key (rkey v) = NaN"
  by (simp add: id_of_key_def rkey_split replace_HC parseInt_r)

subsection \<open>Well-formed storage\<close>

text \<open>
  A result shares the prefix of the states, so the service reads it as a state; it has none of a
  state's fields and is left alone.
\<close>

definition result_item :: "item \<Rightarrow> bool" where
  "result_item it = (case json_parse it of Inl _ \<Rightarrow> False
     | Inr v \<Rightarrow> \<not> nullish v \<and> oget v ''startTime'' = Undef \<and> oget v ''attempts'' = Undef \<and>
                oget v ''isChecking'' = Undef)"

definition hc_ok :: "storage \<Rightarrow> bool" where
  "hc_ok st = (\<forall>k it. get_item st k = Some it \<longrightarrow> starts_with HC k \<longrightarrow>
     (\<exists>i. k = hkey (J i)) \<or> (\<exists>i. k = rkey (J i) \<and> result_item it))"

lemma hc_okE:
  assumes "hc_ok st" "get_item st k = Some it" "starts_with HC k"
  obtains i where "k = hkey (J i)" | i where "k = rkey (J i)" "result_item it"
  using assms unfolding hc_ok_def by blast

lemma hc_ok_set_h: "hc_ok st \<Longrightarrow> hc_ok (set_item (hkey (J i)) it st)"
  by (auto simp: hc_ok_def)

lemma hc_ok_set_r: "hc_ok st \<Longrightarrow> result_item it \<Longrightarrow> hc_ok (set_item (rkey (J i)) it st)"
  by (auto simp: hc_ok_def)

lemma hc_ok_remove: "hc_ok st \<Longrightarrow> hc_ok (remove_item k st)"
  by (auto simp: hc_ok_def)

lemma hc_ok_clear: "hc_ok clear_storage"
  by (simp add: hc_ok_def)

lemma hc_fields [simp]:
  "store (put_json k v w) = set_item k (Json (json_clean v)) (store w)"
  "clock (put_json k v w) = clock w" "sent (put_json k v w) = sent w"
  by (simp_all add: put_json_def)

definition timeout_result :: "int \<Rightarrow> int \<Rightarrow> jsval" where
  "timeout_result i now =
     Obj [(''status'', Str ''timeout''), (''challengeId'', J i), (''timestamp'', J now)]"

lemma stop_store:
  "store (stopHealthCheck (J i) r w) =
     (if r = R_timeout
      then set_item (rkey (J i)) (Json (timeout_result i (clock w))) (remove_item (hkey (J i)) (store w))
      else remove_item (hkey (J i)) (store w))"
  "clock (stopHealthCheck v r w) = clock w"
  by (simp_all add: stopHealthCheck_def Let_def timeout_result_def)

lemma stop_hc_ok: "hc_ok (store w) \<Longrightarrow> hc_ok (store (stopHealthCheck (J i) r w))"
  by (simp add: stop_store hc_ok_set_r hc_ok_remove result_item_def timeout_result_def)

subsection \<open>Rules: cleaning up\<close>

definition expired :: "int \<Rightarrow> item \<Rightarrow> bool" where
  "expired now it = (item_truthy it \<and> (case json_parse it of Inl _ \<Rightarrow> False
     | Inr s \<Rightarrow> \<not> nullish s \<and> (over_time s now \<or> over_attempts s)))"

definition broken :: "item \<Rightarrow> bool" where
  "broken it = (item_truthy it \<and> (case json_parse it of Inl _ \<Rightarrow> True | Inr s \<Rightarrow> nullish s))"

lemma sync_key_hkey:
  assumes "get_item (store w) (hkey (J i)) = Some it"
  shows "store (sync_key (hkey (J i)) w) =
     (if broken it then remove_item (hkey (J i)) (store w)
      else if expired (clock w) it
      then set_item (rkey (J i)) (Json (timeout_result i (clock w))) (remove_item (hkey (J i)) (store w))
      else store w)"
  using assms
  by (cases "json_parse it") (simp_all add: sync_key_def broken_def expired_def stop_store Let_def)

lemma sync_key_rkey:
  assumes "get_item (store w) (rkey v) = Some it" "result_item it"
  shows "store (sync_key (rkey v) w) = store w"
  using assms
  by (cases "json_parse it") (simp_all add: sync_key_def result_item_def over_time_def over_attempts_def Let_def)

lemma sync_key_none: "get_item (store w) k = None \<Longrightarrow> sync_key k w = w"
  by (simp add: sync_key_def)

lemma sync_key_clock [simp]: "clock (sync_key k w) = clock w"
  by (simp add: sync_key_def Let_def stop_store split: option.split sum.split)

lemma sync_key_step:
  assumes "hc_ok (store w)" "starts_with HC k"
  shows "hc_ok (store (sync_key k w))"
    and "k \<noteq> hkey (J i) \<Longrightarrow> get_item (store (sync_key k w)) (hkey (J i)) = get_item (store w) (hkey (J i))"
    and "k \<noteq> hkey (J i) \<Longrightarrow> get_item (store (sync_key k w)) (rkey (J i)) = get_item (store w) (rkey (J i))"
proof -
  have "hc_ok (store (sync_key k w)) \<and>
    (k \<noteq> hkey (J i) \<longrightarrow> get_item (store (sync_key k w)) (hkey (J i)) = get_item (store w) (hkey (J i)) \<and>
      get_item (store (sync_key k w)) (rkey (J i)) = get_item (store w) (rkey (J i)))"
  proof (cases "get_item (store w) k")
    case (Some it)
    show ?thesis
      using assms(1) Some assms(2)
    proof (cases rule: hc_okE)
      case (1 j)
      then show ?thesis
        using assms(1) Some
        by (auto simp: sync_key_hkey hc_ok_remove hc_ok_set_r result_item_def timeout_result_def)
    next
      case (2 j)
      then show ?thesis using assms(1) Some by (simp add: sync_key_rkey)
    qed
  qed (use assms in \<open>simp add: sync_key_none\<close>)
  then show "hc_ok (store (sync_key k w))"
    and "k \<noteq> hkey (J i) \<Longrightarrow> get_item (store (sync_key k w)) (hkey (J i)) = get_item (store w) (hkey (J i))"
    and "k \<noteq> hkey (J i) \<Longrightarrow> get_item (store (sync_key k w)) (rkey (J i)) = get_item (store w) (rkey (J i))"
    by auto
qed

lemma fold_sync_frame:
  assumes "hc_ok (store w)" "list_all (starts_with HC) ks"
  shows "hc_ok (store (fold sync_key ks w)) \<and> clock (fold sync_key ks w) = clock w \<and>
    (hkey (J i) \<notin> set ks \<longrightarrow>
       get_item (store (fold sync_key ks w)) (hkey (J i)) = get_item (store w) (hkey (J i)) \<and>
       get_item (store (fold sync_key ks w)) (rkey (J i)) = get_item (store w) (rkey (J i)))"
  using assms by (induction ks arbitrary: w) (auto simp: sync_key_step)

lemma fold_sync_hit:
  assumes "hc_ok (store w)" "list_all (starts_with HC) ks" "distinct ks" "hkey (J i) \<in> set ks"
    and "get_item (store w) (hkey (J i)) = Some it"
  shows "get_item (store (fold sync_key ks w)) (hkey (J i)) =
           (if broken it \<or> expired (clock w) it then None else Some it)"
    and "get_item (store (fold sync_key ks w)) (rkey (J i)) =
           (if expired (clock w) it then Some (Json (timeout_result i (clock w)))
            else get_item (store w) (rkey (J i)))"
proof -
  obtain as bs where ks: "ks = as @ hkey (J i) # bs"
    using assms(4) by (auto simp: in_set_conv_decomp)
  let ?u = "fold sync_key as w"
  have d: "hkey (J i) \<notin> set as" "hkey (J i) \<notin> set bs" using assms(3) ks by auto
  have u: "hc_ok (store ?u)" "clock ?u = clock w" "get_item (store ?u) (hkey (J i)) = Some it"
      "get_item (store ?u) (rkey (J i)) = get_item (store w) (rkey (J i))"
    using fold_sync_frame [of w as i] assms(1,2,5) ks d by auto
  have v: "hc_ok (store (sync_key (hkey (J i)) ?u))" using u by (simp add: sync_key_step)
  have nb: "expired (clock w) it \<Longrightarrow> \<not> broken it"
    by (cases "json_parse it") (auto simp: expired_def broken_def)
  show "get_item (store (fold sync_key ks w)) (hkey (J i)) =
           (if broken it \<or> expired (clock w) it then None else Some it)"
    and "get_item (store (fold sync_key ks w)) (rkey (J i)) =
           (if expired (clock w) it then Some (Json (timeout_result i (clock w)))
            else get_item (store w) (rkey (J i)))"
    using fold_sync_frame [OF v, of bs i] assms(2) ks d u nb
    by (simp_all add: sync_key_hkey)
qed

subsection \<open>What holds in every reachable state\<close>

definition poll_ok :: "poll \<Rightarrow> bool" where
  "poll_ok p = ((\<exists>i. p_id p = J i) \<and> list_all (starts_with HC) (p_rest p))"

definition health_ok :: "'z hworld_scheme \<Rightarrow> bool" where
  "health_ok w = (hc_ok (store w) \<and> storage_ok (store w) \<and> list_all poll_ok (h_polls w))"

lemma hw_fields [simp]:
  "h_polls (put_json k v w) = h_polls w" "h_polls (remove_store k w) = h_polls w"
  "h_polls (stopHealthCheck v r w) = h_polls w" "h_polls (handle_401 a w) = h_polls w"
  by (simp_all add: put_json_def remove_store_def set_store_def stopHealthCheck_def handle_401_def
      goto_login_def clearSession_def Let_def)

lemma sync_key_polls [simp]: "h_polls (sync_key k w) = h_polls w"
  by (simp add: sync_key_def Let_def split: option.split sum.split)

lemma health_ok_put_h: "health_ok w \<Longrightarrow> health_ok (put_json (hkey (J i)) v w)"
  by (simp add: health_ok_def hc_ok_set_h)

lemma health_ok_put_r:
  "health_ok w \<Longrightarrow> result_item (Json (json_clean v)) \<Longrightarrow> health_ok (put_json (rkey (J i)) v w)"
  by (simp add: health_ok_def hc_ok_set_r)

lemma health_ok_remove: "health_ok w \<Longrightarrow> health_ok (remove_store k w)"
  by (simp add: health_ok_def hc_ok_remove)

lemma health_ok_stop: "health_ok w \<Longrightarrow> health_ok (stopHealthCheck (J i) r w)"
  using stop_hc_ok [of w i r] by (simp add: health_ok_def stop_store)

lemma health_ok_401: "health_ok w \<Longrightarrow> health_ok (handle_401 a w)"
  using handle_401_store [of a w] by (auto simp: health_ok_def hc_ok_clear)

lemma health_ok_active: "health_ok w \<Longrightarrow> health_ok (w\<lparr>h_active := xs\<rparr>)"
  by (simp add: health_ok_def)

lemma health_ok_sync_key:
  assumes "health_ok w" "starts_with HC k"
  shows "health_ok (sync_key k w)"
proof -
  have "storage_ok (store (sync_key k w))"
    using assms(1)
    by (simp add: health_ok_def sync_key_def Let_def stopHealthCheck_def split: option.split sum.split)
  then show ?thesis
    using assms sync_key_step(1) [of w k] by (simp add: health_ok_def)
qed

lemma health_ok_sync: "health_ok w \<Longrightarrow> health_ok (syncHealthChecks w)"
proof -
  have "health_ok (fold sync_key ks u)" if "health_ok u" "list_all (starts_with HC) ks" for ks and u :: "'a hworld_scheme"
    using that by (induction ks arbitrary: u) (auto simp: health_ok_sync_key)
  moreover have "list_all (starts_with HC) (hc_keys (store w))"
    by (simp add: hc_keys_def list_all_iff)
  ultimately show "health_ok w \<Longrightarrow> ?thesis" by (simp add: syncHealthChecks_def)
qed

lemma checking_key:
  assumes "hc_ok st" "get_item st k = Some it" "starts_with HC k" "json_parse it = Inr s"
    "truthy (oget s ''isChecking'')"
  obtains i where "k = hkey (J i)"
  using assms by (cases it) (auto elim!: hc_okE simp: result_item_def)

lemma health_ok_perform:
  assumes "health_ok w" "list_all (starts_with HC) ks"
  shows "health_ok (perform ks w)"
  using assms
proof (induction ks arbitrary: w)
  case (Cons k ks)
  show ?case
  proof (cases "\<exists>it s. get_item (store w) k = Some it \<and> item_truthy it \<and> json_parse it = Inr s \<and>
      \<not> nullish s \<and> truthy (oget s ''isChecking'')")
    case False
    then have "perform (k # ks) w = perform ks w"
      by (auto split: option.split sum.split)
    then show ?thesis using Cons by simp
  next
    case True
    then obtain it s where it: "get_item (store w) k = Some it" "item_truthy it" "json_parse it = Inr s"
        "\<not> nullish s" "truthy (oget s ''isChecking'')" by blast
    obtain i where i: "k = hkey (J i)"
      using checking_key [OF _ it(1) _ it(3,5)] Cons.prems by (auto simp: health_ok_def)
    show ?thesis
    proof (cases "over_attempts s \<or> over_time s (clock w)")
      case True
      then have "perform (k # ks) w = perform ks (stopHealthCheck (J i) R_timeout w)"
        using it i by simp
      then show ?thesis using Cons by (simp add: health_ok_stop)
    next
      case False
      then show ?thesis
        using it i Cons.prems by (simp add: health_ok_def poll_ok_def Let_def) (simp add: send_def)
    qed
  qed
qed simp

lemma health_ok_answer:
  assumes "health_ok w"
  shows "health_ok (checkPodHealth_answer (J i) s out w)"
proof -
  have r: "result_item (Json (json_clean (success_result v s d n)))" for v d n
    by (simp add: result_item_def success_result_def)
  show ?thesis
    using assms
    by (auto simp: checkPodHealth_answer_def Let_def health_ok_put_h health_ok_put_r r health_ok_401
        health_ok_stop health_ok_remove split: outcome.split sum.split)
qed

lemma health_ok_step:
  assumes "health_ok w" shows "health_ok (hstep e w)"
proof (cases e)
  case H_tick
  then show ?thesis
    using health_ok_perform [OF health_ok_sync [OF assms]] assms
    by (simp add: performHealthChecks_def hc_keys_def list_all_iff)
next
  case (H_start i n t)
  then show ?thesis
    using assms by (simp add: startHealthCheck_def Let_def health_ok_active health_ok_put_h)
next
  case (H_answer n out)
  show ?thesis
  proof (cases "n < length (h_polls w)")
    case True
    let ?w1 = "w\<lparr>h_polls := take n (h_polls w) @ drop (Suc n) (h_polls w)\<rparr>"
    have "poll_ok (h_polls w ! n)" using assms True by (simp add: health_ok_def list_all_length)
    then obtain i where i: "p_id (h_polls w ! n) = J i" "list_all (starts_with HC) (p_rest (h_polls w ! n))"
      by (auto simp: poll_ok_def)
    have "health_ok ?w1"
      using assms by (auto simp: health_ok_def list_all_iff dest: in_set_takeD in_set_dropD)
    then show ?thesis
      using True H_answer i by (simp add: poll_answer_def Let_def health_ok_perform health_ok_answer)
  qed (use assms H_answer in \<open>simp add: poll_answer_def\<close>)
next
  case (H_read i)
  then show ?thesis
    using assms by (auto simp: getHealthCheckResult_def health_ok_remove split: option.split sum.split)
next
  case (H_storage k)
  then show ?thesis
    using assms by (simp add: handleStorageChange_def health_ok_sync split: option.split)
next
  case (H_stop i r)
  then show ?thesis using assms by (simp add: health_ok_stop)
qed (use assms in \<open>simp_all add: cleanup_def stopMonitoring_def health_ok_def\<close>)

inductive hreach :: "'z hworld_scheme \<Rightarrow> 'z hworld_scheme \<Rightarrow> bool" for w0 where
  hreach_load: "hreach w0 (h_load w0)"
| hreach_step: "hreach w0 w \<Longrightarrow> hreach w0 (hstep e w)"

lemma hreach_ok:
  assumes "hreach w0 w" "hc_ok (store w0)" "storage_ok (store w0)" shows "health_ok w"
  using assms
  by (induction rule: hreach.induct)
     (simp_all add: health_ok_step, simp add: health_ok_def h_load_def startMonitoring_def)

subsection \<open>Properties\<close>

abbreviation hkept :: "int \<Rightarrow> item option \<Rightarrow> item option" where
  "hkept now x \<equiv> (case x of None \<Rightarrow> None | Some it \<Rightarrow> if broken it \<or> expired now it then None else Some it)"

text \<open>C16: in every state the service can reach, one clean-up pass removes exactly the states that
  cannot be parsed, that have been checked for more than 200 seconds or that have used up their
  attempts; it leaves a timeout result for each of the latter two and changes no other result, so
  results, whose keys share the prefix of the states, are never mistaken for states.\<close>
theorem sync_cleans_up:
  assumes "hreach w0 w" and "hc_ok (store w0)" and "storage_ok (store w0)"
  shows "get_item (store (syncHealthChecks w)) (hkey (J i)) = hkept (clock w) (get_item (store w) (hkey (J i))) \<and>
    get_item (store (syncHealthChecks w)) (rkey (J i)) =
      (case get_item (store w) (hkey (J i)) of
         Some it \<Rightarrow> if expired (clock w) it then Some (Json (timeout_result i (clock w)))
                    else get_item (store w) (rkey (J i))
       | None \<Rightarrow> get_item (store w) (rkey (J i)))"
proof -
  have ok: "hc_ok (store w)" "storage_ok (store w)"
    using hreach_ok [OF assms] by (simp_all add: health_ok_def)
  have ks: "list_all (starts_with HC) (hc_keys (store w))" "distinct (hc_keys (store w))"
    using ls.ok_distinct [OF ok(2)] by (simp_all add: hc_keys_def list_all_iff)
  have mem: "hkey (J i) \<in> set (hc_keys (store w)) \<longleftrightarrow> get_item (store w) (hkey (J i)) \<noteq> None"
    by (simp add: hc_keys_def ls.names_lookup)
  show ?thesis
  proof (cases "get_item (store w) (hkey (J i))")
    case None
    then show ?thesis
      using fold_sync_frame [OF ok(1) ks(1), of i] mem by (simp add: syncHealthChecks_def)
  next
    case (Some it)
    then show ?thesis
      using fold_sync_hit [OF ok(1) ks _ Some] mem by (simp add: syncHealthChecks_def)
  qed
qed

definition hw0 :: "unit hworld_ext world_scheme" where
  "hw0 = \<lparr>store = [], clock = 0, sent = [], path = ''/contest/1'',
     redirect = None, popups = [], fired = [], base_url = ''http://be'', h_active = [],
     h_timer = True, h_listening = True, h_polls = []\<rparr>"

theorem sync_cleans_up_witness:
  "get_item (store (syncHealthChecks (hstep (H_elapse 201000) (hstep (H_start 5 ''web'' (Num 2)) (h_load hw0)))))
     (rkey (J 5)) = Some (Json (timeout_result 5 201000))"
  using sync_cleans_up [OF hreach_step [OF hreach_step [OF hreach_load]], of hw0 "H_elapse 201000" "H_start 5 ''web'' (Num 2)" 5]
  by (simp add: hc_ok_def storage_ok_def hw0_def h_load_def startMonitoring_def startHealthCheck_def
      expired_def over_time_def Let_def)

text \<open>The answer that reports a healthy instance ends the check: its state and its deployment
  entry are gone, and reading its result yields the address and the remaining time once and null
  from then on.\<close>
theorem healthy_answer_ends_check:
  assumes "resp_json r = Inr d" and "oget d ''success'' = BoolV True" and "truthy (oget d ''challenge_url'')"
  shows "let v = checkPodHealth_answer (J i) s (Reply r) w in
    isHealthChecking (J i) v = BoolV False \<and>
    get_item (store v) (dkey (J i)) = None \<and>
    fst (getHealthCheckResult (J i) v) = json_clean (success_result (J i) s d (clock w)) \<and>
    fst (getHealthCheckResult (J i) (snd (getHealthCheckResult (J i) v))) = Null"
proof -
  have "\<not> nullish d" using assms(2) by auto
  moreover have "clock (handle_401 r w) = clock w" by (simp add: handle_401_def goto_login_def clearSession_def)
  ultimately show ?thesis
    using assms
    by (simp add: checkPodHealth_answer_def Let_def stop_store isHealthChecking_def getHealthCheckResult_def)
qed

theorem healthy_answer_ends_check_witness:
  "isHealthChecking (J 5) (checkPodHealth_answer (J 5) (Obj [])
     (Reply \<lparr>status = 200, body = JBody (Obj [(''success'', BoolV True), (''challenge_url'', Str ''u'')])\<rparr>) hw0) = BoolV False"
  using healthy_answer_ends_check [of "\<lparr>status = 200, body = JBody (Obj [(''success'', BoolV True), (''challenge_url'', Str ''u'')])\<rparr>"
      "Obj [(''success'', BoolV True), (''challenge_url'', Str ''u'')]" 5 "Obj []" hw0]
  by (simp add: resp_json_def Let_def)

text \<open>Stopping a check by hand does not end it when a request of it is under way: any answer but
  one that reports a healthy instance stores its state again, with one more attempt, and the check
  runs as before.\<close>
theorem stopped_check_comes_back:
  assumes "truthy (oget s ''isChecking'')"
    and "out = NetFail \<or>
      (\<exists>r d. out = Reply r \<and> resp_json r = Inr d \<and> \<not> nullish d \<and> oget d ''success'' \<noteq> BoolV True)"
  shows "isHealthChecking (J i) (stopHealthCheck (J i) R_manual w) = BoolV False \<and>
    (let w' = checkPodHealth_answer (J i) s out (stopHealthCheck (J i) R_manual w)
     in get_item (store w') (hkey (J i)) = Some (Json (json_clean (bump s))) \<and>
        truthy (isHealthChecking (J i) w'))"
proof -
  obtain fs where fs: "s = Obj fs" using assms(1) by (cases s) auto
  have "field (obj_fields (bump s)) ''isChecking'' = field fs ''isChecking''" "bump s = Obj (obj_fields (bump s))"
    by (simp_all add: bump_def set_field_def fs)
  moreover have "field fs ''isChecking'' \<noteq> Undef" using assms(1) fs by auto
  ultimately have t: "truthy (oget (json_clean (bump s)) ''isChecking'')"
    using clean_field [of "obj_fields (bump s)" "''isChecking''"] assms(1) fs by simp
  have n: "\<not> nullish (json_clean (bump s))" by (simp add: bump_def set_field_def)
  have g: "get_item (store (checkPodHealth_answer (J i) s out u)) (hkey (J i)) = Some (Json (json_clean (bump s)))"
    for u :: "'a hworld_scheme"
    using assms(2) by (auto simp: checkPodHealth_answer_def Let_def)
  show ?thesis
    using t n g by (simp add: isHealthChecking_def stop_store)
qed

theorem stopped_check_comes_back_witness:
  "truthy (isHealthChecking (J 5) (checkPodHealth_answer (J 5) (Obj [(''isChecking'', BoolV True)]) NetFail
     (stopHealthCheck (J 5) R_manual hw0)))"
  using stopped_check_comes_back [of "Obj [(''isChecking'', BoolV True)]" NetFail 5 hw0] by (simp add: Let_def)

end
