(* ===== verification/Auth.thy ===== *)
theory Auth
  imports Api
begin

section \<open>The authentication service\<close>

text \<open>
  \<open>services/authService.ts\<close>: login, choice of a contest, registration metadata, registration
  and logout. Requests other than logout run under a timeout of fifteen seconds.
\<close>

definition AUTH_REQUEST_TIMEOUT_MS :: nat where "AUTH_REQUEST_TIMEOUT_MS = 15000"

text \<open>
  The abort fires when the answer takes at least the timeout; the request has been sent all the
  same, and the abort is reported as an ordinary error. The delay a server gives is that of the
  answer's headers, on which \<open>fetch\<close> settles and the timer is cleared; a body is read after that,
  outside this function and without any limit, and the time this takes is not modelled.
\<close>

definition fetchWithTimeout :: "server \<Rightarrow> request \<Rightarrow> nat \<Rightarrow> (response, 'z world_scheme) action" where
  "fetchWithTimeout srv q ms w =
     (case srv (sent w) q of (d, out) \<Rightarrow>
        if ms \<le> d
        then throw (ErrMsg (Str ''Request timed out. Please try again.''))
               ((send q w)\<lparr>clock := clock w + int ms\<rparr>)
        else receive d out (send q w))"

text \<open>\<open>throw new Error(errorData.message || dflt)\<close>\<close>

definition error_of :: "response \<Rightarrow> string \<Rightarrow> exn" where
  "error_of r dflt = (case get (resp_json_or_empty r) ''message'' of
     Inl e \<Rightarrow> e | Inr m \<Rightarrow> ErrMsg (js_or m (Str dflt)))"

definition plain_post :: "endpoint \<Rightarrow> jsval \<Rightarrow> 'z world_scheme \<Rightarrow> request" where
  "plain_post e b w = \<lparr>req_method = ''POST'', req_url = base_url w @ endpoint_url e,
     req_headers = json_header, req_body = Some b\<rparr>"

definition login :: "server \<Rightarrow> jsval \<Rightarrow> (jsval, 'z world_scheme) action" where
  "login srv credentials w =
     bindM (fetchWithTimeout srv (plain_post AUTH_LOGIN credentials w) AUTH_REQUEST_TIMEOUT_MS)
       (\<lambda>r. if \<not> resp_ok r then throw (error_of r ''Login failed'')
        else bindM (lift (resp_json r)) (\<lambda>data.
          bindM (lift (get data ''generatedToken'')) (\<lambda>t.
            if \<not> truthy t
            then throw (ErrMsg (Str ''No authentication token received from server''))
            else if \<not> truthy (oget data ''user'')
            then throw (ErrMsg (Str ''No user data received from server''))
            else bindM (upd (setToken t)) (\<lambda>_.
              bindM (upd (setUser (oget data ''user''))) (\<lambda>_. ret data))))) w"

definition team_of_reply :: "jsval \<Rightarrow> jsval" where
  "team_of_reply data =
     (if truthy (oget data ''teamId'')
      then Obj [(''id'', oget data ''teamId''), (''teamName'', js_or (oget data ''teamName'') (Str []))]
      else Null)"

definition bearer :: "'z world_scheme \<Rightarrow> string" where
  "bearer w = ''Bearer '' @ (case getToken w of None \<Rightarrow> ''null'' | Some s \<Rightarrow> s)"

definition select_request :: "int \<Rightarrow> 'z world_scheme \<Rightarrow> request" where
  "select_request contestId w =
     \<lparr>req_method = ''POST'', req_url = base_url w @ endpoint_url AUTH_SELECT_CONTEST,
      req_headers = json_header @ [(''Authorization'', bearer w)],
      req_body = Some (Obj [(''contestId'', Num (of_int contestId))])\<rparr>"

text \<open>The session after a reply: the new token, and the stored user with the reply's team.\<close>

definition enter_contest :: "jsval \<Rightarrow> (jsval, 'z world_scheme) action" where
  "enter_contest data w =
     (let w' = setToken (oget data ''token'') w
      in case getUser w' of
           Inl e \<Rightarrow> (Inl e, w')
         | Inr u \<Rightarrow> (Inr data,
             if truthy u then setUser (set_field ''team'' (team_of_reply data) u) w' else w'))"

definition selectContest :: "server \<Rightarrow> int \<Rightarrow> (jsval, 'z world_scheme) action" where
  "selectContest srv contestId w =
     bindM (fetchWithTimeout srv (select_request contestId w) AUTH_REQUEST_TIMEOUT_MS)
       (\<lambda>r. if \<not> resp_ok r then throw (error_of r ''Failed to select contest'')
        else bindM (lift (resp_json r)) (\<lambda>result.
          bindM (lift (get result ''data'')) (\<lambda>data.
            if nullish data then throw TypeError else enter_contest data))) w"

subsection \<open>Registration\<close>

record reg_field =
  rf_id :: rat
  rf_name :: string
  rf_boolean :: bool
  rf_description :: "string option"
  rf_required :: bool

fun str_or :: "jsval \<Rightarrow> string" where
  "str_or (Str s) = s"
| "str_or _ = []"

text \<open>An identifier that is \<open>NaN\<close> is dropped by the test \<open>id > 0\<close>, as 0 is.\<close>

definition norm_field :: "jsval \<Rightarrow> reg_field" where
  "norm_field f =
     \<lparr>rf_id = (case oget f ''id'' of Num q \<Rightarrow> q | _ \<Rightarrow> 0),
      rf_name = str_or (oget f ''name''),
      rf_boolean = (oget f ''fieldType'' = Str ''boolean''),
      rf_description = (case oget f ''description'' of Str s \<Rightarrow> Some s | _ \<Rightarrow> None),
      rf_required = (oget f ''required'' = BoolV True)\<rparr>"

definition normalizeFields :: "jsval \<Rightarrow> reg_field list" where
  "normalizeFields v =
     (if \<not> is_arr v then []
      else filter (\<lambda>f. rf_id f > 0)
             (map norm_field (filter (\<lambda>f. truthy f \<and> typeof_object f) (elems v))))"

definition norm_metadata :: "jsval \<Rightarrow> reg_field list \<times> jsval" where
  "norm_metadata data =
     (let payload = js_nn (oget data ''data'') (Obj []);
          c = oget payload ''constraints'';
          raw = (if truthy c \<and> typeof_object c then c else Obj [])
      in (normalizeFields (oget payload ''userFields''),
          num_of (as_num (js_nn (oget raw ''numUsersLimit'') (Num 0)))))"

definition getRegistrationMetadata :: "server \<Rightarrow> (reg_field list \<times> jsval, 'z world_scheme) action" where
  "getRegistrationMetadata srv w =
     bindM (fetchWithTimeout srv
         \<lparr>req_method = ''GET'', req_url = base_url w @ endpoint_url AUTH_REGISTRATION_METADATA,
          req_headers = json_header, req_body = None\<rparr> AUTH_REQUEST_TIMEOUT_MS)
       (\<lambda>r. if \<not> resp_ok r then throw (error_of r ''Unable to load registration metadata'')
        else bindM (lift (resp_json r)) (\<lambda>data. ret (norm_metadata data))) w"

definition registerContestant :: "server \<Rightarrow> jsval \<Rightarrow> (unit, 'z world_scheme) action" where
  "registerContestant srv payload w =
     bindM (fetchWithTimeout srv (plain_post AUTH_REGISTER payload w) AUTH_REQUEST_TIMEOUT_MS)
       (\<lambda>r. if \<not> resp_ok r then throw (error_of r ''Registration failed'') else ret ()) w"

subsection \<open>Logout\<close>

definition logout_request :: "string \<Rightarrow> 'z world_scheme \<Rightarrow> request" where
  "logout_request t w =
     \<lparr>req_method = ''POST'', req_url = base_url w @ endpoint_url AUTH_LOGOUT,
      req_headers = json_header @ [(''Authorization'', ''Bearer '' @ t)], req_body = None\<rparr>"

definition logout :: "server \<Rightarrow> (unit, 'z world_scheme) action" where
  "logout srv w =
     finallyM
       (catchM
         (if isAuthenticated w
          then bindM (fetch srv (logout_request (the (getToken w)) w)) (\<lambda>_. ret ())
          else ret ())
         (\<lambda>_. ret ()))
       clearSession w"

subsection \<open>Rules\<close>

lemma fetchWithTimeout_cases:
  obtains d out where "srv (sent w) q = (d, out)" "ms \<le> d"
    "fetchWithTimeout srv q ms w =
       (Inl (ErrMsg (Str ''Request timed out. Please try again.'')),
        (send q w)\<lparr>clock := clock w + int ms\<rparr>)"
  | d where "srv (sent w) q = (d, NetFail)" "d < ms"
    "fetchWithTimeout srv q ms w = (Inl NetworkError, (send q w)\<lparr>clock := clock w + int d\<rparr>)"
  | d a where "srv (sent w) q = (d, Reply a)" "d < ms"
    "fetchWithTimeout srv q ms w = (Inr a, (send q w)\<lparr>clock := clock w + int d\<rparr>)"
proof (cases "srv (sent w) q")
  case (Pair d out)
  then show ?thesis
    by (cases "ms \<le> d"; cases out) (auto simp: fetchWithTimeout_def receive_def intro: that)
qed

lemma fetchWithTimeout_store:
  "store (snd (fetchWithTimeout srv q ms w)) = store w"
  by (rule fetchWithTimeout_cases [of srv w q ms]) auto

lemma session_clock [simp]:
  "getToken (w\<lparr>clock := t\<rparr>) = getToken w" "getToken (send q w) = getToken w"
  "getUser (w\<lparr>clock := t\<rparr>) = getUser w" "getUser (send q w) = getUser w"
  by (simp_all add: getToken_def getUser_def)

lemma session_eqI: "store w' = store w \<Longrightarrow> getToken w' = getToken w \<and> getUser w' = getUser w"
  by (simp add: getToken_def getUser_def)

lemma fetchWithTimeout_clock:
  "clock w \<le> clock (snd (fetchWithTimeout srv q ms w)) \<and>
   clock (snd (fetchWithTimeout srv q ms w)) \<le> clock w + int ms"
  by (rule fetchWithTimeout_cases [of srv w q ms]) auto

lemma enter_contest_user:
  assumes "enter_contest data w = (r, w')" "getUser w = Inr u"
  shows "r = Inr data \<and> getToken w' = Some (js_string (oget data ''token'')) \<and>
    getUser w' = Inr (if truthy u then set_field ''team'' (team_of_reply data) u else u)"
  using assms by (auto simp: enter_contest_def Let_def)

subsection \<open>Properties\<close>

text \<open>C11: login is all or nothing. It sends one request, and either it throws and local storage is
  untouched, or the answer's headers arrived within the timeout and it returns the reply, whose
  token and user are then both stored; the session is then authenticated, unless the token has the
  empty text.\<close>
theorem login_all_or_nothing:
  "case login srv credentials w of (r, w') \<Rightarrow>
     sent w' = sent w @ [plain_post AUTH_LOGIN credentials w] \<and>
     (case r of
        Inl _ \<Rightarrow> store w' = store w
      | Inr data \<Rightarrow>
          fst (srv (sent w) (plain_post AUTH_LOGIN credentials w)) < AUTH_REQUEST_TIMEOUT_MS \<and>
          truthy (oget data ''generatedToken'') \<and> truthy (oget data ''user'') \<and>
          getToken w' = Some (js_string (oget data ''generatedToken'')) \<and>
          getUser w' = Inr (oget data ''user'') \<and>
          isAuthenticated w' = (js_string (oget data ''generatedToken'') \<noteq> []))"
  by (rule fetchWithTimeout_cases
        [of srv w "plain_post AUTH_LOGIN credentials w" AUTH_REQUEST_TIMEOUT_MS])
     (auto simp: login_def bindM_def get_def setUser_def setToken_def isAuthenticated_def
        token_truthy_def getToken_def getUser_def split: sum.splits)

text \<open>C12: choosing a contest, when the stored user can be read: a failure leaves local storage
  untouched, and a success replaces the token by the reply's and, when a user is stored, replaces
  exactly the user's team. When the stored user is not JSON the choice never succeeds: it throws,
  and either local storage is untouched or a good reply arrived, its token has replaced the stored
  one and nothing else has changed.\<close>
theorem selectContest_effect:
  "case selectContest srv c w of (r, w') \<Rightarrow>
     (case getUser w of
        Inr u \<Rightarrow>
          (case r of
             Inl _ \<Rightarrow> store w' = store w
           | Inr data \<Rightarrow>
               getToken w' = Some (js_string (oget data ''token'')) \<and>
               getUser w' = Inr (if truthy u then set_field ''team'' (team_of_reply data) u else u))
      | Inl e \<Rightarrow>
          (case r of
             Inr _ \<Rightarrow> False
           | Inl e' \<Rightarrow> store w' = store w \<or>
               (\<exists>a result. snd (srv (sent w) (select_request c w)) = Reply a \<and> resp_ok a \<and>
                  resp_json a = Inr result \<and> \<not> nullish (oget result ''data'') \<and> e' = e \<and>
                  store w' = store (setToken (oget (oget result ''data'') ''token'') w))))"
  (is "case _ of (r, w') \<Rightarrow> ?P r w'")
proof (rule fetchWithTimeout_cases [of srv w "select_request c w" AUTH_REQUEST_TIMEOUT_MS])
  fix d a
  let ?w = "(send (select_request c w) w)\<lparr>clock := clock w + int d\<rparr>"
  assume f: "fetchWithTimeout srv (select_request c w) AUTH_REQUEST_TIMEOUT_MS w = (Inr a, ?w)"
    and a: "srv (sent w) (select_request c w) = (d, Reply a)"
  have t: "store (setToken t ?w) = store (setToken t w)" for t
    by (simp add: setToken_def)
  show ?thesis
    by (auto simp: selectContest_def f a t bindM_def get_def enter_contest_def Let_def
        split: sum.splits prod.splits)
qed (auto simp: selectContest_def split: sum.splits)

text \<open>Unlike login, the choice of a contest does not check that the reply carries a token: a
  successful reply without one stores the text \<open>undefined\<close> as the token, and the session still
  counts as authenticated.\<close>
theorem selectContest_without_token:
  assumes "srv (sent w) (select_request c w) = (d, Reply r)" "d < AUTH_REQUEST_TIMEOUT_MS"
    and "resp_ok r" "resp_json r = Inr result" "oget result ''data'' = Obj fs"
    and "field fs ''token'' = Undef" "getUser w = Inr u"
  shows "getToken (snd (selectContest srv c w)) = Some ''undefined'' \<and>
         isAuthenticated (snd (selectContest srv c w))"
proof -
  let ?w = "(send (select_request c w) w)\<lparr>clock := clock w + int d\<rparr>"
  have f: "fetchWithTimeout srv (select_request c w) AUTH_REQUEST_TIMEOUT_MS w = (Inr r, ?w)"
    using assms(1,2) by (simp add: fetchWithTimeout_def receive_def)
  have "get result ''data'' = Inr (Obj fs)"
    using assms(5) by (cases "nullish result") (auto simp: get_def)
  then have "snd (selectContest srv c w) = snd (enter_contest (Obj fs) ?w)"
    using assms(3,4) by (simp add: selectContest_def f bindM_def)
  then show ?thesis
    using assms(6,7) by (simp add: enter_contest_def Let_def isAuthenticated_def token_truthy_def)
qed

theorem selectContest_without_token_witness:
  "getToken (snd (selectContest (\<lambda>_ _. (1, Reply \<lparr>status = 200, body = JBody (Obj [(''data'', Obj [])])\<rparr>)) 3
     \<lparr>store = [], clock = 0, sent = [], path = [], redirect = None, popups = [], fired = [],
      base_url = []\<rparr>)) = Some ''undefined''"
  by (rule selectContest_without_token [where d = 1 and u = Null and fs = "[]"
        and r = "\<lparr>status = 200, body = JBody (Obj [(''data'', Obj [])])\<rparr>"
        and result = "Obj [(''data'', Obj [])]", THEN conjunct1])
     (simp_all add: AUTH_REQUEST_TIMEOUT_MS_def resp_ok_def resp_json_def getUser_def get_item_def)

text \<open>Logout always ends the session: it never throws, local storage is empty afterwards whatever
  the server answers, and a request is sent exactly when a token was stored.\<close>
theorem logout_clears:
  "case logout srv w of (r, w') \<Rightarrow>
     r = Inr () \<and> store w' = clear_storage \<and> \<not> isAuthenticated w' \<and>
     sent w' = sent w @ (if isAuthenticated w then [logout_request (the (getToken w)) w] else [])"
proof (cases "isAuthenticated w")
  case True
  then show ?thesis
    by (rule_tac fetch_cases [of srv w "logout_request (the (getToken w)) w"])
       (auto simp: logout_def finallyM_def catchM_def bindM_def isAuthenticated_def token_truthy_def)
next
  case False
  then show ?thesis
    by (simp add: logout_def finallyM_def catchM_def isAuthenticated_def token_truthy_def)
qed

text \<open>Whatever the server sends as registration metadata, every field the form shows comes from
  an object of the array sent, has a positive identifier, and is required exactly when the object
  says the literal true; a payload that is not an array gives no field.\<close>
theorem norm_metadata_fields:
  "case norm_metadata data of (fs, _) \<Rightarrow>
     (\<forall>f \<in> set fs. rf_id f > 0 \<and>
       (\<exists>x \<in> set (elems (oget (js_nn (oget data ''data'') (Obj [])) ''userFields'')).
          truthy x \<and> typeof_object x \<and> oget x ''id'' = Num (rf_id f) \<and>
          rf_required f = (oget x ''required'' = BoolV True))) \<and>
     (\<not> is_arr (oget (js_nn (oget data ''data'') (Obj [])) ''userFields'') \<longrightarrow> fs = [])"
proof -
  have "rf_id (norm_field x) > 0 \<Longrightarrow> oget x ''id'' = Num (rf_id (norm_field x))" for x
    by (simp add: norm_field_def split: jsval.splits)
  moreover have "rf_required (norm_field x) = (oget x ''required'' = BoolV True)" for x
    by (simp add: norm_field_def)
  ultimately show ?thesis
    by (auto simp: norm_metadata_def Let_def normalizeFields_def)
qed

theorem norm_metadata_fields_witness:
  "map rf_id (fst (norm_metadata (Obj [(''data'', Obj [(''userFields'', Arr [Obj [(''id'', Num 3),
      (''required'', BoolV True)], Num 5, Obj [(''id'', Num 0)]])])]))) = [3]"
  using norm_metadata_fields [of "Obj [(''data'', Obj [(''userFields'', Arr [Obj [(''id'', Num 3),
      (''required'', BoolV True)], Num 5, Obj [(''id'', Num 0)]])])]"]
  by (simp add: norm_metadata_def Let_def normalizeFields_def norm_field_def)

end
