(* ===== verification/Services.thy ===== *)
theory Services
  imports Auth
begin

section \<open>The service classes\<close>

text \<open>
  The classes between the pages and the server: challenge lists and contest access
  (\<open>services/challengeService.ts\<close>), action logs (\<open>actionLogService.ts\<close>), the two scoreboard
  services, the administration of contests (\<open>contestService.ts\<close>), the sanitising wrapper of the
  pop-up library (\<open>safeSwal.ts\<close>) and the time zone helpers (\<open>utils/timezone.ts\<close>). The sanitiser
  and the date library are third-party code: parameters of the definitions that use them.
\<close>

subsection \<open>Challenges\<close>

definition no_access :: jsval where
  "no_access = Obj [(''canAccess'', BoolV False), (''reason'', Str ''not_accessible'')]"

definition getContestAccess :: "server \<Rightarrow> (jsval, 'z world_scheme) action" where
  "getContestAccess srv w =
     catchM (bindM (fetchWithAuth srv (endpoint_url CONFIG_CONTEST_ACCESS) GET_opts) (\<lambda>r.
       if \<not> resp_ok r then ret no_access
       else bindM (lift (resp_json r)) (\<lambda>data.
         if nullish data then throw TypeError
         else ret (Obj [(''canAccess'', BoolV (seq (oget data ''canAccess'') (BoolV True))),
                        (''reason'', js_nn (oget data ''reason'') (Str ''not_accessible''))]))))
       (\<lambda>_. ret no_access) w"

text \<open>\<open>result.data\<close> when it is an array, \<open>result\<close> when that is one, and no element otherwise.\<close>

definition list_of_result :: "jsval \<Rightarrow> exn + jsval list" where
  "list_of_result v =
     (if nullish v then Inl TypeError
      else if truthy (oget v ''data'') \<and> is_arr (oget v ''data'') then Inr (elems (oget v ''data''))
      else if is_arr v then Inr (elems v)
      else Inr [])"

definition get_list :: "server \<Rightarrow> string \<Rightarrow> (jsval list, 'z world_scheme) action" where
  "get_list srv url w =
     catchM (bindM (fetchWithAuth srv url GET_opts) (\<lambda>r.
       bindM (lift (resp_json r)) (\<lambda>result. lift (list_of_result result))))
       (\<lambda>_. ret []) w"

definition getCategories :: "server \<Rightarrow> (jsval list, 'z world_scheme) action" where
  "getCategories srv = get_list srv (endpoint_url CH_BY_TOPIC)"

definition getChallengesByTopic :: "server \<Rightarrow> string \<Rightarrow> (jsval list, 'z world_scheme) action" where
  "getChallengesByTopic srv topic = get_list srv (endpoint_url CH_LIST @ encodeURIComponent topic)"

subsection \<open>Action logs\<close>

definition logAction :: "server \<Rightarrow> jsval \<Rightarrow> jsval \<Rightarrow> jsval \<Rightarrow> (jsval, 'z world_scheme) action" where
  "logAction srv actionType actionDetail challengeId w =
     catchM (bindM (fetchWithAuth srv (endpoint_url ACTION_LOGS_POST)
         (POST_opts (json_clean (Obj [(''actionType'', actionType), (''actionDetail'', actionDetail),
            (''challenge_id'', challengeId)]))))
         (\<lambda>r. lift (resp_json r)))
       (\<lambda>_. ret Null) w"

definition failed_logs :: jsval where
  "failed_logs = Obj [(''success'', BoolV False), (''data'', Arr []),
     (''message'', Str ''Failed to fetch action logs'')]"

definition getTeamActionLogs :: "server \<Rightarrow> (jsval, 'z world_scheme) action" where
  "getTeamActionLogs srv w =
     catchM (bindM (fetchWithAuth srv (endpoint_url ACTION_LOGS_GET) GET_opts) (\<lambda>r.
         if \<not> resp_ok r then throw (ErrMsg (Str ''Failed to fetch action logs''))
         else lift (resp_json r)))
       (\<lambda>_. ret failed_logs) w"

subsection \<open>Scoreboards\<close>

definition bracket_query :: "string \<Rightarrow> jsval \<Rightarrow> string" where
  "bracket_query url b = (if truthy b then url @ ''?bracket_id='' @ js_string b else url)"

definition score_reply :: "string \<Rightarrow> response \<Rightarrow> exn + jsval" where
  "score_reply msg r =
     (if status r = 403 then Inl (VisibilityError ''Scores are currently hidden.'' 403)
      else if status r = 401
      then Inl (VisibilityError ''Scores are private. Please log in to view the scoreboard.'' 401)
      else if \<not> resp_ok r then Inl (ErrMsg (Str msg))
      else case resp_json r of
          Inl e \<Rightarrow> Inl e
        | Inr result \<Rightarrow>
            if nullish result then Inl TypeError
            else if truthy (oget result ''data'') then Inr (oget result ''data'')
            else if truthy (oget result ''success'') \<and> truthy (oget result ''data'')
            then Inr (oget result ''data'')
            else Inr result)"

definition getTopStandings :: "server \<Rightarrow> jsval \<Rightarrow> (jsval, 'z world_scheme) action" where
  "getTopStandings srv b w =
     bindM (fetchWithAuth srv (bracket_query (endpoint_url SB_TOP_STANDINGS) b) GET_opts)
       (\<lambda>r. lift (score_reply ''Failed to fetch scoreboard standings'' r)) w"

definition brackets_reply :: "response \<Rightarrow> exn + jsval" where
  "brackets_reply r =
     (if \<not> resp_ok r then Inr (Arr [])
      else case resp_json r of
          Inl e \<Rightarrow> Inl e
        | Inr result \<Rightarrow> (if nullish result then Inl TypeError else Inr (js_or (oget result ''data'') (Arr []))))"

definition getBrackets :: "server \<Rightarrow> (jsval, 'z world_scheme) action" where
  "getBrackets srv w =
     bindM (fetchWithAuth srv (endpoint_url SB_BRACKETS) GET_opts) (\<lambda>r. lift (brackets_reply r)) w"

definition not_frozen :: jsval where
  "not_frozen = Obj [(''is_frozen'', BoolV False), (''freeze_time'', Null)]"

definition getFreezeStatus :: "server \<Rightarrow> (jsval, 'z world_scheme) action" where
  "getFreezeStatus srv w =
     catchM (bindM (fetchWithAuth srv (endpoint_url SB_FREEZE_STATUS) GET_opts) (\<lambda>r.
       if \<not> resp_ok r then ret not_frozen
       else bindM (lift (resp_json r)) (\<lambda>result.
         if nullish result then throw TypeError
         else ret (Obj [(''is_frozen'', js_nn (oget result ''is_frozen'') (BoolV False)),
                        (''freeze_time'', js_nn (oget result ''freeze_time'') Null)]))))
       (\<lambda>_. ret not_frozen) w"

subsection \<open>The public scoreboard\<close>

text \<open>These requests carry no token, and their paths do not start with \<open>/api\<close>.\<close>

definition plain_get :: "string \<Rightarrow> 'z world_scheme \<Rightarrow> request" where
  "plain_get url w = \<lparr>req_method = ''GET'', req_url = base_url w @ url, req_headers = json_header, req_body = None\<rparr>"

definition getPublicScoreboard :: "server \<Rightarrow> jsval \<Rightarrow> (jsval, 'z world_scheme) action" where
  "getPublicScoreboard srv b w =
     bindM (fetch srv (plain_get (bracket_query ''/scoreboard/top/1000'' b) w))
       (\<lambda>r. lift (score_reply ''Failed to fetch public scoreboard'' r)) w"

definition public_getBrackets :: "server \<Rightarrow> (jsval, 'z world_scheme) action" where
  "public_getBrackets srv w =
     catchM (bindM (fetch srv (plain_get ''/scoreboard/brackets'' w)) (\<lambda>r. lift (brackets_reply r)))
       (\<lambda>_. ret (Arr [])) w"

text \<open>\<open>year t\<close> is \<open>new Date(t).getFullYear()\<close>, which depends on the browser's time zone.\<close>

definition contest_config :: "(int \<Rightarrow> int) \<Rightarrow> jsval \<Rightarrow> int \<Rightarrow> jsval" where
  "contest_config year result now =
     Obj [(''isSuccess'', js_or (oget result ''isSuccess'') (BoolV True)),
          (''message'', js_or (oget result ''message'') (Str [])),
          (''start_date'', oget result ''start_date''), (''end_date'', oget result ''end_date''),
          (''name'', js_or (oget result ''name'') (Str (''FCTF '' @ show_int (year now))))]"

definition default_config :: "(int \<Rightarrow> int) \<Rightarrow> int \<Rightarrow> jsval" where
  "default_config year t =
     (let now = t div 1000
      in Obj [(''isSuccess'', BoolV False), (''message'', Str ''Using default config''),
          (''start_date'', Num (of_int now)), (''end_date'', Num (of_int (now + 12 * 60 * 60))),
          (''name'', Str (''FCTF '' @ show_int (year t)))])"

definition getContestConfig :: "(int \<Rightarrow> int) \<Rightarrow> server \<Rightarrow> (jsval, 'z world_scheme) action" where
  "getContestConfig year srv w =
     catchM (bindM (fetch srv (plain_get ''/Config/get_date_config'' w)) (\<lambda>r.
       if \<not> resp_ok r then throw (ErrMsg (Str ''Failed to fetch contest config''))
       else bindM (lift (resp_json r)) (\<lambda>result w'.
         if nullish result then (Inl TypeError, w')
         else (Inr (contest_config year result (clock w')), w'))))
       (\<lambda>_ w'. (Inr (default_config year (clock w')), w')) w"

subsection \<open>Contests\<close>

definition contest_request :: "string \<Rightarrow> string \<Rightarrow> jsval option \<Rightarrow> 'z world_scheme \<Rightarrow> request" where
  "contest_request meth url b w =
     \<lparr>req_method = meth, req_url = base_url w @ ''/api/Contest'' @ url,
      req_headers = spread json_header (auth_header (getToken w)), req_body = b\<rparr>"

text \<open>The answer's \<open>data\<close>, or the error it reports.\<close>

definition contest_data :: "string \<Rightarrow> response \<Rightarrow> exn + jsval" where
  "contest_data msg r =
     (if \<not> resp_ok r then Inl (error_of r msg)
      else case resp_json r of Inl e \<Rightarrow> Inl e | Inr data \<Rightarrow> get data ''data'')"

definition contest_list :: "string \<Rightarrow> response \<Rightarrow> exn + jsval" where
  "contest_list msg r = map_sum id (\<lambda>v. js_or v (Arr [])) (contest_data msg r)"

definition unauthorized :: "response \<Rightarrow> 'z world_scheme \<Rightarrow> 'z world_scheme" where
  "unauthorized r w = (if \<not> resp_ok r \<and> status r = 401 then goto_login (clearSession w) else w)"

definition getAllContests :: "server \<Rightarrow> (jsval, 'z world_scheme) action" where
  "getAllContests srv w =
     bindM (fetch srv (contest_request ''GET'' [] None w))
       (\<lambda>r w'. (contest_list ''Failed to fetch contests'' r, unauthorized r w')) w"

definition getContestById :: "server \<Rightarrow> int \<Rightarrow> (jsval, 'z world_scheme) action" where
  "getContestById srv i w =
     bindM (fetch srv (contest_request ''GET'' (''/'' @ show_int i) None w))
       (\<lambda>r. lift (contest_data ''Failed to fetch contest'' r)) w"

definition createContest :: "server \<Rightarrow> jsval \<Rightarrow> (jsval, 'z world_scheme) action" where
  "createContest srv payload w =
     bindM (fetch srv (contest_request ''POST'' ''/create'' (Some (json_clean payload)) w))
       (\<lambda>r. lift (contest_data ''Failed to create contest'' r)) w"

definition pullChallengesToContest :: "server \<Rightarrow> int \<Rightarrow> jsval \<Rightarrow> (jsval, 'z world_scheme) action" where
  "pullChallengesToContest srv i payload w =
     bindM (fetch srv (contest_request ''POST'' (''/'' @ show_int i @ ''/pull-challenges'')
         (Some (json_clean payload)) w))
       (\<lambda>r. lift (contest_data ''Failed to pull challenges'' r)) w"

definition importParticipants :: "server \<Rightarrow> int \<Rightarrow> jsval \<Rightarrow> (jsval, 'z world_scheme) action" where
  "importParticipants srv i payload w =
     bindM (fetch srv (contest_request ''POST'' (''/'' @ show_int i @ ''/import-participants'')
         (Some (json_clean payload)) w))
       (\<lambda>r. lift (contest_data ''Failed to import participants'' r)) w"

definition getBankChallenges :: "server \<Rightarrow> (jsval, 'z world_scheme) action" where
  "getBankChallenges srv w =
     bindM (fetch srv (contest_request ''GET'' ''/bank/challenges'' None w))
       (\<lambda>r. lift (contest_list ''Failed to fetch bank challenges'' r)) w"

definition getContestChallenges :: "server \<Rightarrow> int \<Rightarrow> (jsval, 'z world_scheme) action" where
  "getContestChallenges srv i w =
     bindM (fetch srv (contest_request ''GET'' (''/'' @ show_int i @ ''/challenges'') None w))
       (\<lambda>r. lift (contest_list ''Failed to fetch contest challenges'' r)) w"

subsection \<open>Pop-ups\<close>

text \<open>
  \<open>safeFire\<close> computes what the pop-up library is called with; \<open>san\<close> is the sanitiser. An absent
  third argument and \<open>undefined\<close> are the same.
\<close>

definition sanitizeSwalOptions :: "(string \<Rightarrow> string) \<Rightarrow> jsval \<Rightarrow> jsval" where
  "sanitizeSwalOptions san v =
     (if \<not> truthy v \<or> \<not> typeof_object v \<or> is_arr v then v
      else case oget v ''html'' of
          Str s \<Rightarrow> set_field ''html'' (Str (san s)) v
        | _ \<Rightarrow> v)"

fun safeFire :: "(string \<Rightarrow> string) \<Rightarrow> jsval list \<Rightarrow> jsval list" where
  "safeFire san [v] =
     (if typeof_object v \<and> v \<noteq> Null \<and> \<not> is_arr v then [sanitizeSwalOptions san v] else [v])"
| "safeFire san (Str a # Str b # xs) =
     [Str a, Str (san b), (case xs of [] \<Rightarrow> Undef | x # _ \<Rightarrow> x)]"
| "safeFire san vs = vs"

subsection \<open>Time stamps\<close>

text \<open>
  The date library parses a text as a UTC date (\<open>parse_iso s\<close>, None when it is not valid) and makes a
  date of a number of milliseconds (\<open>of_ms\<close>, whose argument is None for \<open>NaN\<close>).
\<close>

definition to_ms :: "rat option \<Rightarrow> rat option" where
  "to_ms t = map_option (\<lambda>x. if x < 10000000000 then x * 1000 else x) t"

definition parseUTCToLocal :: "(string \<Rightarrow> 'd option) \<Rightarrow> (rat option \<Rightarrow> 'd) \<Rightarrow> string + rat \<Rightarrow> 'd" where
  "parseUTCToLocal parse_iso of_ms inp =
     (case inp of
        Inl s \<Rightarrow> (case parse_iso s of Some d \<Rightarrow> d | None \<Rightarrow> of_ms (to_ms (as_num (parseInt s))))
      | Inr x \<Rightarrow> of_ms (to_ms (Some x)))"

definition formatUTCToLocal ::
  "(string \<Rightarrow> 'd option) \<Rightarrow> (rat option \<Rightarrow> 'd) \<Rightarrow> ('d \<Rightarrow> bool) \<Rightarrow> ('d \<Rightarrow> string \<Rightarrow> string) \<Rightarrow> string + rat \<Rightarrow> string \<Rightarrow> string" where
  "formatUTCToLocal parse_iso of_ms valid fmt inp f =
     (let d = parseUTCToLocal parse_iso of_ms inp in if valid d then fmt d f else ''Invalid date'')"

subsection \<open>Rules\<close>

text \<open>What a request through \<open>fetch\<close> or \<open>fetchWithAuth\<close> ends in, as one case split.\<close>

definition access_reply :: "outcome \<Rightarrow> jsval" where
  "access_reply out =
     (case out of NetFail \<Rightarrow> no_access
      | Reply r \<Rightarrow>
          if resp_ok r
          then (case resp_json r of
                  Inl _ \<Rightarrow> no_access
                | Inr data \<Rightarrow>
                    if nullish data then no_access
                    else Obj [(''canAccess'', BoolV (seq (oget data ''canAccess'') (BoolV True))),
                              (''reason'', js_nn (oget data ''reason'') (Str ''not_accessible''))])
          else no_access)"

lemma getContestAccess_result:
  "fst (getContestAccess srv w) =
     Inr (access_reply (snd (srv (sent w) (auth_request (endpoint_url CONFIG_CONTEST_ACCESS) GET_opts w))))"
  by (rule fetchWithAuth_cases [of srv w "endpoint_url CONFIG_CONTEST_ACCESS" GET_opts])
     (auto simp: getContestAccess_def access_reply_def catchM_def bindM_def split: sum.split)

lemma contest_fetch_store:
  "store (snd (bindM (fetch srv q) (\<lambda>r. lift (f r)) w)) = store w"
  by (rule fetch_cases [of srv w q]) (simp_all add: bindM_def)

subsection \<open>Properties\<close>

text \<open>Asking for contest access never throws, and it grants access exactly when the server
  answered with a success status and a JSON value whose \<open>canAccess\<close> is \<open>true\<close>: a failed request, an
  error status and a malformed answer all deny it.\<close>
theorem contest_access_fails_closed:
  "\<exists>v. fst (getContestAccess srv w) = Inr v \<and>
     (oget v ''canAccess'' = BoolV True \<longleftrightarrow>
      (\<exists>d r data. srv (sent w) (auth_request (endpoint_url CONFIG_CONTEST_ACCESS) GET_opts w) = (d, Reply r) \<and>
         resp_ok r \<and> resp_json r = Inr data \<and> oget data ''canAccess'' = BoolV True))"
  by (cases "srv (sent w) (auth_request (endpoint_url CONFIG_CONTEST_ACCESS) GET_opts w)")
     (auto simp: getContestAccess_result access_reply_def no_access_def split: outcome.split sum.split)

text \<open>Of the operations on contests only listing them signs the user out, exactly on an answer
  401; the others leave local storage as it is whatever the server answers, so an expired session
  shows as an error there.\<close>
theorem contests_sign_out:
  "store (snd (getAllContests srv w)) =
     (if \<exists>d r. srv (sent w) (contest_request ''GET'' [] None w) = (d, Reply r) \<and> status r = 401
      then clear_storage else store w) \<and>
   store (snd (getContestById srv i w)) = store w \<and> store (snd (createContest srv p w)) = store w \<and>
   store (snd (pullChallengesToContest srv i p w)) = store w \<and>
   store (snd (importParticipants srv i p w)) = store w \<and>
   store (snd (getBankChallenges srv w)) = store w \<and> store (snd (getContestChallenges srv i w)) = store w"
proof -
  have "store (snd (getAllContests srv w)) =
     (if \<exists>d r. srv (sent w) (contest_request ''GET'' [] None w) = (d, Reply r) \<and> status r = 401
      then clear_storage else store w)"
    by (rule fetch_cases [of srv w "contest_request ''GET'' [] None w"])
       (auto simp: getAllContests_def unauthorized_def resp_ok_def goto_login_def clearSession_def)
  then show ?thesis
    by (simp add: getContestById_def createContest_def pullChallengesToContest_def
        importParticipants_def getBankChallenges_def getContestChallenges_def contest_fetch_store)
qed

text \<open>The public scoreboard's configuration request never throws, and its result says it
  failed only when no usable answer arrived: an answer that reports \<open>isSuccess: false\<close> is turned into
  a success.\<close>
theorem public_config_success:
  "\<exists>v. fst (getContestConfig year srv w) = Inr v \<and>
     (\<not> truthy (oget v ''isSuccess'') \<longleftrightarrow>
      \<not> (\<exists>d r data. srv (sent w) (plain_get ''/Config/get_date_config'' w) = (d, Reply r) \<and>
           resp_ok r \<and> resp_json r = Inr data \<and> \<not> nullish data))"
  by (rule fetch_cases [of srv w "plain_get ''/Config/get_date_config'' w"])
     (auto simp: getContestConfig_def catchM_def bindM_def contest_config_def default_config_def Let_def
        split: sum.split)

text \<open>A pop-up called with one options object gets its \<open>html\<close> text through the sanitiser and every
  other option unchanged; called with a title and a text, the text is sanitised.\<close>
theorem popup_html_sanitised:
  "oget (hd (safeFire san [Obj fs])) k =
     (if k = ''html'' \<and> is_str (field fs k) then Str (san (js_string (field fs k))) else field fs k) \<and>
   length (safeFire san [Obj fs]) = 1 \<and>
   safeFire san [Str title, Str html, icon] = [Str title, Str (san html), icon]"
  by (cases "field fs ''html''") (auto simp: sanitizeSwalOptions_def)

text \<open>A time given in seconds and the same time given in milliseconds yield the same date, for
  every time from 1970-04-26 17:46:40 to 2286-11-20 17:46:39 UTC.\<close>
theorem seconds_and_milliseconds_agree:
  assumes "10000000 \<le> t" and "t < 10000000000"
  shows "parseUTCToLocal parse_iso of_ms (Inr t) = parseUTCToLocal parse_iso of_ms (Inr (t * 1000))"
  using assms by (simp add: parseUTCToLocal_def to_ms_def)

theorem seconds_and_milliseconds_agree_witness:
  "parseUTCToLocal (\<lambda>s. None) id (Inr 1700000000) = parseUTCToLocal (\<lambda>s. None) id (Inr (1700000000 * 1000))"
  by (rule seconds_and_milliseconds_agree) simp_all

end
