(* ===== verification/Paging.thy ===== *)
theory Paging
  imports Prelude
begin

section \<open>Pages of a list\<close>

text \<open>
  Several pages of the portal show a list in slices. The interface \<open>pager\<close> says what a client relies
  on: a page size that is not zero and the slice shown for the page of a given number, counted from 0.
  Its lemmas hold for every such page; each component that shows slices interprets it.
\<close>

text \<open>\<open>Math.ceil(length / size)\<close>.\<close>

definition ceil_div :: "nat \<Rightarrow> nat \<Rightarrow> nat" where
  "ceil_div m n = (m + n - 1) div n"

lemma ceil_div_le: "0 < n \<Longrightarrow> m \<le> n * ceil_div m n"
proof -
  assume n: "0 < n"
  have "m + n - 1 = n * ((m + n - 1) div n) + (m + n - 1) mod n" by simp
  moreover have "(m + n - 1) mod n < n" using n by simp
  ultimately show ?thesis unfolding ceil_div_def using n by linarith
qed

lemma ceil_div_lt: "0 < n \<Longrightarrow> k < ceil_div m n \<Longrightarrow> n * k < m"
proof -
  assume n: "0 < n" and k: "k < ceil_div m n"
  then have "Suc k * n \<le> m + n - 1"
    unfolding ceil_div_def by (metis Suc_leI less_eq_div_iff_mult_less_eq)
  then show ?thesis using n by (simp add: mult.commute)
qed

lemma ceil_div_0 [simp]: "0 < n \<Longrightarrow> ceil_div 0 n = 0"
  by (simp add: ceil_div_def)

lemma ceil_div_pos: "0 < n \<Longrightarrow> 0 < m \<Longrightarrow> 0 < ceil_div m n"
  using ceil_div_le [of n m] by (cases "ceil_div m n") auto

lemma slices_prefix: "concat (map (\<lambda>k. take n (drop (n * k) xs)) [0..<m]) = take (n * m) xs"
proof (induction m)
  case (Suc m)
  then show ?case using take_add [of "n * m" n xs] by (simp add: add.commute)
qed simp

locale pager =
  fixes size :: nat and slice :: "nat \<Rightarrow> 'a list \<Rightarrow> 'a list"
  assumes size: "0 < size"
    and slice: "slice k xs = take size (drop (size * k) xs)"
begin

lemma partition: "concat (map (\<lambda>k. slice k xs) [0..<ceil_div (length xs) size]) = xs"
  using ceil_div_le [OF size] by (simp add: slice slices_prefix)

lemma page_size: "length (slice k xs) \<le> size"
  by (simp add: slice)

lemma page_filled: "k < ceil_div (length xs) size \<Longrightarrow> slice k xs \<noteq> []"
  using ceil_div_lt [OF size, of k "length xs"] size by (simp add: slice)

lemma page_beyond: "ceil_div (length xs) size \<le> k \<Longrightarrow> slice k xs = []"
proof -
  assume "ceil_div (length xs) size \<le> k"
  then have "size * ceil_div (length xs) size \<le> size * k" by simp
  then have "length xs \<le> size * k" using ceil_div_le [OF size, of "length xs"] by linarith
  then show ?thesis by (simp add: slice)
qed

lemma in_some_page: "x \<in> set xs \<longleftrightarrow> (\<exists>k < ceil_div (length xs) size. x \<in> set (slice k xs))"
proof -
  have "set xs = (\<Union>k \<in> {0..<ceil_div (length xs) size}. set (slice k xs))"
    using arg_cong [OF partition [of xs], of set] by simp
  then show ?thesis by (auto simp: Bex_def)
qed

end

end
