(* ===== verification/ChallengeList.thy ===== *)
theory ChallengeList
  imports Services Timers Paging
begin

section \<open>The challenge list\<close>

text \<open>
  The component \<open>Challenges\<close> of \<open>pages/Challenges.tsx\<close>: entering a contest from its URL, categories
  and their challenges, prerequisites, opening a challenge from the list, the URL, a locked
  pop-up or the panel's link, and the pagination. React state is part of the world; a handler
  reads the state of the render it belongs to, so values captured before a request are used after
  it, as the closures of the code do.
\<close>

subsection \<open>State\<close>

text \<open>A prerequisite that is not solved, as the locked pop-up lists it.\<close>

record prereq =
  pr_id :: jsval
  pr_name :: jsval
  pr_category :: jsval

record lworld = tworld +
  c_categories :: "jsval list"
  c_selcat :: jsval
  c_selected :: jsval
  c_loading :: bool
  c_loading_detail :: bool
  c_error :: string
  c_active :: bool
  c_reason :: jsval
  c_prereqs :: "(jsval \<times> prereq list) list"
  c_expanded :: "jsval list"
  c_bycat :: "(jsval \<times> jsval list) list"
  c_loadcats :: "jsval list"
  c_processed :: jsval
  c_params :: "(string \<times> jsval) list"
  c_page :: nat
  c_sidebar :: bool

definition getTeamId :: "'z world_scheme \<Rightarrow> exn + jsval" where
  "getTeamId w = (case getTeam w of Inl e \<Rightarrow> Inl e | Inr t \<Rightarrow> Inr (js_or (oget t ''id'') Null))"

subsection \<open>The contest in the token\<close>

text \<open>\<open>atob\<close>: white space is dropped, up to two padding characters are, and four characters give
  three bytes. Every character outside the alphabet is an error.\<close>

definition b64_val :: "char \<Rightarrow> nat option" where
  "b64_val c =
     (let n = (of_char c :: nat)
      in if 65 \<le> n \<and> n \<le> 90 then Some (n - 65)
         else if 97 \<le> n \<and> n \<le> 122 then Some (n - 71)
         else if 48 \<le> n \<and> n \<le> 57 then Some (n + 4)
         else if n = 43 then Some 62 else if n = 47 then Some 63 else None)"

definition unpad :: "string \<Rightarrow> string" where
  "unpad s =
     (if length s mod 4 = 0
      then (if take 2 (rev s) = ''=='' then take (length s - 2) s
            else if take 1 (rev s) = ''='' then take (length s - 1) s else s)
      else s)"

fun b64_bytes :: "nat list \<Rightarrow> string" where
  "b64_bytes (a # b # c # d # r) =
     char_of (a * 4 + b div 16) # char_of ((b mod 16) * 16 + c div 4) # char_of ((c mod 4) * 64 + d) # b64_bytes r"
| "b64_bytes [a, b, c] = [char_of (a * 4 + b div 16), char_of ((b mod 16) * 16 + c div 4)]"
| "b64_bytes [a, b] = [char_of (a * 4 + b div 16)]"
| "b64_bytes _ = []"

definition atob :: "string \<Rightarrow> string option" where
  "atob s =
     (let t = unpad (filter (\<lambda>c. (of_char c :: nat) \<notin> set [9, 10, 12, 13, 32]) s)
      in if length t mod 4 = 1 \<or> \<not> list_all (\<lambda>c. b64_val c \<noteq> None) t then None
         else Some (b64_bytes (map (\<lambda>c. the (b64_val c)) t)))"

text \<open>\<open>parseInt(payload.contestId) || 0\<close> of the token's second part, and 0 when anything fails.\<close>

definition num_or_zero :: "jsval \<Rightarrow> int" where
  "num_or_zero v = (case v of Num q \<Rightarrow> \<lfloor>q\<rfloor> | _ \<Rightarrow> 0)"

definition contest_of_token :: "string \<Rightarrow> int" where
  "contest_of_token t =
     (let part = (case split_on (CHR ''.'') t of _ # p # _ \<Rightarrow> p | _ \<Rightarrow> ''undefined'')
      in case atob part of
           None \<Rightarrow> 0
         | Some s \<Rightarrow>
             (case parse_text s of
                Inl _ \<Rightarrow> 0
              | Inr v \<Rightarrow> if nullish v then 0
                  else num_or_zero (parseInt (js_string (oget v ''contestId'')))))"

definition getContestIdFromToken :: "'z world_scheme \<Rightarrow> int" where
  "getContestIdFromToken w =
     (case getToken w of None \<Rightarrow> 0 | Some t \<Rightarrow> if t = [] then 0 else contest_of_token t)"

subsection \<open>Prerequisites\<close>

definition detail_url :: "jsval \<Rightarrow> string" where
  "detail_url i = ''/api/Challenge/'' @ js_string i"

text \<open>\<open>for (const x of v)\<close>\<close>

fun iterate :: "jsval \<Rightarrow> exn + jsval list" where
  "iterate (Arr xs) = Inr xs"
| "iterate (Str s) = Inr (map (\<lambda>c. Str [c]) s)"
| "iterate _ = Inl TypeError"

text \<open>The request of a challenge's details; \<open>detail_json\<close> is what the code then does with its answer.\<close>

definition detail_json :: "server \<Rightarrow> jsval \<Rightarrow> (jsval, 'z world_scheme) action" where
  "detail_json srv i =
     bindM (fetchWithAuth srv (detail_url i) GET_opts) (\<lambda>r. lift (resp_json r))"

definition unmet_of :: "jsval \<Rightarrow> jsval \<Rightarrow> prereq list" where
  "unmet_of i data =
     (let d = oget data ''data''
      in if truthy d \<and> \<not> truthy (oget d ''solve_by_myteam'')
         then [\<lparr>pr_id = i, pr_name = js_or (oget d ''name'') (Str (''Challenge '' @ js_string i)),
                pr_category = js_or (oget d ''category'') (Str [])\<rparr>]
         else [])"

fun prereq_loop :: "server \<Rightarrow> jsval list \<Rightarrow> 'z world_scheme \<Rightarrow> prereq list \<times> 'z world_scheme" where
  "prereq_loop srv [] w = ([], w)"
| "prereq_loop srv (i # ids) w =
     (case detail_json srv i w of
        (Inl _, w1) \<Rightarrow> prereq_loop srv ids w1
      | (Inr data, w1) \<Rightarrow> (case prereq_loop srv ids w1 of (ps, w2) \<Rightarrow> (unmet_of i data @ ps, w2)))"

definition checkPrerequisites :: "server \<Rightarrow> jsval \<Rightarrow> (prereq list, 'z world_scheme) action" where
  "checkPrerequisites srv ch w =
     (if nullish ch then (Inl TypeError, w)
      else let ps = oget (oget ch ''requirements'') ''prerequisites''
      in if \<not> truthy ps \<or> seq (oget ps ''length'') (Num 0) then (Inr [], w)
         else case iterate ps of
             Inl e \<Rightarrow> (Inl e, w)
           | Inr ids \<Rightarrow> (case prereq_loop srv ids w of (us, w') \<Rightarrow> (Inr us, w')))"

fun prereq_map :: "server \<Rightarrow> jsval list \<Rightarrow> (jsval \<times> prereq list) list \<Rightarrow> ((jsval \<times> prereq list) list, 'z world_scheme) action" where
  "prereq_map srv [] m w = (Inr m, w)"
| "prereq_map srv (ch # chs) m w =
     (if nullish ch then (Inl TypeError, w)
      else if truthy (oget (oget ch ''requirements'') ''prerequisites'')
      then bindM (checkPrerequisites srv ch)
             (\<lambda>us. prereq_map srv chs (if us \<noteq> [] then AList.update (oget ch ''id'') us m else m)) w
      else prereq_map srv chs m w)"

definition loadPrerequisitesInfo :: "server \<Rightarrow> jsval list \<Rightarrow> (unit, 'z lworld_scheme) action" where
  "loadPrerequisitesInfo srv chs =
     bindM (prereq_map srv chs []) (\<lambda>m. upd (\<lambda>w. w\<lparr>c_prereqs := fold (\<lambda>(k, v). AList.update k v) m (c_prereqs w)\<rparr>))"

subsection \<open>Loading a category\<close>

definition parse_requirements :: "jsval \<Rightarrow> exn + jsval" where
  "parse_requirements ch =
     (if nullish ch then Inl TypeError
      else case oget ch ''requirements'' of
          Str s \<Rightarrow>
            (if s = [] then Inr ch
             else case parse_text s of
                 Inr v \<Rightarrow> Inr (set_field ''requirements'' v ch)
               | Inl _ \<Rightarrow> Inr (set_field ''requirements'' Null ch))
        | _ \<Rightarrow> Inr ch)"

fun map_exn :: "('a \<Rightarrow> exn + 'b) \<Rightarrow> 'a list \<Rightarrow> exn + 'b list" where
  "map_exn f [] = Inr []"
| "map_exn f (x # xs) =
     (case f x of Inl e \<Rightarrow> Inl e
      | Inr y \<Rightarrow> (case map_exn f xs of Inl e \<Rightarrow> Inl e | Inr ys \<Rightarrow> Inr (y # ys)))"

definition add_loading :: "jsval \<Rightarrow> 'z lworld_scheme \<Rightarrow> 'z lworld_scheme" where
  "add_loading cat w = w\<lparr>c_loadcats := List.insert cat (c_loadcats w)\<rparr>"

definition del_loading :: "jsval \<Rightarrow> 'z lworld_scheme \<Rightarrow> 'z lworld_scheme" where
  "del_loading cat w = w\<lparr>c_loadcats := removeAll cat (c_loadcats w)\<rparr>"

definition fetchChallenges :: "server \<Rightarrow> jsval \<Rightarrow> (jsval list, 'z lworld_scheme) action" where
  "fetchChallenges srv cat w =
     catchM (bindM (upd (add_loading cat)) (\<lambda>_.
       bindM (getChallengesByTopic srv (js_string cat)) (\<lambda>data.
       bindM (lift (map_exn parse_requirements data)) (\<lambda>chs.
       bindM (upd (\<lambda>w. w\<lparr>c_bycat := AList.update cat chs (c_bycat w)\<rparr>)) (\<lambda>_.
       bindM (loadPrerequisitesInfo srv chs) (\<lambda>_.
       bindM (upd (del_loading cat)) (\<lambda>_. ret chs)))))))
     (\<lambda>_. bindM (upd (del_loading cat)) (\<lambda>_. ret [])) w"

definition expand :: "jsval \<Rightarrow> 'z lworld_scheme \<Rightarrow> 'z lworld_scheme" where
  "expand cat w = w\<lparr>c_expanded := List.insert cat (c_expanded w)\<rparr>"

definition collapse :: "jsval \<Rightarrow> 'z lworld_scheme \<Rightarrow> 'z lworld_scheme" where
  "collapse cat w = w\<lparr>c_expanded := removeAll cat (c_expanded w)\<rparr>"

definition handleCategoryClick :: "server \<Rightarrow> jsval \<Rightarrow> (unit, 'z lworld_scheme) action" where
  "handleCategoryClick srv cat w =
     bindM (if cat \<in> set (c_expanded w) then upd (collapse cat)
            else bindM (upd (expand cat)) (\<lambda>_.
              if map_of (c_bycat w) cat = None
              then bindM (fetchChallenges srv cat) (\<lambda>_. ret ()) else ret ()))
       (\<lambda>_. upd (\<lambda>w. w\<lparr>c_selcat := cat, c_processed := Null\<rparr>)) w"

subsection \<open>Opening a challenge\<close>

definition can_view :: "'z lworld_scheme \<Rightarrow> bool" where
  "can_view w = (c_active w \<or> seq (c_reason w) (Str ''ended_view_allowed''))"

text \<open>\<open>{...data.data, value, solves, requirements}\<close> with the three fields of the listed challenge.\<close>

definition merge_detail :: "jsval \<Rightarrow> jsval \<Rightarrow> jsval" where
  "merge_detail d ch =
     set_field ''requirements'' (oget ch ''requirements'')
       (set_field ''solves'' (oget ch ''solves'')
         (set_field ''value'' (oget ch ''value'') (Obj (obj_fields d))))"

definition set_params :: "(string \<times> jsval) list \<Rightarrow> 'z lworld_scheme \<Rightarrow> 'z lworld_scheme" where
  "set_params ps w = w\<lparr>c_params := ps\<rparr>"

definition set_selected :: "jsval \<Rightarrow> 'z lworld_scheme \<Rightarrow> 'z lworld_scheme" where
  "set_selected v w = w\<lparr>c_selected := v\<rparr>"

definition detail_loading :: "bool \<Rightarrow> 'z lworld_scheme \<Rightarrow> 'z lworld_scheme" where
  "detail_loading b w = w\<lparr>c_loading_detail := b\<rparr>"

definition hidden_popup :: "response \<Rightarrow> 'z world_scheme \<Rightarrow> 'z world_scheme" where
  "hidden_popup r w =
     (if status r = 403 \<or> status r = 404
      then show_popup ''Challenge is hidden or locked by requirement rules.'' [] w else w)"

text \<open>
  Requesting the details and selecting the challenge. \<open>denied\<close> is what else happens when the
  answer is an error, \<open>failed\<close> what happens when the request or the reading of its answer throws.
\<close>

definition load_detail ::
  "server \<Rightarrow> jsval \<Rightarrow> ('z lworld_scheme \<Rightarrow> 'z lworld_scheme) \<Rightarrow> ('z lworld_scheme \<Rightarrow> 'z lworld_scheme) \<Rightarrow>
   (unit, 'z lworld_scheme) action" where
  "load_detail srv ch denied failed w =
     finallyM (catchM
       (bindM (fetchWithAuth srv (detail_url (oget ch ''id'')) GET_opts) (\<lambda>r.
          if \<not> resp_ok r then upd (denied \<circ> hidden_popup r)
          else bindM (lift (resp_json r)) (\<lambda>data.
            if nullish data then throw TypeError
            else upd (set_selected (merge_detail (oget data ''data'') ch)))))
       (\<lambda>_. upd failed)) (detail_loading False) (detail_loading True w)"

definition locked_popup :: "prereq list \<Rightarrow> 'z world_scheme \<Rightarrow> 'z world_scheme" where
  "locked_popup us w =
     show_popup ''Challenge Locked''
       (map (\<lambda>p. Arr [pr_id p, pr_name p, pr_category p]) us) w"

text \<open>\<open>view\<close> and \<open>cat\<close> are the render's \<open>canViewChallenges\<close> and \<open>selectedCategory\<close>.\<close>

definition click_internal :: "server \<Rightarrow> bool \<Rightarrow> jsval \<Rightarrow> jsval \<Rightarrow> (unit, 'z lworld_scheme) action" where
  "click_internal srv view cat ch w =
     (if \<not> view then (Inr (), w)
      else bindM (checkPrerequisites srv ch) (\<lambda>us.
        if us \<noteq> [] then upd (locked_popup us)
        else load_detail srv ch (set_params [(''category'', cat)]) id) w)"

definition handleChallengeClickInternal :: "server \<Rightarrow> jsval \<Rightarrow> (unit, 'z lworld_scheme) action" where
  "handleChallengeClickInternal srv ch w = click_internal srv (can_view w) (c_selcat w) ch w"

definition handleChallengeClick :: "server \<Rightarrow> jsval \<Rightarrow> (unit, 'z lworld_scheme) action" where
  "handleChallengeClick srv ch w =
     (let w1 = w\<lparr>c_processed := Null\<rparr>
      in if nullish (oget ch ''id'') then (Inl TypeError, w1)
         else handleChallengeClickInternal srv ch
           (set_params [(''category'', c_selcat w), (''challenge'', Str (js_string (oget ch ''id'')))] w1))"


text \<open>The panel's link to another challenge: the loaded categories first, then the others in order.\<close>

fun search_loaded :: "jsval \<Rightarrow> (jsval \<times> jsval list) list \<Rightarrow> (jsval \<times> jsval) option" where
  "search_loaded i [] = None"
| "search_loaded i ((cat, chs) # m) =
     (case find (\<lambda>c. seq (oget c ''id'') i) chs of Some ch \<Rightarrow> Some (ch, cat) | None \<Rightarrow> search_loaded i m)"

fun search_categories ::
  "server \<Rightarrow> jsval \<Rightarrow> (jsval \<times> jsval list) list \<Rightarrow> jsval list \<Rightarrow> ((jsval \<times> jsval) option, 'z lworld_scheme) action" where
  "search_categories srv i loaded [] w = (Inr None, w)"
| "search_categories srv i loaded (c # cs) w =
     (if nullish c then (Inl TypeError, w)
      else let cat = oget c ''topic_name''
      in bindM (case map_of loaded cat of Some chs \<Rightarrow> ret chs | None \<Rightarrow> fetchChallenges srv cat) (\<lambda>chs.
           case find (\<lambda>c. seq (oget c ''id'') i) chs of
             Some ch \<Rightarrow> ret (Some (ch, cat))
           | None \<Rightarrow> search_categories srv i loaded cs) w)"

definition handleNavigateToChallenge :: "server \<Rightarrow> jsval \<Rightarrow> (unit, 'z lworld_scheme) action" where
  "handleNavigateToChallenge srv i w =
     bindM (case search_loaded i (c_bycat w) of
              Some x \<Rightarrow> ret (Some x)
            | None \<Rightarrow> search_categories srv i (c_bycat w) (c_categories w))
       (\<lambda>found. case found of
          None \<Rightarrow> upd (show_popup ''Challenge not found'' [])
        | Some (ch, cat) \<Rightarrow>
            if \<not> truthy ch \<or> \<not> truthy cat then upd (show_popup ''Challenge not found'' [])
            else bindM (upd (\<lambda>w. set_params [(''category'', cat), (''challenge'', Str (js_string (oget ch ''id'')))]
                               ((expand cat w)\<lparr>c_selcat := cat, c_processed := Null\<rparr>)))
                   (\<lambda>_. click_internal srv (can_view w) (c_selcat w) ch)) w"

definition close_panel :: "'z lworld_scheme \<Rightarrow> 'z lworld_scheme" where
  "close_panel w = set_params [(''category'', c_selcat w)] (set_selected Null w)"

subsection \<open>Refreshing\<close>

definition refresh_detail :: "server \<Rightarrow> jsval \<Rightarrow> (unit, 'z lworld_scheme) action" where
  "refresh_detail srv sel =
     catchM (bindM (fetchWithAuth srv (detail_url (oget sel ''id'')) GET_opts) (\<lambda>r.
       if \<not> resp_ok r
       then upd (if status r = 403 \<or> status r = 404 then set_selected Null else id)
       else bindM (lift (resp_json r)) (\<lambda>data.
         if nullish data then throw TypeError
         else upd (set_selected (set_field ''pod_status'' (oget data ''pod_status'')
                (merge_detail (oget data ''data'') sel))))))
     (\<lambda>_. ret ())"

definition refreshChallengeData :: "server \<Rightarrow> (unit, 'z lworld_scheme) action" where
  "refreshChallengeData srv w =
     bindM (if truthy (c_selcat w) \<and> c_selcat w \<in> set (c_expanded w)
            then bindM (fetchChallenges srv (c_selcat w)) (\<lambda>_. ret ()) else ret ())
       (\<lambda>_. if truthy (c_selected w) then refresh_detail srv (c_selected w) else ret ()) w"

subsection \<open>Entering the page\<close>

text \<open>\<open>data.find(c => c.topic_name === p)\<close> throws at a null element before the one it looks for.\<close>

fun has_topic :: "jsval list \<Rightarrow> jsval \<Rightarrow> exn + bool" where
  "has_topic [] p = Inr False"
| "has_topic (c # cs) p =
     (if nullish c then Inl TypeError
      else if seq (oget c ''topic_name'') p then Inr True else has_topic cs p)"

definition initial_category :: "jsval list \<Rightarrow> jsval \<Rightarrow> exn + jsval" where
  "initial_category cats p =
     (case (if truthy p then has_topic cats p else Inr False) of
        Inl e \<Rightarrow> Inl e
      | Inr True \<Rightarrow> Inr p
      | Inr False \<Rightarrow> get (hd cats) ''topic_name'')"

definition param :: "string \<Rightarrow> 'z lworld_scheme \<Rightarrow> jsval" where
  "param k w = (case map_of (c_params w) k of None \<Rightarrow> Null | Some v \<Rightarrow> v)"

definition set_error :: "string \<Rightarrow> 'z lworld_scheme \<Rightarrow> 'z lworld_scheme" where
  "set_error m w = w\<lparr>c_error := m, c_loading := False\<rparr>"

definition url_contest :: "string option \<Rightarrow> int" where
  "url_contest p = (case p of None \<Rightarrow> 0 | Some s \<Rightarrow> if s = [] then 0 else num_or_zero (parseInt s))"

text \<open>Everything after the contest has been selected.\<close>

definition load_contest :: "server \<Rightarrow> (unit, 'z lworld_scheme) action" where
  "load_contest srv w =
     catchM (bindM (getContestAccess srv) (\<lambda>access.
       bindM (upd (\<lambda>w. w\<lparr>c_active := seq (oget access ''reason'') (Str ''active''),
                          c_reason := oget access ''reason''\<rparr>)) (\<lambda>_.
       bindM (getCategories srv) (\<lambda>data.
       bindM (upd (\<lambda>w. w\<lparr>c_categories := data\<rparr>)) (\<lambda>_.
       bindM (if data = [] then ret ()
              else bindM (lift (initial_category data (param ''category'' w))) (\<lambda>cat.
                bindM (upd (\<lambda>w. w\<lparr>c_selcat := cat, c_expanded := [cat]\<rparr>)) (\<lambda>_.
                bindM (fetchChallenges srv cat) (\<lambda>_. ret ()))))
         (\<lambda>_. upd (\<lambda>w. w\<lparr>c_loading := False\<rparr>)))))))
     (\<lambda>_. upd (set_error ''Failed to load challenges. Please try again later.'')) w"

definition mount_page :: "server \<Rightarrow> string option \<Rightarrow> (unit, 'z lworld_scheme) action" where
  "mount_page srv urlParam w =
     (let w1 = w\<lparr>c_loading := True\<rparr>;
          u = url_contest urlParam
      in if u > 0 \<and> u \<noteq> getContestIdFromToken w1
         then (case selectContest srv u w1 of
                 (Inl _, w2) \<Rightarrow>
                   (Inr (), set_error ''Cannot access this contest. Please make sure you are registered.'' w2)
               | (Inr _, w2) \<Rightarrow> load_contest srv w2)
         else load_contest srv w1)"

text \<open>
  Opening the challenge the URL names. The list of the category is the one of the render the
  effect belongs to: when it is not loaded yet the effect only loads it, and runs again with the
  next render.
\<close>

definition url_effect :: "server \<Rightarrow> (unit, 'z lworld_scheme) action" where
  "url_effect srv w =
     (let chp = param ''challenge'' w; cat = param ''category'' w; i = parseInt10 (js_string chp)
      in if \<not> truthy chp \<or> \<not> truthy cat \<or> truthy (c_selected w) \<or> c_loading_detail w \<or> i = NaN \<or>
            seq (c_processed w) i
         then (Inr (), w)
         else let w1 = expand cat w
         in case map_of (c_bycat w) cat of
              None \<Rightarrow> bindM (fetchChallenges srv cat) (\<lambda>_. ret ()) w1
            | Some chs \<Rightarrow>
                (case find (\<lambda>c. seq (oget c ''id'') i) chs of
                   None \<Rightarrow> (Inr (), w1)
                 | Some ch \<Rightarrow> handleChallengeClickInternal srv ch (w1\<lparr>c_processed := i\<rparr>)))"

subsection \<open>What is shown\<close>

definition categories_per_page :: nat where "categories_per_page = 10"

definition page_slice :: "nat \<Rightarrow> 'a list \<Rightarrow> 'a list" where
  "page_slice p xs = take (p * categories_per_page - (p - 1) * categories_per_page)
     (drop ((p - 1) * categories_per_page) xs)"

definition total_pages :: "'a list \<Rightarrow> nat" where
  "total_pages xs = (length xs + categories_per_page - 1) div categories_per_page"

datatype banner = No_banner | View_only | Not_active jsval

definition page_banner :: "'z lworld_scheme \<Rightarrow> banner" where
  "page_banner w =
     (if seq (c_reason w) (Str ''ended_view_allowed'') then View_only
      else if \<not> c_active w then Not_active (c_reason w) else No_banner)"

text \<open>The pages a pagination offers: None stands for the dots.\<close>

definition getPageNumbers :: "int \<Rightarrow> int \<Rightarrow> int option list" where
  "getPageNumbers cur n =
     (if n \<le> 7 then map Some [1..n]
      else [Some 1] @ (if cur > 3 then [None] else []) @
           map Some [max 2 (cur - 1)..min (n - 1) (cur + 1)] @
           (if cur < n - 2 then [None] else []) @ [Some n])"

definition prev_page :: "int \<Rightarrow> int" where "prev_page cur = (if cur > 1 then cur - 1 else cur)"

definition next_page :: "int \<Rightarrow> int \<Rightarrow> int" where
  "next_page n cur = (if cur < n then cur + 1 else cur)"

definition shown_range :: "int \<Rightarrow> int \<Rightarrow> int \<Rightarrow> int \<times> int" where
  "shown_range cur per n = (if n \<noteq> 0 then ((cur - 1) * per + 1, min (cur * per) n) else (0, 0))"

text \<open>Whether a list item shows its challenge as being deployed.\<close>

definition item_deploying :: "jsval \<Rightarrow> 'z world_scheme \<Rightarrow> exn + jsval" where
  "item_deploying ch w =
     (case get_item (store w) (''deployment_'' @ js_string (oget ch ''id'')) of
        None \<Rightarrow> Inr (BoolV False)
      | Some it \<Rightarrow>
          if \<not> item_truthy it then Inr (BoolV False)
          else case json_parse it of
              Inl e \<Rightarrow> Inl e
            | Inr v \<Rightarrow>
                if nullish v then Inl TypeError
                else if \<not> truthy (oget v ''isDeploying'') then Inr (oget v ''isDeploying'')
                else Inr (BoolV (num_gt (Some 120)
                  (map_option (\<lambda>t. (of_int (clock w) - t) / 1000) (as_num (oget v ''startTime''))))))"

definition item_click :: "server \<Rightarrow> jsval \<Rightarrow> (unit, 'z lworld_scheme) action" where
  "item_click srv ch w = (if can_view w then handleChallengeClick srv ch w else (Inr (), w))"

subsection \<open>Rules: what requests leave alone\<close>

text \<open>A request changes the page's world but no component's state.\<close>

lemma more_fields:
  assumes "world.more w' = world.more w"
  shows "c_categories w' = c_categories w" "c_selcat w' = c_selcat w" "c_selected w' = c_selected w"
    "c_loading w' = c_loading w" "c_loading_detail w' = c_loading_detail w" "c_error w' = c_error w"
    "c_active w' = c_active w" "c_reason w' = c_reason w" "c_prereqs w' = c_prereqs w"
    "c_expanded w' = c_expanded w" "c_bycat w' = c_bycat w" "c_loadcats w' = c_loadcats w"
    "c_processed w' = c_processed w" "c_params w' = c_params w"
  using assms by (cases w; cases w'; simp)+

lemma detail_json_more: "world.more (snd (detail_json srv i w)) = world.more w"
  by (rule fetchWithAuth_cases [of srv w "detail_url i" GET_opts])
     (simp_all add: detail_json_def bindM_def)

lemma prereq_loop_more: "world.more (snd (prereq_loop srv ids w)) = world.more w"
proof (induction ids arbitrary: w)
  case (Cons i ids)
  obtain x w1 where d: "detail_json srv i w = (x, w1)" by (cases "detail_json srv i w")
  have "world.more w1 = world.more w" using detail_json_more [of srv i w] d by simp
  then show ?case using Cons.IH [of w1] d by (cases x) (simp_all add: case_prod_unfold)
qed simp

lemma checkPrerequisites_more: "world.more (snd (checkPrerequisites srv ch w)) = world.more w"
  using prereq_loop_more [of srv _ w]
  by (simp add: checkPrerequisites_def Let_def case_prod_unfold split: sum.split)

lemma get_list_more: "world.more (snd (get_list srv url w)) = world.more w"
  by (rule fetchWithAuth_cases [of srv w url GET_opts])
     (auto simp: get_list_def bindM_def catchM_def split: sum.split)

lemma get_list_result:
  obtains xs w' where "get_list srv url w = (Inr xs, w')" "world.more w' = world.more w"
proof -
  have "\<exists>xs. fst (get_list srv url w) = Inr xs"
    by (rule fetchWithAuth_cases [of srv w url GET_opts])
       (auto simp: get_list_def bindM_def catchM_def split: sum.split)
  then show ?thesis
    using that get_list_more [of srv url w] by (metis prod.collapse)
qed

lemma prereq_map_more: "world.more (snd (prereq_map srv chs m w)) = world.more w"
proof (induction chs arbitrary: m w)
  case (Cons ch chs)
  obtain x w1 where d: "checkPrerequisites srv ch w = (x, w1)" by (cases "checkPrerequisites srv ch w")
  have "world.more w1 = world.more w" using checkPrerequisites_more [of srv ch w] d by simp
  then show ?case using Cons.IH d by (cases x) (auto simp: bindM_def)
qed simp

subsection \<open>Rules: loading a category\<close>

lemma bindM_Inr:
  assumes "bindM m k w = (Inr x, w')"
  obtains y w1 where "m w = (Inr y, w1)" "k y w1 = (Inr x, w')"
  using assms by (cases "m w"; cases "fst (m w)") (auto simp: bindM_def)

text \<open>Loading a category only ever adds unsolved prerequisites.\<close>

lemma map_of_update: "map_of (AList.update k v m) j = (if j = k then Some v else map_of m j)"
  by (simp add: update_conv')

lemma update_values: "x \<in> snd ` set (AList.update k v m) \<Longrightarrow> x = v \<or> x \<in> snd ` set m"
  by (induction m) (auto split: if_splits)

lemma prereq_map_values:
  "prereq_map srv chs m w = (Inr m', w') \<Longrightarrow> [] \<notin> snd ` set m \<Longrightarrow> [] \<notin> snd ` set m'"
proof (induction chs arbitrary: m w)
  case (Cons ch chs)
  show ?case
  proof (cases "truthy (oget (oget ch ''requirements'') ''prerequisites'') \<and> \<not> nullish ch")
    case True
    then obtain us w1 where "prereq_map srv chs (if us \<noteq> [] then AList.update (oget ch ''id'') us m else m) w1 = (Inr m', w')"
      using Cons.prems(1) by (auto elim: bindM_Inr)
    moreover have "[] \<notin> snd ` set (if us \<noteq> [] then AList.update (oget ch ''id'') us m else m)"
      using Cons.prems(2) update_values [of "[]" "oget ch ''id''" us m] by auto
    ultimately show ?thesis by (rule Cons.IH)
  next
    case False
    then have "prereq_map srv chs m w = (Inr m', w')"
      using Cons.prems(1) by (cases "nullish ch") simp_all
    then show ?thesis using Cons.IH Cons.prems(2) by blast
  qed
qed simp

lemma merged_stays:
  "[] \<notin> snd ` set m \<Longrightarrow> map_of ps k = Some us \<Longrightarrow> us \<noteq> [] \<Longrightarrow>
   \<exists>vs. map_of (fold (\<lambda>(k, v). AList.update k v) m ps) k = Some vs \<and> vs \<noteq> []"
proof (induction m arbitrary: ps us)
  case (Cons p m)
  obtain j v where p: "p = (j, v)" by (cases p)
  show ?case
    using Cons.IH [of "AList.update j v ps"] Cons.prems p by (cases "j = k") (auto simp: map_of_update)
qed simp

definition prereqs_grow :: "'z lworld_scheme \<Rightarrow> 'z lworld_scheme \<Rightarrow> bool" where
  "prereqs_grow w w' = (\<exists>m. [] \<notin> snd ` set m \<and>
     c_prereqs w' = fold (\<lambda>(k, v). AList.update k v) m (c_prereqs w))"

lemma prereqs_grow_same: "c_prereqs w' = c_prereqs w \<Longrightarrow> prereqs_grow w w'"
  unfolding prereqs_grow_def by (rule exI [of _ "[]"]) simp

lemma prereqs_growD:
  "prereqs_grow w w' \<Longrightarrow> map_of (c_prereqs w) k = Some us \<Longrightarrow> us \<noteq> [] \<Longrightarrow>
   \<exists>vs. map_of (c_prereqs w') k = Some vs \<and> vs \<noteq> []"
  unfolding prereqs_grow_def using merged_stays by fastforce

lemma loadPrerequisitesInfo_result:
  obtains e w1 where "loadPrerequisitesInfo srv chs w = (Inl e, w1)" "world.more w1 = world.more w"
  | m w1 where "loadPrerequisitesInfo srv chs w = (Inr (), w1\<lparr>c_prereqs := m\<rparr>)" "world.more w1 = world.more w"
      "prereqs_grow w (w1\<lparr>c_prereqs := m\<rparr>)"
proof -
  obtain x w1 where d: "prereq_map srv chs [] w = (x, w1)" by (cases "prereq_map srv chs [] w")
  have m: "world.more w1 = world.more w" using prereq_map_more [of srv chs "[]" w] d by simp
  show ?thesis
  proof (cases x)
    case (Inl e)
    then show ?thesis using that(1) d m by (simp add: loadPrerequisitesInfo_def)
  next
    case (Inr ps)
    let ?m = "fold (\<lambda>(k, v). AList.update k v) ps (c_prereqs w)"
    have "[] \<notin> snd ` set ps" using prereq_map_values [of srv chs "[]" w ps w1] d Inr by simp
    then have "prereqs_grow w (w1\<lparr>c_prereqs := ?m\<rparr>)" by (auto simp: prereqs_grow_def)
    moreover have "loadPrerequisitesInfo srv chs w = (Inr (), w1\<lparr>c_prereqs := ?m\<rparr>)"
      using d Inr more_fields(9) [OF m] by (simp add: loadPrerequisitesInfo_def)
    ultimately show ?thesis using that(2) m by blast
  qed
qed

definition list_frame :: "'z lworld_scheme \<Rightarrow> 'z lworld_scheme \<Rightarrow> bool" where
  "list_frame w w' = (c_categories w' = c_categories w \<and> c_selcat w' = c_selcat w \<and>
     c_selected w' = c_selected w \<and> c_loading w' = c_loading w \<and>
     c_loading_detail w' = c_loading_detail w \<and> c_error w' = c_error w \<and> c_active w' = c_active w \<and>
     c_reason w' = c_reason w \<and> c_expanded w' = c_expanded w \<and> c_processed w' = c_processed w \<and>
     c_params w' = c_params w)"

lemma more_frame: "world.more w' = world.more w \<Longrightarrow> list_frame w w'"
  using more_fields [of w' w] by (simp add: list_frame_def)

lemma list_frame_trans: "list_frame u v \<Longrightarrow> list_frame v w \<Longrightarrow> list_frame u w"
  by (simp add: list_frame_def)

lemma list_frame_upd [simp]:
  "list_frame w (add_loading cat v) = list_frame w v" "list_frame w (del_loading cat v) = list_frame w v"
  "list_frame w (v\<lparr>c_bycat := m\<rparr>) = list_frame w v" "list_frame w (v\<lparr>c_prereqs := ps\<rparr>) = list_frame w v"
  "list_frame (add_loading cat w) v = list_frame w v" "list_frame (w\<lparr>c_bycat := m\<rparr>) v = list_frame w v"
  by (simp_all add: list_frame_def add_loading_def del_loading_def)

lemma loading_simps [simp]:
  "c_loadcats (add_loading cat w) = List.insert cat (c_loadcats w)"
  "c_loadcats (del_loading cat w) = removeAll cat (c_loadcats w)"
  "c_bycat (add_loading cat w) = c_bycat w" "c_bycat (del_loading cat w) = c_bycat w"
  "c_prereqs (add_loading cat w) = c_prereqs w" "c_prereqs (del_loading cat w) = c_prereqs w"
  by (simp_all add: add_loading_def del_loading_def)

lemma fetchChallenges_cases:
  obtains w' where "fetchChallenges srv cat w = (Inr [], w')" "list_frame w w'"
      "set (c_loadcats w') = set (c_loadcats w) - {cat}"
      "map_of (c_bycat w') = map_of (c_bycat w) \<or> (\<exists>chs. map_of (c_bycat w') = (map_of (c_bycat w))(cat \<mapsto> chs))"
      "prereqs_grow w w'"
  | chs w' where "fetchChallenges srv cat w = (Inr chs, w')" "list_frame w w'"
      "set (c_loadcats w') = set (c_loadcats w) - {cat}"
      "map_of (c_bycat w') = (map_of (c_bycat w))(cat \<mapsto> chs)" "prereqs_grow w w'"
proof -
  let ?a = "add_loading cat w"
  obtain xs w1 where g: "getChallengesByTopic srv (js_string cat) ?a = (Inr xs, w1)"
      and m1: "world.more w1 = world.more ?a"
    using get_list_result [of srv "endpoint_url CH_LIST @ encodeURIComponent (js_string cat)" ?a]
    by (auto simp: getChallengesByTopic_def)
  have f1: "list_frame w w1" "set (c_loadcats w1) = insert cat (set (c_loadcats w))" "c_bycat w1 = c_bycat w"
    using more_frame [OF m1] more_fields [OF m1] by simp_all
  have p1: "c_prereqs w1 = c_prereqs w" using more_fields(9) [OF m1] by simp
  show ?thesis
  proof (cases "map_exn parse_requirements xs")
    case (Inl e)
    then have "fetchChallenges srv cat w = (Inr [], del_loading cat w1)"
      using g by (simp add: fetchChallenges_def bindM_def catchM_def)
    moreover have "prereqs_grow w (del_loading cat w1)"
      using p1 by (intro prereqs_grow_same) simp
    ultimately show ?thesis using that(1) f1 by auto
  next
    case (Inr chs)
    let ?b = "w1\<lparr>c_bycat := AList.update cat chs (c_bycat w1)\<rparr>"
    have run: "fetchChallenges srv cat w =
        (case loadPrerequisitesInfo srv chs ?b of
           (Inl e, w2) \<Rightarrow> (Inr [], del_loading cat w2) | (Inr _, w2) \<Rightarrow> (Inr chs, del_loading cat w2))"
      using g Inr by (simp add: fetchChallenges_def bindM_def catchM_def split: prod.split sum.split)
    show ?thesis
    proof (cases rule: loadPrerequisitesInfo_result [of srv chs ?b])
      case (1 e w2)
      have "list_frame w w2" "c_loadcats w2 = c_loadcats w1" "c_bycat w2 = c_bycat ?b"
        using more_frame [OF 1(2)] more_fields [OF 1(2)] list_frame_trans [OF f1(1)] by simp_all
      then show ?thesis
        using run 1(1) f1 p1 more_fields(9) [OF 1(2)]
        by (intro that(1) [of "del_loading cat w2"] prereqs_grow_same) (auto simp: update_conv')
    next
      case (2 m w2)
      have "list_frame w w2" "c_loadcats w2 = c_loadcats w1" "c_bycat w2 = c_bycat ?b"
        using more_frame [OF 2(2)] more_fields [OF 2(2)] list_frame_trans [OF f1(1)] by simp_all
      then show ?thesis
        using run 2(1,3) f1 p1
        by (intro that(2) [of chs "del_loading cat (w2\<lparr>c_prereqs := m\<rparr>)"])
           (auto simp: update_conv' prereqs_grow_def)
    qed
  qed
qed

subsection \<open>Rules: opening\<close>

lemma detail_loading_simps [simp]:
  "auth_request url opts (detail_loading b w) = auth_request url opts w"
  "sent (detail_loading b w) = sent w" "c_selected (detail_loading b w) = c_selected w"
  "c_loading_detail (detail_loading b w) = b"
  by (simp_all add: detail_loading_def auth_request_def getToken_def)

lemma hidden_popup_more [simp]: "world.more (hidden_popup r w) = world.more w"
  by (simp add: hidden_popup_def)

lemma set_params_selected [simp]: "c_selected (set_params ps w) = c_selected w"
  by (simp add: set_params_def)






text \<open>A server whose answers depend on the request only and that never answers 401.\<close>

definition no_401 :: "(request \<Rightarrow> nat \<times> outcome) \<Rightarrow> bool" where
  "no_401 f = (\<forall>q d r. f q = (d, Reply r) \<longrightarrow> status r \<noteq> 401)"

lemma unmet_step:
  assumes "no_401 f"
  shows "\<exists>w1. store w1 = store w \<and> base_url w1 = base_url w \<and>
    detail_json (\<lambda>_. f) i w =
      ((case snd (f (auth_request (detail_url i) GET_opts w)) of
          NetFail \<Rightarrow> Inl NetworkError | Reply r \<Rightarrow> resp_json r), w1)"
proof (rule fetchWithAuth_cases [of "\<lambda>_. f" w "detail_url i" GET_opts])
  fix d a
  assume "f (auth_request (detail_url i) GET_opts w) = (d, Reply a)"
    "fetchWithAuth (\<lambda>_. f) (detail_url i) GET_opts w =
       (Inr a, handle_401 a ((send (auth_request (detail_url i) GET_opts w) w)\<lparr>clock := clock w + int d\<rparr>))"
  moreover from this have "status a \<noteq> 401" using assms unfolding no_401_def by blast
  ultimately show ?thesis
    by (simp add: detail_json_def bindM_def handle_401_def)
qed (simp add: detail_json_def bindM_def)

lemma request_cong:
  "store w' = store w \<Longrightarrow> base_url w' = base_url w \<Longrightarrow> auth_request url opts w' = auth_request url opts w"
  by (simp add: auth_request_def getToken_def)

definition unmet_reply :: "outcome \<Rightarrow> jsval \<Rightarrow> prereq list" where
  "unmet_reply out i = (case out of NetFail \<Rightarrow> [] | Reply r \<Rightarrow>
     (case resp_json r of Inl _ \<Rightarrow> [] | Inr data \<Rightarrow> unmet_of i data))"

lemma prereq_loop_stateless:
  assumes "no_401 f"
  shows "fst (prereq_loop (\<lambda>_. f) ids w) =
    concat (map (\<lambda>i. unmet_reply (snd (f (auth_request (detail_url i) GET_opts w))) i) ids)"
proof (induction ids arbitrary: w)
  case (Cons i ids)
  obtain w1 where w1: "store w1 = store w" "base_url w1 = base_url w"
      "detail_json (\<lambda>_. f) i w =
         ((case snd (f (auth_request (detail_url i) GET_opts w)) of
            NetFail \<Rightarrow> Inl NetworkError | Reply r \<Rightarrow> resp_json r), w1)"
    using unmet_step [OF assms] by blast
  have "auth_request (detail_url j) GET_opts w1 = auth_request (detail_url j) GET_opts w" for j
    by (rule request_cong) (use w1 in simp_all)
  then have "fst (prereq_loop (\<lambda>_. f) ids w1) =
      concat (map (\<lambda>i. unmet_reply (snd (f (auth_request (detail_url i) GET_opts w))) i) ids)"
    using Cons.IH [of w1] by simp
  then show ?case
    using w1(3)
    by (cases "snd (f (auth_request (detail_url i) GET_opts w))")
       (auto simp: unmet_reply_def case_prod_unfold split: sum.split)
qed simp

text \<open>Base64 of URLs has \<open>-\<close> and \<open>_\<close> where \<open>atob\<close> expects \<open>+\<close> and \<open>/\<close>.\<close>

lemma unpad_keeps:
  assumes "c \<noteq> CHR ''=''" "c \<in> set s"
  shows "c \<in> set (unpad s)"
proof -
  have k: "c \<in> set (take (length s - k) s)" if "take k (rev s) = replicate k (CHR ''='')" for k
  proof -
    have "drop (length s - k) s = replicate k (CHR ''='')"
      using that by (metis length_rev rev_replicate rev_rev_ident rev_take)
    then have "c \<notin> set (drop (length s - k) s)" using assms(1) by auto
    then show ?thesis using assms(2) by (metis Un_iff append_take_drop_id set_append)
  qed
  show ?thesis
    using k [of 2] k [of 1] assms(2) by (simp add: unpad_def numeral_2_eq_2)
qed

lemma base64url_fails:
  assumes "c = CHR ''-'' \<or> c = CHR ''_''" "c \<in> set s"
  shows "atob s = None"
proof -
  let ?t = "unpad (filter (\<lambda>c. (of_char c :: nat) \<notin> set [9, 10, 12, 13, 32]) s)"
  have "c \<in> set ?t"
    using assms by (intro unpad_keeps) auto
  moreover have "b64_val c = None"
    using assms(1) by (auto simp: b64_val_def)
  ultimately have "\<not> list_all (\<lambda>c. b64_val c \<noteq> None) ?t"
    by (auto simp: list_all_iff)
  then show ?thesis
    by (simp add: atob_def Let_def)
qed

subsection \<open>Properties\<close>


lemma locked_popup_selected [simp]: "c_selected (locked_popup us w) = c_selected w"
  using more_fields(3) [of "locked_popup us w" w] by (simp add: locked_popup_def)





text \<open>Against a server whose answers depend on the request only, the unsolved prerequisites of a
  challenge are exactly those, in their order, whose details the server returned as not solved by
  the team: a prerequisite whose request fails, whose answer is no JSON or has no data does not lock
  the challenge.\<close>
theorem unmet_prerequisites:
  assumes "no_401 f" and "oget (oget ch ''requirements'') ''prerequisites'' = Arr ids"
  shows "fst (checkPrerequisites (\<lambda>_. f) ch w) =
    Inr (concat (map (\<lambda>i. unmet_reply (snd (f (auth_request (detail_url i) GET_opts w))) i) ids))"
proof -
  have "\<not> nullish ch" using assms(2) by auto
  then show ?thesis
    using assms(2) prereq_loop_stateless [OF assms(1), of ids w]
    by (simp add: checkPrerequisites_def Let_def case_prod_unfold)
qed

definition lw0 :: lworld where
  "lw0 = \<lparr>store = [], clock = 0, sent = [], path = ''/contest/1'', redirect = None, popups = [], fired = [],
     base_url = [], t_handles = [], t_pending = [], t_next = 0, t_inflight = [], t_checking = True, c_categories = [], c_selcat = Str [], c_selected = Null, c_loading = True,
     c_loading_detail = False, c_error = [], c_active = True, c_reason = Str ''active'', c_prereqs = [],
     c_expanded = [], c_bycat = [], c_loadcats = [], c_processed = Null, c_params = [], c_page = 1,
     c_sidebar = True\<rparr>"

theorem unmet_prerequisites_witness:
  "fst (checkPrerequisites (\<lambda>_ _. (0, NetFail))
     (Obj [(''requirements'', Obj [(''prerequisites'', Arr [Num 3])])]) lw0) = Inr []"
  using unmet_prerequisites [of "\<lambda>_. (0, NetFail)"
      "Obj [(''requirements'', Obj [(''prerequisites'', Arr [Num 3])])]" "[Num 3]" lw0]
  by (simp add: no_401_def unmet_reply_def)

text \<open>Loading a category never throws; afterwards its loading mark is gone and those of the
  other categories are as they were, at most this category's list has changed, and the list it
  returns is empty or the one stored for the category.\<close>
theorem category_load:
  "\<exists>chs w'. fetchChallenges srv cat w = (Inr chs, w') \<and>
     set (c_loadcats w') = set (c_loadcats w) - {cat} \<and> c_selected w' = c_selected w \<and>
     c_expanded w' = c_expanded w \<and>
     (map_of (c_bycat w') = map_of (c_bycat w) \<or>
      (\<exists>xs. map_of (c_bycat w') = (map_of (c_bycat w))(cat \<mapsto> xs))) \<and>
     (chs = [] \<or> map_of (c_bycat w') cat = Some chs)"
proof (rule fetchChallenges_cases [of srv cat w])
  fix w' assume "fetchChallenges srv cat w = (Inr [], w')" "list_frame w w'"
      "set (c_loadcats w') = set (c_loadcats w) - {cat}"
      "map_of (c_bycat w') = map_of (c_bycat w) \<or> (\<exists>chs. map_of (c_bycat w') = (map_of (c_bycat w))(cat \<mapsto> chs))"
  then show ?thesis by (simp add: list_frame_def)
next
  fix chs w' assume "fetchChallenges srv cat w = (Inr chs, w')" "list_frame w w'"
      "set (c_loadcats w') = set (c_loadcats w) - {cat}"
      "map_of (c_bycat w') = (map_of (c_bycat w))(cat \<mapsto> chs)"
  then show ?thesis by (auto simp: list_frame_def)
qed

text \<open>A token whose second part has a \<open>-\<close> or a \<open>_\<close>, the characters by which the encoding of
  tokens differs from the one \<open>atob\<close> reads, is taken for a token of contest 0, whatever contest it
  names.\<close>
theorem url_encoded_token_unread:
  assumes "split_on (CHR ''.'') t = h # p # s" and "CHR ''-'' \<in> set p \<or> CHR ''_'' \<in> set p"
  shows "contest_of_token t = 0"
  using assms base64url_fails [of "CHR ''-''" p] base64url_fails [of "CHR ''_''" p]
  by (auto simp: contest_of_token_def)

text \<open>The payload is \<open>{"contestId":7}\<close>, and then \<open>{"n":"?>?","contestId":7}\<close> in both alphabets.\<close>

lemma contest_of_token_example:
  "contest_of_token ''h.eyJjb250ZXN0SWQiOjd9.s'' = 7"
  "contest_of_token ''h.eyJuIjoiPz4/IiwiY29udGVzdElkIjo3fQ.s'' = 7"
  by code_simp+

theorem url_encoded_token_unread_witness:
  "contest_of_token ''h.eyJuIjoiPz4_IiwiY29udGVzdElkIjo3fQ.s'' = 0"
  by (rule url_encoded_token_unread [where h = "''h''" and p = "''eyJuIjoiPz4_IiwiY29udGVzdElkIjo3fQ''" and s = "[''s'']"]) simp_all

lemma catch_ends:
  assumes "\<And>x w'. m w = (Inr x, w') \<Longrightarrow> P w'" "\<And>w'. P (f w')"
  shows "fst (catchM m (\<lambda>_. upd f) w) = Inr () \<and> P (snd (catchM m (\<lambda>_. upd f) w))"
  using assms by (cases "m w"; cases "fst (m w)") (auto simp: catchM_def)

lemma load_contest_ends: "fst (load_contest srv w) = Inr () \<and> \<not> c_loading (snd (load_contest srv w))"
proof -
  have ends: "\<not> c_loading w2" if "bindM m (\<lambda>_. upd (\<lambda>w. w\<lparr>c_loading := False\<rparr>)) v = (Inr u, w2)"
    for m :: "(unit, 'z lworld_scheme) action" and v u w2
    using that by (rule bindM_Inr) auto
  show ?thesis
    unfolding load_contest_def
    by (rule catch_ends) (auto simp: set_error_def elim!: bindM_Inr dest: ends)
qed

text \<open>Entering the page always ends: whatever the server answers, the page is not left loading,
  and nothing is thrown.\<close>
theorem page_load_ends:
  "fst (mount_page srv urlParam w) = Inr () \<and> \<not> c_loading (snd (mount_page srv urlParam w))"
  using load_contest_ends
  by (auto simp: mount_page_def Let_def set_error_def split: prod.split sum.split)

subsection \<open>Pagination\<close>

lemma page_slice_eq: "page_slice (Suc k) xs = take categories_per_page (drop (categories_per_page * k) xs)"
  by (simp add: page_slice_def mult.commute)

lemma total_pages_ceil: "total_pages xs = ceil_div (length xs) categories_per_page"
  by (simp add: total_pages_def ceil_div_def)

interpretation category_pager: pager categories_per_page "\<lambda>k. page_slice (Suc k)"
  by unfold_locales (simp_all add: categories_per_page_def page_slice_eq)

text \<open>The pages of the category list, put together, are the list: every category is on exactly
  one page, in order, and a page has at most ten.\<close>
theorem category_pages:
  "concat (map (\<lambda>p. page_slice (Suc p) xs) [0..<total_pages xs]) = xs \<and> length (page_slice (Suc p) xs) \<le> 10"
  using category_pager.partition [of xs] category_pager.page_size [of p xs]
  by (simp add: total_pages_ceil categories_per_page_def)

text \<open>On page \<open>cur\<close> of \<open>n\<close> the pagination offers the first, the current and the last page, its
  numbers are strictly increasing and within range, and it has at most seven entries.\<close>
theorem page_numbers:
  assumes "1 \<le> cur" and "cur \<le> n"
  shows "{Some 1, Some cur, Some n} \<subseteq> set (getPageNumbers cur n) \<and>
    sorted_wrt (<) (map the (filter (\<lambda>p. p \<noteq> None) (getPageNumbers cur n))) \<and>
    set (getPageNumbers cur n) \<subseteq> insert None (Some ` {1..n}) \<and> length (getPageNumbers cur n) \<le> 7"
proof (cases "n \<le> 7")
  case True
  have "filter (\<lambda>p. p \<noteq> None) (map Some [1..n]) = map Some [1..n]" for n :: int
    by (simp add: filter_id_conv)
  then show ?thesis using True assms by (auto simp: getPageNumbers_def sorted_wrt_map)
next
  case False
  let ?m = "[max 2 (cur - 1)..min (n - 1) (cur + 1)]"
  have "filter (\<lambda>p. p \<noteq> None) (map Some ?m) = map Some ?m"
    by (simp add: filter_id_conv)
  then have f: "map the (filter (\<lambda>p. p \<noteq> None) (getPageNumbers cur n)) = 1 # ?m @ [n]"
    using False by (auto simp: getPageNumbers_def comp_def)
  have "sorted_wrt (<) (1 # ?m @ [n])"
    using False assms by (auto simp: sorted_wrt_append)
  moreover have "length (getPageNumbers cur n) \<le> 7"
    using False assms by (auto simp: getPageNumbers_def)
  moreover have "{Some 1, Some cur, Some n} \<subseteq> set (getPageNumbers cur n)"
    using False assms by (auto simp: getPageNumbers_def)
  moreover have "set (getPageNumbers cur n) \<subseteq> insert None (Some ` {1..n})"
    using False assms by (auto simp: getPageNumbers_def split: if_splits)
  ultimately show ?thesis using f by simp
qed

theorem page_numbers_witness:
  "set [Some 1, Some 5, Some 20] \<subseteq> set (getPageNumbers 5 20)"
  using page_numbers [of 5 20] by simp

end
