(* ===== verification/ChallengeView.thy ===== *)
theory ChallengeView
  imports ChallengeList
begin

section \<open>What the challenge page shows\<close>

text \<open>
  The rendering of \<open>Challenges\<close>, \<open>TerminalPagination\<close> and \<open>ChallengeListItem\<close> in
  \<open>pages/Challenges.tsx\<close> as a function of the state: which parts appear, with which texts and which
  enabled actions. Colours, animations and layout are left out; where a colour carries meaning (the
  tone of an item) it is a constructor.
\<close>

subsection \<open>Items\<close>

datatype tone = Tone_selected | Tone_inactive | Tone_solved | Tone_locked | Tone_plain

datatype icon = Icon_check | Icon_lock | Icon_open | Icon_closed

record item_view =
  iv_tone :: tone
  iv_icon :: icon
  iv_title :: string
  iv_badges :: "string list"
  iv_check :: bool
  iv_enabled :: bool

definition item_icon :: "jsval \<Rightarrow> bool \<Rightarrow> bool \<Rightarrow> icon" where
  "item_icon ch active locked =
     (if truthy (oget ch ''solve_by_myteam'') then Icon_check
      else if locked then Icon_lock
      else if active then Icon_open
      else Icon_closed)"

definition expanded_tone :: "jsval \<Rightarrow> bool \<Rightarrow> bool \<Rightarrow> bool \<Rightarrow> tone" where
  "expanded_tone ch active selected locked =
     (if selected then Tone_selected
      else if \<not> active \<or> locked then Tone_inactive
      else if truthy (oget ch ''solve_by_myteam'') then Tone_solved
      else Tone_plain)"

definition compact_tone :: "jsval \<Rightarrow> bool \<Rightarrow> bool \<Rightarrow> tone" where
  "compact_tone ch selected locked =
     (if selected then Tone_selected
      else if truthy (oget ch ''solve_by_myteam'') then Tone_solved
      else if locked then Tone_locked
      else Tone_plain)"

definition solves_badge :: "jsval \<Rightarrow> string list" where
  "solves_badge ch =
     (if oget ch ''solves'' \<noteq> Undef then [js_string (oget ch ''solves'') @ '' solves''] else [])"

definition lock_badges :: "bool \<Rightarrow> (prereq \<Rightarrow> string) \<Rightarrow> prereq list \<Rightarrow> string list" where
  "lock_badges locked f ps = (if locked then ''[!] locked'' # map f ps else [])"

definition points :: "jsval \<Rightarrow> string" where
  "points ch = js_string (oget ch ''value'') @ ''pts''"

definition expanded_item :: "jsval \<Rightarrow> bool \<Rightarrow> bool \<Rightarrow> bool \<Rightarrow> prereq list \<Rightarrow> item_view" where
  "expanded_item ch active selected locked ps =
     \<lparr>iv_tone = expanded_tone ch active selected locked,
      iv_icon = item_icon ch active locked,
      iv_title = js_string (oget ch ''name''),
      iv_badges =
        (if truthy (oget ch ''shared_instance'') then [''shared instance''] else []) @
        lock_badges locked (\<lambda>p. js_string (pr_name p) @ '' ('' @ js_string (pr_category p) @ '')'') ps @
        [points ch] @ solves_badge ch,
      iv_check = truthy (oget ch ''solve_by_myteam''),
      iv_enabled = active\<rparr>"

definition status_badge :: "jsval \<Rightarrow> jsval \<Rightarrow> string list" where
  "status_badge ch deploying =
     (if truthy deploying then [''deploying'']
      else if seq (oget ch ''pod_status'') (Str ''Running'') then [''Running'']
      else [])"

definition compact_item :: "jsval \<Rightarrow> bool \<Rightarrow> bool \<Rightarrow> bool \<Rightarrow> prereq list \<Rightarrow> jsval \<Rightarrow> item_view" where
  "compact_item ch active selected locked ps deploying =
     \<lparr>iv_tone = compact_tone ch selected locked,
      iv_icon = item_icon ch active locked,
      iv_title = js_string (oget ch ''name''),
      iv_badges =
        [points ch] @
        (if truthy (oget ch ''shared_instance'') then [''shared''] else []) @
        lock_badges locked (\<lambda>p. js_string (pr_name p)) ps @
        solves_badge ch @ status_badge ch deploying,
      iv_check = False,
      iv_enabled = active\<rparr>"

text \<open>
  An item knows the page's challenge list, the selection and the prerequisites found so far. The
  deployment state is the one its last check left.
\<close>

definition unmet_for :: "'z lworld_scheme \<Rightarrow> jsval \<Rightarrow> prereq list" where
  "unmet_for w ch = (case map_of (c_prereqs w) (oget ch ''id'') of None \<Rightarrow> [] | Some ps \<Rightarrow> ps)"

definition list_item :: "(jsval \<Rightarrow> jsval) \<Rightarrow> 'z lworld_scheme \<Rightarrow> jsval \<Rightarrow> item_view" where
  "list_item deploying w ch =
     (let selected = seq (oget (c_selected w) ''id'') (oget ch ''id'');
          ps = unmet_for w ch; locked = ps \<noteq> []
      in if truthy (c_selected w)
         then compact_item ch (can_view w) selected locked ps (deploying ch)
         else expanded_item ch (can_view w) selected locked ps)"

subsection \<open>Categories and the page\<close>

datatype category_body = Closed | Skeletons nat | Items "item_view list" | Empty_category

record category_view =
  cv_name :: jsval
  cv_count :: jsval
  cv_busy :: bool
  cv_body :: category_body

definition category_of :: "(jsval \<Rightarrow> jsval) \<Rightarrow> 'z lworld_scheme \<Rightarrow> jsval \<Rightarrow> category_view" where
  "category_of deploying w c =
     (let name = oget c ''topic_name'';
          busy = name \<in> set (c_loadcats w);
          chs = (case map_of (c_bycat w) name of None \<Rightarrow> [] | Some chs \<Rightarrow> chs)
      in \<lparr>cv_name = name, cv_count = oget c ''challenge_count'', cv_busy = busy,
          cv_body =
            (if name \<notin> set (c_expanded w) then Closed
             else if busy then Skeletons 3
             else if chs \<noteq> [] then Items (map (list_item deploying w) chs)
             else Empty_category)\<rparr>)"

datatype detail_view = No_detail | Detail_skeleton | Panel jsval

definition detail_of :: "'z lworld_scheme \<Rightarrow> detail_view" where
  "detail_of w =
     (if c_loading_detail w then Detail_skeleton
      else if truthy (c_selected w) then Panel (c_selected w)
      else No_detail)"

record pagination_view =
  pg_numbers :: "int option list"
  pg_prev :: bool
  pg_next :: bool
  pg_range :: "(int \<times> int) option"

definition pagination :: "int \<Rightarrow> int \<Rightarrow> (int \<times> int) option \<Rightarrow> pagination_view" where
  "pagination cur n items =
     \<lparr>pg_numbers = getPageNumbers cur n, pg_prev = (cur \<noteq> 1), pg_next = (cur \<noteq> n),
      pg_range = (case items of
          None \<Rightarrow> None
        | Some (tot, per) \<Rightarrow> if tot \<noteq> 0 then Some (shown_range cur per tot) else None)\<rparr>"

datatype page_view =
    V_loading
  | V_error string
  | V_page banner "category_view list" "pagination_view option" detail_view

definition challenges_view :: "(jsval \<Rightarrow> jsval) \<Rightarrow> 'z lworld_scheme \<Rightarrow> page_view" where
  "challenges_view deploying w =
     (if c_loading w then V_loading
      else if c_error w \<noteq> [] then V_error (c_error w)
      else V_page (page_banner w)
             (map (category_of deploying w) (page_slice (c_page w) (c_categories w)))
             (if length (c_categories w) > categories_per_page
              then Some (pagination (int (c_page w)) (int (total_pages (c_categories w))) None) else None)
             (detail_of w))"

text \<open>The banner's text when the contest is not active.\<close>

definition banner_text :: "jsval \<Rightarrow> string" where
  "banner_text r =
     (if seq r (Str ''ended'') then ''CTF HAS ENDED'' else []) @
     (if seq r (Str ''not_started'') then ''CTF HAS NOT STARTED YET'' else []) @
     (if seq r (Str ''not_accessible'') \<or> \<not> truthy r then ''CONTEST NOT ACCESSIBLE'' else [])"

subsection \<open>Rules\<close>

lemma list_item_enabled [simp]: "iv_enabled (list_item deploying w ch) = can_view w"
  by (simp add: list_item_def Let_def expanded_item_def compact_item_def)

subsection \<open>Properties\<close>

text \<open>C20: a challenge once shown as locked stays shown as locked when its category is loaded again,
  whatever the server answers: solving the prerequisites does not remove the mark, since the
  unsolved prerequisites found later are merged into those found before and never removed.\<close>
theorem lock_mark_never_removed:
  assumes "unmet_for w ch \<noteq> []"
  shows "unmet_for (snd (fetchChallenges srv cat w)) ch \<noteq> []"
proof -
  have "prereqs_grow w (snd (fetchChallenges srv cat w))"
    by (rule fetchChallenges_cases [of srv cat w]) simp_all
  moreover obtain us where "map_of (c_prereqs w) (oget ch ''id'') = Some us" "us \<noteq> []"
    using assms by (auto simp: unmet_for_def split: option.splits)
  ultimately show ?thesis
    using prereqs_growD [of w _ "oget ch ''id''" us] by (force simp: unmet_for_def)
qed

theorem lock_mark_never_removed_witness:
  "unmet_for (snd (fetchChallenges (\<lambda>_ _. (0, Reply \<lparr>status = 200, body = JBody (Arr [])\<rparr>)) (Str ''web'')
     (lw0\<lparr>c_prereqs := [(Num 1, [\<lparr>pr_id = Num 2, pr_name = Str ''b'', pr_category = Str ''web''\<rparr>])]\<rparr>)))
     (Obj [(''id'', Num 1)]) \<noteq> []"
  by (rule lock_mark_never_removed) (simp add: unmet_for_def)

text \<open>Every item the page shows belongs to a category of the current page that is expanded, has
  been loaded and is not loading, and it reacts to clicks exactly when the contest may be viewed,
  as the handler behind it does: a click on a disabled item changes nothing.\<close>
theorem shown_items_clickable:
  assumes "challenges_view deploying w = V_page b cs p d" and "c \<in> set cs" and "cv_body c = Items ivs"
  shows "cv_name c \<in> set (c_expanded w) \<and> cv_name c \<notin> set (c_loadcats w) \<and>
    (\<exists>chs. map_of (c_bycat w) (cv_name c) = Some chs \<and> ivs = map (list_item deploying w) chs) \<and>
    (\<forall>iv \<in> set ivs. iv_enabled iv = can_view w) \<and>
    (can_view w \<or> item_click srv ch w = (Inr (), w))"
proof -
  obtain c0 where c: "c = category_of deploying w c0"
    using assms(1,2) by (auto simp: challenges_view_def split: if_splits)
  have "\<exists>chs. map_of (c_bycat w) (cv_name c) = Some chs \<and> ivs = map (list_item deploying w) chs"
      "cv_name c \<in> set (c_expanded w)" "cv_name c \<notin> set (c_loadcats w)"
    using assms(3) unfolding c by (auto simp: category_of_def Let_def split: if_splits option.splits)
  then show ?thesis by (auto simp: item_click_def)
qed

theorem shown_items_clickable_witness:
  "can_view (lw0\<lparr>c_loading := False, c_categories := [Obj [(''topic_name'', Str ''web'')]],
     c_bycat := [(Str ''web'', [Obj [(''id'', Num 1)]])], c_expanded := [Str ''web''], c_active := False\<rparr>) \<or>
   item_click (\<lambda>_ _. (0, NetFail)) (Obj []) (lw0\<lparr>c_loading := False, c_categories := [Obj [(''topic_name'', Str ''web'')]],
     c_bycat := [(Str ''web'', [Obj [(''id'', Num 1)]])], c_expanded := [Str ''web''], c_active := False\<rparr>) =
   (Inr (), lw0\<lparr>c_loading := False, c_categories := [Obj [(''topic_name'', Str ''web'')]],
     c_bycat := [(Str ''web'', [Obj [(''id'', Num 1)]])], c_expanded := [Str ''web''], c_active := False\<rparr>)"
  using shown_items_clickable [of "\<lambda>_. Undef" "lw0\<lparr>c_loading := False, c_categories := [Obj [(''topic_name'', Str ''web'')]],
     c_bycat := [(Str ''web'', [Obj [(''id'', Num 1)]])], c_expanded := [Str ''web''], c_active := False\<rparr>" _ _ _ _ _ _
     "\<lambda>_ _. (0, NetFail)" "Obj []"]
  by (simp add: challenges_view_def lw0_def page_slice_def categories_per_page_def category_of_def Let_def)

end
