(* ===== verification/Effects.thy ===== *)
theory Effects
  imports ChallengeList
begin

section \<open>Rules for the effects of actions\<close>

text \<open>
  Many properties say that an action changes the world only in a certain way: it appends requests of
  a certain kind, or it keeps a part of the state. Such a relation between the world before and
  after is reflexive and transitive, and that is all the rules for sequencing, catching and
  finishing need: the locale \<open>effect_rel\<close> proves them once. It is interpreted on the relation
  \<open>emitted U\<close> (the requests added satisfy \<open>U\<close>) and on \<open>kept f\<close> (\<open>f\<close> has the same value).
\<close>

locale effect_rel =
  fixes R :: "'w \<Rightarrow> 'w \<Rightarrow> bool"
  assumes refl: "R w w"
    and trans: "R u v \<Longrightarrow> R v w \<Longrightarrow> R u w"
begin

lemma ret: "R w (snd (ret x w))"
  by (simp add: refl)

lemma throw: "R w (snd (throw e w))"
  by (simp add: refl)

lemma lift: "R w (snd (lift r w))"
  by (simp add: refl)

lemma upd: "R w (f w) \<Longrightarrow> R w (snd (upd f w))"
  by simp

lemma bind:
  assumes "R w (snd (m w))" and "\<And>x v. R v (snd (k x v))"
  shows "R w (snd (bindM m k w))"
  using assms(1) assms(2) trans by (cases "m w"; cases "fst (m w)") (auto simp: bindM_def)

lemma catch:
  assumes "R w (snd (m w))" and "\<And>e v. R v (snd (h e v))"
  shows "R w (snd (catchM m h w))"
  using assms(1) assms(2) trans by (cases "m w"; cases "fst (m w)") (auto simp: catchM_def)

lemma finish:
  assumes "R w (snd (m w))" and "\<And>v. R v (f v)"
  shows "R w (snd (finallyM m f w))"
  using assms trans by (cases "m w") (auto simp: finallyM_def)

lemma cond: "(c \<Longrightarrow> R w (snd (m w))) \<Longrightarrow> (\<not> c \<Longrightarrow> R w (snd (n w))) \<Longrightarrow> R w (snd ((if c then m else n) w))"
  by simp

lemma start: "R w v \<Longrightarrow> R v (snd (m v)) \<Longrightarrow> R w (snd (m v))"
  by (rule trans)

lemmas rules = ret throw lift upd cond bind catch finish

lemma pair: "m w = (x, w') \<Longrightarrow> R w (snd (m w)) \<Longrightarrow> R w w'"
  by simp

end

definition emitted :: "(string \<Rightarrow> request \<Rightarrow> bool) \<Rightarrow> 'z world_scheme \<Rightarrow> 'z world_scheme \<Rightarrow> bool" where
  "emitted U w w' = (base_url w' = base_url w \<and>
     (\<exists>qs. sent w' = sent w @ qs \<and> (\<forall>q \<in> set qs. U (base_url w) q)))"

definition kept :: "('w \<Rightarrow> 'a) \<Rightarrow> 'w \<Rightarrow> 'w \<Rightarrow> bool" where
  "kept f w w' = (f w' = f w)"

interpretation em: effect_rel "emitted U" for U
proof
  show "emitted U w w" for w :: "'a world_scheme"
    by (simp add: emitted_def)
  fix u v w :: "'a world_scheme"
  assume a: "emitted U u v" and b: "emitted U v w"
  from a obtain qs where qs: "sent v = sent u @ qs" "\<forall>q \<in> set qs. U (base_url u) q" "base_url v = base_url u"
    unfolding emitted_def by blast
  from b obtain ps where ps: "sent w = sent v @ ps" "\<forall>q \<in> set ps. U (base_url v) q" "base_url w = base_url v"
    unfolding emitted_def by blast
  have "sent w = sent u @ (qs @ ps)"
    by (simp only: qs(1) ps(1) append_assoc)
  moreover have "\<forall>q \<in> set (qs @ ps). U (base_url u) q"
    using qs(2) ps(2) by (simp only: qs(3) set_append ball_Un)
  moreover have "base_url w = base_url u"
    by (simp only: qs(3) ps(3))
  ultimately show "emitted U u w"
    unfolding emitted_def by blast
qed

interpretation kp: effect_rel "kept f" for f
  by unfold_locales (simp_all add: kept_def)

lemma emitted_same: "sent w' = sent w \<Longrightarrow> base_url w' = base_url w \<Longrightarrow> emitted U w w'"
  by (simp add: emitted_def)

lemma handle_401_sent [simp]: "sent (handle_401 r w) = sent w" "base_url (handle_401 r w) = base_url w"
  by (simp_all add: handle_401_def goto_login_def clearSession_def)

lemma fetchWithAuth_emitted:
  assumes "\<And>b q. req_url q = b @ url \<Longrightarrow> req_method q = o_method opts \<Longrightarrow> U b q"
  shows "emitted U w (snd (fetchWithAuth srv url opts w))"
proof -
  let ?q = "auth_request url opts w"
  have "U (base_url w) ?q" by (rule assms) (simp_all add: auth_request_def)
  then have "emitted U w ((send ?q w)\<lparr>clock := t\<rparr>)" for t
    by (simp add: emitted_def send_def)
  then show ?thesis
    using fetchWithAuth_cases [of srv w url opts] by (metis (no_types) em.trans emitted_same handle_401_sent snd_conv)
qed

lemma fetchWithAuth_kept:
  assumes "\<And>v v'. world.more v' = world.more v \<Longrightarrow> f v' = f v"
  shows "kept f w (snd (fetchWithAuth srv url opts w))"
  unfolding kept_def by (rule assms) (rule fetchWithAuth_more)

text \<open>A request that asks the server to stop an instance.\<close>

definition is_stop :: "string \<Rightarrow> request \<Rightarrow> bool" where
  "is_stop b q = (req_method q = ''POST'' \<and> req_url q = b @ endpoint_url CH_STOP)"

definition no_stop :: "string \<Rightarrow> request \<Rightarrow> bool" where
  "no_stop b q = (\<not> is_stop b q)"

lemma get_no_stop: "emitted no_stop w (snd (fetchWithAuth srv url GET_opts w))"
  by (rule fetchWithAuth_emitted) (simp add: no_stop_def is_stop_def GET_opts_def)

lemma post_no_stop: "url \<noteq> endpoint_url CH_STOP \<Longrightarrow> emitted no_stop w (snd (fetchWithAuth srv url (POST_opts b) w))"
  by (rule fetchWithAuth_emitted) (simp add: no_stop_def is_stop_def)

subsection \<open>Reading requests\<close>

text \<open>
  \<open>quiet\<close>: only \<open>GET\<close> requests are sent, local storage is left alone or cleared by signing out, and
  the panel's state, which extends the page's, is left alone. Every operation of the challenge list
  that the panel calls is quiet.
\<close>

definition reads_only :: "string \<Rightarrow> request \<Rightarrow> bool" where
  "reads_only b q = (req_method q = ''GET'')"

definition store_left :: "'z world_scheme \<Rightarrow> 'z world_scheme \<Rightarrow> bool" where
  "store_left w w' = (store w' = store w \<or> store w' = clear_storage)"

interpretation sl: effect_rel store_left
  by unfold_locales (auto simp: store_left_def)

definition quiet :: "'z lworld_scheme \<Rightarrow> 'z lworld_scheme \<Rightarrow> bool" where
  "quiet w w' = (emitted reads_only w w' \<and> store_left w w' \<and> kept lworld.more w w')"

interpretation qt: effect_rel quiet
proof
  show "quiet w w" for w :: "'a lworld_scheme"
    by (simp add: quiet_def em.refl kp.refl sl.refl)
  show "quiet u w" if "quiet u v" "quiet v w" for u v w :: "'a lworld_scheme"
    using that em.trans [of reads_only u v w] kp.trans [of lworld.more u v w] sl.trans [of u v w]
    by (simp add: quiet_def)
qed

lemma emitted_mono: "emitted U w w' \<Longrightarrow> (\<And>b q. U b q \<Longrightarrow> V b q) \<Longrightarrow> emitted V w w'"
  unfolding emitted_def by blast

lemma reads_no_stop: "emitted reads_only w w' \<Longrightarrow> emitted no_stop w w'"
  by (erule emitted_mono) (simp add: reads_only_def no_stop_def is_stop_def)

lemma world_lworld_more: "world.more w' = world.more w \<Longrightarrow> lworld.more w' = lworld.more w"
  by (cases w; cases w') simp

lemma fetchWithAuth_store: "store_left w (snd (fetchWithAuth srv url opts w))"
proof -
  have "store_left w (handle_401 a ((send q w)\<lparr>clock := t\<rparr>))" for a q t
    using handle_401_store [of a "(send q w)\<lparr>clock := t\<rparr>"] by (simp add: store_left_def)
  note k = this
  show ?thesis
    by (rule fetchWithAuth_cases [of srv w url opts]) (simp add: store_left_def, simp only: snd_conv k)
qed

lemma fetchWithAuth_step:
  assumes "fetchWithAuth srv url opts w = (x, v)"
  shows "sent v = sent w @ [auth_request url opts w]" "base_url v = base_url w" "store_left w v"
    "world.more v = world.more w"
proof -
  have v: "v = snd (fetchWithAuth srv url opts w)" by (simp add: assms)
  show "store_left w v" "world.more v = world.more w"
    unfolding v by (rule fetchWithAuth_store, rule fetchWithAuth_more)
  show "sent v = sent w @ [auth_request url opts w]" "base_url v = base_url w"
    unfolding v by (rule fetchWithAuth_cases [of srv w url opts]; simp)+
qed

lemma bindM_assoc: "bindM (bindM m f) g = bindM m (\<lambda>x. bindM (f x) g)"
  by (rule ext) (simp add: bindM_def split: prod.split sum.split)

lemma catch_bind:
  "m w = (Inr x, v) \<Longrightarrow> catchM (bindM m k) h w = catchM (k x) h v"
  "m w = (Inl e, v) \<Longrightarrow> catchM (bindM m k) h w = h e v"
  by (simp_all add: catchM_def bindM_def)

lemma get_quiet: "quiet w (snd (fetchWithAuth srv url GET_opts w))"
  unfolding quiet_def
  by (intro conjI fetchWithAuth_emitted fetchWithAuth_store fetchWithAuth_kept world_lworld_more)
     (simp_all add: reads_only_def GET_opts_def)

lemma quiet_upd: "sent (f w) = sent w \<Longrightarrow> base_url (f w) = base_url w \<Longrightarrow> store (f w) = store w \<Longrightarrow> lworld.more (f w) = lworld.more w \<Longrightarrow> quiet w (f w)"
  by (simp add: quiet_def emitted_same kept_def store_left_def)

lemmas lworld_more_simps [simp] = world_more [THEN world_lworld_more]

lemma popup_quiet: "quiet w (show_popup t xs w)"
  by (rule quiet_upd) simp_all

lemma detail_json_quiet: "quiet w (snd (detail_json srv i w))"
  unfolding detail_json_def by (intro qt.bind get_quiet qt.lift)

lemma prereq_loop_quiet: "quiet w (snd (prereq_loop srv ids w))"
proof (induction ids arbitrary: w)
  case (Cons i ids)
  obtain x w1 where d: "detail_json srv i w = (x, w1)" by (cases "detail_json srv i w")
  have "quiet w w1" using detail_json_quiet [of w srv i] d by simp
  then have "quiet w (snd (prereq_loop srv ids w1))" using Cons.IH by (rule qt.trans)
  then show ?case using d by (cases x) (simp_all add: case_prod_unfold)
qed (simp add: qt.refl)

lemma checkPrerequisites_quiet: "quiet w (snd (checkPrerequisites srv ch w))"
  using prereq_loop_quiet [of w srv]
  by (simp add: checkPrerequisites_def Let_def case_prod_unfold qt.refl split: sum.split)

lemma prereq_map_quiet: "quiet w (snd (prereq_map srv chs m w))"
proof (induction chs arbitrary: m w)
  case (Cons ch chs)
  show ?case
    by (auto intro!: qt.bind checkPrerequisites_quiet Cons.IH simp: qt.refl)
qed (simp add: qt.refl)

lemma loadPrerequisitesInfo_quiet: "quiet w (snd (loadPrerequisitesInfo srv chs w))"
  unfolding loadPrerequisitesInfo_def by (intro qt.bind prereq_map_quiet qt.upd quiet_upd) simp_all

lemma loading_quiet: "quiet w (add_loading c w)" "quiet w (del_loading c w)"
  by (intro quiet_upd; simp add: add_loading_def del_loading_def)+

lemma get_list_quiet: "quiet w (snd (get_list srv url w))"
  unfolding get_list_def by (intro qt.catch qt.bind get_quiet qt.lift qt.ret qt.throw)

lemma fetchChallenges_quiet: "quiet w (snd (fetchChallenges srv cat w))"
  unfolding fetchChallenges_def getChallengesByTopic_def
  by (intro qt.catch qt.bind qt.upd qt.lift qt.ret loading_quiet get_list_quiet loadPrerequisitesInfo_quiet quiet_upd)
     simp_all

lemma refresh_detail_quiet: "quiet w (snd (refresh_detail srv sel w))"
proof -
  have "quiet v (set_selected x v)" for v x
    by (intro quiet_upd) (simp_all add: set_selected_def)
  then show ?thesis
    unfolding refresh_detail_def
    by (intro qt.catch qt.bind get_quiet qt.ret; auto intro!: qt.bind qt.refl simp: set_selected_def split: sum.split)
qed

lemma refresh_quiet: "quiet w (snd (refreshChallengeData srv w))"
  unfolding refreshChallengeData_def
  by (intro qt.bind; auto intro!: qt.bind qt.refl fetchChallenges_quiet refresh_detail_quiet)

subsection \<open>The timer service\<close>

lemma tworld_lworld_more: "tworld.more w' = tworld.more w \<Longrightarrow> lworld.more w' = lworld.more w"
  by (cases w; cases w') simp

lemma timers_more [simp]:
  "tworld.more (clear_handle i w) = tworld.more w" "tworld.more (arm t w) = tworld.more w"
  "tworld.more (saveTimersToStorage ts w) = tworld.more w" "tworld.more (send r w) = tworld.more w"
  "tworld.more (show_popup a xs w) = tworld.more w"
  by (simp_all add: clear_handle_def clearTimeout_def arm_def saveTimersToStorage_def set_store_def
      send_def show_popup_def split: option.split)

lemma send_stop_more [simp]: "tworld.more (autoStop_send t w) = tworld.more w"
  by (simp add: autoStop_send_def Let_def)

lemma stopTimer_more [simp]: "tworld.more (snd (stopTimer i w)) = tworld.more w"
  by (simp add: stopTimer_def Let_def split: sum.split)

lemma startTimer_more [simp]: "tworld.more (snd (startTimer i n r d w)) = tworld.more w"
  by (simp add: startTimer_def scheduleAutoStop_def Let_def split: sum.split)

lemma stopTimer_sent [simp]:
  "sent (snd (stopTimer i w)) = sent w" "base_url (snd (stopTimer i w)) = base_url w"
  "clock (snd (stopTimer i w)) = clock w"
  by (simp_all add: stopTimer_def Let_def split: sum.split)

lemma stopTimer_lmore [simp]: "lworld.more (snd (stopTimer i w)) = lworld.more w"
  by (rule tworld_lworld_more) simp

lemma startTimer_lmore: "lworld.more (snd (startTimer i n r d w)) = lworld.more w"
  by (rule tworld_lworld_more) simp

subsection \<open>Refreshing never throws\<close>

lemma bind_ends: "(\<And>x v. fst (k x v) = Inr y) \<Longrightarrow> fst (m w) = Inr x \<Longrightarrow> fst (bindM m k w) = Inr y"
  by (cases "m w") (auto simp: bindM_def)

lemma catch_ret_ends: "fst (catchM m (\<lambda>_. ret ()) w) = Inr ()"
  by (simp add: catchM_def split: prod.split sum.split)

lemma refresh_ends [simp]: "fst (refreshChallengeData srv w) = Inr ()"
proof -
  have d: "fst (refresh_detail srv sel v) = Inr ()" for sel v
    unfolding refresh_detail_def by (rule catch_ret_ends)
  have f: "fst (bindM (fetchChallenges srv cat) (\<lambda>_. ret ()) v) = Inr ()" for cat v
    by (rule fetchChallenges_cases [of srv cat v]) (simp_all add: bindM_def)
  show ?thesis
    unfolding refreshChallengeData_def by (rule bind_ends [where x = "()"]) (simp_all add: d f)
qed

lemma refresh_run: obtains v where "refreshChallengeData srv w = (Inr (), v)" "quiet w v"
  using refresh_ends [of srv w] refresh_quiet [of w srv] that by (metis prod.collapse)

end
