(* ===== verification/Panel.thy ===== *)
theory Panel
  imports ChallengeView Effects
begin

section \<open>The challenge panel: state, texts, cooldown and countdown\<close>

text \<open>
  The component \<open>ChallengeDetailPanel\<close> of \<open>pages/Challenges.tsx\<close>. Its React state and its refs
  extend the page's state. \<open>ch\<close> is the panel's challenge; identifiers of challenges are integers.
  This theory has the state, the texts the panel builds, zooming, the cooldown between submissions
  and the countdown of a running instance; \<open>PanelDeploy\<close> has starting and stopping, \<open>PanelFlag\<close>
  submissions, hints and files.
\<close>

subsection \<open>State\<close>

record pworld = lworld +
  p_answer :: string
  p_hints :: "jsval"
  p_remaining :: jsval
  p_started :: bool
  p_url :: jsval
  p_submitting :: bool
  p_starting :: bool
  p_stopping :: bool
  p_deploying :: bool
  p_checking :: bool
  p_healthy :: bool
  p_pod :: jsval
  p_pdf :: "nat option"
  p_pages :: jsval
  p_page :: nat
  p_blob :: "body option"
  p_loading_pdf :: bool
  p_unlocking :: jsval
  p_cooldown :: rat
  p_cooldown_total :: rat
  p_scale :: rat
  p_copied :: "string list"
  p_saved :: "(body \<times> string) list"
  p_interval :: bool
  p_cool_interval :: bool
  r_running :: bool
  r_check_id :: "int option"
  r_abort :: bool
  r_stopping :: bool
  r_end :: jsval
  r_mounted :: bool

definition cid :: "jsval \<Rightarrow> int" where
  "cid ch = (case oget ch ''id'' of Num q \<Rightarrow> \<lfloor>q\<rfloor> | _ \<Rightarrow> 0)"

abbreviation deployment_key :: "jsval \<Rightarrow> string" where "deployment_key ch \<equiv> key ''deployment_'' (cid ch)"
abbreviation healthcheck_key :: "jsval \<Rightarrow> string" where "healthcheck_key ch \<equiv> key ''healthcheck_'' (cid ch)"
abbreviation endtime_key :: "jsval \<Rightarrow> string" where "endtime_key ch \<equiv> key ''timer_endtime_'' (cid ch)"
abbreviation cooldown_key :: "jsval \<Rightarrow> string" where "cooldown_key ch \<equiv> key ''cooldown_'' (cid ch)"

definition stored_truthy :: "storage \<Rightarrow> string \<Rightarrow> item option" where
  "stored_truthy st k =
     (case get_item st k of None \<Rightarrow> None | Some i \<Rightarrow> if item_truthy i then Some i else None)"

subsection \<open>Texts\<close>

definition escape_html_char :: "char \<Rightarrow> string" where
  "escape_html_char c =
     (let n = (of_char c :: nat) in
      if n = 38 then ''&amp;'' else if n = 60 then ''&lt;'' else if n = 62 then ''&gt;''
      else if n = 34 then ''&quot;'' else if n = 39 then ''&#39;'' else [c])"

text \<open>The five replacements one after the other; \<open>escapeHtml_chars\<close> shows that they work character by
  character, since the first one treats the only character the others insert.\<close>

definition replace_char :: "nat \<Rightarrow> string \<Rightarrow> string \<Rightarrow> string" where
  "replace_char n r s = concat (map (\<lambda>c. if (of_char c :: nat) = n then r else [c]) s)"

definition escapeHtml :: "string \<Rightarrow> string" where
  "escapeHtml s =
     replace_char 39 ''&#39;'' (replace_char 34 ''&quot;'' (replace_char 62 ''&gt;''
       (replace_char 60 ''&lt;'' (replace_char 38 ''&amp;'' s))))"

text \<open>\<open>s.replace(/\r\n/g, '\n')\<close>\<close>

fun unix_lines :: "string \<Rightarrow> string" where
  "unix_lines (a # b # s) =
     (if (of_char a :: nat) = 13 \<and> (of_char b :: nat) = 10 then b # unix_lines s
      else a # unix_lines (b # s))"
| "unix_lines s = s"

definition renderHintContentHtml :: "jsval \<Rightarrow> string" where
  "renderHintContentHtml content =
     escapeHtml (trim (unix_lines (js_string (js_nn content (Str ''No content'')))))"

text \<open>A time as the panel shows it: no limit, unknown, or hours, minutes and seconds.\<close>

datatype time_text = Unlimited | Unknown | Shown string

definition parse_float :: "string \<Rightarrow> rat option" where
  "parse_float s =
     (let t = dropWhile is_ws s;
          neg = (case t of c # _ \<Rightarrow> c = CHR ''-'' | [] \<Rightarrow> False);
          u = (case t of c # r \<Rightarrow> if c = CHR ''-'' \<or> c = CHR ''+'' then r else t | [] \<Rightarrow> t);
          ip = takeWhile is_digit u;
          rest = dropWhile is_digit u;
          fr = (case rest of c # r \<Rightarrow> if c = CHR ''.'' then takeWhile is_digit r else [] | [] \<Rightarrow> []);
          rest' = (case rest of c # r \<Rightarrow> if c = CHR ''.'' then dropWhile is_digit r else rest | [] \<Rightarrow> []);
          e = (case exponent rest' of Some (x, _) \<Rightarrow> x | None \<Rightarrow> 1)
      in if ip = [] \<and> fr = [] then None
         else Some ((if neg then -1 else 1) * (of_nat (read_nat ip) + of_nat (read_nat fr) / 10 ^ length fr) * e))"

definition hms :: "int \<Rightarrow> string" where
  "hms n =
     (let h = n div 3600; m = (n mod 3600) div 60; s = n mod 60
      in if h > 0 then (if m > 0 then show_int h @ ''h '' @ show_int m @ ''m'' else show_int h @ ''h'')
         else if m > 0 then (if s > 0 then show_int m @ ''m '' @ show_int s @ ''s'' else show_int m @ ''m'')
         else show_int s @ ''s'')"

definition formatTime :: "jsval \<Rightarrow> jsval \<Rightarrow> time_text" where
  "formatTime ch v =
     (if seq (oget ch ''time_limit'') (Num (-1)) then Unlimited
      else if nullish v then Unknown
      else case (case v of Str s \<Rightarrow> parse_float s | _ \<Rightarrow> as_num v) of
          None \<Rightarrow> Unknown
        | Some q \<Rightarrow> Shown (hms (max 0 \<lfloor>q\<rfloor>)))"

text \<open>
  File names. \<open>new URL(p, origin).searchParams.get('path')\<close> reads the query part of the address;
  escapes of characters above 127 are left as their bytes.
\<close>

fun percent_decode :: "string \<Rightarrow> string" where
  "percent_decode (p # a # b # s) =
     (if p = CHR ''%'' \<and> is_hex a \<and> is_hex b
      then char_of (16 * the (hex_val a) + the (hex_val b)) # percent_decode s
      else (if p = CHR ''+'' then CHR '' '' else p) # percent_decode (a # b # s))"
| "percent_decode (c # s) = (if c = CHR ''+'' then CHR '' '' else c) # percent_decode s"
| "percent_decode [] = []"

definition query_of :: "string \<Rightarrow> string" where
  "query_of s = drop 1 (dropWhile (\<lambda>c. c \<noteq> CHR ''?'') (takeWhile (\<lambda>c. c \<noteq> CHR ''#'') s))"

fun query_get :: "string \<Rightarrow> string list \<Rightarrow> string option" where
  "query_get k [] = None"
| "query_get k (p # ps) =
     (if percent_decode (takeWhile (\<lambda>c. c \<noteq> CHR ''='') p) = k \<and> p \<noteq> []
      then Some (percent_decode (drop 1 (dropWhile (\<lambda>c. c \<noteq> CHR ''='') p)))
      else query_get k ps)"

definition getFileName :: "string \<Rightarrow> string" where
  "getFileName p =
     (let simple = hd (split_on (CHR ''?'') (last (split_on (CHR ''/'') p)))
      in if has_substring p ''?path='' then
           (case query_get ''path'' (split_on (CHR ''&'') (query_of p)) of
              Some v \<Rightarrow> if v \<noteq> [] then last (split_on (CHR ''/'') v) else simple
            | None \<Rightarrow> simple)
         else simple)"

definition pdf_files :: "jsval \<Rightarrow> jsval list" where
  "pdf_files ch = filter (\<lambda>f. has_substring (lower (js_string f)) ''.pdf'') (elems (oget ch ''files''))"

subsection \<open>Zoom\<close>

text \<open>One wheel event with Ctrl held; its \<open>deltaY\<close> is negative for zooming in.\<close>

definition handlePdfWheel :: "bool \<Rightarrow> rat \<Rightarrow> 'z pworld_scheme \<Rightarrow> 'z pworld_scheme" where
  "handlePdfWheel ctrl deltaY w =
     (if ctrl
      then w\<lparr>p_scale := (if - deltaY > 0 then min 2 (p_scale w + 1/10) else max (1/2) (p_scale w - 1/10))\<rparr>
      else w)"

text \<open>
  Fitting a loaded document: the container's and, when it is there, the page's width in pixels. A page of
  width 0 makes the quotient infinite, so that a bound is taken; that of 0 by 0, a \<open>NaN\<close>, is left out and
  counts as too small.
\<close>

definition onDocumentLoadSuccess :: "jsval \<Rightarrow> int option \<Rightarrow> int option \<Rightarrow> 'z pworld_scheme \<Rightarrow> 'z pworld_scheme" where
  "onDocumentLoadSuccess n container page w =
     (let w1 = w\<lparr>p_pages := n\<rparr>
      in case container of
           None \<Rightarrow> w1
         | Some cw \<Rightarrow>
             (case page of
                Some pw \<Rightarrow>
                  w1\<lparr>p_scale :=
                    (if pw = 0 then (if 0 < cw - 32 then 2 else 1/2)
                     else max (1/2) (min 2 (of_int (cw - 32) / of_int pw)))\<rparr>
              | None \<Rightarrow> w1\<lparr>p_scale := 1\<rparr>))"

subsection \<open>Cooldown\<close>

definition saved_cooldown :: "rat \<Rightarrow> rat \<Rightarrow> int \<Rightarrow> jsval" where
  "saved_cooldown c tot now =
     Obj [(''expireTime'', Num (of_int now + c * 1000)),
          (''totalSeconds'', Num (if tot > 0 then tot else c))]"

text \<open>Loading throws when the stored text is no JSON value with fields.\<close>

definition loadCooldown :: "jsval \<Rightarrow> (unit, 'z pworld_scheme) action" where
  "loadCooldown ch w =
     (case stored_truthy (store w) (cooldown_key ch) of
        None \<Rightarrow> (Inr (), w)
      | Some it \<Rightarrow>
          (case json_parse it of
             Inl e \<Rightarrow> (Inl e, w)
           | Inr v \<Rightarrow>
               if nullish v then (Inl TypeError, w)
               else case as_num (oget v ''expireTime'') of
                   None \<Rightarrow> (Inr (), (remove_store (cooldown_key ch) w)\<lparr>p_cooldown := 0, p_cooldown_total := 0\<rparr>)
                 | Some x \<Rightarrow>
                     (let rem = max 0 \<lfloor>(x - of_int (clock w)) / 1000\<rfloor>
                      in if rem > 0
                         then (Inr (), w\<lparr>p_cooldown := of_int rem,
                                p_cooldown_total := (case as_num (js_or (oget v ''totalSeconds'') (Num (of_int rem))) of
                                    Some t \<Rightarrow> t | None \<Rightarrow> 0)\<rparr>)
                         else (Inr (), (remove_store (cooldown_key ch) w)\<lparr>p_cooldown := 0, p_cooldown_total := 0\<rparr>))))"

text \<open>The effect that runs when the cooldown changes, and the tick of its interval.\<close>

definition cooldown_effect :: "jsval \<Rightarrow> 'z pworld_scheme \<Rightarrow> 'z pworld_scheme" where
  "cooldown_effect ch w =
     (if p_cooldown w > 0
      then (set_store (cooldown_key ch) (Json (saved_cooldown (p_cooldown w) (p_cooldown_total w) (clock w))) w)
             \<lparr>p_cool_interval := True\<rparr>
      else w\<lparr>p_cool_interval := False\<rparr>)"

definition cooldown_tick :: "jsval \<Rightarrow> 'z pworld_scheme \<Rightarrow> 'z pworld_scheme" where
  "cooldown_tick ch w =
     (if \<not> p_cool_interval w then w
      else if p_cooldown w \<le> 1
      then (remove_store (cooldown_key ch) w)\<lparr>p_cool_interval := False, p_cooldown := 0, p_cooldown_total := 0\<rparr>
      else w\<lparr>p_cooldown := p_cooldown w - 1\<rparr>)"

subsection \<open>Opening and leaving\<close>

text \<open>What opening a challenge resets before its hints and its status are requested.\<close>

definition open_panel :: "jsval \<Rightarrow> (unit, 'z pworld_scheme) action" where
  "open_panel ch w =
     (let other = r_running w \<and> r_check_id w \<noteq> Some (cid ch);
          w1 = w\<lparr>p_pod := js_nn (oget ch ''pod_status'') Null, r_abort := other,
                 r_running := (r_running w \<and> \<not> other),
                 r_check_id := (if other then None else r_check_id w), r_end := Null\<rparr>
      in loadCooldown ch w1)"

definition leave_panel :: "'z pworld_scheme \<Rightarrow> 'z pworld_scheme" where
  "leave_panel w =
     w\<lparr>r_abort := True, r_running := False, r_check_id := None, p_interval := False, p_cool_interval := False\<rparr>"

subsection \<open>Countdown\<close>

definition endtime_effect :: "jsval \<Rightarrow> 'z pworld_scheme \<Rightarrow> 'z pworld_scheme" where
  "endtime_effect ch w =
     (if p_started w \<and> truthy (p_remaining w) \<and> num_gt (as_num (p_remaining w)) (Some 0) \<and> \<not> truthy (r_end w)
      then let e = of_int (clock w) + the (as_num (p_remaining w)) * 1000
           in (set_store (endtime_key ch) (Raw (show_num e)) w)\<lparr>r_end := Num e\<rparr>
      else w)"

text \<open>\<open>updateTimer\<close>: \<open>tr\<close> is the remaining time of the render the interval was set up in.\<close>

definition restore_end :: "jsval \<Rightarrow> jsval \<Rightarrow> 'z pworld_scheme \<Rightarrow> 'z pworld_scheme" where
  "restore_end ch tr w =
     (if truthy (r_end w) then w
      else case stored_truthy (store w) (endtime_key ch) of
          Some it \<Rightarrow> w\<lparr>r_end := parseInt10 (item_text it)\<rparr>
        | None \<Rightarrow>
            (let e = of_int (clock w) + (case as_num tr of Some x \<Rightarrow> x | None \<Rightarrow> 0) * 1000
             in (set_store (endtime_key ch) (Raw (show_num e)) w)\<lparr>r_end := Num e\<rparr>))"

definition refresh_after :: "server \<Rightarrow> (unit, 'z pworld_scheme) action" where
  "refresh_after srv = refreshChallengeData srv"

definition stop_call :: "server \<Rightarrow> jsval \<Rightarrow> (jsval, 'z pworld_scheme) action" where
  "stop_call srv ch =
     bindM (fetchWithAuth srv (endpoint_url CH_STOP) (POST_opts (stop_body (cid ch)))) (\<lambda>r.
       bindM (lift (resp_json r)) (\<lambda>data. if nullish data then throw TypeError else ret data))"

definition autoStopChallengeOnTimeout :: "server \<Rightarrow> jsval \<Rightarrow> (unit, 'z pworld_scheme) action" where
  "autoStopChallengeOnTimeout srv ch w =
     (if r_stopping w then (Inr (), w)
      else finallyM (catchM (bindM (stop_call srv ch) (\<lambda>data.
               if truthy (oget data ''success'')
               then bindM (refresh_after srv) (\<lambda>_. upd (show_popup ''Auto Stopped'' [oget ch ''name'']))
               else ret ()))
             (\<lambda>_. ret ())) (\<lambda>w. w\<lparr>r_stopping := False\<rparr>) (w\<lparr>r_stopping := True\<rparr>))"

definition forget_deployment :: "jsval \<Rightarrow> 'z pworld_scheme \<Rightarrow> 'z pworld_scheme" where
  "forget_deployment ch w = remove_store (healthcheck_key ch) (remove_store (deployment_key ch) w)"

definition time_up :: "server \<Rightarrow> jsval \<Rightarrow> (unit, 'z pworld_scheme) action" where
  "time_up srv ch w =
     (let w1 = w\<lparr>p_interval := False, p_remaining := Num 0\<rparr>
      in if \<not> truthy (oget ch ''require_deploy'') then (Inr (), w1)
         else bindM (stopTimer (cid ch)) (\<lambda>_.
                bindM (upd (\<lambda>w. show_popup ''Time's Up!'' [oget ch ''name'']
                   ((remove_store (endtime_key ch) (forget_deployment ch w))\<lparr>r_end := Null\<rparr>)))
                (\<lambda>_. autoStopChallengeOnTimeout srv ch))
              (w1\<lparr>r_abort := True, r_running := False, r_check_id := None, p_started := False, p_url := Null,
                 p_checking := False, p_healthy := False, p_deploying := False, p_starting := False\<rparr>))"

definition updateTimer :: "server \<Rightarrow> jsval \<Rightarrow> jsval \<Rightarrow> (unit, 'z pworld_scheme) action" where
  "updateTimer srv ch tr w =
     (let w1 = restore_end ch tr w
      in case as_num (r_end w1) of
           None \<Rightarrow> (Inr (), w1\<lparr>p_remaining := NaN\<rparr>)
         | Some e \<Rightarrow>
             (let rem = max 0 \<lceil>(e - of_int (clock w1)) / 1000\<rceil>
              in if rem \<le> 0 then time_up srv ch w1
                 else (Inr (), w1\<lparr>p_remaining := Num (of_int rem)\<rparr>)))"

definition timer_effect :: "server \<Rightarrow> jsval \<Rightarrow> (unit, 'z pworld_scheme) action" where
  "timer_effect srv ch w =
     (let w1 = w\<lparr>p_interval := False\<rparr>
      in if p_started w \<and> truthy (p_remaining w) \<and> num_gt (as_num (p_remaining w)) (Some 0)
         then bindM (updateTimer srv ch (p_remaining w)) (\<lambda>_. upd (\<lambda>w. w\<lparr>p_interval := True\<rparr>)) w1
         else (Inr (), w1))"

text \<open>The event the timer service dispatches when it has stopped a challenge.\<close>

definition handleAutoStop :: "server \<Rightarrow> jsval \<Rightarrow> jsval \<Rightarrow> (unit, 'z pworld_scheme) action" where
  "handleAutoStop srv ch detail w =
     (if seq (oget detail ''challengeId'') (Num (of_int (cid ch)))
      then refresh_after srv
             ((remove_store (endtime_key ch) w)
                \<lparr>p_started := False, p_url := Null, p_remaining := Null, p_healthy := False,
                 p_checking := False, p_deploying := False, p_interval := False, r_end := Null\<rparr>)
      else (Inr (), w))"

subsection \<open>Rules: escaping\<close>

lemma replace_char_append: "replace_char n r (s @ t) = replace_char n r s @ replace_char n r t"
  by (simp add: replace_char_def)

lemma escapeHtml_append: "escapeHtml (s @ t) = escapeHtml s @ escapeHtml t"
  by (simp add: escapeHtml_def replace_char_append)

lemma special_codes:
  "((of_char c :: nat) = 38) = (c = CHR ''&'')" "((of_char c :: nat) = 60) = (c = CHR ''<'')"
  "((of_char c :: nat) = 62) = (c = CHR ''>'')" "((of_char c :: nat) = 34) = (c = CHR 0x22)"
  "((of_char c :: nat) = 39) = (c = CHR 0x27)"
  using of_char_eq_iff [where 'a = nat, of c "CHR ''&''"] of_char_eq_iff [where 'a = nat, of c "CHR ''<''"]
    of_char_eq_iff [where 'a = nat, of c "CHR ''>''"] of_char_eq_iff [where 'a = nat, of c "CHR 0x22"]
    of_char_eq_iff [where 'a = nat, of c "CHR 0x27"]
  by simp_all

lemma escape_html_char_eq:
  "escape_html_char c =
     (if c = CHR ''&'' then ''&amp;'' else if c = CHR ''<'' then ''&lt;'' else if c = CHR ''>'' then ''&gt;''
      else if c = CHR 0x22 then ''&quot;'' else if c = CHR 0x27 then ''&#39;'' else [c])"
  unfolding escape_html_char_def Let_def special_codes ..

lemma escapeHtml_single: "escapeHtml [c] = escape_html_char c"
proof -
  consider "c = CHR ''&''" | "c = CHR ''<''" | "c = CHR ''>''" | "c = CHR 0x22" | "c = CHR 0x27"
    | "c \<noteq> CHR ''&''" "c \<noteq> CHR ''<''" "c \<noteq> CHR ''>''" "c \<noteq> CHR 0x22" "c \<noteq> CHR 0x27"
    by blast
  then show ?thesis
    by cases (simp_all add: escapeHtml_def replace_char_def escape_html_char_eq special_codes)
qed

text \<open>How a browser reads the five character references back.\<close>

definition html_references :: "(string \<times> char) list" where
  "html_references = [(''&amp;'', CHR ''&''), (''&lt;'', CHR ''<''), (''&gt;'', CHR ''>''),
     (''&quot;'', CHR 0x22), (''&#39;'', CHR 0x27)]"

function html_text :: "string \<Rightarrow> string" where
  "html_text [] = []"
| "html_text (c # s) =
     (case find (\<lambda>(r, _). take (length r) (c # s) = r) html_references of
        Some (r, d) \<Rightarrow> d # html_text (drop (length r - 1) s)
      | None \<Rightarrow> c # html_text s)"
  by pat_completeness auto
termination by (relation "measure length") auto

lemma html_text_escaped: "html_text (escape_html_char c @ s) = c # html_text s"
proof -
  consider "c = CHR ''&''" | "c = CHR ''<''" | "c = CHR ''>''" | "c = CHR 0x22" | "c = CHR 0x27"
    | "c \<noteq> CHR ''&''" "c \<noteq> CHR ''<''" "c \<noteq> CHR ''>''" "c \<noteq> CHR 0x22" "c \<noteq> CHR 0x27"
    by blast
  then show ?thesis
    by cases (simp_all add: escape_html_char_eq html_references_def)
qed

definition html_special :: "char list" where
  "html_special = [CHR ''<'', CHR ''>'', CHR 0x22, CHR 0x27]"

lemma escape_char_safe: "set (escape_html_char c) \<inter> set html_special = {}"
  by (auto simp: escape_html_char_eq html_special_def)

subsection \<open>Properties: texts\<close>

text \<open>Escaping a text for HTML replaces each character by itself, or by its reference when it is one
  of the five special ones, whatever the order of the code's five replacements does in between; the
  result has no angle bracket and no quote, and a browser reads it back as the text.\<close>
theorem escapeHtml_chars:
  "escapeHtml s = concat (map escape_html_char s) \<and> set (escapeHtml s) \<inter> set html_special = {} \<and>
   html_text (escapeHtml s) = s"
proof -
  have e: "escapeHtml s = concat (map escape_html_char s)"
  proof (induction s)
    case (Cons c s)
    then show ?case using escapeHtml_append [of "[c]" s] escapeHtml_single [of c] by simp
  qed (simp add: escapeHtml_def replace_char_def)
  moreover have "html_text (concat (map escape_html_char s)) = s"
    by (induction s) (simp_all add: html_text_escaped)
  ultimately show ?thesis
    using escape_char_safe by fastforce
qed

subsection \<open>Rules: the panel's state\<close>

lemma panel_fields:
  assumes "lworld.more w' = lworld.more w"
  shows "p_answer w' = p_answer w" "p_hints w' = p_hints w" "p_remaining w' = p_remaining w"
    "p_started w' = p_started w" "p_url w' = p_url w" "p_submitting w' = p_submitting w"
    "p_starting w' = p_starting w" "p_stopping w' = p_stopping w" "p_deploying w' = p_deploying w"
    "p_checking w' = p_checking w" "p_healthy w' = p_healthy w" "p_pod w' = p_pod w"
    "p_cooldown w' = p_cooldown w" "p_cooldown_total w' = p_cooldown_total w"
    "p_interval w' = p_interval w" "p_unlocking w' = p_unlocking w" "r_running w' = r_running w"
    "r_check_id w' = r_check_id w" "r_abort w' = r_abort w" "r_stopping w' = r_stopping w"
    "r_end w' = r_end w" "pworld.more w' = pworld.more w"
  using assms by (cases w; cases w'; simp)+

lemma key_distinct [simp]:
  "deployment_key ch \<noteq> TIMER_KEY" "healthcheck_key ch \<noteq> TIMER_KEY" "endtime_key ch \<noteq> TIMER_KEY"
  "TIMER_KEY \<noteq> deployment_key ch" "TIMER_KEY \<noteq> healthcheck_key ch" "TIMER_KEY \<noteq> endtime_key ch"
  by (simp_all add: key_def TIMER_KEY_def)

lemma stored_truthy_Json: "get_item st k = Some (Json v) \<Longrightarrow> stored_truthy st k = Some (Json v)"
  by (simp add: stored_truthy_def)

subsection \<open>A state for examples\<close>

text \<open>A panel whose challenge's instance runs, five seconds after the page was loaded.\<close>

definition pw0 :: pworld where
  "pw0 = \<lparr>store = [], clock = 5000, sent = [], path = ''/contest/1/challenges'', redirect = None, popups = [], fired = [],
     base_url = [], t_handles = [], t_pending = [], t_next = 0, t_inflight = [], t_checking = True,
     c_categories = [], c_selcat = Str [], c_selected = Null, c_loading = False, c_loading_detail = False,
     c_error = [], c_active = True, c_reason = Str ''active'', c_prereqs = [], c_expanded = [], c_bycat = [],
     c_loadcats = [], c_processed = Null, c_params = [], c_page = 1, c_sidebar = True,
     p_answer = [], p_hints = Arr [], p_remaining = Null, p_started = True, p_url = Str ''tok'',
     p_submitting = False, p_starting = False, p_stopping = False, p_deploying = False, p_checking = False,
     p_healthy = True, p_pod = Str ''Running'', p_pdf = None, p_pages = Null, p_page = 1, p_blob = None,
     p_loading_pdf = False, p_unlocking = Null, p_cooldown = 30, p_cooldown_total = 30, p_scale = 1,
     p_copied = [], p_saved = [], p_interval = True, p_cool_interval = False, r_running = False,
     r_check_id = None, r_abort = False, r_stopping = False, r_end = Num 4000, r_mounted = True\<rparr>"

definition ch0 :: jsval where
  "ch0 = Obj [(''id'', Num 7), (''name'', Str ''web''), (''require_deploy'', BoolV True), (''value'', Num 100)]"

lemma pw0_simps [simp]: "timers_of pw0 = Inr []" "cid ch0 = 7" "truthy (oget ch0 ''require_deploy'')"
  by (simp_all add: pw0_def getActiveTimers_def ch0_def cid_def)

subsection \<open>Properties: cooldown\<close>

text \<open>C19: a cooldown survives a reload of the page: \<open>c\<close> seconds saved when the cooldown is shown are
  read back \<open>d\<close> milliseconds later as \<open>c - d/1000\<close> rounded down, with the total it began with; when
  less than a second is left, the saved entry is removed and there is no cooldown.\<close>
theorem cooldown_survives_reload:
  assumes "0 < p_cooldown w"
    and "store v = store (cooldown_effect ch w)" and "clock v = clock w + int d"
  shows "loadCooldown ch v =
    (let n = \<lfloor>p_cooldown w - of_nat d / 1000\<rfloor>
     in if 0 < n
        then (Inr (), v\<lparr>p_cooldown := of_int n,
                p_cooldown_total := (if p_cooldown_total w > 0 then p_cooldown_total w else p_cooldown w)\<rparr>)
        else (Inr (), (remove_store (cooldown_key ch) v)\<lparr>p_cooldown := 0, p_cooldown_total := 0\<rparr>))"
proof -
  let ?s = "saved_cooldown (p_cooldown w) (p_cooldown_total w) (clock w)"
  have st: "stored_truthy (store v) (cooldown_key ch) = Some (Json ?s)"
    using assms(1,2) by (simp add: stored_truthy_Json cooldown_effect_def)
  have x: "(of_int (clock w) + p_cooldown w * 1000 - of_int (clock v)) / 1000 = p_cooldown w - of_nat d / 1000"
    unfolding assms(3) by (simp add: field_simps)
  show ?thesis
    using assms(1) unfolding loadCooldown_def st
    by (simp add: saved_cooldown_def Let_def flip: x)
qed

theorem cooldown_survives_reload_witness:
  "p_cooldown (snd (loadCooldown ch0 ((cooldown_effect ch0 pw0)\<lparr>clock := 5000 + int 12345\<rparr>))) = 17"
proof -
  let ?v = "(cooldown_effect ch0 pw0)\<lparr>clock := 5000 + int 12345\<rparr>"
  have "0 < p_cooldown pw0" "store ?v = store (cooldown_effect ch0 pw0)" "clock ?v = clock pw0 + int 12345"
    by (simp_all add: pw0_def)
  moreover have "\<lfloor>3531 / (200 :: rat)\<rfloor> = 17" "p_cooldown pw0 = 30" "p_cooldown_total pw0 = 30"
    by (simp_all add: floor_eq_iff pw0_def)
  ultimately show ?thesis
    using cooldown_survives_reload [of pw0 ?v ch0 12345] by (simp add: Let_def)
qed

subsection \<open>Rules: stopping\<close>

text \<open>\<open>one_stop\<close>: exactly one stop request is sent, and otherwise only reading ones.\<close>

definition stop_of :: "jsval \<Rightarrow> request \<Rightarrow> bool" where
  "stop_of ch q = (req_method q = ''POST'' \<and> req_body q = Some (stop_body (cid ch)))"

definition one_stop :: "jsval \<Rightarrow> 'z world_scheme \<Rightarrow> 'z world_scheme \<Rightarrow> bool" where
  "one_stop ch w w' = (\<exists>q qs. sent w' = sent w @ q # qs \<and> is_stop (base_url w) q \<and> stop_of ch q \<and>
     filter (\<lambda>q. req_method q \<noteq> ''GET'') qs = [])"

lemma stop_request_is_stop:
  "is_stop (base_url w) (auth_request (endpoint_url CH_STOP) (POST_opts (stop_body (cid ch))) w)"
  "stop_of ch (auth_request (endpoint_url CH_STOP) (POST_opts (stop_body (cid ch))) w)"
  by (simp_all add: is_stop_def stop_of_def auth_request_def POST_opts_def)

lemma emitted_reads:
  assumes "emitted reads_only v w'"
  obtains qs where "sent w' = sent v @ qs" "filter (\<lambda>q. req_method q \<noteq> ''GET'') qs = []"
  using assms by (auto simp: emitted_def reads_only_def filter_empty_conv)

lemma stop_step:
  assumes "fetchWithAuth srv (endpoint_url CH_STOP) (POST_opts (stop_body (cid ch))) w = (x, v)"
    and "emitted reads_only v w'"
  shows "one_stop ch w w'"
proof -
  obtain qs where "sent w' = sent v @ qs" "filter (\<lambda>q. req_method q \<noteq> ''GET'') qs = []"
    using assms(2) by (rule emitted_reads)
  then show ?thesis
    using fetchWithAuth_step(1) [OF assms(1)] stop_request_is_stop [where w = w and ch = ch]
    unfolding one_stop_def by auto
qed

lemma autoStop_result:
  assumes "\<not> r_stopping w"
  shows "fst (autoStopChallengeOnTimeout srv ch w) = Inr () \<and>
    (let w' = snd (autoStopChallengeOnTimeout srv ch w)
     in one_stop ch w w' \<and> store_left w w' \<and> lworld.more w' = lworld.more w)"
proof -
  let ?w = "w\<lparr>r_stopping := True\<rparr>"
  let ?k = "\<lambda>r. bindM (bindM (lift (resp_json r)) (\<lambda>data. if nullish data then throw TypeError else ret data))
     (\<lambda>data. if truthy (oget data ''success'')
        then bindM (refresh_after srv) (\<lambda>_. upd (show_popup ''Auto Stopped'' [oget ch ''name''])) else ret ())"
  let ?f = "fetchWithAuth srv (endpoint_url CH_STOP) (POST_opts (stop_body (cid ch)))"
  let ?run = "catchM (bindM ?f ?k) (\<lambda>_. ret ())"
  have run: "autoStopChallengeOnTimeout srv ch w = finallyM ?run (\<lambda>w. w\<lparr>r_stopping := False\<rparr>) ?w"
    using assms by (simp add: autoStopChallengeOnTimeout_def stop_call_def bindM_assoc)
  obtain x v where f: "?f ?w = (x, v)"
    by (cases "?f ?w")
  note step = fetchWithAuth_step [OF f]
  have q: "quiet v (snd (?run ?w)) \<and> fst (?run ?w) = Inr ()"
  proof (cases x)
    case (Inr r)
    have "quiet u (snd (?k r u))" for u
      unfolding refresh_after_def
      by (intro qt.bind qt.lift qt.cond qt.throw qt.ret qt.upd refresh_quiet popup_quiet)
    then have "quiet v (snd (catchM (?k r) (\<lambda>_. ret ()) v))"
      by (intro qt.catch qt.ret)
    then show ?thesis
      using catch_bind(1) [of ?f ?w r v ?k] f Inr by (simp add: catchM_def split: prod.split sum.split)
  qed (use catch_bind(2) [of ?f ?w _ v ?k] f in \<open>simp add: qt.refl\<close>)
  let ?w' = "snd (?run ?w)"
  have "one_stop ch ?w ?w'" "store_left ?w ?w'" "lworld.more ?w' = lworld.more ?w"
    using stop_step [OF f] q step(3) sl.trans [of ?w v ?w'] world_lworld_more [OF step(4)]
    by (auto simp: quiet_def kept_def)
  then show ?thesis
    using q assms unfolding run
    by (cases "?run ?w"; cases w; cases ?w') (auto simp: finallyM_def Let_def one_stop_def store_left_def)
qed

lemma store_left_None: "store_left w w' \<Longrightarrow> get_item (store w) k = None \<Longrightarrow> get_item (store w') k = None"
  by (auto simp: store_left_def)

lemma store_left_timers:
  "store_left w w' \<Longrightarrow> timers_of w = Inr ts \<Longrightarrow> timers_of w' = Inr ts \<or> timers_of w' = Inr []"
  by (auto simp: store_left_def)

lemma forget_simps [simp]:
  "lworld.more (forget_deployment ch w) = lworld.more w" "sent (forget_deployment ch v) = sent v"
  "base_url (forget_deployment ch v) = base_url v" "clock (forget_deployment ch v) = clock v"
  "timers_of (forget_deployment ch v) = timers_of v"
  "get_item (store (forget_deployment ch v)) k =
     (if k = deployment_key ch \<or> k = healthcheck_key ch then None else get_item (store v) k)"
  by (simp_all add: forget_deployment_def)

lemmas panel_world_simps [simp] =
  panel_fields [OF lworld_more_simps(1)] panel_fields [OF lworld_more_simps(2)]
  panel_fields [OF lworld_more_simps(3)] panel_fields [OF lworld_more_simps(4)]
  panel_fields [OF lworld_more_simps(5)] panel_fields [OF stopTimer_lmore]
  panel_fields [OF forget_simps(1)]

lemma stopTimer_keeps:
  assumes "timers_of w = Inr ts"
  shows "fst (stopTimer i w) = Inr ()" "k \<noteq> TIMER_KEY \<Longrightarrow> get_item (store (snd (stopTimer i w))) k = get_item (store w) k"
  using assms by (simp_all add: stopTimer_run saveTimersToStorage_def set_store_def)

subsection \<open>Properties: the end of the countdown\<close>

text \<open>C5: when the time of a deployed challenge is over, the panel forgets the instance at once: it is
  no longer started and has no address, nothing is being deployed or checked and a running health
  check is told to stop, the timer service has no timer for the challenge, and the saved deployment,
  health check and end time are gone; then exactly one stop request is sent, unless one is under way.\<close>
theorem countdown_end:
  assumes "r_end w = Num e" and "e \<noteq> 0" and "e \<le> of_int (clock w)"
    and "truthy (oget ch ''require_deploy'')" and "timers_of w = Inr ts"
  shows "case updateTimer srv ch tr w of (r, w') \<Rightarrow>
     r = Inr () \<and> \<not> p_started w' \<and> p_url w' = Null \<and> p_remaining w' = Num 0 \<and> \<not> p_interval w' \<and>
     \<not> p_checking w' \<and> \<not> p_healthy w' \<and> \<not> p_deploying w' \<and> \<not> p_starting w' \<and>
     r_abort w' \<and> \<not> r_running w' \<and> r_end w' = Null \<and> getTimeRemaining (cid ch) w' = Inr None \<and>
     get_item (store w') (deployment_key ch) = None \<and> get_item (store w') (healthcheck_key ch) = None \<and>
     get_item (store w') (endtime_key ch) = None \<and>
     (if r_stopping w then sent w' = sent w else one_stop ch w w')"
proof -
  let ?w1 = "w\<lparr>p_interval := False, p_remaining := Num 0, r_abort := True, r_running := False,
     r_check_id := None, p_started := False, p_url := Null, p_checking := False, p_healthy := False,
     p_deploying := False, p_starting := False\<rparr>"
  let ?v = "snd (stopTimer (cid ch) ?w1)"
  let ?u = "show_popup ''Time's Up!'' [oget ch ''name'']
     ((remove_store (endtime_key ch) (forget_deployment ch ?v))\<lparr>r_end := Null\<rparr>)"
  let ?w' = "snd (autoStopChallengeOnTimeout srv ch ?u)"
  have t1: "timers_of ?w1 = Inr ts" using assms(5) by simp
  have st: "stopTimer (cid ch) ?w1 = (Inr (), ?v)"
    using stopTimer_keeps(1) [OF t1, of "cid ch"] by (metis prod.collapse)
  have "\<lceil>(e - of_int (clock w)) / 1000\<rceil> \<le> 0" using assms(3) by simp
  then have run: "updateTimer srv ch tr w = autoStopChallengeOnTimeout srv ch ?u"
    using assms(1,2,4) st by (simp add: updateTimer_def restore_end_def Let_def time_up_def)
  have ut: "timers_of ?u = Inr (filter (\<lambda>t. td_id t \<noteq> cid ch) ts)"
    using snd_stop_store(1) [OF t1, of "cid ch"] by simp
  have us: "get_item (store ?u) (deployment_key ch) = None" "get_item (store ?u) (healthcheck_key ch) = None"
    "get_item (store ?u) (endtime_key ch) = None"
    by simp_all
  have same: "r_stopping ?u = r_stopping w" "sent ?u = sent w" "base_url ?u = base_url w"
    by simp_all
  have res: "fst (autoStopChallengeOnTimeout srv ch ?u) = Inr () \<and> store_left ?u ?w' \<and>
      lworld.more ?w' = lworld.more ?u \<and> (if r_stopping w then sent ?w' = sent w else one_stop ch w ?w')"
  proof (cases "r_stopping w")
    case True
    then show ?thesis
      using same by (simp add: autoStopChallengeOnTimeout_def sl.refl)
  next
    case False
    then show ?thesis
      using autoStop_result [of ?u srv ch] same by (simp add: Let_def one_stop_def)
  qed
  then have "lworld.more ?w' = lworld.more ?u" by blast
  note fields = panel_fields [OF this]
  have "getTimeRemaining (cid ch) ?w' = Inr None"
    using store_left_timers [OF _ ut, of ?w'] res by (auto simp: getTimeRemaining_def find_None_iff)
  then show ?thesis
    using res fields store_left_None [of ?u ?w'] us unfolding run
    by (simp add: case_prod_unfold)
qed

theorem countdown_end_witness:
  "case updateTimer (\<lambda>_ _. (0, NetFail)) ch0 (Num 1) pw0 of (r, w') \<Rightarrow>
     \<not> p_started w' \<and> getTimeRemaining 7 w' = Inr None \<and> one_stop ch0 pw0 w'"
proof -
  have "r_end pw0 = Num 4000" "(4000 :: rat) \<noteq> 0" "(4000 :: rat) \<le> of_int (clock pw0)" "\<not> r_stopping pw0"
    by (simp_all add: pw0_def)
  from countdown_end [OF this(1-3) pw0_simps(3,1), of "\<lambda>_ _. (0, NetFail)" "Num 1"] this(4) show ?thesis
    by (simp add: case_prod_unfold)
qed

end
