(* ===== verification/PanelDeploy.thy ===== *)
theory PanelDeploy
  imports Panel
begin

section \<open>The challenge panel: starting, watching and stopping an instance\<close>

text \<open>
  \<open>fetchHints\<close>, \<open>fetchChallengeStatus\<close>, \<open>handleStartChallenge\<close>, \<open>startHealthCheckLoop\<close> and
  \<open>handleStopChallenge\<close> of \<open>ChallengeDetailPanel\<close> (\<open>pages/Challenges.tsx\<close>). A health check that the
  code starts in the background, at once or after 100 ms, is a mark in the state (\<open>d_loop_due\<close>) that
  says a loop is to be run; its rounds are steps of their own, between which other code runs. A loop
  that the code calls without waiting runs up to its first request in the same call; here that part,
  too, belongs to the loop's own steps, so nothing is claimed of the state in between.
\<close>

record dworld = pworld +
  d_loop_due :: bool

subsection \<open>Hints and details\<close>

definition fetchHints :: "server \<Rightarrow> jsval \<Rightarrow> (unit, 'z pworld_scheme) action" where
  "fetchHints srv ch w =
     catchM (bindM (fetchWithAuth srv (endpoint_url (HINTS_GET_ALL (cid ch))) GET_opts) (\<lambda>r.
       bindM (lift (resp_json r)) (\<lambda>data.
         if nullish data then throw TypeError
         else if truthy (oget data ''hints'')
              then upd (\<lambda>w. w\<lparr>p_hints := js_or (oget (oget data ''hints'') ''hints'') (Arr [])\<rparr>)
              else ret ())))
       (\<lambda>_. ret ()) w"

subsection \<open>The status of the instance\<close>

definition pod_text :: "jsval \<Rightarrow> string" where
  "pod_text v = (if truthy v then js_string v else [])"

definition is_deleting :: "jsval \<Rightarrow> bool" where
  "is_deleting v = (truthy v \<and> (seq v (Str ''Deleting'') \<or> has_substring (lower (js_string v)) ''delet''))"

definition is_pending_deploy :: "jsval \<Rightarrow> bool" where
  "is_pending_deploy v =
     (lower (trim (pod_text v)) \<in>
        set [''pending_deploy'', ''pending'', ''deploying'', ''creating'', ''initializing''])"

definition not_running_ui :: "'z pworld_scheme \<Rightarrow> 'z pworld_scheme" where
  "not_running_ui w =
     w\<lparr>p_started := False, p_url := Null, p_remaining := Null, p_healthy := False, p_checking := False,
       p_deploying := False, p_interval := False\<rparr>"

definition checking_ui :: "'z pworld_scheme \<Rightarrow> 'z pworld_scheme" where
  "checking_ui w = w\<lparr>p_checking := True, p_deploying := True, p_starting := False, p_healthy := False\<rparr>"

definition idle_ui :: "bool \<Rightarrow> 'z pworld_scheme \<Rightarrow> 'z pworld_scheme" where
  "idle_ui healthy w =
     w\<lparr>p_checking := False, p_healthy := healthy, p_deploying := False, p_starting := False\<rparr>"

definition resume_loop :: "'z dworld_scheme \<Rightarrow> 'z dworld_scheme" where
  "resume_loop w = (if r_running w then w else w\<lparr>d_loop_due := True\<rparr>)"

text \<open>\<open>(Date.now() - state.startTime) / 1000 < limit\<close> for a stored state.\<close>

definition younger :: "rat \<Rightarrow> jsval \<Rightarrow> 'z world_scheme \<Rightarrow> bool" where
  "younger limit v w =
     num_gt (Some limit) (map_option (\<lambda>t. (of_int (clock w) - t) / 1000) (as_num (oget v ''startTime'')))"

definition check_state :: "jsval \<Rightarrow> jsval \<Rightarrow> jsval" where
  "check_state start ch =
     json_clean (Obj [(''startTime'', start), (''challengeId'', Num (of_int (cid ch))), (''attempts'', Num 0)])"

definition save_check :: "jsval \<Rightarrow> jsval \<Rightarrow> 'z world_scheme \<Rightarrow> 'z world_scheme" where
  "save_check start ch w = set_store (healthcheck_key ch) (Json (check_state start ch)) w"

text \<open>
  A stored state is parsed and its fields are read, so a text that is no JSON value, or the JSON
  \<open>null\<close> where the code reads a field of it, throws.
\<close>

definition parse_saved :: "item option \<Rightarrow> exn + jsval" where
  "parse_saved s = (case s of None \<Rightarrow> Inr Null | Some it \<Rightarrow> json_parse it)"

text \<open>Started, with an address: healthy, being checked, being deployed by an older visit, or neither.\<close>

definition status_with_url :: "jsval \<Rightarrow> jsval \<Rightarrow> (unit, 'z dworld_scheme) action" where
  "status_with_url ch data w =
     (let dep = stored_truthy (store w) (deployment_key ch);
          hc = stored_truthy (store w) (healthcheck_key ch)
      in if truthy (oget (oget data ''data'') ''is_healthy'')
         then (Inr (), idle_ui True (forget_deployment ch w))
         else if hc = None \<and> dep = None then (Inr (), idle_ui True w)
         else case parse_saved hc of
             Inl e \<Rightarrow> (Inl e, w)
           | Inr h \<Rightarrow>
               if truthy h
               then (if younger 300 h w then (Inr (), resume_loop (checking_ui w))
                     else (Inr (), idle_ui False (forget_deployment ch w)))
               else case dep of
                   None \<Rightarrow> (Inr (), w)
                 | Some it \<Rightarrow>
                     (case json_parse it of
                        Inl e \<Rightarrow> (Inl e, w)
                      | Inr d \<Rightarrow>
                          if nullish d then (Inl TypeError, w)
                          else if younger 300 d w
                          then (Inr (), resume_loop (checking_ui (save_check (oget d ''startTime'') ch w)))
                          else (Inr (), idle_ui False (forget_deployment ch w))))"

text \<open>The state saved by a visit that was waiting: the health check's, or else the deployment's.\<close>

definition saved_state :: "jsval \<Rightarrow> 'z world_scheme \<Rightarrow> exn + jsval" where
  "saved_state ch w =
     (case stored_truthy (store w) (healthcheck_key ch) of
        Some it \<Rightarrow> json_parse it
      | None \<Rightarrow> parse_saved (stored_truthy (store w) (deployment_key ch)))"

definition keep_checking :: "jsval \<Rightarrow> jsval \<Rightarrow> 'z dworld_scheme \<Rightarrow> 'z dworld_scheme" where
  "keep_checking ch st w =
     (let w1 = (if stored_truthy (store w) (healthcheck_key ch) = None
                then save_check (oget st ''startTime'') ch w else w)
      in resume_loop (checking_ui (w1\<lparr>p_started := False, p_url := Null\<rparr>)))"

definition status_without_url :: "jsval \<Rightarrow> (unit, 'z dworld_scheme) action" where
  "status_without_url ch w =
     (case saved_state ch w of
        Inl e \<Rightarrow> (Inl e, w)
      | Inr st \<Rightarrow>
          if \<not> truthy st then (Inr (), w)
          else if younger 300 st w then (Inr (), keep_checking ch st w)
          else (Inr (), idle_ui False ((forget_deployment ch w)\<lparr>p_started := False, p_url := Null\<rparr>)))"

definition status_not_started :: "jsval \<Rightarrow> jsval \<Rightarrow> (unit, 'z dworld_scheme) action" where
  "status_not_started ch data w =
     (if is_pending_deploy (oget data ''pod_status'')
      then (Inr (), resume_loop (checking_ui (w\<lparr>p_started := False, p_url := Null\<rparr>)))
      else case saved_state ch w of
          Inl e \<Rightarrow> (Inl e, w)
        | Inr st \<Rightarrow>
            if \<not> truthy st then (Inr (), idle_ui False w)
            else if younger 100 st w then (Inr (), keep_checking ch st w)
            else (Inr (), idle_ui False (forget_deployment ch w)))"

text \<open>
  The remaining time an answer reports, less half of the request's duration (in seconds). The server
  sends a number; for anything that is none the source goes on with \<open>NaN\<close>, which is not modelled: it
  counts as 0.
\<close>

definition compensated :: "jsval \<Rightarrow> int \<Rightarrow> rat" where
  "compensated t rtt = (case as_num t of None \<Rightarrow> 0 | Some x \<Rightarrow> max 0 (x - of_int rtt / 2000))"

definition start_global :: "jsval \<Rightarrow> rat \<Rightarrow> (unit, 'z pworld_scheme) action" where
  "start_global ch t =
     startTimer (cid ch) (js_string (oget ch ''name'')) t (truthy (oget ch ''require_deploy''))"

definition status_time :: "jsval \<Rightarrow> jsval \<Rightarrow> int \<Rightarrow> (unit, 'z pworld_scheme) action" where
  "status_time ch data rtt =
     (if truthy (oget data ''challenge_url'') \<and> truthy (oget data ''time_remaining'')
      then (let t = compensated (oget data ''time_remaining'') rtt
            in bindM (upd (\<lambda>w. w\<lparr>p_remaining := Num t\<rparr>)) (\<lambda>_. start_global ch t))
      else upd (\<lambda>w. w\<lparr>p_remaining := Null\<rparr>))"

text \<open>\<open>was_started\<close> is \<open>isChallengeStarted\<close> of the render that asked for the status.\<close>

definition apply_status :: "jsval \<Rightarrow> bool \<Rightarrow> int \<Rightarrow> jsval \<Rightarrow> (unit, 'z dworld_scheme) action" where
  "apply_status ch was_started rtt data w =
     (let pod = oget data ''pod_status'';
          w1 = w\<lparr>p_pod := js_nn pod Null\<rparr>
      in if is_deleting pod then stopTimer (cid ch) (not_running_ui w1)
         else bindM (status_time ch data rtt) (\<lambda>_.
           if truthy pod \<and> \<not> seq pod (Str ''Running'') \<and> was_started
           then bindM (upd not_running_ui) (\<lambda>_. stopTimer (cid ch))
           else if truthy (oget data ''is_started'')
           then (if truthy (oget data ''challenge_url'') then status_with_url ch data
                 else status_without_url ch)
           else status_not_started ch data)
           (w1\<lparr>p_started := truthy (oget data ''is_started''), p_url := js_or (oget data ''challenge_url'') Null\<rparr>))"

definition fetchChallengeStatus :: "server \<Rightarrow> jsval \<Rightarrow> (unit, 'z dworld_scheme) action" where
  "fetchChallengeStatus srv ch w =
     catchM (bindM (fetchWithAuth srv (endpoint_url (CH_DETAIL (cid ch))) GET_opts) (\<lambda>r.
       bindM (lift (resp_json r)) (\<lambda>data w'.
         if nullish data then (Inl TypeError, w')
         else if truthy (oget data ''data'') then apply_status ch (p_started w) (clock w' - clock w) data w'
         else (Inr (), w'))))
       (\<lambda>_. ret ()) w"

subsection \<open>Starting\<close>

definition save_deployment :: "jsval \<Rightarrow> 'z world_scheme \<Rightarrow> 'z world_scheme" where
  "save_deployment ch w =
     save_check (Num (of_int (clock w))) ch
       (set_store (deployment_key ch)
         (Json (Obj [(''isDeploying'', BoolV True), (''startTime'', Num (of_int (clock w)))])) w)"

definition begin_deploy :: "jsval \<Rightarrow> jsval \<Rightarrow> popup \<Rightarrow> 'z dworld_scheme \<Rightarrow> 'z dworld_scheme" where
  "begin_deploy ch url pop w =
     (case pop of Popup t xs \<Rightarrow>
        show_popup t xs
          ((save_deployment ch w)\<lparr>p_started := True, p_url := url, p_starting := False, p_deploying := False,
             p_checking := True, d_loop_due := True\<rparr>))"

definition start_failed :: "jsval \<Rightarrow> popup \<Rightarrow> 'z dworld_scheme \<Rightarrow> 'z dworld_scheme" where
  "start_failed ch pop w =
     (case pop of Popup t xs \<Rightarrow>
        show_popup t xs ((forget_deployment ch w)\<lparr>p_starting := False, p_deploying := False\<rparr>))"

definition start_answer :: "jsval \<Rightarrow> response \<Rightarrow> jsval \<Rightarrow> 'z dworld_scheme \<Rightarrow> 'z dworld_scheme" where
  "start_answer ch r data =
     (let url = oget data ''challenge_url''
      in if status r = 200 \<and> seq (oget data ''success'') (BoolV True) \<and> \<not> nullish url
         then begin_deploy ch url (Popup ''Challenge Ready!'' [Str (escapeHtml (trim (js_string url)))])
         else if status r = 200 \<and> seq (oget data ''success'') (BoolV True)
         then begin_deploy ch (js_or (oget data ''message'') (Str ''Deploying challenge...''))
                (Popup ''Deploying challenge'' [js_or (oget data ''message'') (Str ''Please wait...'')])
         else start_failed ch (Popup ''Deploy failed''
                [js_or (oget data ''message'') (js_or (oget data ''error'') (Str ''Unknown error''))]))"

definition handleStartChallenge :: "server \<Rightarrow> jsval \<Rightarrow> (unit, 'z dworld_scheme) action" where
  "handleStartChallenge srv ch w =
     catchM (bindM (fetchWithAuth srv (endpoint_url CH_START) (POST_opts (stop_body (cid ch)))) (\<lambda>r.
       bindM (lift (resp_json r)) (\<lambda>data.
         if nullish data then throw TypeError else upd (start_answer ch r data))))
     (\<lambda>_. upd (start_failed ch (Popup ''Connection error'' [Str ''Failed to reach server'', Str ''Please try again''])))
     (w\<lparr>p_starting := True\<rparr>)"

subsection \<open>Watching\<close>

text \<open>
  A loop begins by claiming the refs. Each round checks that it is still wanted, asks the server and
  ends, or leaves \<open>Again\<close>: it sleeps for five seconds and then runs the next round.
\<close>

datatype round = Stopped bool | Again

definition loop_wanted :: "jsval \<Rightarrow> 'z pworld_scheme \<Rightarrow> bool" where
  "loop_wanted ch w = (\<not> r_abort w \<and> r_check_id w = Some (cid ch))"

definition release_loop :: "'z pworld_scheme \<Rightarrow> 'z pworld_scheme" where
  "release_loop w = w\<lparr>r_running := False, r_check_id := None\<rparr>"

definition claim_loop :: "jsval \<Rightarrow> 'z dworld_scheme \<Rightarrow> 'z dworld_scheme option" where
  "claim_loop ch w =
     (let w1 = w\<lparr>d_loop_due := False\<rparr>
      in if r_running w \<and> r_check_id w = Some (cid ch) then None
         else Some (w1\<lparr>clock := (if r_running w then clock w + 100 else clock w),
                       r_running := True, r_check_id := Some (cid ch), r_abort := False\<rparr>))"

text \<open>\<open>v == true\<close>\<close>

definition loose_true :: "jsval \<Rightarrow> bool" where
  "loose_true v = (case v of BoolV b \<Rightarrow> b | Undef \<Rightarrow> False | Null \<Rightarrow> False | NaN \<Rightarrow> False | Obj _ \<Rightarrow> False
     | _ \<Rightarrow> as_num v = Some 1)"

definition terminal_statuses :: "string list" where
  "terminal_statuses = [''Failed'', ''DEPLOY_FAILED'', ''Stopped'', ''DELETING'', ''TIMEOUT'', ''Not_Found'']"

definition is_terminal :: "jsval \<Rightarrow> bool" where
  "is_terminal pod =
     (let s = trim (pod_text pod) in s \<noteq> [] \<and> lower s \<in> lower ` set terminal_statuses)"

definition ready_time :: "jsval \<Rightarrow> jsval \<Rightarrow> int \<Rightarrow> (unit, 'z pworld_scheme) action" where
  "ready_time ch data rtt =
     (if truthy (oget data ''time_remaining'') \<or> truthy (oget data ''time_limit'')
      then (let t = (if truthy (oget data ''time_remaining'') then compensated (oget data ''time_remaining'') rtt
                     else (case as_num (oget data ''time_limit'') of None \<Rightarrow> 0 | Some m \<Rightarrow> m * 60))
            in bindM (upd (\<lambda>w. w\<lparr>p_remaining := Num t\<rparr>)) (\<lambda>_. start_global ch t))
      else ret ())"

definition announce_ready :: "jsval \<Rightarrow> jsval \<Rightarrow> 'z pworld_scheme \<Rightarrow> 'z pworld_scheme" where
  "announce_ready ch url w =
     (if has_substring (path w) ''/challenges''
      then show_popup ''Challenge Ready!''
             [Str (escapeHtml (js_string (oget ch ''name''))), Str (escapeHtml (trim (js_string url)))] w
      else let n = Obj [(''challengeId'', Num (of_int (cid ch))), (''challengeName'', oget ch ''name''),
                  (''status'', Str ''success''), (''url'', url), (''message'', Str ''Challenge is ready!''),
                  (''timestamp'', Num (of_int (clock w)))]
           in set_store (key ''deployment_notification_'' (cid ch)) (Json (json_clean n))
                (dispatch ''deploymentNotification'' n w))"

definition round_ready :: "server \<Rightarrow> jsval \<Rightarrow> jsval \<Rightarrow> int \<Rightarrow> (round, 'z dworld_scheme) action" where
  "round_ready srv ch data rtt =
     bindM (upd (\<lambda>w. w\<lparr>p_url := oget data ''challenge_url''\<rparr>)) (\<lambda>_.
     bindM (ready_time ch data rtt) (\<lambda>_.
     bindM (upd (\<lambda>w. (forget_deployment ch w)
              \<lparr>p_checking := False, p_healthy := True, p_deploying := False, r_running := False\<rparr>)) (\<lambda>_.
     bindM (refresh_after srv) (\<lambda>_.
     bindM (upd (announce_ready ch (oget data ''challenge_url''))) (\<lambda>_. ret (Stopped True))))))"

definition round_failed :: "jsval \<Rightarrow> jsval \<Rightarrow> 'z dworld_scheme \<Rightarrow> 'z dworld_scheme" where
  "round_failed ch data w =
     show_popup (if lower (trim (pod_text (oget data ''pod_status''))) = ''not_found''
                 then ''Health Check Timeout'' else ''Deployment Failed'')
       [js_or (oget data ''message'') (Str ''Please try starting again'')]
       ((forget_deployment ch w)\<lparr>p_checking := False, p_healthy := False, p_deploying := False,
          p_starting := False, r_running := False, p_url := Null, p_started := False\<rparr>)"

definition next_round :: "jsval \<Rightarrow> (round, 'z dworld_scheme) action" where
  "next_round ch w =
     (if loop_wanted ch w then (Inr Again, w\<lparr>clock := clock w + 5000\<rparr>)
      else (Inr (Stopped False), release_loop w))"

definition round_answer :: "server \<Rightarrow> jsval \<Rightarrow> int \<Rightarrow> jsval \<Rightarrow> (round, 'z dworld_scheme) action" where
  "round_answer srv ch rtt data =
     (if nullish data then throw TypeError
      else bindM (upd (\<lambda>w. w\<lparr>p_pod := js_nn (oget data ''pod_status'') Null\<rparr>)) (\<lambda>_.
        if loose_true (oget data ''success'') \<and> truthy (oget data ''challenge_url'')
        then round_ready srv ch data rtt
        else if is_terminal (oget data ''pod_status'')
        then bindM (upd (round_failed ch data)) (\<lambda>_. ret (Stopped True))
        else next_round ch))"

definition round_body :: "jsval \<Rightarrow> jsval \<Rightarrow> jsval" where
  "round_body ch team = json_clean (Obj [(''challengeId'', Num (of_int (cid ch))), (''teamId'', team)])"

definition checkStatus :: "server \<Rightarrow> jsval \<Rightarrow> (round, 'z dworld_scheme) action" where
  "checkStatus srv ch w =
     (if \<not> loop_wanted ch w then (Inr (Stopped False), release_loop w)
      else catchM (bindM (lift (getTeamId w)) (\<lambda>team.
             bindM (fetchWithAuth srv (endpoint_url CH_START_CHECKING) (POST_opts (round_body ch team))) (\<lambda>r.
             bindM (lift (resp_json r)) (\<lambda>data w'. round_answer srv ch (clock w' - clock w) data w'))))
           (\<lambda>_. next_round ch) w)"

text \<open>The rounds of a loop that nothing interrupts; None when the fuel ends before the loop does.\<close>

fun health_loop :: "nat \<Rightarrow> server \<Rightarrow> jsval \<Rightarrow> 'z dworld_scheme \<Rightarrow> (bool \<times> 'z dworld_scheme) option" where
  "health_loop 0 srv ch w = None"
| "health_loop (Suc n) srv ch w =
     (case checkStatus srv ch w of
        (Inr (Stopped b), w') \<Rightarrow> Some (b, w')
      | (Inr Again, w') \<Rightarrow> health_loop n srv ch w'
      | (Inl _, w') \<Rightarrow> None)"

definition startHealthCheckLoop :: "nat \<Rightarrow> server \<Rightarrow> jsval \<Rightarrow> 'z dworld_scheme \<Rightarrow> 'z dworld_scheme option" where
  "startHealthCheckLoop n srv ch w =
     (case claim_loop ch w of
        None \<Rightarrow> Some (w\<lparr>d_loop_due := False\<rparr>)
      | Some w1 \<Rightarrow> map_option snd (health_loop n srv ch w1))"

subsection \<open>Stopping\<close>

definition stopped_ui :: "jsval \<Rightarrow> 'z pworld_scheme \<Rightarrow> 'z pworld_scheme" where
  "stopped_ui ch w =
     (remove_store (endtime_key ch) w)\<lparr>p_started := False, p_url := Null, p_remaining := Null,
        p_healthy := False, p_interval := False, r_end := Null\<rparr>"

text \<open>\<open>confirmed\<close> is the user's answer to the confirmation.\<close>

definition handleStopChallenge :: "server \<Rightarrow> jsval \<Rightarrow> bool \<Rightarrow> (unit, 'z pworld_scheme) action" where
  "handleStopChallenge srv ch confirmed w =
     (if r_stopping w then (Inr (), w)
      else let w1 = show_popup ''Stop Challenge'' [oget ch ''name''] w
      in if \<not> confirmed then (Inr (), w1)
         else finallyM (catchM (bindM (stop_call srv ch) (\<lambda>data.
                if truthy (oget data ''success'')
                then bindM (upd (stopped_ui ch)) (\<lambda>_.
                     bindM (stopTimer (cid ch)) (\<lambda>_.
                     bindM (refresh_after srv) (\<lambda>_. upd (show_popup ''Challenge Stopped'' [oget ch ''name'']))))
                else upd (show_popup ''Stop Failed'' [js_or (oget data ''message'') (Str ''Unknown error'')])))
              (\<lambda>_. upd (show_popup ''Connection Error'' [Str ''Failed to stop challenge'', Str ''Please try again''])))
              (\<lambda>w. w\<lparr>p_stopping := False, r_stopping := False\<rparr>)
              (w1\<lparr>r_stopping := True, p_stopping := True\<rparr>))"

subsection \<open>Rules\<close>

lemma lworld_field_dworld: "lworld.more w' = lworld.more w \<Longrightarrow> d_loop_due w' = d_loop_due w"
  by (cases w; cases w') simp

lemmas dworld_world_simps [simp] =
  lworld_field_dworld [OF lworld_more_simps(1)] lworld_field_dworld [OF lworld_more_simps(2)]
  lworld_field_dworld [OF lworld_more_simps(3)] lworld_field_dworld [OF lworld_more_simps(4)]
  lworld_field_dworld [OF lworld_more_simps(5)] lworld_field_dworld [OF stopTimer_lmore]
  lworld_field_dworld [OF forget_simps(1)]

lemma fst_catch_upd: "fst (catchM m (\<lambda>_. upd f) (w :: 'w)) = Inr ()" for m :: "(unit, 'w) action"
  by (simp add: catchM_def split: prod.split sum.split)

lemma fst_finally [simp]: "fst (finallyM m f w) = fst (m w)" "snd (finallyM m f w) = f (snd (m w))"
  by (simp_all add: finallyM_def case_prod_unfold)

lemma ui_simps [simp]:
  "sent (not_running_ui w) = sent w" "store (not_running_ui w) = store w" "base_url (not_running_ui w) = base_url w"
  "sent (stopped_ui ch w) = sent w" "base_url (stopped_ui ch w) = base_url w"
  "store (stopped_ui ch w) = remove_item (endtime_key ch) (store w)"
  by (simp_all add: not_running_ui_def stopped_ui_def)

subsection \<open>Stopping\<close>

text \<open>The server agreed to stop the instance.\<close>

fun agreed :: "outcome \<Rightarrow> bool" where
  "agreed NetFail = False"
| "agreed (Reply r) = (case resp_json r of Inl _ \<Rightarrow> False | Inr data \<Rightarrow> truthy (oget data ''success''))"

lemma fetchWithAuth_outcome:
  assumes "fetchWithAuth srv url opts w = (x, v)"
  shows "(case snd (srv (sent w) (auth_request url opts w)) of NetFail \<Rightarrow> x = Inl NetworkError | Reply r \<Rightarrow> x = Inr r)"
  using assms by (rule_tac fetchWithAuth_cases [of srv w url opts]) auto

definition stopped_state :: "jsval \<Rightarrow> 'z pworld_scheme \<Rightarrow> bool" where
  "stopped_state ch w = (\<not> p_started w \<and> p_url w = Null \<and> p_remaining w = Null \<and> \<not> p_healthy w \<and>
     \<not> p_interval w \<and> r_end w = Null \<and> get_item (store w) (endtime_key ch) = None \<and>
     getTimeRemaining (cid ch) w = Inr None)"

lemma stopTimer_obtain:
  assumes "timers_of w = Inr ts"
  obtains v where "stopTimer i w = (Inr (), v)" "timers_of v = Inr (filter (\<lambda>t. td_id t \<noteq> i) ts)"
    "sent v = sent w" "base_url v = base_url w" "clock v = clock w" "lworld.more v = lworld.more w"
    "\<And>k. k \<noteq> TIMER_KEY \<Longrightarrow> get_item (store v) k = get_item (store w) k"
proof
  show "stopTimer i w = (Inr (), snd (stopTimer i w))"
    using stopTimer_keeps(1) [OF assms] by (metis prod.collapse)
qed (simp_all add: snd_stop_store [OF assms] stopTimer_keeps [OF assms])

lemma stop_agreed:
  assumes "timers_of w = Inr ts"
  shows "case bindM (upd (stopped_ui ch)) (\<lambda>_. bindM (stopTimer (cid ch)) (\<lambda>_.
      bindM (refresh_after srv) (\<lambda>_. upd (show_popup t xs)))) w of
    (r, w') \<Rightarrow> r = Inr () \<and> emitted reads_only w w' \<and> stopped_state ch w'"
proof -
  let ?u = "stopped_ui ch w"
  have "timers_of ?u = Inr ts" using assms by simp
  then obtain v where st: "stopTimer (cid ch) ?u = (Inr (), v)"
    and v: "timers_of v = Inr (filter (\<lambda>t. td_id t \<noteq> cid ch) ts)" "sent v = sent ?u"
      "base_url v = base_url ?u" "lworld.more v = lworld.more ?u"
      "\<And>k. k \<noteq> TIMER_KEY \<Longrightarrow> get_item (store v) k = get_item (store ?u) k"
    by (rule stopTimer_obtain [where i = "cid ch"]) blast
  obtain v' where v': "refreshChallengeData srv v = (Inr (), v')" "quiet v v'"
    by (rule refresh_run)
  have run: "bindM (upd (stopped_ui ch)) (\<lambda>_. bindM (stopTimer (cid ch)) (\<lambda>_.
      bindM (refresh_after srv) (\<lambda>_. upd (show_popup t xs)))) w = (Inr (), show_popup t xs v')"
    using v'(1) st by (simp add: refresh_after_def bindM_def)
  have more: "lworld.more v' = lworld.more ?u" and sl: "store_left v v'"
    using v'(2) v(4) by (simp_all add: quiet_def kept_def)
  from store_left_timers [OF sl v(1)] have t: "getTimeRemaining (cid ch) v' = Inr None"
    by (auto simp: getTimeRemaining_def find_None_iff)
  have "get_item (store v) (endtime_key ch) = None"
    using v(5) [of "endtime_key ch"] by simp
  with sl have "get_item (store v') (endtime_key ch) = None" by (rule store_left_None)
  moreover have "getTimeRemaining (cid ch) (show_popup t xs v') = getTimeRemaining (cid ch) v'"
    by (simp add: getTimeRemaining_def split: sum.split)
  ultimately have "stopped_state ch (show_popup t xs v')"
    using t panel_fields [OF more] by (simp add: stopped_state_def stopped_ui_def)
  moreover have "emitted reads_only w (show_popup t xs v')"
    using v'(2) v(2,3) by (simp add: quiet_def emitted_def)
  ultimately show ?thesis by (simp add: run)
qed

text \<open>A change that sends nothing and leaves the panel's state alone.\<close>

definition silent :: "('z lworld_scheme \<Rightarrow> 'z lworld_scheme) \<Rightarrow> bool" where
  "silent f = (\<forall>v. sent (f v) = sent v \<and> base_url (f v) = base_url v \<and> lworld.more (f v) = lworld.more v)"

lemma silent_popup [simp]: "silent (show_popup t xs)"
  by (simp add: silent_def)

lemma stop_confirmed:
  fixes w :: "'z pworld_scheme"
  assumes "timers_of w = Inr ts"
    and run: "run = catchM (bindM (stop_call srv ch) (\<lambda>data.
                if truthy (oget data ''success'')
                then bindM (upd (stopped_ui ch)) (\<lambda>_.
                     bindM (stopTimer (cid ch)) (\<lambda>_.
                     bindM (refresh_after srv) (\<lambda>_. upd (show_popup t xs))))
                else upd (failed data)))
              (\<lambda>_. upd lost)"
    and "\<And>data. silent (failed data)" "silent lost"
  shows "case run w of (r, w') \<Rightarrow> one_stop ch w w' \<and>
    (if agreed (snd (srv (sent w) (stop_request (cid ch) w))) then stopped_state ch w'
     else lworld.more w' = lworld.more w)"
proof -
  let ?f = "fetchWithAuth srv (endpoint_url CH_STOP) (POST_opts (stop_body (cid ch)))"
  obtain x v where f: "?f w = (x, v)" by (cases "?f w")
  note step = fetchWithAuth_step [OF f]
  have more: "lworld.more v = lworld.more w" by (rule world_lworld_more [OF step(4)])
  obtain us where us: "timers_of v = Inr us"
    using store_left_timers [OF step(3) assms(1)] by blast
  have q: "stop_request (cid ch) w = auth_request (endpoint_url CH_STOP) (POST_opts (stop_body (cid ch))) w"
    by (simp add: stop_request_def)
  let ?res = "\<lambda>w'. emitted reads_only v w' \<and> (if agreed (snd (srv (sent w) (stop_request (cid ch) w)))
     then stopped_state ch w' else lworld.more w' = lworld.more w)"
  have popup: "?res (g v)" if "silent g" "\<not> agreed (snd (srv (sent w) (stop_request (cid ch) w)))" for g
    using that more by (simp add: emitted_same silent_def)
  have "?res (snd (run w))"
  proof (cases "snd (srv (sent w) (stop_request (cid ch) w))")
    case NetFail
    then have "x = Inl NetworkError" using fetchWithAuth_outcome [OF f] q by simp
    then show ?thesis
      using popup [of lost] assms(4) NetFail f by (simp add: run stop_call_def bindM_assoc catch_bind)
  next
    case (Reply r)
    then have x: "x = Inr r" using fetchWithAuth_outcome [OF f] q by simp
    show ?thesis
    proof (cases "resp_json r")
      case (Inl e)
      then show ?thesis
        using popup [of lost] assms(4) Reply f x
        by (simp add: run stop_call_def bindM_assoc catch_bind catchM_def)
    next
      case (Inr data)
      then show ?thesis
        using popup [of lost] popup [of "failed data"] stop_agreed [OF us, of ch srv t xs] assms(3) [of data] assms(4) Reply f x
        by (cases "nullish data"; cases "truthy (oget data ''success'')")
           (auto simp: run stop_call_def bindM_assoc catch_bind catchM_def split: prod.split)
    qed
  qed
  then show ?thesis
    using stop_step [OF f] by (simp add: case_prod_unfold)
qed

text \<open>C2: asking to stop an instance sends nothing while a stop is under way or when the user does not
  confirm. Otherwise exactly one stop request is sent and the stop is then no longer under way,
  whatever happens; when the server agrees, the instance, its countdown and its saved end time are
  gone and the timer service has no timer for the challenge; when it refuses, cannot be reached or
  answers no JSON, the panel shows the instance as before.\<close>
theorem stop_instance:
  assumes "timers_of w = Inr ts"
  shows "case handleStopChallenge srv ch confirmed w of (r, w') \<Rightarrow> r = Inr () \<and>
    (if r_stopping w \<or> \<not> confirmed then sent w' = sent w \<and> lworld.more w' = lworld.more w
     else one_stop ch w w' \<and> \<not> p_stopping w' \<and> \<not> r_stopping w' \<and>
       (if agreed (snd (srv (sent w) (stop_request (cid ch) w))) then stopped_state ch w'
        else p_started w' = p_started w \<and> p_url w' = p_url w \<and> p_remaining w' = p_remaining w \<and>
             r_end w' = r_end w))"
proof (cases "r_stopping w \<or> \<not> confirmed")
  case True
  then show ?thesis by (auto simp: handleStopChallenge_def Let_def)
next
  case False
  let ?u = "(show_popup ''Stop Challenge'' [oget ch ''name''] w)\<lparr>r_stopping := True, p_stopping := True\<rparr>"
  let ?g = "\<lambda>w. w\<lparr>p_stopping := False, r_stopping := False\<rparr>"
  let ?t = "''Challenge Stopped''"
  let ?failed = "\<lambda>data. show_popup ''Stop Failed'' [js_or (oget data ''message'') (Str ''Unknown error'')]"
  let ?lost = "show_popup ''Connection Error'' [Str ''Failed to stop challenge'', Str ''Please try again'']"
  let ?run = "catchM (bindM (stop_call srv ch) (\<lambda>data.
      if truthy (oget data ''success'')
      then bindM (upd (stopped_ui ch)) (\<lambda>_. bindM (stopTimer (cid ch)) (\<lambda>_.
           bindM (refresh_after srv) (\<lambda>_. upd (show_popup ?t [oget ch ''name'']))))
      else upd (?failed data))) (\<lambda>_. upd ?lost)"
  have eq: "handleStopChallenge srv ch confirmed w = finallyM ?run ?g ?u"
    using False by (simp add: handleStopChallenge_def Let_def)
  have tu: "timers_of ?u = Inr ts" using assms by simp
  have same: "stop_request (cid ch) ?u = stop_request (cid ch) w" "sent ?u = sent w" "base_url ?u = base_url w"
    by (simp_all add: stop_request_def auth_request_def getToken_def)
  note res = stop_confirmed [OF tu, of ?run srv ch ?t "[oget ch ''name'']" ?failed ?lost, unfolded same]
  have "stopped_state ch (?g v) = stopped_state ch v" for v
    by (simp add: stopped_state_def getTimeRemaining_def split: sum.split)
  moreover have "one_stop ch w (?g v) = one_stop ch ?u v" for v
    using same by (simp add: one_stop_def)
  moreover have "fst (?run ?u) = Inr ()" by (rule fst_catch_upd)
  moreover have "p_started v = p_started w \<and> p_url v = p_url w \<and> p_remaining v = p_remaining w \<and> r_end v = r_end w"
    if "lworld.more v = lworld.more ?u" for v
    using panel_fields [OF that] by simp
  ultimately show ?thesis
    using res False unfolding eq by (auto simp: case_prod_unfold split: if_splits)
qed

theorem stop_instance_witness:
  "case handleStopChallenge (\<lambda>_ _. (9, Reply \<lparr>status = 200, body = JBody (Obj [(''success'', BoolV True)])\<rparr>)) ch0 True pw0
   of (r, w') \<Rightarrow> one_stop ch0 pw0 w' \<and> stopped_state ch0 w'"
proof -
  have "\<not> r_stopping pw0" by (simp add: pw0_def)
  then show ?thesis
    using stop_instance [where w = pw0 and ts = "[]" and confirmed = True and ch = ch0 and srv = "\<lambda>_ _. (9, Reply \<lparr>status = 200, body = JBody (Obj [(''success'', BoolV True)])\<rparr>)"]
    by (simp add: case_prod_unfold resp_json_def)
qed

subsection \<open>Starting\<close>

definition start_request :: "jsval \<Rightarrow> 'z world_scheme \<Rightarrow> request" where
  "start_request ch w = auth_request (endpoint_url CH_START) (POST_opts (stop_body (cid ch))) w"

text \<open>What the panel shows as the address when the server accepts to start an instance.\<close>

fun accepted :: "outcome \<Rightarrow> jsval option" where
  "accepted NetFail = None"
| "accepted (Reply r) =
     (case resp_json r of Inl _ \<Rightarrow> None
      | Inr data \<Rightarrow>
          if status r = 200 \<and> seq (oget data ''success'') (BoolV True)
          then Some (if nullish (oget data ''challenge_url'')
                     then js_or (oget data ''message'') (Str ''Deploying challenge...'')
                     else oget data ''challenge_url'')
          else None)"

definition waiting_state :: "jsval \<Rightarrow> 'z world_scheme \<Rightarrow> bool" where
  "waiting_state ch w =
     (get_item (store w) (deployment_key ch) =
        Some (Json (Obj [(''isDeploying'', BoolV True), (''startTime'', Num (of_int (clock w)))])) \<and>
      get_item (store w) (healthcheck_key ch) = Some (Json (check_state (Num (of_int (clock w))) ch)))"

definition start_settled :: "jsval \<Rightarrow> jsval option \<Rightarrow> 'z dworld_scheme \<Rightarrow> 'z dworld_scheme \<Rightarrow> bool" where
  "start_settled ch url w w' =
     (\<not> p_starting w' \<and> \<not> p_deploying w' \<and>
      (case url of
         Some u \<Rightarrow> p_started w' \<and> p_url w' = u \<and> p_checking w' \<and> d_loop_due w' \<and> waiting_state ch w'
       | None \<Rightarrow> p_started w' = p_started w \<and> p_url w' = p_url w \<and> p_checking w' = p_checking w \<and> d_loop_due w' = d_loop_due w \<and>
           get_item (store w') (deployment_key ch) = None \<and> get_item (store w') (healthcheck_key ch) = None))"

lemma deployment_not_healthcheck [simp]:
  "deployment_key ch \<noteq> healthcheck_key ch" "healthcheck_key ch \<noteq> deployment_key ch"
  by (simp_all add: key_def)

lemma save_deployment_simps [simp]:
  "lworld.more (save_deployment ch w) = lworld.more w" "sent (save_deployment ch v) = sent v"
  "clock (save_deployment ch v) = clock v" "waiting_state ch (save_deployment ch v)"
  by (simp_all add: save_deployment_def save_check_def waiting_state_def)

lemma waiting_cong: "store v = store w \<Longrightarrow> clock v = clock w \<Longrightarrow> waiting_state ch v = waiting_state ch w"
  by (simp add: waiting_state_def)

lemma begin_deploy_settled:
  "start_settled ch (Some url) w (begin_deploy ch url pop v)" "sent (begin_deploy ch url pop v) = sent v"
proof -
  obtain t xs where pop: "pop = Popup t xs" by (cases pop)
  have "waiting_state ch (begin_deploy ch url pop v) = waiting_state ch (save_deployment ch v)"
    by (rule waiting_cong) (simp_all add: pop begin_deploy_def)
  then show "start_settled ch (Some url) w (begin_deploy ch url pop v)"
    by (simp add: start_settled_def) (simp add: pop begin_deploy_def)
  show "sent (begin_deploy ch url pop v) = sent v"
    by (simp add: pop begin_deploy_def)
qed

lemma start_failed_settled:
  assumes "lworld.more v = lworld.more (w\<lparr>p_starting := True\<rparr>)"
  shows "start_settled ch None w (start_failed ch pop v)" "sent (start_failed ch pop v) = sent v"
  using panel_fields [OF assms] lworld_field_dworld [OF assms]
  by (cases pop; simp add: start_failed_def start_settled_def)+

lemma start_answer_settled:
  assumes "lworld.more v = lworld.more (w\<lparr>p_starting := True\<rparr>)" "resp_json r = Inr data"
  shows "start_settled ch (accepted (Reply r)) w (start_answer ch r data v) \<and>
    sent (start_answer ch r data v) = sent v"
  using assms(2)
  by (simp add: start_answer_def Let_def begin_deploy_settled start_failed_settled [OF assms(1)])

lemma start_result:
  "case handleStartChallenge srv ch w of (r, w') \<Rightarrow> r = Inr () \<and>
     sent w' = sent w @ [start_request ch w] \<and>
     start_settled ch (accepted (snd (srv (sent w) (start_request ch w)))) w w'"
proof -
  let ?u = "w\<lparr>p_starting := True\<rparr>"
  let ?f = "fetchWithAuth srv (endpoint_url CH_START) (POST_opts (stop_body (cid ch)))"
  obtain x v where f: "?f ?u = (x, v)" by (cases "?f ?u")
  note step = fetchWithAuth_step [OF f]
  have same: "start_request ch w = auth_request (endpoint_url CH_START) (POST_opts (stop_body (cid ch))) ?u"
      "sent ?u = sent w"
    by (simp_all add: start_request_def auth_request_def getToken_def)
  have more: "lworld.more v = lworld.more ?u" by (rule world_lworld_more [OF step(4)])
  have sv: "sent v = sent w @ [start_request ch w]" using step(1) same by simp
  note failed = start_failed_settled [OF more, of ch "Popup ''Connection error'' [Str ''Failed to reach server'', Str ''Please try again'']"]
  show ?thesis
  proof (cases "snd (srv (sent w) (start_request ch w))")
    case NetFail
    then have "x = Inl NetworkError" using fetchWithAuth_outcome [OF f] same by simp
    then show ?thesis
      using f sv failed NetFail by (simp add: handleStartChallenge_def catch_bind)
  next
    case (Reply r)
    then have x: "x = Inr r" using fetchWithAuth_outcome [OF f] same by simp
    show ?thesis
    proof (cases "resp_json r")
      case (Inl e)
      then show ?thesis
        using f x sv failed Reply by (simp add: handleStartChallenge_def catch_bind catchM_def)
    next
      case (Inr data)
      then show ?thesis
        using f x sv failed Reply start_answer_settled [OF more Inr]
        by (cases "nullish data") (simp_all add: handleStartChallenge_def catch_bind catchM_def)
    qed
  qed
qed

text \<open>C3: starting an instance sends one request and ends with the panel neither starting nor deploying.
  When the server accepts, the panel shows the instance as started and being checked, at the address
  it sent or with its message, a health check is due and the deployment and its check are saved with
  the present time; in every other case, a refusal, an unreadable answer or no connection, the panel
  shows what it showed before and nothing is left saved.\<close>
theorem start_instance:
  "case handleStartChallenge srv ch w of (r, w') \<Rightarrow> r = Inr () \<and>
     sent w' = sent w @ [start_request ch w] \<and>
     start_settled ch (accepted (snd (srv (sent w) (start_request ch w)))) w w'"
  by (rule start_result)

subsection \<open>Watching an instance become ready\<close>

fun final_data :: "jsval \<Rightarrow> bool" where
  "final_data data = (\<not> nullish data \<and>
     (loose_true (oget data ''success'') \<and> truthy (oget data ''challenge_url'') \<or> is_terminal (oget data ''pod_status'')))"

declare final_data.simps [simp del]

fun final_reply :: "outcome \<Rightarrow> bool" where
  "final_reply NetFail = False"
| "final_reply (Reply r) = (case resp_json r of Inl _ \<Rightarrow> False | Inr data \<Rightarrow> final_data data)"

definition readable_session :: "'z world_scheme \<Rightarrow> bool" where
  "readable_session w = ((\<exists>ts. timers_of w = Inr ts) \<and> (\<exists>t. getTeamId w = Inr t))"

definition watching :: "jsval \<Rightarrow> 'z pworld_scheme \<Rightarrow> bool" where
  "watching ch w = (loop_wanted ch w \<and> readable_session w)"

definition check_request :: "jsval \<Rightarrow> 'z world_scheme \<Rightarrow> request" where
  "check_request ch w =
     auth_request (endpoint_url CH_START_CHECKING)
       (POST_opts (round_body ch (case getTeamId w of Inr t \<Rightarrow> t | Inl _ \<Rightarrow> Null))) w"

text \<open>The loop has ended with an answer: nothing is being checked and nothing is left saved.\<close>

definition watched :: "jsval \<Rightarrow> 'z pworld_scheme \<Rightarrow> bool" where
  "watched ch w = (\<not> p_checking w \<and> \<not> p_deploying w \<and> \<not> r_running w \<and>
     get_item (store w) (deployment_key ch) = None \<and> get_item (store w) (healthcheck_key ch) = None)"

lemma team_left:
  assumes "store_left w v" "getTeamId w = Inr t"
  shows "\<exists>t'. getTeamId v = Inr t'"
proof (cases "store v = store w")
  case True
  then have "getTeamId v = getTeamId w" by (simp add: getTeamId_def getTeam_def getUser_def)
  with assms(2) show ?thesis by simp
next
  case False
  then have "store v = clear_storage" using assms(1) by (simp add: store_left_def)
  then show ?thesis by (simp add: getTeamId_def getTeam_def getUser_def)
qed

lemma readable_session_left: "store_left w v \<Longrightarrow> readable_session w \<Longrightarrow> readable_session v"
  using team_left store_left_timers unfolding readable_session_def by blast

lemma loop_wanted_cong: "lworld.more v = lworld.more w \<Longrightarrow> loop_wanted ch v = loop_wanted ch w"
  using panel_fields [of v w] by (simp add: loop_wanted_def)

lemma notification_key [simp]:
  "key ''deployment_notification_'' i \<noteq> key ''deployment_'' j" "key ''deployment_notification_'' i \<noteq> key ''healthcheck_'' j"
  "key ''deployment_'' j \<noteq> key ''deployment_notification_'' i" "key ''healthcheck_'' j \<noteq> key ''deployment_notification_'' i"
proof -
  have "CHR ''n'' \<notin> set (show_int j)"
    using show_nat_digits [of "CHR ''n''"] by (auto simp: show_int_def is_digit_def)
  then have "show_int j \<noteq> CHR ''n'' # s" for s
    by (metis list.set_intros(1))
  then show "key ''deployment_notification_'' i \<noteq> key ''deployment_'' j"
      "key ''deployment_'' j \<noteq> key ''deployment_notification_'' i"
    by (simp_all add: key_def) (metis append_Cons)+
qed (simp_all add: key_def)

lemma next_round_wanted: "loop_wanted ch w \<Longrightarrow> next_round ch w = (Inr Again, w\<lparr>clock := clock w + 5000\<rparr>)"
  by (simp add: next_round_def)

lemma checkStatus_run:
  assumes "watching ch w"
  obtains x v where
    "checkStatus srv ch w = catchM (bindM (lift x) (\<lambda>r. bindM (lift (resp_json r)) (\<lambda>data w'.
       round_answer srv ch (clock w' - clock w) data w'))) (\<lambda>_. next_round ch) v"
    "case snd (srv (sent w) (check_request ch w)) of NetFail \<Rightarrow> x = Inl NetworkError | Reply r \<Rightarrow> x = Inr r"
    "sent v = sent w @ [check_request ch w]" "watching ch v"
proof -
  obtain t where t: "getTeamId w = Inr t" and want: "loop_wanted ch w"
    using assms by (auto simp: watching_def readable_session_def)
  let ?f = "fetchWithAuth srv (endpoint_url CH_START_CHECKING) (POST_opts (round_body ch t))"
  obtain x v where f: "?f w = (x, v)" by (cases "?f w")
  note step = fetchWithAuth_step [OF f]
  have q: "check_request ch w = auth_request (endpoint_url CH_START_CHECKING) (POST_opts (round_body ch t)) w"
    by (simp add: check_request_def t)
  have "watching ch v"
    using assms readable_session_left [OF step(3)] loop_wanted_cong [OF world_lworld_more [OF step(4)]]
    by (simp add: watching_def)
  moreover have "checkStatus srv ch w = catchM (bindM (lift x) (\<lambda>r. bindM (lift (resp_json r)) (\<lambda>data w'.
       round_answer srv ch (clock w' - clock w) data w'))) (\<lambda>_. next_round ch) v"
    using want t f by (simp add: checkStatus_def catchM_def bindM_def)
  ultimately show ?thesis
    using that [of x v] fetchWithAuth_outcome [OF f] step(1) unfolding q by blast
qed

lemma round_again:
  assumes "watching ch w" "\<not> final_reply (snd (srv (sent w) (check_request ch w)))"
  obtains w' where "checkStatus srv ch w = (Inr Again, w')" "watching ch w'"
    "sent w' = sent w @ [check_request ch w]"
proof -
  obtain x v where run: "checkStatus srv ch w = catchM (bindM (lift x) (\<lambda>r. bindM (lift (resp_json r)) (\<lambda>data w'.
       round_answer srv ch (clock w' - clock w) data w'))) (\<lambda>_. next_round ch) v"
    and x: "case snd (srv (sent w) (check_request ch w)) of NetFail \<Rightarrow> x = Inl NetworkError | Reply r \<Rightarrow> x = Inr r"
    and v: "sent v = sent w @ [check_request ch w]" "watching ch v"
    using checkStatus_run [OF assms(1), of srv] by blast
  have again: "\<exists>w'. catchM (next_round ch) h (v\<lparr>p_pod := p\<rparr>) = (Inr Again, w') \<and> watching ch w' \<and> sent w' = sent v" for p h
    using v(2)
    by (intro exI [of _ "v\<lparr>p_pod := p, clock := clock v + 5000\<rparr>"])
       (simp add: next_round_wanted catchM_def watching_def loop_wanted_def readable_session_def
         getTeamId_def getTeam_def getUser_def)
  have again': "\<exists>w'. next_round ch v = (Inr Again, w') \<and> watching ch w' \<and> sent w' = sent v"
    using v(2)
    by (intro exI [of _ "v\<lparr>clock := clock v + 5000\<rparr>"])
       (simp add: next_round_wanted watching_def loop_wanted_def readable_session_def getTeamId_def getTeam_def getUser_def)
  have "\<exists>w'. checkStatus srv ch w = (Inr Again, w') \<and> watching ch w' \<and> sent w' = sent v"
  proof (cases "snd (srv (sent w) (check_request ch w))")
    case NetFail
    then show ?thesis using run x again' by (simp add: catch_bind)
  next
    case (Reply r)
    show ?thesis
    proof (cases "resp_json r")
      case (Inl e)
      then show ?thesis using Reply run x again' by (simp add: catch_bind catchM_def)
    next
      case (Inr data)
      then have fin: "\<not> final_data data" using assms(2) Reply by simp
      let ?v = "v\<lparr>p_pod := js_nn (oget data ''pod_status'') Null\<rparr>"
      have run': "checkStatus srv ch w =
          catchM (round_answer srv ch (clock v - clock w) data) (\<lambda>_. next_round ch) v"
        using Reply Inr run x by (simp add: catchM_def)
      show ?thesis
      proof (cases "nullish data")
        case True
        then have "checkStatus srv ch w = next_round ch v"
          unfolding run' by (simp add: round_answer_def catchM_def)
        with again' show ?thesis by simp
      next
        case False
        with fin have "round_answer srv ch d data v = next_round ch ?v" for d
          by (auto simp: round_answer_def final_data.simps)
        then have "checkStatus srv ch w = catchM (next_round ch) (\<lambda>_. next_round ch) ?v"
          unfolding run' by (simp only: catchM_def)
        then show ?thesis using again by (simp only:)
      qed
    qed
  qed
  then show ?thesis using that v(1) by auto
qed

lemma round_failed_watched: "watched ch (round_failed ch data w)"
  by (simp add: watched_def round_failed_def)

lemma announce_ready_simps [simp]:
  "lworld.more (announce_ready ch url w) = lworld.more w"
  "get_item (store (announce_ready ch url w)) (deployment_key ch) = get_item (store w) (deployment_key ch)"
  "get_item (store (announce_ready ch url w)) (healthcheck_key ch) = get_item (store w) (healthcheck_key ch)"
  by (simp_all add: announce_ready_def Let_def)

lemma startTimer_ends: "timers_of w = Inr ts \<Longrightarrow> fst (startTimer i n r d w) = Inr ()"
  by (simp add: startTimer_run Let_def)

lemma ready_time_ends:
  assumes "timers_of w = Inr ts"
  shows "fst (ready_time ch data rtt w) = Inr ()"
  using assms startTimer_ends [of "w\<lparr>p_remaining := _\<rparr>" ts]
  by (simp add: ready_time_def start_global_def Let_def)

lemma round_ready_watched:
  assumes "timers_of w = Inr ts"
  shows "\<exists>w'. round_ready srv ch data rtt w = (Inr (Stopped True), w') \<and> watched ch w'"
proof -
  let ?w = "w\<lparr>p_url := oget data ''challenge_url''\<rparr>"
  have "timers_of ?w = Inr ts" using assms by simp
  then obtain v where v: "ready_time ch data rtt ?w = (Inr (), v)"
    using ready_time_ends [of ?w ts ch data rtt] by (metis prod.collapse)
  let ?v = "(forget_deployment ch v)\<lparr>p_checking := False, p_healthy := True, p_deploying := False, r_running := False\<rparr>"
  obtain v' where v': "refreshChallengeData srv ?v = (Inr (), v')" "quiet ?v v'"
    by (rule refresh_run)
  have sl: "store_left ?v v'" and more: "lworld.more v' = lworld.more ?v"
    using v'(2) by (simp_all add: quiet_def kept_def)
  have "get_item (store v') (deployment_key ch) = None" "get_item (store v') (healthcheck_key ch) = None"
    by (rule store_left_None [OF sl]; simp)+
  then have "watched ch (announce_ready ch (oget data ''challenge_url'') v')"
    using panel_fields [OF more] panel_fields [OF announce_ready_simps(1), of ch "oget data ''challenge_url''" v']
    by (simp add: watched_def)
  moreover have "round_ready srv ch data rtt w =
      (Inr (Stopped True), announce_ready ch (oget data ''challenge_url'') v')"
    using v v' by (simp add: round_ready_def refresh_after_def bindM_def)
  ultimately show ?thesis by blast
qed

lemma round_final:
  assumes "watching ch w" "final_reply (snd (srv (sent w) (check_request ch w)))"
  obtains w' where "checkStatus srv ch w = (Inr (Stopped True), w')" "watched ch w'"
proof -
  obtain x v where run: "checkStatus srv ch w = catchM (bindM (lift x) (\<lambda>r. bindM (lift (resp_json r)) (\<lambda>data w'.
       round_answer srv ch (clock w' - clock w) data w'))) (\<lambda>_. next_round ch) v"
    and x: "case snd (srv (sent w) (check_request ch w)) of NetFail \<Rightarrow> x = Inl NetworkError | Reply r \<Rightarrow> x = Inr r"
    and v: "watching ch v"
    using checkStatus_run [OF assms(1), of srv] by blast
  obtain r data where r: "snd (srv (sent w) (check_request ch w)) = Reply r" "resp_json r = Inr data" "final_data data"
    using assms(2) by (auto elim!: final_reply.elims(2) split: sum.splits)
  let ?v = "v\<lparr>p_pod := js_nn (oget data ''pod_status'') Null\<rparr>"
  obtain ts where "timers_of ?v = Inr ts" using v by (auto simp: watching_def readable_session_def)
  note ready = round_ready_watched [OF this, of srv ch data "clock v - clock w"]
  have "checkStatus srv ch w = catchM (round_answer srv ch (clock v - clock w) data) (\<lambda>_. next_round ch) v"
    using r run x by (simp add: catchM_def)
  moreover have "\<exists>w'. round_answer srv ch (clock v - clock w) data v = (Inr (Stopped True), w') \<and> watched ch w'"
  proof (cases "loose_true (oget data ''success'') \<and> truthy (oget data ''challenge_url'')")
    case True
    then show ?thesis using r(3) ready by (simp add: round_answer_def final_data.simps)
  next
    case False
    then have "round_answer srv ch (clock v - clock w) data v = (Inr (Stopped True), round_failed ch data ?v)"
      using r(3) by (auto simp: round_answer_def final_data.simps)
    then show ?thesis using round_failed_watched by blast
  qed
  ultimately show ?thesis using that by (auto simp: catchM_def)
qed

text \<open>C4: the health check ends: when the server, from its \<open>m\<close>th request on, answers with a running
  instance's address or with a terminal status, the loop ends within the requests still missing and
  one more, whatever other answers, failures or texts it gets before; it ends with the
  result that it is over, and then nothing is being checked and neither the deployment nor its check
  is left saved.\<close>
theorem health_check_ends:
  assumes "watching ch w" and "\<And>h q. m \<le> length h \<Longrightarrow> final_reply (snd (srv h q))"
    and "m - length (sent w) < n"
  shows "\<exists>w'. health_loop n srv ch w = Some (True, w') \<and> watched ch w'"
  using assms(1,3)
proof (induction n arbitrary: w)
  case (Suc n)
  show ?case
  proof (cases "final_reply (snd (srv (sent w) (check_request ch w)))")
    case True
    with Suc.prems(1) show ?thesis by (rule round_final) simp
  next
    case False
    then have "length (sent w) < m" using assms(2) [of "sent w" "check_request ch w"] by force
    from Suc.prems(1) False obtain w' where "checkStatus srv ch w = (Inr Again, w')" "watching ch w'"
      "sent w' = sent w @ [check_request ch w]" by (rule round_again)
    then show ?thesis
      using Suc.IH [of w'] Suc.prems(2) \<open>length (sent w) < m\<close> by simp
  qed
qed simp

definition dw0 :: dworld where
  "dw0 = \<lparr>store = [], clock = 5000, sent = [], path = ''/contest/1/challenges'', redirect = None, popups = [], fired = [],
     base_url = [], t_handles = [], t_pending = [], t_next = 0, t_inflight = [], t_checking = True,
     c_categories = [], c_selcat = Str [], c_selected = Null, c_loading = False, c_loading_detail = False,
     c_error = [], c_active = True, c_reason = Str ''active'', c_prereqs = [], c_expanded = [], c_bycat = [],
     c_loadcats = [], c_processed = Null, c_params = [], c_page = 1, c_sidebar = True,
     p_answer = [], p_hints = Arr [], p_remaining = Null, p_started = True, p_url = Str ''tok'',
     p_submitting = False, p_starting = False, p_stopping = False, p_deploying = False, p_checking = False,
     p_healthy = True, p_pod = Str ''Running'', p_pdf = None, p_pages = Null, p_page = 1, p_blob = None,
     p_loading_pdf = False, p_unlocking = Null, p_cooldown = 30, p_cooldown_total = 30, p_scale = 1,
     p_copied = [], p_saved = [], p_interval = True, p_cool_interval = False, r_running = True,
     r_check_id = Some 7, r_abort = False, r_stopping = False, r_end = Num 4000, r_mounted = True, d_loop_due = False\<rparr>"

theorem health_check_ends_witness:
  "\<exists>w'. health_loop 3 (\<lambda>h _. (10, if length h < 2 then NetFail
      else Reply \<lparr>status = 200, body = JBody (Obj [(''pod_status'', Str ''Failed'')])\<rparr>)) ch0 dw0 = Some (True, w') \<and>
     watched ch0 w'"
proof (rule health_check_ends [where m = 2])
  show "watching ch0 dw0"
    by (simp add: watching_def loop_wanted_def readable_session_def getTeamId_def getTeam_def getUser_def
        getActiveTimers_def) (simp add: dw0_def)
  have "is_terminal (Str ''Failed'')" by code_simp
  then show "\<And>h q. 2 \<le> length h \<Longrightarrow> final_reply (snd (10, if length h < 2 then NetFail
      else Reply \<lparr>status = 200, body = JBody (Obj [(''pod_status'', Str ''Failed'')])\<rparr>))"
    by (simp add: resp_json_def final_data.simps)
qed simp

text \<open>There is no limit on the attempts: against a server that never gives such an answer the loop
  does not end, whatever the fuel.\<close>

lemma health_check_unlimited:
  assumes "watching ch w" and "\<And>h q. \<not> final_reply (snd (srv h q))"
  shows "health_loop n srv ch w = None"
  using assms(1)
proof (induction n arbitrary: w)
  case (Suc n)
  from Suc.prems assms(2) [of "sent w" "check_request ch w"] obtain w' where "checkStatus srv ch w = (Inr Again, w')" "watching ch w'"
    by (rule round_again) blast
  then show ?case using Suc.IH [of w'] by simp
qed simp

subsection \<open>An instance that is being deleted\<close>

definition status_request :: "jsval \<Rightarrow> 'z world_scheme \<Rightarrow> request" where
  "status_request ch w = auth_request (endpoint_url (CH_DETAIL (cid ch))) GET_opts w"

text \<open>When the status of a challenge says that its instance is being deleted, the panel shows
  neither an instance nor a deployment nor a check, stops its countdown, and the timer service has no
  timer for the challenge; no other request is sent.\<close>
theorem deleted_instance:
  assumes "snd (srv (sent w) (status_request ch w)) = Reply r" and "resp_json r = Inr data"
    and "truthy (oget data ''data'')" and "is_deleting (oget data ''pod_status'')"
    and "timers_of w = Inr ts"
  shows "case fetchChallengeStatus srv ch w of (res, w') \<Rightarrow> res = Inr () \<and> sent w' = sent w @ [status_request ch w] \<and>
    \<not> p_started w' \<and> p_url w' = Null \<and> p_remaining w' = Null \<and> \<not> p_healthy w' \<and> \<not> p_checking w' \<and>
    \<not> p_deploying w' \<and> \<not> p_interval w' \<and> getTimeRemaining (cid ch) w' = Inr None"
proof -
  let ?f = "fetchWithAuth srv (endpoint_url (CH_DETAIL (cid ch))) GET_opts"
  obtain x v where f: "?f w = (x, v)" by (cases "?f w")
  note step = fetchWithAuth_step [OF f]
  have x: "x = Inr r" using fetchWithAuth_outcome [OF f, folded status_request_def] assms(1) by simp
  let ?u = "not_running_ui (v\<lparr>p_pod := js_nn (oget data ''pod_status'') Null\<rparr>)"
  obtain us where "timers_of ?u = Inr us"
    using store_left_timers [OF step(3) assms(5)] by auto
  then obtain v' where v': "stopTimer (cid ch) ?u = (Inr (), v')"
      "timers_of v' = Inr (filter (\<lambda>t. td_id t \<noteq> cid ch) us)" "sent v' = sent ?u" "lworld.more v' = lworld.more ?u"
    by (rule stopTimer_obtain [where i = "cid ch"]) blast
  have "\<not> nullish data" using assms(3) by auto
  then have "fetchChallengeStatus srv ch w = (Inr (), v')"
    using f x assms(2,3,4) v'(1) by (simp add: fetchChallengeStatus_def catch_bind catchM_def apply_status_def Let_def)
  moreover have "getTimeRemaining (cid ch) v' = Inr None"
    using v'(2) by (auto simp: getTimeRemaining_def find_None_iff)
  ultimately show ?thesis
    using step(1) [folded status_request_def] v'(3) panel_fields [OF v'(4)] by (simp add: not_running_ui_def)
qed

theorem deleted_instance_witness:
  "case fetchChallengeStatus (\<lambda>_ _. (10, Reply \<lparr>status = 200, body = JBody (Obj [(''data'', Obj []),
      (''pod_status'', Str ''Deleting'')])\<rparr>)) ch0 dw0 of (res, w') \<Rightarrow> \<not> p_started w' \<and> getTimeRemaining 7 w' = Inr None"
proof -
  have "timers_of dw0 = Inr []" by (simp add: dw0_def getActiveTimers_def)
  moreover have "is_deleting (Str ''Deleting'')" by (simp add: is_deleting_def)
  ultimately show ?thesis
    using deleted_instance [of "\<lambda>_ _. (10, Reply \<lparr>status = 200, body = JBody (Obj [(''data'', Obj []),
      (''pod_status'', Str ''Deleting'')])\<rparr>)" dw0 ch0 "\<lparr>status = 200, body = JBody (Obj [(''data'', Obj []),
      (''pod_status'', Str ''Deleting'')])\<rparr>"] by (simp add: case_prod_unfold resp_json_def)
qed

end
