(* ===== verification/PanelFlag.thy ===== *)
theory PanelFlag
  imports PanelDeploy
begin

section \<open>The challenge panel: flags, hints and files\<close>

text \<open>
  \<open>handleSubmitFlag\<close>, \<open>handleUnlockHint\<close> with its two requests, downloads, the PDF viewer and the
  clipboard of \<open>ChallengeDetailPanel\<close> (\<open>pages/Challenges.tsx\<close>). A pop-up is its heading and the
  values it shows.
\<close>

subsection \<open>Submitting a flag\<close>

definition max_submission :: nat where "max_submission = 1000"

definition cooldown_of :: "jsval \<Rightarrow> rat" where
  "cooldown_of d = (case as_num (js_or (oget d ''cooldown'') (Num 0)) of Some c \<Rightarrow> c | None \<Rightarrow> 0)"

definition begin_cooldown :: "jsval \<Rightarrow> 'z pworld_scheme \<Rightarrow> 'z pworld_scheme" where
  "begin_cooldown d w =
     (if cooldown_of d > 0 then w\<lparr>p_cooldown := cooldown_of d, p_cooldown_total := cooldown_of d\<rparr> else w)"

text \<open>After a correct flag the interface forgets the instance and its timer is dropped.\<close>

definition solved_ui :: "'z pworld_scheme \<Rightarrow> 'z pworld_scheme" where
  "solved_ui w = w\<lparr>p_started := False, p_url := Null, p_remaining := Null, p_healthy := False, p_interval := False\<rparr>"

definition after_solve :: "jsval \<Rightarrow> bool \<Rightarrow> (unit, 'z pworld_scheme) action" where
  "after_solve ch running =
     (if truthy (oget ch ''require_deploy'') \<and> running
      then bindM (upd solved_ui) (\<lambda>_. catchM (stopTimer (cid ch)) (\<lambda>_. ret ()))
      else ret ())"

definition flag_correct :: "server \<Rightarrow> jsval \<Rightarrow> bool \<Rightarrow> jsval \<Rightarrow> (unit, 'z pworld_scheme) action" where
  "flag_correct srv ch running d =
     bindM (upd (show_popup ''FLAG CORRECT'' [js_or (oget d ''value'') (oget ch ''value'')])) (\<lambda>_.
     bindM (upd (\<lambda>w. w\<lparr>p_answer := []\<rparr>)) (\<lambda>_.
     bindM (refresh_after srv) (\<lambda>_. after_solve ch running)))"

definition attempts_left :: "jsval \<Rightarrow> jsval list" where
  "attempts_left ch =
     (case as_num (oget ch ''max_attempts'') of
        Some m \<Rightarrow>
          (if m > 0
           then [num_of (map_option (\<lambda>a. m - a - 1) (as_num (js_or (oget ch ''attemps'') (Num 0))))] else [])
      | None \<Rightarrow> [])"

definition cooldown_text :: "jsval \<Rightarrow> jsval list" where
  "cooldown_text d = (if cooldown_of d > 0 then [Num (cooldown_of d)] else [])"

definition flag_incorrect :: "server \<Rightarrow> jsval \<Rightarrow> jsval \<Rightarrow> (unit, 'z pworld_scheme) action" where
  "flag_incorrect srv ch d =
     bindM (upd (begin_cooldown d)) (\<lambda>_.
     bindM (upd (show_popup ''INCORRECT FLAG''
        ([js_or (oget d ''message'') (Str ''Wrong flag'')] @ attempts_left ch @ cooldown_text d))) (\<lambda>_.
     refresh_after srv))"

definition flag_ratelimited :: "jsval \<Rightarrow> 'z pworld_scheme \<Rightarrow> 'z pworld_scheme" where
  "flag_ratelimited d w =
     show_popup ''Rate limited''
       ([js_or (oget d ''message'') (Str ''Too many submissions'')] @ cooldown_text d) (begin_cooldown d w)"

text \<open>\<open>data.message.includes(...)\<close> throws when the message is no string or array.\<close>

definition permission_message :: "jsval \<Rightarrow> exn + bool" where
  "permission_message data =
     (let m = oget data ''message''
      in if \<not> truthy m then Inr False
         else case m of
             Str s \<Rightarrow> Inr (has_substring s (''don'' @ [CHR 0x27] @ ''t have the permission''))
           | Arr xs \<Rightarrow> Inr (Str (''don'' @ [CHR 0x27] @ ''t have the permission'') \<in> set xs)
           | _ \<Rightarrow> Inl TypeError)"

definition flag_other :: "jsval \<Rightarrow> (unit, 'z pworld_scheme) action" where
  "flag_other data =
     (case permission_message data of
        Inl e \<Rightarrow> throw e
      | Inr True \<Rightarrow> upd (show_popup ''Challenge Locked'' [Str ''Prerequisites not met''])
      | Inr False \<Rightarrow>
          (let d = oget data ''data''
           in if seq (oget d ''status'') (Str ''invalid'')
              then upd (show_popup ''Invalid Submission'' [js_or (oget d ''message'') (Str ''Invalid flag format'')])
              else upd (show_popup ''Error''
                     [js_or (oget d ''message'') (js_or (oget data ''message'') (js_or (oget data ''error'')
                        (Str ''Unknown error'')))])))"

definition flag_answer :: "server \<Rightarrow> jsval \<Rightarrow> bool \<Rightarrow> jsval \<Rightarrow> (unit, 'z pworld_scheme) action" where
  "flag_answer srv ch running data =
     (let d = oget data ''data''; st = oget d ''status''
      in if seq st (Str ''correct'') then flag_correct srv ch running d
         else if seq st (Str ''incorrect'') then flag_incorrect srv ch d
         else if seq st (Str ''already_solved'') then upd (show_popup ''Already solved'' [])
         else if seq st (Str ''ratelimited'') then upd (flag_ratelimited d)
         else if seq st (Str ''paused'')
         then upd (show_popup ''Contest Paused'' [js_or (oget d ''message'') (Str ''Contest is paused'')])
         else flag_other data)"

definition submit_body :: "jsval \<Rightarrow> string \<Rightarrow> jsval" where
  "submit_body ch a = Obj [(''challengeId'', Num (of_int (cid ch))), (''submission'', Str a)]"

definition submit_request :: "server \<Rightarrow> jsval \<Rightarrow> string \<Rightarrow> (jsval, 'z pworld_scheme) action" where
  "submit_request srv ch a =
     bindM (fetchWithAuth srv (endpoint_url FLAGS_SUBMIT) (POST_opts (submit_body ch a))) (\<lambda>r. lift (resp_json r))"

datatype refusal = Empty_flag | Too_long | Captain_only

definition refused :: "jsval \<Rightarrow> string \<Rightarrow> refusal option" where
  "refused ch a =
     (if trim a = [] then Some Empty_flag
      else if length a > max_submission then Some Too_long
      else if truthy (oget ch ''captain_only_submit'') \<and> \<not> truthy (oget ch ''is_captain'') then Some Captain_only
      else None)"

fun refusal_popup :: "refusal \<Rightarrow> 'z world_scheme \<Rightarrow> 'z world_scheme" where
  "refusal_popup Empty_flag = show_popup ''Empty flag'' []"
| "refusal_popup Too_long = show_popup ''Submission exceeds maximum length of 1000 characters'' []"
| "refusal_popup Captain_only = show_popup ''Only team captain can submit flags'' []"

definition handleSubmitFlag :: "server \<Rightarrow> jsval \<Rightarrow> (unit, 'z pworld_scheme) action" where
  "handleSubmitFlag srv ch w =
     (case refused ch (p_answer w) of
        Some r \<Rightarrow> (Inr (), refusal_popup r w)
      | None \<Rightarrow>
          finallyM (catchM (bindM (submit_request srv ch (p_answer w))
                              (flag_answer srv ch (p_started w \<and> truthy (p_url w))))
                     (\<lambda>_. upd (show_popup ''Error'' [Str ''Connection failed''])))
            (\<lambda>w. w\<lparr>p_submitting := False\<rparr>) (w\<lparr>p_submitting := True\<rparr>))"

subsection \<open>Hints\<close>

definition FetchHintDetails :: "server \<Rightarrow> int \<Rightarrow> (jsval, 'z world_scheme) action" where
  "FetchHintDetails srv i =
     catchM (bindM (fetchWithAuth srv (endpoint_url (HINTS_GET_DETAIL i)) GET_opts) (\<lambda>r. lift (resp_json r)))
       (\<lambda>_. ret Null)"

definition unlock_failed :: jsval where
  "unlock_failed = Obj [(''success'', BoolV False), (''errors'', Obj [])]"

definition HintUnlocks :: "server \<Rightarrow> int \<Rightarrow> (jsval, 'z world_scheme) action" where
  "HintUnlocks srv i =
     catchM (bindM (fetchWithAuth srv (endpoint_url HINTS_UNLOCK)
         (POST_opts (Obj [(''type'', Str ''hints''), (''target'', Num (of_int i))])))
         (\<lambda>r. lift (resp_json r)))
       (\<lambda>_. ret unlock_failed)"

definition hint_content :: "jsval \<Rightarrow> jsval" where
  "hint_content details = Str (renderHintContentHtml (oget (oget details ''data'') ''content''))"

text \<open>A content that is no string has no \<open>replace\<close>: rendering it throws.\<close>

definition renderable :: "jsval \<Rightarrow> bool" where
  "renderable details = (let c = oget (oget details ''data'') ''content'' in nullish c \<or> is_str c)"

definition show_content :: "string \<Rightarrow> jsval \<Rightarrow> (unit, 'z world_scheme) action" where
  "show_content title details =
     (if renderable details then upd (show_popup title [hint_content details]) else throw TypeError)"

definition unlocked :: "server \<Rightarrow> jsval \<Rightarrow> int \<Rightarrow> (unit, 'z pworld_scheme) action" where
  "unlocked srv ch i =
     bindM (FetchHintDetails srv i) (\<lambda>d.
       if truthy (oget d ''data'')
       then bindM (show_content ''Hint unlocked'' d) (\<lambda>_. fetchHints srv ch)
       else upd (show_popup ''Hint unlocked'' [Str ''No details available'']))"

definition already_text :: string where
  "already_text = ''You'' @ [CHR 0x27] @ ''ve already unlocked this this target''"

definition unlock_refused :: "server \<Rightarrow> int \<Rightarrow> jsval \<Rightarrow> (unit, 'z world_scheme) action" where
  "unlock_refused srv i resp =
     (let errs = oget resp ''errors'' in
      if nullish resp then throw TypeError
      else if truthy (oget resp ''error'') then upd (show_popup ''Hint Locked'' [oget resp ''error''])
      else if truthy (oget errs ''score'') then upd (show_popup ''Insufficient points'' [oget errs ''score''])
      else if truthy (oget errs ''target'')
      then (if seq (oget errs ''target'') (Str already_text)
            then bindM (FetchHintDetails srv i) (\<lambda>d.
                   if truthy (oget d ''data'') then show_content ''Already unlocked'' d
                   else upd (show_popup ''Already unlocked'' [Str ''Hint already purchased'']))
            else upd (show_popup ''Error'' [oget errs ''target'']))
      else upd (show_popup ''Unlock failed'' [Str ''Error occurred'']))"

definition unlock_confirmed :: "server \<Rightarrow> jsval \<Rightarrow> int \<Rightarrow> (unit, 'z pworld_scheme) action" where
  "unlock_confirmed srv ch i =
     bindM (HintUnlocks srv i) (\<lambda>resp.
       if truthy (oget resp ''success'') then unlocked srv ch i else unlock_refused srv i resp)"

definition unlock_steps :: "server \<Rightarrow> jsval \<Rightarrow> int \<Rightarrow> jsval \<Rightarrow> bool \<Rightarrow> (unit, 'z pworld_scheme) action" where
  "unlock_steps srv ch i cost confirmed =
     bindM (FetchHintDetails srv i) (\<lambda>d.
       if \<not> truthy (oget d ''data'') then upd (show_popup ''Error'' [Str ''Failed to fetch hint''])
       else if truthy (oget (oget d ''data'') ''content'') then show_content ''Already unlocked'' d
       else bindM (upd (show_popup ''Unlock hint'' [cost])) (\<lambda>_.
         if confirmed then unlock_confirmed srv ch i else upd (show_popup ''Cancelled'' [])))"

definition handleUnlockHint :: "server \<Rightarrow> jsval \<Rightarrow> int \<Rightarrow> jsval \<Rightarrow> bool \<Rightarrow> (unit, 'z pworld_scheme) action" where
  "handleUnlockHint srv ch i cost confirmed w =
     (if seq (p_unlocking w) (Num (of_int i)) then (Inr (), w)
      else finallyM (catchM (unlock_steps srv ch i cost confirmed)
               (\<lambda>_. upd (show_popup ''Error'' [Str ''Connection failed''])))
             (\<lambda>w. w\<lparr>p_unlocking := Null\<rparr>) (w\<lparr>p_unlocking := Num (of_int i)\<rparr>))"

subsection \<open>Files\<close>

definition handleDownloadFile :: "server \<Rightarrow> string \<Rightarrow> (unit, 'z pworld_scheme) action" where
  "handleDownloadFile srv p =
     catchM (bindM (downloadFile srv p) (\<lambda>b. upd (\<lambda>w. w\<lparr>p_saved := p_saved w @ [(b, getFileName p)]\<rparr>)))
       (\<lambda>_. upd (show_popup ''Download failed'' [Str ''File unavailable'']))"

definition handlePdfClick :: "server \<Rightarrow> jsval \<Rightarrow> nat \<Rightarrow> (unit, 'z pworld_scheme) action" where
  "handlePdfClick srv ch n w =
     finallyM (catchM
        (bindM (downloadFile srv (js_string (if n < length (pdf_files ch) then pdf_files ch ! n else Undef))) (\<lambda>b.
           upd (\<lambda>w. if r_mounted w then w\<lparr>p_blob := Some b\<rparr> else w)))
        (\<lambda>_. upd (\<lambda>w. (show_popup ''PDF load failed'' [Str ''File unavailable''] w)\<lparr>p_pdf := None\<rparr>)))
       (\<lambda>w. if r_mounted w then w\<lparr>p_loading_pdf := False\<rparr> else w)
       (w\<lparr>p_pdf := Some n, p_page := 1, p_loading_pdf := True\<rparr>)"

definition open_first_pdf :: "server \<Rightarrow> jsval \<Rightarrow> (unit, 'z pworld_scheme) action" where
  "open_first_pdf srv ch w =
     (if pdf_files ch \<noteq> [] \<and> p_pdf w = None then handlePdfClick srv ch 0 w else (Inr (), w))"

subsection \<open>The clipboard\<close>

text \<open>The marks of the three copy buttons: set when the browser has written the text, cleared two seconds
  later; nothing happens when the browser refuses.\<close>

definition copy_mark :: "string \<Rightarrow> bool \<Rightarrow> 'z pworld_scheme \<Rightarrow> 'z pworld_scheme" where
  "copy_mark b written w = (if written then w\<lparr>p_copied := List.insert b (p_copied w)\<rparr> else w)"

definition copy_unmark :: "string \<Rightarrow> 'z pworld_scheme \<Rightarrow> 'z pworld_scheme" where
  "copy_unmark b w = w\<lparr>p_copied := removeAll b (p_copied w)\<rparr>"

definition handleCopyURL :: "bool \<Rightarrow> 'z pworld_scheme \<Rightarrow> 'z pworld_scheme" where
  "handleCopyURL = copy_mark ''url''"

definition handleCopyHttp :: "bool \<Rightarrow> 'z pworld_scheme \<Rightarrow> 'z pworld_scheme" where
  "handleCopyHttp = copy_mark ''http''"

definition handleCopyTcp :: "bool \<Rightarrow> 'z pworld_scheme \<Rightarrow> 'z pworld_scheme" where
  "handleCopyTcp = copy_mark ''tcp''"

subsection \<open>Rules: what the handlers send\<close>

lemma refresh_reads: "emitted reads_only w (snd (refresh_after srv w))"
  using refresh_quiet [of w srv] by (simp add: refresh_after_def quiet_def)

lemma get_reads: "emitted reads_only w (snd (fetchWithAuth srv url GET_opts w))"
  by (rule fetchWithAuth_emitted) (simp add: reads_only_def GET_opts_def)

lemma popup_emits: "emitted U w (show_popup t xs w)"
  by (rule emitted_same) simp_all

lemma stopTimer_emits: "emitted U w (snd (stopTimer i w))"
  by (rule emitted_same) simp_all

lemma flag_correct_reads: "emitted reads_only w (snd (flag_correct srv ch b d w))"
  unfolding flag_correct_def after_solve_def
  by (intro em.bind em.cond em.catch em.ret em.upd popup_emits refresh_reads stopTimer_emits)
     (simp_all add: emitted_def solved_ui_def)

lemma flag_answer_reads: "emitted reads_only w (snd (flag_answer srv ch b data w))"
proof -
  have c: "emitted reads_only v (begin_cooldown d v)" for d v
    by (simp add: emitted_def begin_cooldown_def)
  have "emitted reads_only v (snd (flag_incorrect srv ch d v))" for d v
    unfolding flag_incorrect_def
    by (intro em.bind em.upd popup_emits refresh_reads c)
  moreover have "emitted reads_only v (flag_ratelimited d v)" for d v
    using em.trans [OF c [of v d] popup_emits] by (simp add: flag_ratelimited_def)
  moreover have "emitted reads_only v (snd (flag_other data v))" for v
    by (simp add: flag_other_def popup_emits em.refl Let_def split: sum.split bool.split)
  ultimately show ?thesis
    unfolding flag_answer_def Let_def
    by (intro em.cond em.upd) (simp_all add: flag_correct_reads popup_emits)
qed

definition submission :: "jsval \<Rightarrow> 'z pworld_scheme \<Rightarrow> request" where
  "submission ch w = auth_request (endpoint_url FLAGS_SUBMIT) (POST_opts (submit_body ch (p_answer w))) w"

lemma refused_iff:
  "(refused ch a = None) = (\<not> (trim a = [] \<or> length a > 1000 \<or>
     truthy (oget ch ''captain_only_submit'') \<and> \<not> truthy (oget ch ''is_captain'')))"
  by (simp add: refused_def max_submission_def)

lemma submit_result:
  "case handleSubmitFlag srv ch w of (r, w') \<Rightarrow> r = Inr () \<and>
     (if refused ch (p_answer w) \<noteq> None then sent w' = sent w \<and> lworld.more w' = lworld.more w
      else \<not> p_submitting w' \<and>
          (\<exists>qs. sent w' = sent w @ submission ch w # qs \<and> filter (\<lambda>q. req_method q \<noteq> ''GET'') qs = []))"
proof (cases "refused ch (p_answer w)")
  case (Some x)
  then show ?thesis
    by (cases x) (simp_all add: handleSubmitFlag_def)
next
  case None
  let ?u = "w\<lparr>p_submitting := True\<rparr>"
  let ?f = "fetchWithAuth srv (endpoint_url FLAGS_SUBMIT) (POST_opts (submit_body ch (p_answer w)))"
  let ?k = "\<lambda>r. bindM (lift (resp_json r)) (flag_answer srv ch (p_started w \<and> truthy (p_url w)))"
  let ?run = "catchM (bindM ?f ?k) (\<lambda>_. upd (show_popup ''Error'' [Str ''Connection failed'']))"
  have run: "handleSubmitFlag srv ch w = finallyM ?run (\<lambda>w. w\<lparr>p_submitting := False\<rparr>) ?u"
    using None by (simp add: handleSubmitFlag_def submit_request_def bindM_assoc)
  obtain x v where f: "?f ?u = (x, v)" by (cases "?f ?u")
  have sv: "sent v = sent w @ [submission ch w]"
    using fetchWithAuth_step(1) [OF f] by (simp add: submission_def auth_request_def getToken_def)
  have "emitted reads_only v (snd (?run ?u))"
  proof (cases x)
    case (Inr r)
    have "emitted reads_only v (snd (catchM (?k r) (\<lambda>_. upd (show_popup ''Error'' [Str ''Connection failed''])) v))"
      by (intro em.catch em.bind em.lift em.upd flag_answer_reads popup_emits)
    then show ?thesis using f Inr by (simp add: catch_bind)
  qed (use f in \<open>simp add: catch_bind popup_emits\<close>)
  then obtain qs where "sent (snd (?run ?u)) = sent v @ qs" "filter (\<lambda>q. req_method q \<noteq> ''GET'') qs = []"
    by (rule emitted_reads)
  moreover have "fst (?run ?u) = Inr ()" by (rule fst_catch_upd)
  ultimately show ?thesis
    using None sv unfolding run by (simp add: case_prod_unfold)
qed

text \<open>C1: a flag is refused without any request, and without a change of the panel, when it is blank,
  longer than 1000 characters, or when only the captain may submit and the user is not the captain.
  Otherwise exactly one submission is sent, the first of the requests and the only one that is not a
  reading one; whatever the server answers, nothing is thrown and the panel is not left submitting.\<close>
theorem submit_once:
  "case handleSubmitFlag srv ch w of (r, w') \<Rightarrow> r = Inr () \<and>
     (if trim (p_answer w) = [] \<or> length (p_answer w) > 1000 \<or>
         truthy (oget ch ''captain_only_submit'') \<and> \<not> truthy (oget ch ''is_captain'')
      then sent w' = sent w \<and> lworld.more w' = lworld.more w
      else \<not> p_submitting w' \<and>
          (\<exists>qs. sent w' = sent w @ submission ch w # qs \<and> filter (\<lambda>q. req_method q \<noteq> ''GET'') qs = []))"
  using submit_result [where srv = srv and ch = ch and w = w] refused_iff [of ch "p_answer w"] by simp

subsection \<open>A correct flag\<close>

lemma flag_correct_result:
  assumes "timers_of w = Inr ts" and "truthy (oget ch ''require_deploy'')"
  shows "\<exists>w'. flag_correct srv ch True d w = (Inr (), w') \<and> \<not> p_started w' \<and> p_url w' = Null \<and>
    p_remaining w' = Null \<and> \<not> p_interval w' \<and> p_answer w' = [] \<and> r_end w' = r_end w \<and>
    getTimeRemaining (cid ch) w' = Inr None"
proof -
  let ?u = "(show_popup ''FLAG CORRECT'' [js_or (oget d ''value'') (oget ch ''value'')] w)\<lparr>p_answer := []\<rparr>"
  obtain v where v: "refreshChallengeData srv ?u = (Inr (), v)" "quiet ?u v"
    by (rule refresh_run)
  have sl: "store_left ?u v" and more: "lworld.more v = lworld.more ?u"
    using v(2) by (simp_all add: quiet_def kept_def)
  have "timers_of ?u = Inr ts" using assms(1) by simp
  from store_left_timers [OF sl this] obtain us where "timers_of (solved_ui v) = Inr us"
    by (auto simp: solved_ui_def)
  then obtain v' where v': "stopTimer (cid ch) (solved_ui v) = (Inr (), v')"
      "timers_of v' = Inr (filter (\<lambda>t. td_id t \<noteq> cid ch) us)" "lworld.more v' = lworld.more (solved_ui v)"
    by (rule stopTimer_obtain [where i = "cid ch"]) blast
  have "flag_correct srv ch True d w = (Inr (), v')"
    using v(1) v'(1) assms(2) by (simp add: flag_correct_def after_solve_def refresh_after_def bindM_def catchM_def)
  moreover have "getTimeRemaining (cid ch) v' = Inr None"
    using v'(2) by (auto simp: getTimeRemaining_def find_None_iff)
  ultimately show ?thesis
    using panel_fields [OF v'(3)] panel_fields [OF more] by (simp add: solved_ui_def)
qed

lemma submission_no_stop: "no_stop b (submission ch w)"
  by (simp add: no_stop_def is_stop_def submission_def auth_request_def)

text \<open>C15: after a correct flag for a challenge whose instance is shown as running, the panel shows no
  instance and no countdown, the entered flag is gone and the timer service has no timer for the
  challenge, but the page itself sends no stop request: after the submission it only reads. Stopping
  the instance is left to the server, which does it when it accepts the flag
  (\<open>ForceStopChallenge\<close> in \<open>ChallengeController.cs\<close>).\<close>
theorem correct_flag_leaves_instance:
  assumes "refused ch (p_answer w) = None" and "p_started w" and "truthy (p_url w)"
    and "truthy (oget ch ''require_deploy'')" and "timers_of w = Inr ts"
    and "snd (srv (sent w) (submission ch w)) = Reply r" and "resp_json r = Inr data"
    and "seq (oget (oget data ''data'') ''status'') (Str ''correct'')"
  shows "case handleSubmitFlag srv ch w of (res, w') \<Rightarrow>
    \<not> p_started w' \<and> p_url w' = Null \<and> p_remaining w' = Null \<and> \<not> p_interval w' \<and> p_answer w' = [] \<and>
    r_end w' = r_end w \<and> getTimeRemaining (cid ch) w' = Inr None \<and>
    (\<exists>qs. sent w' = sent w @ submission ch w # qs \<and> filter (\<lambda>q. req_method q \<noteq> ''GET'') qs = []) \<and>
    (\<forall>b. \<not> is_stop b (submission ch w))"
proof -
  let ?u = "w\<lparr>p_submitting := True\<rparr>"
  let ?f = "fetchWithAuth srv (endpoint_url FLAGS_SUBMIT) (POST_opts (submit_body ch (p_answer w)))"
  obtain x v where f: "?f ?u = (x, v)" by (cases "?f ?u")
  note step = fetchWithAuth_step [OF f]
  have q: "auth_request (endpoint_url FLAGS_SUBMIT) (POST_opts (submit_body ch (p_answer w))) ?u = submission ch w"
    "sent ?u = sent w"
    by (simp_all add: submission_def auth_request_def getToken_def)
  have x: "x = Inr r" using fetchWithAuth_outcome [OF f, unfolded q] assms(6) by simp
  have "timers_of ?u = Inr ts" using assms(5) by simp
  from store_left_timers [OF step(3) this] obtain us where "timers_of v = Inr us" by auto
  from flag_correct_result [OF this assms(4), of srv "oget data ''data''"] obtain w' where
    w': "flag_correct srv ch True (oget data ''data'') v = (Inr (), w')"
    "\<not> p_started w'" "p_url w' = Null" "p_remaining w' = Null" "\<not> p_interval w'" "p_answer w' = []"
    "r_end w' = r_end v" "getTimeRemaining (cid ch) w' = Inr None" by blast
  have "handleSubmitFlag srv ch w = (Inr (), w'\<lparr>p_submitting := False\<rparr>)"
    using f x w'(1) assms(1,2,3,7,8)
    by (simp add: handleSubmitFlag_def submit_request_def bindM_assoc catch_bind finallyM_def catchM_def flag_answer_def)
  moreover have "r_end v = r_end w"
    using panel_fields [OF world_lworld_more [OF step(4)]] by simp
  moreover have "getTimeRemaining (cid ch) (w'\<lparr>p_submitting := False\<rparr>) = getTimeRemaining (cid ch) w'"
    by (simp add: getTimeRemaining_def split: sum.split)
  ultimately show ?thesis
    using w' submit_result [where srv = srv and ch = ch and w = w] assms(1)
    by (simp add: submission_no_stop [unfolded no_stop_def])
qed

theorem correct_flag_leaves_instance_witness:
  "case handleSubmitFlag (\<lambda>_ _. (10, Reply \<lparr>status = 200,
       body = JBody (Obj [(''data'', Obj [(''status'', Str ''correct'')])])\<rparr>)) ch0 (pw0\<lparr>p_answer := ''flag''\<rparr>) of
     (res, w') \<Rightarrow> \<not> p_started w' \<and> getTimeRemaining 7 w' = Inr None \<and> r_end w' = Num 4000"
proof -
  let ?w = "pw0\<lparr>p_answer := ''flag''\<rparr>"
  let ?r = "\<lparr>status = 200, body = JBody (Obj [(''data'', Obj [(''status'', Str ''correct'')])])\<rparr>"
  have "refused ch0 (p_answer ?w) = None"
    by (simp add: refused_def max_submission_def ch0_def trim_def is_ws_def)
  moreover have "p_started ?w" "truthy (p_url ?w)" "timers_of ?w = Inr []" "r_end ?w = Num 4000"
    by (simp_all add: pw0_def getActiveTimers_def)
  ultimately show ?thesis
    using correct_flag_leaves_instance [where w = ?w and ch = ch0 and srv = "\<lambda>_ _. (10, Reply ?r)" and r = ?r]
    by (simp add: case_prod_unfold resp_json_def)
qed

subsection \<open>Unlocking a hint\<close>

text \<open>The answer to the request of a hint's details that allows to ask for unlocking it: there is
  such a hint, and its content is not there yet.\<close>

definition locked_hint :: "jsval \<Rightarrow> bool" where
  "locked_hint d = (truthy (oget d ''data'') \<and> \<not> truthy (oget (oget d ''data'') ''content''))"

definition details_of :: "outcome \<Rightarrow> jsval" where
  "details_of out = (case out of NetFail \<Rightarrow> Null
     | Reply r \<Rightarrow> (case resp_json r of Inl _ \<Rightarrow> Null | Inr d \<Rightarrow> d))"

definition hint_request :: "int \<Rightarrow> 'z world_scheme \<Rightarrow> request" where
  "hint_request i w = auth_request (endpoint_url (HINTS_GET_DETAIL i)) GET_opts w"

lemma FetchHintDetails_run:
  obtains v where "FetchHintDetails srv i w = (Inr (details_of (snd (srv (sent w) (hint_request i w)))), v)"
    "emitted reads_only w v" "sent v = sent w @ [hint_request i w]" "base_url v = base_url w"
proof -
  let ?f = "fetchWithAuth srv (endpoint_url (HINTS_GET_DETAIL i)) GET_opts"
  obtain x v where f: "?f w = (x, v)" by (cases "?f w")
  have "emitted reads_only w v"
    using get_reads [of w srv "endpoint_url (HINTS_GET_DETAIL i)"] f by simp
  moreover have "FetchHintDetails srv i w = (Inr (details_of (snd (srv (sent w) (hint_request i w)))), v)"
    using fetchWithAuth_outcome [OF f, folded hint_request_def] f
    by (cases "snd (srv (sent w) (hint_request i w))")
       (simp_all add: FetchHintDetails_def catch_bind catchM_def details_of_def split: sum.split)
  ultimately show ?thesis using that fetchWithAuth_step(1,2) [OF f, folded hint_request_def] by blast
qed

lemma FetchHintDetails_reads: "emitted reads_only w (snd (FetchHintDetails srv i w))"
  by (rule FetchHintDetails_run [of srv i w]) simp

lemma show_content_reads: "emitted U w (snd (show_content t d w))"
  by (simp add: show_content_def popup_emits em.refl)

lemma fetchHints_reads: "emitted reads_only w (snd (fetchHints srv ch w))"
  unfolding fetchHints_def
  by (intro em.catch em.bind em.cond em.lift em.ret em.throw em.upd get_reads) (simp add: emitted_def)

lemma unlocked_reads: "emitted reads_only w (snd (unlocked srv ch i w))"
  unfolding unlocked_def
  by (intro em.bind em.cond em.upd FetchHintDetails_reads fetchHints_reads show_content_reads popup_emits)

lemma unlock_refused_reads: "emitted reads_only w (snd (unlock_refused srv i resp w))"
  unfolding unlock_refused_def Let_def
  by (intro em.bind em.cond em.upd em.throw FetchHintDetails_reads show_content_reads popup_emits)

text \<open>The requests sent that are not reading ones.\<close>

definition writes :: "'z world_scheme \<Rightarrow> 'z world_scheme \<Rightarrow> request list" where
  "writes w w' = filter (\<lambda>q. req_method q \<noteq> ''GET'') (drop (length (sent w)) (sent w'))"

lemma writes_reads: "emitted reads_only w w' \<Longrightarrow> writes w w' = []"
  by (auto simp: emitted_def writes_def reads_only_def filter_empty_conv)

lemma writes_step: "sent v = sent w @ [q] \<Longrightarrow> emitted reads_only v w' \<Longrightarrow> writes w w' = (if req_method q = ''GET'' then [] else [q])"
  by (auto simp: emitted_def writes_def reads_only_def filter_empty_conv)

lemma writes_trans: "emitted reads_only w v \<Longrightarrow> emitted U v w' \<Longrightarrow> writes w w' = writes v w'"
  by (auto simp: emitted_def writes_def reads_only_def filter_empty_conv)

definition unlock_request :: "int \<Rightarrow> 'z world_scheme \<Rightarrow> request" where
  "unlock_request i w =
     auth_request (endpoint_url HINTS_UNLOCK) (POST_opts (Obj [(''type'', Str ''hints''), (''target'', Num (of_int i))])) w"

lemma unlock_confirmed_writes:
  "writes w (snd (unlock_confirmed srv ch i w)) = [unlock_request i w] \<and>
   emitted (\<lambda>_ _. True) w (snd (unlock_confirmed srv ch i w))"
proof -
  let ?f = "fetchWithAuth srv (endpoint_url HINTS_UNLOCK) (POST_opts (Obj [(''type'', Str ''hints''), (''target'', Num (of_int i))]))"
  obtain x v where f: "?f w = (x, v)" by (cases "?f w")
  note step = fetchWithAuth_step [OF f, folded unlock_request_def]
  have "emitted reads_only v (snd (bindM (lift y) (\<lambda>resp.
      if truthy (oget resp ''success'') then unlocked srv ch i else unlock_refused srv i resp) v))" for y
    by (intro em.bind em.lift em.cond unlocked_reads unlock_refused_reads)
  moreover have "\<exists>y. HintUnlocks srv i w = (y, v)"
    using f by (cases x) (auto simp: HintUnlocks_def catch_bind catchM_def split: sum.split)
  ultimately have e: "emitted reads_only v (snd (unlock_confirmed srv ch i w))"
    unfolding unlock_confirmed_def by (auto simp: bindM_def)
  have "writes w (snd (unlock_confirmed srv ch i w)) = [unlock_request i w]"
    using writes_step [OF step(1) e] by (simp add: unlock_request_def auth_request_def POST_opts_def)
  moreover have "emitted (\<lambda>_ _. True) w (snd (unlock_confirmed srv ch i w))"
    using e step(1,2) by (auto simp: emitted_def)
  ultimately show ?thesis by blast
qed

text \<open>C14: a hint is paid for only on purpose: unlocking asks for the hint's details first, and the one
  request that unlocks it is sent exactly when these say that there is such a hint whose content is
  not there yet and the user confirms; in every other case only reading requests are sent. A second
  click while the first is being handled does nothing, and afterwards no hint is being unlocked.\<close>
theorem hint_unlock:
  "case handleUnlockHint srv ch i cost confirmed w of (r, w') \<Rightarrow> r = Inr () \<and>
     (if seq (p_unlocking w) (Num (of_int i)) then w' = w
      else p_unlocking w' = Null \<and>
        map req_body (writes w w') =
          (if confirmed \<and> locked_hint (details_of (snd (srv (sent w) (hint_request i w))))
           then [Some (Obj [(''type'', Str ''hints''), (''target'', Num (of_int i))])] else []))"
proof (cases "seq (p_unlocking w) (Num (of_int i))")
  case False
  let ?u = "w\<lparr>p_unlocking := Num (of_int i)\<rparr>"
  let ?d = "details_of (snd (srv (sent w) (hint_request i w)))"
  let ?run = "catchM (unlock_steps srv ch i cost confirmed) (\<lambda>_. upd (show_popup ''Error'' [Str ''Connection failed'']))"
  have run: "handleUnlockHint srv ch i cost confirmed w = finallyM ?run (\<lambda>w. w\<lparr>p_unlocking := Null\<rparr>) ?u"
    using False by (simp add: handleUnlockHint_def)
  have q: "hint_request i ?u = hint_request i w" "sent ?u = sent w"
    by (simp_all add: hint_request_def auth_request_def getToken_def)
  obtain v where d: "FetchHintDetails srv i ?u = (Inr ?d, v)" "emitted reads_only ?u v"
    using FetchHintDetails_run [of srv i ?u, unfolded q] by metis
  let ?rest = "\<lambda>d. if \<not> truthy (oget d ''data'') then upd (show_popup ''Error'' [Str ''Failed to fetch hint''])
       else if truthy (oget (oget d ''data'') ''content'') then show_content ''Already unlocked'' d
       else bindM (upd (show_popup ''Unlock hint'' [cost])) (\<lambda>_.
         if confirmed then unlock_confirmed srv ch i else upd (show_popup ''Cancelled'' []))"
  have steps: "?run ?u = catchM (?rest ?d) (\<lambda>_. upd (show_popup ''Error'' [Str ''Connection failed''])) v"
    using d(1) by (simp add: unlock_steps_def catchM_def)
  have "map req_body (writes v (snd (?run ?u))) =
      (if confirmed \<and> locked_hint ?d then [Some (Obj [(''type'', Str ''hints''), (''target'', Num (of_int i))])] else []) \<and>
    emitted (\<lambda>_ _. True) v (snd (?run ?u))"
  proof (cases "confirmed \<and> locked_hint ?d")
    case True
    let ?v = "show_popup ''Unlock hint'' [cost] v"
    obtain y w' where y: "unlock_confirmed srv ch i ?v = (y, w')" by (cases "unlock_confirmed srv ch i ?v")
    have "writes ?v w' = [unlock_request i ?v]" "emitted (\<lambda>_ _. True) ?v w'"
      using unlock_confirmed_writes [of ?v srv ch i] y by simp_all
    moreover have "\<exists>z. snd (?run ?u) = z w' \<and> (\<forall>w. sent (z w) = sent w \<and> base_url (z w) = base_url w)"
      using True y unfolding steps locked_hint_def
      by (cases y) (auto simp: catchM_def intro: exI [of _ "show_popup t xs" for t xs] exI [of _ id])
    ultimately show ?thesis
      using True by (auto simp: writes_def emitted_def unlock_request_def auth_request_def POST_opts_def)
  next
    case False
    then have "emitted reads_only v (snd (?run ?u))"
      unfolding steps locked_hint_def
      by (intro em.catch em.cond em.bind em.upd show_content_reads popup_emits) auto
    then show ?thesis using False writes_reads by (auto simp: emitted_def)
  qed
  note effect = this
  obtain r w' where rw: "?run ?u = (r, w')" by (cases "?run ?u")
  have "r = Inr ()" using fst_catch_upd [of "unlock_steps srv ch i cost confirmed" _ ?u] rw by (metis fst_conv)
  moreover have "writes w (w'\<lparr>p_unlocking := Null\<rparr>) = writes v w'"
    using writes_trans [OF d(2), of "\<lambda>_ _. True" w'] effect unfolding rw by (simp add: writes_def)
  ultimately show ?thesis
    using False effect unfolding run by (simp only: finallyM_def rw prod.case fst_conv snd_conv) simp
qed (simp add: handleUnlockHint_def)

end
