(* ===== verification/Config.thy ===== *)
theory Config
  imports Api
begin

section \<open>Configuration: cached server settings and the environment\<close>

text \<open>
  \<open>services/configService.ts\<close> (the contest's dates and public settings, each cached in local
  storage for five minutes) and \<open>services/envService.ts\<close> (gateway address and ports). The two
  caches meet one contract, the locale \<open>ttl_cache\<close>.
\<close>

subsection \<open>Booleans in the public settings\<close>

definition normalizeBooleanConfig :: "jsval \<Rightarrow> bool \<Rightarrow> bool" where
  "normalizeBooleanConfig v dflt =
     (case v of
        BoolV b \<Rightarrow> b
      | Num q \<Rightarrow> q = 1
      | NaN \<Rightarrow> False
      | Str s \<Rightarrow>
          (let n = lower (trim s) in
           if n = ''1'' \<or> n = ''true'' \<or> n = ''yes'' \<or> n = ''on'' then True
           else if n = ''0'' \<or> n = ''false'' \<or> n = ''no'' \<or> n = ''off'' then False
           else dflt)
      | _ \<Rightarrow> dflt)"

subsection \<open>The caches\<close>

definition DATE_CONFIG_KEY :: string where "DATE_CONFIG_KEY = ''contest_date_config''"

definition DATE_CONFIG_EXPIRY :: int where "DATE_CONFIG_EXPIRY = 5 * 60 * 1000"

definition PUB_CONFIG_KEY :: string where "PUB_CONFIG_KEY = ''contest_public_config''"

definition PUB_CONFIG_EXPIRY :: int where "PUB_CONFIG_EXPIRY = 5 * 60 * 1000"

definition read_cache :: "string \<Rightarrow> int \<Rightarrow> int \<Rightarrow> storage \<Rightarrow> (exn + jsval) \<times> storage" where
  "read_cache k expiry now st =
     (case get_item st k of
        None \<Rightarrow> (Inr Null, st)
      | Some i \<Rightarrow>
          if \<not> item_truthy i then (Inr Null, st)
          else case json_parse i of
              Inl e \<Rightarrow> (Inl e, st)
            | Inr v \<Rightarrow>
                if nullish v then (Inl TypeError, st)
                else if num_gt (map_option (\<lambda>t. of_int now - t) (as_num (oget v ''timestamp'')))
                               (Some (of_int expiry))
                then (Inr Null, remove_item k st)
                else (Inr (oget v ''data''), st))"

definition write_cache :: "string \<Rightarrow> int \<Rightarrow> jsval \<Rightarrow> storage \<Rightarrow> storage" where
  "write_cache k now data st =
     set_item k (Json (json_clean (Obj [(''data'', data), (''timestamp'', Num (of_int now))]))) st"

definition getCachedDateConfig :: "(jsval, 'z world_scheme) action" where
  "getCachedDateConfig w =
     (case read_cache DATE_CONFIG_KEY DATE_CONFIG_EXPIRY (clock w) (store w) of
        (r, st) \<Rightarrow> (r, w\<lparr>store := st\<rparr>))"

definition setCachedDateConfig :: "jsval \<Rightarrow> 'z world_scheme \<Rightarrow> 'z world_scheme" where
  "setCachedDateConfig data w = w\<lparr>store := write_cache DATE_CONFIG_KEY (clock w) data (store w)\<rparr>"

definition getCachedPublicConfig :: "(jsval, 'z world_scheme) action" where
  "getCachedPublicConfig w =
     (case read_cache PUB_CONFIG_KEY PUB_CONFIG_EXPIRY (clock w) (store w) of
        (r, st) \<Rightarrow> (r, w\<lparr>store := st\<rparr>))"

definition setCachedPublicConfig :: "jsval \<Rightarrow> 'z world_scheme \<Rightarrow> 'z world_scheme" where
  "setCachedPublicConfig data w = w\<lparr>store := write_cache PUB_CONFIG_KEY (clock w) data (store w)\<rparr>"

definition clearCache :: "'z world_scheme \<Rightarrow> 'z world_scheme" where
  "clearCache w = remove_store DATE_CONFIG_KEY w"

subsection \<open>The settings\<close>

definition getDateConfig :: "server \<Rightarrow> (jsval, 'z world_scheme) action" where
  "getDateConfig srv w =
     bindM getCachedDateConfig (\<lambda>cached.
       if truthy cached then ret cached
       else catchM
         (bindM (fetch_json srv CONFIG_DATE_CONFIG GET_opts) (\<lambda>data.
            if truthy data then bindM (upd (setCachedDateConfig data)) (\<lambda>_. ret data)
            else ret Null))
         (\<lambda>_. ret Null)) w"

text \<open>\<open>API_BASE_URL.replace(/\/+$/, '')\<close>\<close>

definition strip_slashes :: "string \<Rightarrow> string" where
  "strip_slashes s = rev (dropWhile (\<lambda>c. c = CHR ''/'') (rev s))"

definition adjust_url :: "string \<Rightarrow> jsval \<Rightarrow> jsval" where
  "adjust_url base v =
     (case v of
        Str s \<Rightarrow>
          (let n = trim s in
           if n = [] then Undef
           else if starts_with ''http'' n \<or> starts_with ''data:'' n then Str n
           else Str (strip_slashes base @ ''/files/'' @ n))
      | _ \<Rightarrow> Undef)"

definition public_config :: "string \<Rightarrow> jsval \<Rightarrow> jsval" where
  "public_config base data =
     Obj [(''ctf_logo'', adjust_url base (oget data ''ctf_logo'')),
          (''ctf_small_icon'', adjust_url base (oget data ''ctf_small_icon'')),
          (''ctf_name'', if is_str (oget data ''ctf_name'') then oget data ''ctf_name'' else Undef),
          (''contestant_registration_enabled'',
             BoolV (normalizeBooleanConfig (oget data ''contestant_registration_enabled'') False))]"

definition getPublicConfig :: "server \<Rightarrow> bool \<Rightarrow> (jsval, 'z world_scheme) action" where
  "getPublicConfig srv forceRefresh w =
     bindM (if forceRefresh then ret Null else getCachedPublicConfig) (\<lambda>cached.
       if truthy cached then ret cached
       else catchM
         (bindM (fetchData srv (endpoint_url CONFIG_PUBLIC) GET_opts) (\<lambda>r.
            if \<not> resp_ok r
            then throw (ErrMsg (Str (''Unable to load public config ('' @ show_int (status r) @ '')'')))
            else bindM (lift (resp_json r)) (\<lambda>data w'.
              if truthy data
              then (let pc = public_config (base_url w') data
                    in (Inr pc, setCachedPublicConfig pc w'))
              else (Inr Null, w'))))
         (\<lambda>_. ret Null)) w"

subsection \<open>The environment\<close>

text \<open>Two sources: the object the container writes into the page, and the build's variables.\<close>

record env_sources =
  win_env :: "string \<Rightarrow> string option"
  meta_env :: "string \<Rightarrow> string option"

definition nonempty :: "string option \<Rightarrow> string option" where
  "nonempty v = (case v of None \<Rightarrow> None | Some s \<Rightarrow> if s = [] then None else Some s)"

definition getRawEnv :: "env_sources \<Rightarrow> string \<Rightarrow> string option" where
  "getRawEnv e k = (case nonempty (win_env e k) of Some v \<Rightarrow> Some v | None \<Rightarrow> nonempty (meta_env e k))"

definition getEnvVar :: "env_sources \<Rightarrow> string \<Rightarrow> string option \<Rightarrow> string option" where
  "getEnvVar e k fallback = (case getRawEnv e k of Some v \<Rightarrow> Some v | None \<Rightarrow> fallback)"

definition getBaseGateway :: "env_sources \<Rightarrow> string" where
  "getBaseGateway e = the (getEnvVar e ''VITE_BASE_GATEWAY'' (Some ''<GATEWAY_DOMAIN>''))"

definition getHttpPort :: "env_sources \<Rightarrow> string" where
  "getHttpPort e = the (getEnvVar e ''VITE_HTTP_PORT'' (Some ''30038''))"

definition getTcpPort :: "env_sources \<Rightarrow> string" where
  "getTcpPort e = the (getEnvVar e ''VITE_TCP_PORT'' (Some ''30037''))"

definition getChallengeHttpOrigin :: "env_sources \<Rightarrow> string" where
  "getChallengeHttpOrigin e = ''http://'' @ getBaseGateway e @ '':'' @ getHttpPort e"

definition getChallengeTcpAddress :: "env_sources \<Rightarrow> string" where
  "getChallengeTcpAddress e = getBaseGateway e @ '':'' @ getTcpPort e"

definition getTurnstileSiteKey :: "env_sources \<Rightarrow> string" where
  "getTurnstileSiteKey e =
     (case getEnvVar e ''VITE_CLOUDFLARE_TURNSTILE_SITE_KEY'' (Some []) of None \<Rightarrow> [] | Some s \<Rightarrow> s)"

subsection \<open>The contract of a cache with a time to live\<close>

locale ttl_cache =
  fixes peek :: "int \<Rightarrow> 's \<Rightarrow> (exn + jsval) \<times> 's"
    and put :: "int \<Rightarrow> jsval \<Rightarrow> 's \<Rightarrow> 's"
    and ttl :: int
  assumes hit: "v \<noteq> Undef \<Longrightarrow> now - t \<le> ttl \<Longrightarrow> peek now (put t v s) = (Inr (json_clean v), put t v s)"
    and miss: "ttl < now - t \<Longrightarrow> fst (peek now (put t v s)) = Inr Null"
    and evicts: "ttl < now - t \<Longrightarrow> peek now (snd (peek now (put t v s))) = (Inr Null, snd (peek now (put t v s)))"
    and put_put: "peek now (put t v (put u x s)) = peek now (put t v s)"
begin

lemma refresh:
  "v \<noteq> Undef \<Longrightarrow> now - t \<le> ttl \<Longrightarrow> fst (peek now (put t v (put u x s))) = Inr (json_clean v)"
  by (simp add: put_put hit)

text \<open>A reader sees the value written last for the whole time to live, and never afterwards.\<close>

lemma lifetime:
  "v \<noteq> Undef \<Longrightarrow> fst (peek now (put t v s)) = Inr (if now - t \<le> ttl then json_clean v else Null)"
  by (simp add: hit miss)

lemma truthy_lifetime:
  "truthy v \<Longrightarrow> (\<exists>c. fst (peek now (put t v s)) = Inr c \<and> truthy c) \<longleftrightarrow> now - t \<le> ttl"
proof -
  assume v: "truthy v"
  then have "truthy (json_clean v)" by (cases v) auto
  with v lifetime [of v now t s] show ?thesis
    by (cases "v = Undef") auto
qed

end

lemma read_write_cache:
  "read_cache k expiry now (write_cache k t v st) =
     (if expiry < now - t then (Inr Null, remove_item k (write_cache k t v st))
      else (Inr (if v = Undef then Undef else json_clean v), write_cache k t v st))"
proof -
  have "(of_int expiry :: rat) < of_int now - of_int t \<longleftrightarrow> expiry < now - t"
    by (metis of_int_diff of_int_less_iff)
  then show ?thesis
    by (cases "v = Undef") (simp_all add: read_cache_def write_cache_def)
qed

lemma read_cache_missing: "get_item st k = None \<Longrightarrow> read_cache k expiry now st = (Inr Null, st)"
  by (simp add: read_cache_def)

lemma remove_write_cache: "get_item (remove_item k (write_cache k t v st)) k = None"
  by (simp add: write_cache_def)

lemma write_write_cache: "write_cache k t v (write_cache k u x s) = write_cache k t v s"
  by (simp add: write_cache_def set_item_def)

interpretation date_cache: ttl_cache
  "read_cache DATE_CONFIG_KEY DATE_CONFIG_EXPIRY" "write_cache DATE_CONFIG_KEY" DATE_CONFIG_EXPIRY
  by unfold_locales
     (auto simp: read_write_cache read_cache_missing remove_write_cache write_write_cache)

interpretation pub_cache: ttl_cache
  "read_cache PUB_CONFIG_KEY PUB_CONFIG_EXPIRY" "write_cache PUB_CONFIG_KEY" PUB_CONFIG_EXPIRY
  by unfold_locales
     (auto simp: read_write_cache read_cache_missing remove_write_cache write_write_cache)

lemma truthy_json_clean: "truthy v \<Longrightarrow> truthy (json_clean v)"
  by (cases v) auto

lemma fetch_json_sent: "\<exists>q. sent (snd (fetch_json srv e opts w)) = sent w @ [q]"
  by (rule fetchWithAuth_cases [of srv w "endpoint_url e" opts])
     (auto simp: fetch_json_def split: sum.splits)

subsection \<open>Properties\<close>

text \<open>The contest's dates are asked for at most once in five minutes. Once they are cached, a read
  within five minutes returns them (as JSON) with no request and no change of the world; a later read
  sends exactly one request and, whatever the answer, does not throw.\<close>
theorem date_config_cached:
  assumes "truthy v" and W: "W = (setCachedDateConfig v w)\<lparr>clock := clock w + int d\<rparr>"
  shows "if int d \<le> DATE_CONFIG_EXPIRY then getDateConfig srv W = (Inr (json_clean v), W)
         else \<exists>q x. sent (snd (getDateConfig srv W)) = sent w @ [q] \<and> fst (getDateConfig srv W) = Inr x"
proof (cases "int d \<le> DATE_CONFIG_EXPIRY")
  case True
  have "v \<noteq> Undef" using assms(1) by auto
  with True have "read_cache DATE_CONFIG_KEY DATE_CONFIG_EXPIRY (clock W) (store W)
      = (Inr (json_clean v), store W)"
    using date_cache.hit [of v "clock w + int d" "clock w" "store w"]
    by (simp add: W setCachedDateConfig_def)
  then have "getCachedDateConfig W = (Inr (json_clean v), W)"
    by (simp add: getCachedDateConfig_def)
  with True assms(1) show ?thesis
    by (simp add: getDateConfig_def truthy_json_clean)
next
  case False
  then have "fst (read_cache DATE_CONFIG_KEY DATE_CONFIG_EXPIRY (clock W) (store W)) = Inr Null"
    using date_cache.miss [where now = "clock w + int d" and t = "clock w" and v = v and s = "store w"]
    by (simp add: W setCachedDateConfig_def)
  then obtain st where c: "getCachedDateConfig W = (Inr Null, W\<lparr>store := st\<rparr>)"
    by (cases "read_cache DATE_CONFIG_KEY DATE_CONFIG_EXPIRY (clock W) (store W)")
       (auto simp: getCachedDateConfig_def)
  obtain q where q: "sent (snd (fetch_json srv CONFIG_DATE_CONFIG GET_opts (W\<lparr>store := st\<rparr>))) = sent w @ [q]"
    using fetch_json_sent [of srv CONFIG_DATE_CONFIG GET_opts "W\<lparr>store := st\<rparr>"]
    by (auto simp: W setCachedDateConfig_def)
  show ?thesis
  proof (cases "fetch_json srv CONFIG_DATE_CONFIG GET_opts (W\<lparr>store := st\<rparr>)")
    case (Pair r v)
    with False c q show ?thesis
      by (cases r) (auto simp: getDateConfig_def catchM_def bindM_def setCachedDateConfig_def)
  qed
qed

theorem date_config_cached_witness:
  "getDateConfig (\<lambda>_ _. (0, NetFail)) ((setCachedDateConfig (Obj [(''end_date'', Num 9)])
      \<lparr>store = [], clock = 10, sent = [], path = [], redirect = None, popups = [], fired = [],
       base_url = []\<rparr>)\<lparr>clock := 10 + int 300000\<rparr>)
   = (Inr (Obj [(''end_date'', Num 9)]), (setCachedDateConfig (Obj [(''end_date'', Num 9)])
      \<lparr>store = [], clock = 10, sent = [], path = [], redirect = None, popups = [], fired = [],
       base_url = []\<rparr>)\<lparr>clock := 10 + int 300000\<rparr>)"
  using date_config_cached [OF _ refl, where v = "Obj [(''end_date'', Num 9)]" and d = 300000
    and srv = "\<lambda>_ _. (0, NetFail)" and w = "\<lparr>store = [], clock = 10, sent = [], path = [],
      redirect = None, popups = [], fired = [], base_url = []\<rparr>"]
  by (simp add: DATE_CONFIG_EXPIRY_def)

text \<open>The two settings treat an error answer differently. The dates do not look at the status, so any
  JSON object in an error answer is returned as the contest's dates and cached for the next five
  minutes, while the public settings return null and leave local storage as it was.\<close>
theorem config_error_answers:
  assumes "\<And>h q. srv h q = (d, Reply \<lparr>status = st, body = JBody (Obj fs)\<rparr>)"
    and "\<not> (200 \<le> st \<and> st \<le> 299)" "st \<noteq> 401" "get_item (store w) DATE_CONFIG_KEY = None"
  shows "fst (getDateConfig srv w) = Inr (Obj fs) \<and>
         get_item (store (snd (getDateConfig srv w))) DATE_CONFIG_KEY =
           Some (Json (json_clean (Obj [(''data'', Obj fs), (''timestamp'', Num (of_int (clock w + int d)))]))) \<and>
         fst (getPublicConfig srv True w) = Inr Null \<and>
         store (snd (getPublicConfig srv True w)) = store w"
proof -
  have c: "getCachedDateConfig w = (Inr Null, w)"
    using assms(4) by (simp add: getCachedDateConfig_def read_cache_missing)
  have f: "fetch_json srv CONFIG_DATE_CONFIG GET_opts w = (Inr (Obj fs),
      (send (auth_request (endpoint_url CONFIG_DATE_CONFIG) GET_opts w) w)\<lparr>clock := clock w + int d\<rparr>)"
    using assms(1,3) by (simp add: fetch_json_def fetchWithAuth_def fetch_def receive_def resp_json_def
        bindM_def)
  have p: "fst (getPublicConfig srv True w) = Inr Null" "store (snd (getPublicConfig srv True w)) = store w"
    using assms(1,2) by (auto simp: getPublicConfig_def catchM_def bindM_def fetchData_def fetch_def
        receive_def resp_ok_def)
  show ?thesis
    using p by (simp add: getDateConfig_def c f setCachedDateConfig_def write_cache_def)
qed

theorem config_error_answers_witness:
  "fst (getDateConfig (\<lambda>_ _. (2, Reply \<lparr>status = 500, body = JBody (Obj [(''error'', Str ''x'')])\<rparr>))
      \<lparr>store = [], clock = 0, sent = [], path = [], redirect = None, popups = [], fired = [],
       base_url = []\<rparr>) = Inr (Obj [(''error'', Str ''x'')])"
  by (rule config_error_answers [where d = 2 and st = 500, THEN conjunct1]) simp_all

lemma strip_slashes_end: "strip_slashes base \<noteq> p @ ''/''"
proof
  assume "strip_slashes base = p @ ''/''"
  then have "dropWhile (\<lambda>c. c = CHR ''/'') (rev base) = CHR ''/'' # rev p"
    by (simp add: strip_slashes_def rev_swap)
  then show False
    using hd_dropWhile [of "\<lambda>c. c = CHR ''/''" "rev base"] by simp
qed

definition usable_url :: "jsval \<Rightarrow> bool" where
  "usable_url v = (case v of
      Undef \<Rightarrow> True
    | Str u \<Rightarrow> starts_with ''http'' u \<or> starts_with ''data:'' u \<or>
        (\<exists>b n. u = b @ ''/files/'' @ n \<and> n \<noteq> [] \<and> (\<forall>p. b \<noteq> p @ ''/''))
    | _ \<Rightarrow> False)"

lemma usable_adjust: "usable_url (adjust_url base v)"
proof (cases v)
  case (Str s)
  have "usable_url (Str (strip_slashes base @ ''/files/'' @ n))" if "n \<noteq> []" for n
    unfolding usable_url_def jsval.case using that strip_slashes_end by blast
  with Str show ?thesis
    by (simp add: adjust_url_def Let_def) (simp add: usable_url_def)
qed (simp_all add: adjust_url_def usable_url_def)

text \<open>A logo's address is usable as it stands: it is absent, absolute (\<open>http\<close> or \<open>data:\<close>), or the
  base address followed by a single slash and \<open>files/\<close>; registration is open only when the server
  says so by true, the number 1, or one of the four accepting words.\<close>
theorem public_config_normal:
  shows "usable_url (oget (public_config base data) ''ctf_logo'') \<and>
         usable_url (oget (public_config base data) ''ctf_small_icon'') \<and>
         (oget (public_config base data) ''contestant_registration_enabled'' = BoolV True) =
         (case oget data ''contestant_registration_enabled'' of
            BoolV b \<Rightarrow> b
          | Num q \<Rightarrow> q = 1
          | Str s \<Rightarrow> lower (trim s) \<in> {''1'', ''true'', ''yes'', ''on''}
          | _ \<Rightarrow> False)"
proof -
  have "normalizeBooleanConfig v False = (case v of
            BoolV b \<Rightarrow> b
          | Num q \<Rightarrow> q = 1
          | Str s \<Rightarrow> lower (trim s) \<in> {''1'', ''true'', ''yes'', ''on''}
          | _ \<Rightarrow> False)" for v
    by (cases v) (simp_all add: normalizeBooleanConfig_def Let_def)
  then show ?thesis
    by (simp add: public_config_def usable_adjust)
qed

text \<open>The address of a challenge comes from the page's variable when it is set and not empty, else from
  the build's, else from the default; a gateway and a port are never empty.\<close>
theorem challenge_address:
  "getChallengeTcpAddress e = getBaseGateway e @ '':'' @ getTcpPort e \<and>
   getBaseGateway e \<noteq> [] \<and> getTcpPort e \<noteq> [] \<and> getHttpPort e \<noteq> [] \<and>
   getTcpPort e =
     (case win_env e ''VITE_TCP_PORT'' of
        Some (c # s) \<Rightarrow> c # s
      | _ \<Rightarrow> (case meta_env e ''VITE_TCP_PORT'' of Some (c # s) \<Rightarrow> c # s | _ \<Rightarrow> ''30037''))"
proof -
  have ne: "v \<noteq> []" if "getEnvVar e k (Some d) = Some v" "d \<noteq> []" for k d v
    using that by (auto simp: getEnvVar_def getRawEnv_def nonempty_def split: option.splits if_splits)
  have some: "\<exists>v. getEnvVar e k (Some d) = Some v" for k d
    by (simp add: getEnvVar_def split: option.split)
  have "getEnvVar e k (Some d) = Some (case win_env e k of
        Some (c # s) \<Rightarrow> c # s
      | _ \<Rightarrow> (case meta_env e k of Some (c # s) \<Rightarrow> c # s | _ \<Rightarrow> d))" for k d
    by (simp add: getEnvVar_def getRawEnv_def nonempty_def split: option.split list.split)
  then have "getTcpPort e =
     (case win_env e ''VITE_TCP_PORT'' of
        Some (c # s) \<Rightarrow> c # s
      | _ \<Rightarrow> (case meta_env e ''VITE_TCP_PORT'' of Some (c # s) \<Rightarrow> c # s | _ \<Rightarrow> ''30037''))"
    by (simp only: getTcpPort_def option.sel)
  moreover have "getBaseGateway e \<noteq> []" "getTcpPort e \<noteq> []" "getHttpPort e \<noteq> []"
    unfolding getBaseGateway_def getTcpPort_def getHttpPort_def
    using ne some by (metis list.distinct(1) option.sel)+
  ultimately show ?thesis
    by (simp add: getChallengeTcpAddress_def)
qed

end
