(* ===== verification/PanelView.thy ===== *)
theory PanelView
  imports PanelDeploy PanelFlag Config
begin

section \<open>What the challenge panel shows\<close>

text \<open>
  The rendering of \<open>ChallengeDetailPanel\<close> in \<open>pages/Challenges.tsx\<close> as functions of its state: the header,
  the badges, the stars, the attachments, the access box, the hints, the form for flags, the buttons
  of the instance and the viewer of documents with its controls. Colours, icons and layout are left
  out, and the tick before a solved challenge's name is written \<open>v\<close>. A challenge's limits and counts
  are numbers, as its type declares.
\<close>

subsection \<open>Header and badges\<close>

record panel_header =
  ph_title :: string
  ph_timer :: "time_text option"
  ph_solved :: bool
  ph_sidebar_button :: bool

definition solved :: "jsval \<Rightarrow> bool" where
  "solved ch = truthy (oget ch ''solve_by_myteam'')"

definition panel_header_of :: "jsval \<Rightarrow> 'z pworld_scheme \<Rightarrow> panel_header" where
  "panel_header_of ch w =
     \<lparr>ph_title = (if solved ch then ''[v] '' else []) @ js_string (oget ch ''name''),
      ph_timer = (if truthy (oget ch ''require_deploy'') \<and> \<not> solved ch then Some (formatTime ch (p_remaining w)) else None),
      ph_solved = solved ch, ph_sidebar_button = (\<not> c_sidebar w)\<rparr>"

record badges =
  bg_points :: string
  bg_shared :: bool
  bg_time :: "time_text option"
  bg_attempts :: "string option"
  bg_solves :: "string option"
  bg_deploys :: "string option option"
  bg_deploys_full :: bool

text \<open>\<open>formatTime(challenge.time_limit * 60)\<close>, and the count of deployments with its limit, if there is one.\<close>

definition limit_text :: "jsval \<Rightarrow> time_text" where
  "limit_text ch = formatTime ch (num_of (map_option (\<lambda>q. q * 60) (as_num (oget ch ''time_limit''))))"

definition no_deploy_limit :: "jsval \<Rightarrow> bool" where
  "no_deploy_limit ch = (nullish (oget ch ''max_deploy_count'') \<or> seq (oget ch ''max_deploy_count'') (Num 0))"

definition deployed :: "jsval \<Rightarrow> jsval" where
  "deployed ch = js_nn (oget ch ''deployed_count'') (Num 0)"

definition badges_of :: "jsval \<Rightarrow> badges" where
  "badges_of ch =
     \<lparr>bg_points = js_string (oget ch ''value'') @ '' pts'', bg_shared = truthy (oget ch ''shared_instance''),
      bg_time = (if truthy (oget ch ''require_deploy'') then Some (limit_text ch) else None),
      bg_attempts = (if seq (oget ch ''max_attempts'') (Num 0) then None else Some (js_string (oget ch ''max_attempts''))),
      bg_solves = (if oget ch ''solves'' = Undef then None else Some (js_string (oget ch ''solves'') @ '' solves'')),
      bg_deploys = (if truthy (oget ch ''require_deploy'')
        then Some (if no_deploy_limit ch then None
          else Some (js_string (deployed ch) @ ''/'' @ js_string (oget ch ''max_deploy_count''))) else None),
      bg_deploys_full = (truthy (oget ch ''require_deploy'') \<and> \<not> no_deploy_limit ch \<and>
        num_ge (as_num (deployed ch)) (as_num (oget ch ''max_deploy_count'')))\<rparr>"

text \<open>The five stars, filled or not.\<close>

definition stars :: "jsval \<Rightarrow> bool list option" where
  "stars ch =
     (if nullish (oget ch ''difficulty'') then None
      else Some (map (\<lambda>i. num_gt (as_num (oget ch ''difficulty'')) (Some (of_nat i))) [0..<5]))"

definition attachments :: "jsval \<Rightarrow> string list" where
  "attachments ch =
     filter (\<lambda>f. \<not> has_substring (lower f) ''.pdf'') (map js_string (elems (oget ch ''files'')))"

subsection \<open>Access\<close>

datatype access_status = Checking_access "string option" | Running_access | No_status

record access_box =
  ab_status :: access_status
  ab_token :: string
  ab_copy :: "string option"
  ab_http :: bool
  ab_address :: string

definition access_box_of :: "env_sources \<Rightarrow> jsval \<Rightarrow> 'z pworld_scheme \<Rightarrow> access_box option" where
  "access_box_of e ch w =
     (if \<not> truthy (p_url w) \<and> \<not> p_checking w \<and> \<not> p_deploying w then None
      else
        let url = js_string (p_url w);
            tk = (if truthy (p_url w) then trim url else ''Deploying... Please wait'');
            http = (lower (js_string (js_nn (oget ch ''connection_protocol'') (Str ''http''))) \<noteq> ''tcp'')
        in Some \<lparr>ab_status =
                  (if p_checking w then Checking_access (if truthy (p_pod w) then Some (js_string (p_pod w)) else None)
                   else if p_healthy w then Running_access else No_status),
                ab_token = tk,
                ab_copy = (if truthy (p_url w) \<and> \<not> has_substring url ''Deploying''
                  then Some (replace_first '' '' '':'' (replace_first ''Connection string: '' [] url)) else None),
                ab_http = http,
                ab_address =
                  (if http then getBaseGateway e @ '':'' @ getHttpPort e @ ''?fctftoken='' @ (if p_healthy w then tk else ''{token}'')
                   else getBaseGateway e @ '' '' @ getTcpPort e)\<rparr>)"

subsection \<open>Hints\<close>

record hint_button =
  hb_id :: jsval
  hb_cost :: jsval
  hb_unlocked :: bool
  hb_disabled :: bool

definition hint_button_of :: "'z pworld_scheme \<Rightarrow> jsval \<Rightarrow> hint_button" where
  "hint_button_of w h =
     (let cost = js_nn (oget h ''cost'') (Num 0)
      in \<lparr>hb_id = oget h ''id'', hb_cost = cost,
          hb_unlocked = (if nullish (oget h ''isUnlocked'') then num_ge (Some 0) (as_num cost)
                         else truthy (oget h ''isUnlocked'')),
          hb_disabled = seq (p_unlocking w) (oget h ''id'')\<rparr>)"

definition hint_buttons :: "jsval \<Rightarrow> 'z pworld_scheme \<Rightarrow> hint_button list" where
  "hint_buttons ch w = (if solved ch then [] else map (hint_button_of w) (elems (p_hints w)))"

subsection \<open>The form for flags\<close>

definition captain_missing :: "string \<Rightarrow> jsval \<Rightarrow> bool" where
  "captain_missing k ch = (truthy (oget ch k) \<and> \<not> truthy (oget ch ''is_captain''))"

definition used_attempts :: "jsval \<Rightarrow> jsval" where
  "used_attempts ch = js_or (oget ch ''attemps'') (Num 0)"

definition attempts_limited :: "jsval \<Rightarrow> bool" where
  "attempts_limited ch = num_gt (as_num (oget ch ''max_attempts'')) (Some 0)"

definition attempts_used_up :: "jsval \<Rightarrow> bool" where
  "attempts_used_up ch =
     (attempts_limited ch \<and> num_ge (as_num (used_attempts ch)) (as_num (oget ch ''max_attempts'')))"

datatype submit_label = Submitting | Cooling rat | Captain_label | Submit_label

datatype submit_area =
    No_form
  | Used_up jsval
  | Form (sf_left: "rat option") (sf_captain_note: bool) (sf_disabled: bool) (sf_label: submit_label)
      (sf_bar: "rat option")

definition submit_area_of :: "jsval \<Rightarrow> 'z pworld_scheme \<Rightarrow> submit_area" where
  "submit_area_of ch w =
     (if solved ch then No_form
      else if attempts_used_up ch then Used_up (oget ch ''max_attempts'')
      else
        let captain = captain_missing ''captain_only_submit'' ch
        in Form
          (if attempts_limited ch
           then (case (as_num (oget ch ''max_attempts''), as_num (used_attempts ch)) of
                   (Some m, Some u) \<Rightarrow> Some (m - u) | _ \<Rightarrow> None) else None)
          captain
          (p_submitting w \<or> trim (p_answer w) = [] \<or> p_cooldown w > 0 \<or> captain)
          (if p_submitting w then Submitting else if p_cooldown w > 0 then Cooling (p_cooldown w)
           else if captain then Captain_label else Submit_label)
          (if p_cooldown w > 0
           then Some (if p_cooldown_total w > 0 then p_cooldown w / p_cooldown_total w * 100 else 0) else None))"

subsection \<open>The buttons of the instance\<close>

datatype instance_area =
    No_buttons
  | Checking_note "string option"
  | Captain_note
  | Start_button (sb_disabled: bool)
  | Stop_button (tb_disabled: bool)
  | Wait_for_admin

definition instance_area_of :: "jsval \<Rightarrow> 'z pworld_scheme \<Rightarrow> instance_area" where
  "instance_area_of ch w =
     (if \<not> truthy (oget ch ''require_deploy'') \<or> solved ch \<or> attempts_used_up ch then No_buttons
      else if truthy (oget ch ''shared_instance'')
      then (if \<not> truthy (p_url w) \<and> \<not> p_checking w \<and> \<not> p_deploying w then Wait_for_admin else No_buttons)
      else if p_checking w \<or> p_deploying w
      then Checking_note (if truthy (p_pod w) then Some (js_string (p_pod w)) else None)
      else if \<not> truthy (p_url w)
      then (if captain_missing ''captain_only_start'' ch then Captain_note else Start_button (p_starting w))
      else Stop_button (p_stopping w \<or> is_deleting (oget ch ''pod_status'')))"

definition next_button :: "jsval \<Rightarrow> (jsval \<times> jsval) option" where
  "next_button ch =
     (if truthy (oget ch ''next_id'') then Some (oget ch ''next_id'', oget ch ''next_name'') else None)"

subsection \<open>The viewer of documents\<close>

datatype viewer_body = Pdf_loading | Pdf_document body nat rat | Pdf_empty

record viewer_nav =
  vn_out :: bool
  vn_in :: bool
  vn_first :: bool
  vn_prev :: bool
  vn_next :: bool
  vn_last :: bool

text \<open>The number of pages is there once a document has been loaded; each field of the navigation says whether
  its button is enabled.\<close>

definition pages_num :: "'z pworld_scheme \<Rightarrow> rat" where
  "pages_num w = (case as_num (p_pages w) of Some q \<Rightarrow> q | None \<Rightarrow> 0)"

definition viewer_nav_of :: "'z pworld_scheme \<Rightarrow> viewer_nav" where
  "viewer_nav_of w =
     (let n = pages_num w; p = of_nat (p_page w)
      in \<lparr>vn_out = (\<not> p_scale w \<le> 1/2), vn_in = (\<not> p_scale w \<ge> 3), vn_first = (p_page w \<noteq> 1),
          vn_prev = (\<not> p_page w \<le> 1), vn_next = (\<not> p \<ge> n), vn_last = (p \<noteq> n)\<rparr>)"

record viewer =
  vw_tabs :: "nat option"
  vw_body :: "viewer_body option"
  vw_nav :: "viewer_nav option"

definition viewer_of :: "jsval \<Rightarrow> 'z pworld_scheme \<Rightarrow> viewer option" where
  "viewer_of ch w =
     (if pdf_files ch = [] then None
      else Some \<lparr>vw_tabs = (if length (pdf_files ch) > 1 \<and> p_pdf w \<noteq> None then Some (length (pdf_files ch)) else None),
                vw_body = (if p_pdf w = None then None
                  else Some (if p_loading_pdf w then Pdf_loading
                             else case p_blob w of
                                 Some b \<Rightarrow> if r_mounted w then Pdf_document b (p_page w) (p_scale w) else Pdf_empty
                               | None \<Rightarrow> Pdf_empty)),
                vw_nav = (if p_pdf w \<noteq> None \<and> truthy (p_pages w) \<and> \<not> p_loading_pdf w then Some (viewer_nav_of w) else None)\<rparr>)"

datatype pdf_button = Zoom_out | Zoom_in | First_page | Prev_page | Next_page | Last_page

fun pdf_press :: "pdf_button \<Rightarrow> 'z pworld_scheme \<Rightarrow> 'z pworld_scheme" where
  "pdf_press Zoom_out w = w\<lparr>p_scale := max (1/2) (p_scale w - 1/10)\<rparr>"
| "pdf_press Zoom_in w = w\<lparr>p_scale := min 3 (p_scale w + 1/10)\<rparr>"
| "pdf_press First_page w = w\<lparr>p_page := 1\<rparr>"
| "pdf_press Prev_page w = w\<lparr>p_page := max 1 (p_page w - 1)\<rparr>"
| "pdf_press Next_page w = w\<lparr>p_page := nat \<lfloor>min (pages_num w) (of_nat (p_page w) + 1)\<rfloor>\<rparr>"
| "pdf_press Last_page w = w\<lparr>p_page := nat \<lfloor>pages_num w\<rfloor>\<rparr>"

fun pdf_enabled :: "viewer_nav \<Rightarrow> pdf_button \<Rightarrow> bool" where
  "pdf_enabled v Zoom_out = vn_out v"
| "pdf_enabled v Zoom_in = vn_in v"
| "pdf_enabled v First_page = vn_first v"
| "pdf_enabled v Prev_page = vn_prev v"
| "pdf_enabled v Next_page = vn_next v"
| "pdf_enabled v Last_page = vn_last v"

definition pdf_offered :: "jsval \<Rightarrow> 'z pworld_scheme \<Rightarrow> pdf_button \<Rightarrow> bool" where
  "pdf_offered ch w b =
     (case viewer_of ch w of None \<Rightarrow> False
      | Some v \<Rightarrow> (case vw_nav v of None \<Rightarrow> False | Some n \<Rightarrow> pdf_enabled n b))"

text \<open>Mounting and leaving the panel: the effect that guards the viewer.\<close>

definition pdf_setup :: "'z pworld_scheme \<Rightarrow> 'z pworld_scheme" where
  "pdf_setup w = w\<lparr>r_mounted := True\<rparr>"

definition pdf_cleanup :: "'z pworld_scheme \<Rightarrow> 'z pworld_scheme" where
  "pdf_cleanup w = w\<lparr>r_mounted := False, p_blob := None, p_pages := Null, p_pdf := None\<rparr>"

subsection \<open>Runs of the viewer\<close>

text \<open>
  The viewer's part of a run: opening documents, documents that finish loading (with at least one
  page), the wheel and the buttons, as far as they are enabled.
\<close>

inductive pdf_reach :: "server \<Rightarrow> jsval \<Rightarrow> 'z pworld_scheme \<Rightarrow> bool" for srv ch where
  opened: "p_scale w = 1 \<Longrightarrow> p_page w = 1 \<Longrightarrow> p_pages w = Null \<Longrightarrow> pdf_reach srv ch (pdf_setup w)"
| choose: "pdf_reach srv ch w \<Longrightarrow> pdf_reach srv ch (snd (handlePdfClick srv ch n w))"
| loaded: "pdf_reach srv ch w \<Longrightarrow> pdf_reach srv ch (onDocumentLoadSuccess (Num (of_nat (Suc n))) container page w)"
| wheel: "pdf_reach srv ch w \<Longrightarrow> pdf_reach srv ch (handlePdfWheel ctrl d w)"
| press: "pdf_reach srv ch w \<Longrightarrow> pdf_offered ch w b \<Longrightarrow> pdf_reach srv ch (pdf_press b w)"
| leave: "pdf_reach srv ch w \<Longrightarrow> pdf_reach srv ch (pdf_cleanup w)"

subsection \<open>Rules\<close>

lemma downloadFile_more: "world.more (snd (downloadFile srv url w)) = world.more w"
  by (rule fetch_cases [of srv w "\<lparr>req_method = ''GET'', req_url = base_url w @ url,
              req_headers = auth_header (getToken w), req_body = None\<rparr>"])
     (simp_all add: downloadFile_def Let_def)

lemma pworld_of_more:
  fixes w :: "'z pworld_scheme"
  assumes "world.more w' = world.more w"
  shows "p_scale w' = p_scale w" "p_page w' = p_page w" "p_pages w' = p_pages w" "r_mounted w' = r_mounted w"
    "p_blob w' = p_blob w" "p_pdf w' = p_pdf w"
  using assms by (cases w; cases w'; simp)+

lemma handlePdfClick_view:
  fixes w :: "'z pworld_scheme"
  shows "p_scale (snd (handlePdfClick srv ch n w)) = p_scale w \<and> p_page (snd (handlePdfClick srv ch n w)) = 1 \<and>
   p_pages (snd (handlePdfClick srv ch n w)) = p_pages w"
proof -
  let ?u = "w\<lparr>p_pdf := Some n, p_page := 1, p_loading_pdf := True\<rparr>"
  let ?f = "js_string (if n < length (pdf_files ch) then pdf_files ch ! n else Undef)"
  obtain x v where d: "downloadFile srv ?f ?u = (x, v)" by (cases "downloadFile srv ?f ?u")
  then have "world.more v = world.more ?u" using downloadFile_more [of srv ?f ?u] by simp
  note v = pworld_of_more [OF this]
  have p: "p_scale (show_popup t xs u) = p_scale u" "p_page (show_popup t xs u) = p_page u"
    "p_pages (show_popup t xs u) = p_pages u" for t xs and u :: "'z pworld_scheme"
    by (rule pworld_of_more; simp)+
  show ?thesis
    using d v by (cases x) (simp_all add: handlePdfClick_def catchM_def bindM_def finallyM_def p)
qed

definition viewer_ok :: "'z pworld_scheme \<Rightarrow> bool" where
  "viewer_ok w = (1/2 \<le> p_scale w \<and> p_scale w \<le> 3 \<and> 1 \<le> p_page w \<and>
     (p_pages w = Null \<or> (\<exists>n. p_pages w = Num (of_nat (Suc n)))))"

lemma viewer_ok_click: "viewer_ok w \<Longrightarrow> viewer_ok (snd (handlePdfClick srv ch n w))"
  using handlePdfClick_view [of srv ch n w] by (simp add: viewer_ok_def)

lemma viewer_ok_loaded: "viewer_ok w \<Longrightarrow> viewer_ok (onDocumentLoadSuccess (Num (of_nat (Suc n))) container page w)"
  by (auto simp: viewer_ok_def onDocumentLoadSuccess_def Let_def min_def max_def simp del: of_nat_Suc split: option.split)

lemma viewer_ok_wheel: "viewer_ok w \<Longrightarrow> viewer_ok (handlePdfWheel ctrl d w)"
  by (auto simp: viewer_ok_def handlePdfWheel_def min_def max_def)

lemma offered_pages:
  assumes "viewer_ok w" "pdf_offered ch w b"
  obtains n where "p_pages w = Num (of_nat (Suc n))" "pages_num w = of_nat (Suc n)" "pdf_enabled (viewer_nav_of w) b"
proof -
  have "truthy (p_pages w)" "pdf_enabled (viewer_nav_of w) b"
    using assms(2) by (auto simp: pdf_offered_def viewer_of_def split: if_splits option.splits)
  with assms(1) that show thesis by (auto simp: viewer_ok_def pages_num_def)
qed

lemma viewer_ok_press: "viewer_ok w \<Longrightarrow> pdf_offered ch w b \<Longrightarrow> viewer_ok (pdf_press b w)"
proof (rule offered_pages [of w ch b])
  fix n
  assume w: "viewer_ok w" and n: "p_pages w = Num (of_nat (Suc n))" "pages_num w = of_nat (Suc n)"
  have "1 \<le> nat \<lfloor>min (of_nat (Suc n)) (of_nat (p_page w) + 1 :: rat)\<rfloor>"
    by (simp add: le_nat_iff le_floor_iff)
  moreover have "1 \<le> nat \<lfloor>of_nat (Suc n) :: rat\<rfloor>"
    by (simp only: floor_of_nat nat_int)
  ultimately show "viewer_ok (pdf_press b w)"
    using w n by (cases b) (auto simp: viewer_ok_def min_def max_def simp del: of_nat_Suc)
qed

lemma viewer_ok_reach: "pdf_reach srv ch w \<Longrightarrow> viewer_ok w"
proof (induction rule: pdf_reach.induct)
  case (loaded w n container page)
  from loaded.IH show ?case by (rule viewer_ok_loaded)
next
  case (press w b)
  from press.IH press.hyps(2) show ?case by (rule viewer_ok_press)
qed (simp_all add: viewer_ok_click viewer_ok_wheel, simp_all add: viewer_ok_def pdf_setup_def pdf_cleanup_def)

subsection \<open>Properties\<close>

text \<open>C26: Whatever documents are opened, however they load, and whatever is done with the wheel and the
  buttons: the zoom stays between 50 and 300 percent, the page number is at least 1, and every button
  that is enabled changes the viewer when it is pressed.\<close>
theorem viewer_controls:
  assumes "pdf_reach srv ch w"
  shows "1/2 \<le> p_scale w \<and> p_scale w \<le> 3 \<and> 1 \<le> p_page w \<and>
    (\<forall>b. pdf_offered ch w b \<longrightarrow> p_scale (pdf_press b w) \<noteq> p_scale w \<or> p_page (pdf_press b w) \<noteq> p_page w)"
proof (intro conjI allI impI)
  show ok: "1/2 \<le> p_scale w" "p_scale w \<le> 3" "1 \<le> p_page w"
    using viewer_ok_reach [OF assms] by (simp_all add: viewer_ok_def)
  fix b
  assume "pdf_offered ch w b"
  then obtain n where n: "pages_num w = of_nat (Suc n)" "pdf_enabled (viewer_nav_of w) b"
    using offered_pages [OF viewer_ok_reach [OF assms]] by metis
  have next_page: "nat \<lfloor>min (of_nat (Suc n)) (of_nat p + 1 :: rat)\<rfloor> = Suc p" if "p < Suc n" for p
  proof -
    have "min (of_nat (Suc n)) (of_nat p + 1 :: rat) = of_nat (Suc p)" using that by simp
    then show ?thesis by (simp only: floor_of_nat nat_int)
  qed
  have last_page: "nat \<lfloor>of_nat (Suc n) :: rat\<rfloor> = Suc n" by (simp only: floor_of_nat nat_int)
  show "p_scale (pdf_press b w) \<noteq> p_scale w \<or> p_page (pdf_press b w) \<noteq> p_page w"
  proof (cases b)
    case Next_page
    then have "p_page w < Suc n" using n by (simp add: viewer_nav_of_def Let_def not_le del: of_nat_Suc)
    then show ?thesis using Next_page n(1) next_page by (simp del: of_nat_Suc)
  next
    case Last_page
    then have "p_page w \<noteq> Suc n" using n by (simp add: viewer_nav_of_def Let_def del: of_nat_Suc)
    then show ?thesis using Last_page n(1) last_page by (simp del: of_nat_Suc)
  qed (use n ok in \<open>auto simp: viewer_nav_of_def Let_def\<close>)
qed

text \<open>A challenge with two documents.\<close>

definition ch_pdfs :: jsval where
  "ch_pdfs = Obj [(''id'', Num 7), (''files'', Arr [Str ''/files/a.pdf'', Str ''/files/b.pdf''])]"

definition pdf_server :: server where
  "pdf_server = (\<lambda>_ _. (1, Reply \<lparr>status = 200, body = RawBody []\<rparr>))"

lemma pdf_opened: "pdf_reach pdf_server ch_pdfs (snd (handlePdfClick pdf_server ch_pdfs 0 (pdf_setup pw0)))"
  by (rule pdf_reach.choose, rule pdf_reach.opened) (simp_all add: pw0_def)

theorem viewer_controls_witness:
  "p_scale (handlePdfWheel True (-1) (snd (handlePdfClick pdf_server ch_pdfs 0 (pdf_setup pw0)))) \<le> 3"
  using viewer_controls [OF pdf_reach.wheel [OF pdf_opened]] by blast

text \<open>Zooming in with the wheel makes a document smaller when the buttons have enlarged it to more than
  200 percent: the wheel's limit is 200 percent, the buttons' 300.\<close>
theorem wheel_zoom_in_shrinks:
  assumes "p_scale w > 2" "deltaY < 0"
  shows "p_scale (handlePdfWheel True deltaY w) = 2 \<and> p_scale (handlePdfWheel True deltaY w) < p_scale w"
  using assms by (simp add: handlePdfWheel_def)

theorem wheel_zoom_in_shrinks_witness:
  "p_scale (handlePdfWheel True (-3) (pdf_press Zoom_in (pw0\<lparr>p_scale := 5/2\<rparr>))) = 2"
  using wheel_zoom_in_shrinks [of "pdf_press Zoom_in (pw0\<lparr>p_scale := 5/2\<rparr>)" "-3"] by simp

text \<open>The page shown may lie beyond the end of the document: after another document is chosen, the
  number of pages is still that of the one before until the new one has been read, and the button for
  the last page goes there.\<close>
theorem page_beyond_document:
  "\<exists>srv ch w. pdf_reach srv ch (w :: pworld) \<and> pages_num w = 2 \<and> p_page w = 5 \<and> vw_nav (the (viewer_of ch w)) \<noteq> None"
proof -
  let ?w1 = "snd (handlePdfClick pdf_server ch_pdfs 0 (pdf_setup pw0))"
  let ?w2 = "onDocumentLoadSuccess (Num (of_nat (Suc 4))) None None ?w1"
  let ?w3 = "snd (handlePdfClick pdf_server ch_pdfs 1 ?w2)"
  let ?w4 = "pdf_press Last_page ?w3"
  let ?w5 = "onDocumentLoadSuccess (Num (of_nat (Suc 1))) None None ?w4"
  have "pdf_offered ch_pdfs ?w3 Last_page" by code_simp
  then have "pdf_reach pdf_server ch_pdfs ?w5"
    by (intro pdf_reach.loaded pdf_reach.press pdf_reach.choose pdf_reach.loaded pdf_opened)
  moreover have "pages_num ?w5 = 2" "p_page ?w5 = 5" "vw_nav (the (viewer_of ch_pdfs ?w5)) \<noteq> None" by code_simp+
  ultimately show ?thesis by (intro exI conjI)
qed

text \<open>C25: The form keeps its promise: when its button is enabled, pressing it sends exactly one submission,
  unless the flag is longer than 1000 characters, and it is enabled only outside the cooldown, while no
  submission is under way, and with attempts left.\<close>
theorem submit_button_submits:
  assumes "submit_area_of ch w = Form left note False label bar"
  shows "\<not> p_submitting w \<and> p_cooldown w \<le> 0 \<and> label = Submit_label \<and> \<not> note \<and> (\<forall>n. left = Some n \<longrightarrow> 0 < n) \<and>
    (case handleSubmitFlag srv ch w of (r, w') \<Rightarrow> r = Inr () \<and>
      (if length (p_answer w) > 1000 then sent w' = sent w
       else \<not> p_submitting w' \<and>
         (\<exists>qs. sent w' = sent w @ submission ch w # qs \<and> filter (\<lambda>q. req_method q \<noteq> ''GET'') qs = [])))"
proof -
  have form: "\<not> p_submitting w" "p_cooldown w \<le> 0" "trim (p_answer w) \<noteq> []" "\<not> captain_missing ''captain_only_submit'' ch"
    "label = Submit_label" "\<not> note" "\<not> attempts_used_up ch"
    and left: "left = (if attempts_limited ch
      then (case (as_num (oget ch ''max_attempts''), as_num (used_attempts ch)) of
              (Some m, Some u) \<Rightarrow> Some (m - u) | _ \<Rightarrow> None) else None)"
    using assms by (auto simp: submit_area_of_def Let_def split: if_splits)
  then have "(refused ch (p_answer w) = None) = (length (p_answer w) \<le> 1000)"
    by (auto simp: refused_iff captain_missing_def)
  moreover have "\<forall>n. left = Some n \<longrightarrow> 0 < n"
    using form(7) unfolding left attempts_used_up_def by (auto simp: num_ge_def split: option.splits)
  ultimately show ?thesis
    using form submit_result [where srv = srv and ch = ch and w = w] by (auto split: prod.splits if_splits)
qed

definition ch_flag :: jsval where
  "ch_flag = Obj [(''id'', Num 7), (''max_attempts'', Num 3), (''attemps'', Num 1)]"

theorem submit_button_submits_witness:
  "\<exists>q qs. sent (snd (handleSubmitFlag (\<lambda>_ _. (1, NetFail)) ch_flag (pw0\<lparr>p_answer := ''flag'', p_cooldown := 0\<rparr>))) = q # qs"
proof -
  let ?w = "pw0\<lparr>p_answer := ''flag'', p_cooldown := 0\<rparr>"
  have "submit_area_of ch_flag ?w = Form (Some 2) False False Submit_label None" by code_simp
  from submit_button_submits [OF this, of "\<lambda>_ _. (1, NetFail)"]
  show ?thesis by (auto simp: case_prod_unfold pw0_def)
qed

text \<open>The start button leads on: pressing it when it is offered asks the server once; when the server
  accepts, the panel shows that the instance is being checked, and the access box is there; otherwise
  the button is offered again.\<close>
theorem start_button_leads_on:
  fixes w :: "'z dworld_scheme"
  assumes "instance_area_of ch w = Start_button False"
  shows "case handleStartChallenge srv ch w of (r, w') \<Rightarrow> r = Inr () \<and> sent w' = sent w @ [start_request ch w] \<and>
    (if accepted (snd (srv (sent w) (start_request ch w))) = None then instance_area_of ch w' = Start_button False
     else (\<exists>p. instance_area_of ch w' = Checking_note p) \<and> access_box_of e ch w' \<noteq> None)"
proof -
  obtain r w' where run: "handleStartChallenge srv ch w = (r, w')" by (cases "handleStartChallenge srv ch w")
  have res: "r = Inr ()" "sent w' = sent w @ [start_request ch w]"
    "start_settled ch (accepted (snd (srv (sent w) (start_request ch w)))) w w'"
    using start_result [where srv = srv and ch = ch and w = w] run by simp_all
  have "truthy (oget ch ''require_deploy'')" "\<not> solved ch" "\<not> attempts_used_up ch" "\<not> truthy (oget ch ''shared_instance'')"
    "\<not> p_checking w" "\<not> truthy (p_url w)" "\<not> captain_missing ''captain_only_start'' ch"
    using assms by (auto simp: instance_area_of_def split: if_splits)
  then show ?thesis
    using run res by (auto simp: start_settled_def instance_area_of_def access_box_of_def Let_def split: option.splits)
qed

theorem start_button_leads_on_witness:
  "map req_url (sent (snd (handleStartChallenge (\<lambda>_ _. (1, NetFail)) ch0 (dw0\<lparr>p_url := Null, p_checking := False\<rparr>)))) =
     [''/api/Challenge/start'']"
proof -
  let ?w = "dw0\<lparr>p_url := Null, p_checking := False\<rparr>"
  have "instance_area_of ch0 ?w = Start_button False" by code_simp
  from start_button_leads_on [OF this, of "\<lambda>_ _. (1, NetFail)"]
  have "sent (snd (handleStartChallenge (\<lambda>_ _. (1, NetFail)) ch0 ?w)) = sent ?w @ [start_request ch0 ?w]"
    by (simp add: case_prod_unfold)
  moreover have "sent ?w = []" "req_url (start_request ch0 ?w) = ''/api/Challenge/start''" by code_simp+
  ultimately show ?thesis by simp
qed

text \<open>The stars filled are the difficulty, rounded up and cut off at 0 and 5.\<close>
theorem stars_difficulty:
  assumes "oget ch ''difficulty'' = Num d"
  shows "\<exists>ss. stars ch = Some ss \<and> length ss = 5 \<and> length (filter (\<lambda>b. b) ss) = min 5 (nat \<lceil>d\<rceil>)"
proof -
  let ?ss = "[0 < d, 1 < d, 2 < d, 3 < d, 4 < d]"
  have "[0..<5] = [0, 1, 2, 3, 4 :: nat]" by (simp add: upt_rec)
  then have "stars ch = Some ?ss" using assms by (simp add: stars_def num_gt_def)
  moreover have "length (filter (\<lambda>b. b) ?ss) = min 5 (nat \<lceil>d\<rceil>)"
  proof -
    consider "d \<le> 0" | "0 < d" "d \<le> 1" | "1 < d" "d \<le> 2" | "2 < d" "d \<le> 3" | "3 < d" "d \<le> 4" | "4 < d" by linarith
    then show ?thesis
    proof cases
      case 1
      then have "\<lceil>d\<rceil> \<le> 0" by (simp add: ceiling_le_iff)
      with 1 show ?thesis by simp
    next
      case 6
      then have "5 \<le> \<lceil>d\<rceil>" by (simp add: le_ceiling_iff)
      with 6 show ?thesis by (simp add: le_nat_iff min_def)
    next
      case 2
      then have "\<lceil>d\<rceil> = 1" by (simp add: ceiling_eq_iff)
      with 2 show ?thesis by simp
    next
      case 3
      then have "\<lceil>d\<rceil> = 2" by (simp add: ceiling_eq_iff)
      with 3 show ?thesis by simp
    next
      case 4
      then have "\<lceil>d\<rceil> = 3" by (simp add: ceiling_eq_iff)
      with 4 show ?thesis by simp
    next
      case 5
      then have "\<lceil>d\<rceil> = 4" by (simp add: ceiling_eq_iff)
      with 5 show ?thesis by simp
    qed
  qed
  ultimately show ?thesis by (intro exI [where x = ?ss]) simp
qed

theorem stars_difficulty_witness:
  "\<exists>ss. stars (Obj [(''difficulty'', Num (5/2))]) = Some ss \<and> length (filter (\<lambda>b. b) ss) = 3"
proof -
  have "\<lceil>5/2 :: rat\<rceil> = 3" by (simp add: ceiling_eq_iff)
  then show ?thesis using stars_difficulty [of "Obj [(''difficulty'', Num (5/2))]" "5/2"] by auto
qed

end
