(* ===== verification/Session.thy ===== *)
theory Session
  imports Auth
begin

section \<open>Authentication state, theme and guarded routes\<close>

text \<open>
  \<open>context/AuthContext.tsx\<close> (the React state that mirrors the session),
  \<open>context/ThemeContext.tsx\<close>, \<open>components/PrivateRoute.tsx\<close>, \<open>components/AdminRoute.tsx\<close>
  and the route table of \<open>App.tsx\<close>.
\<close>

subsection \<open>The authentication context\<close>

record auth_state =
  is_authenticated :: bool
  user :: "jsval option"
  loading :: bool

definition auth_initial :: auth_state where
  "auth_initial = \<lparr>is_authenticated = False, user = None, loading = True\<rparr>"

text \<open>The effect run on mount. A stored user that is no JSON makes it throw, so loading stays on.\<close>

definition auth_mount :: "'z world_scheme \<Rightarrow> auth_state \<Rightarrow> exn + auth_state" where
  "auth_mount w s =
     (case getUser w of
        Inl e \<Rightarrow> Inl e
      | Inr u \<Rightarrow> Inr ((if isAuthenticated w \<and> truthy u
                      then s\<lparr>is_authenticated := True, user := Some u\<rparr> else s)\<lparr>loading := False\<rparr>))"

definition credentials :: "string \<Rightarrow> string \<Rightarrow> jsval \<Rightarrow> jsval" where
  "credentials u p captcha =
     Obj [(''username'', Str u), (''password'', Str p), (''captchaToken'', captcha)]"

definition ctx_login :: "server \<Rightarrow> string \<Rightarrow> string \<Rightarrow> jsval \<Rightarrow> auth_state \<Rightarrow>
    (auth_state, 'z world_scheme) action" where
  "ctx_login srv u p captcha s w =
     bindM (login srv (credentials u p captcha)) (\<lambda>resp w'.
       bindM (lift (getUser w')) (\<lambda>saved.
         if \<not> isAuthenticated w' \<or> \<not> truthy saved
         then throw (ErrMsg (Str ''Failed to save authentication data''))
         else ret (s\<lparr>is_authenticated := True, user := Some (oget resp ''user'')\<rparr>)) w') w"

definition ctx_selectContest :: "server \<Rightarrow> int \<Rightarrow> auth_state \<Rightarrow> (auth_state, 'z world_scheme) action" where
  "ctx_selectContest srv c s w =
     bindM (selectContest srv c) (\<lambda>data.
       ret (case user s of
              None \<Rightarrow> s
            | Some u \<Rightarrow> s\<lparr>user := Some (set_field ''team'' (team_of_reply data) u)\<rparr>)) w"

definition ctx_logout :: "server \<Rightarrow> auth_state \<Rightarrow> (auth_state, 'z world_scheme) action" where
  "ctx_logout srv s w =
     bindM (logout srv) (\<lambda>_. ret (s\<lparr>is_authenticated := False, user := None\<rparr>)) w"

text \<open>
  The state agrees with local storage: the context shows a user exactly when a session is stored,
  and shows the stored one.
\<close>

definition in_sync :: "auth_state \<Rightarrow> 'z world_scheme \<Rightarrow> bool" where
  "in_sync s w =
     (case user s of
        None \<Rightarrow> \<not> is_authenticated s
      | Some u \<Rightarrow> is_authenticated s \<and> truthy u \<and> isAuthenticated w \<and> getUser w = Inr u)"

subsection \<open>The theme\<close>

datatype theme = Light | Dark

definition theme_name :: "theme \<Rightarrow> string" where
  "theme_name t = (case t of Light \<Rightarrow> ''light'' | Dark \<Rightarrow> ''dark'')"

definition theme_initial :: "storage \<Rightarrow> theme" where
  "theme_initial st = (if get_item st ''theme'' = Some (Raw ''dark'') then Dark else Light)"

record page_classes =
  root_classes :: "string list"
  body_classes :: "string list"

definition add_class :: "string \<Rightarrow> string list \<Rightarrow> string list" where
  "add_class c cs = (if c \<in> set cs then cs else cs @ [c])"

definition apply_theme :: "theme \<Rightarrow> page_classes \<times> storage \<Rightarrow> page_classes \<times> storage" where
  "apply_theme t p = (case p of (d, st) \<Rightarrow>
     (let strip = filter (\<lambda>c. c \<noteq> ''light'' \<and> c \<noteq> ''dark'')
      in (d\<lparr>root_classes := add_class (theme_name t) (strip (root_classes d)),
            body_classes := add_class (theme_name t) (strip (body_classes d))\<rparr>,
          set_item ''theme'' (Raw (theme_name t)) st)))"

definition toggleTheme :: "theme \<Rightarrow> theme" where
  "toggleTheme t = (if t = Light then Dark else Light)"

subsection \<open>Guards and routes\<close>

datatype page =
    Login | Register | PublicScoreboard | ContestList | CreateContest | PullChallenges
  | ImportParticipants | Challenges | Scoreboard | Tickets | TicketDetail | Instances
  | ActionLogsPage | Profile

datatype view = Loader | Show page | Navigate string

definition PrivateRoute :: "auth_state \<Rightarrow> page \<Rightarrow> view" where
  "PrivateRoute s p =
     (if loading s then Loader
      else if is_authenticated s then Show p else Navigate ''/login'')"

definition AdminRoute :: "auth_state \<Rightarrow> page \<Rightarrow> view" where
  "AdminRoute s p =
     (if loading s then Loader
      else if \<not> is_authenticated s then Navigate ''/login''
      else if (case user s of None \<Rightarrow> False | Some u \<Rightarrow> oget u ''type'' = Str ''admin'') then Show p
      else Navigate ''/contests'')"

datatype route = Public page | Private page | Goto string

definition app_routes :: "(string \<times> route) list" where
  "app_routes =
    [(''/login'', Public Login),
     (''/register'', Public Register),
     (''/public/scoreboard'', Public PublicScoreboard),
     (''/contests'', Private ContestList),
     (''/contest/create'', Private CreateContest),
     (''/contest/:contestId/pull-challenges'', Private PullChallenges),
     (''/contest/:contestId/import-participants'', Private ImportParticipants),
     (''/contest/:contestId/challenges'', Private Challenges),
     (''/contest/:contestId/challenge/:id'', Private Challenges),
     (''/contest/:contestId/scoreboard'', Private Scoreboard),
     (''/contest/:contestId/tickets'', Private Tickets),
     (''/contest/:contestId/tickets/:id'', Private TicketDetail),
     (''/contest/:contestId/instances'', Private Instances),
     (''/contest/:contestId/action-logs'', Private ActionLogsPage),
     (''/profile'', Private Profile),
     (''/challenges'', Private Challenges),
     (''/challenge/:id'', Private Challenges),
     (''/scoreboard'', Private Scoreboard),
     (''/tickets'', Private Tickets),
     (''/tickets/:id'', Private TicketDetail),
     (''/instances'', Private Instances),
     (''/action-logs'', Private ActionLogsPage),
     (''/'', Goto ''/contests'')]"

definition render_route :: "auth_state \<Rightarrow> string \<Rightarrow> view option" where
  "render_route s pat =
     map_option (\<lambda>r. case r of Public p \<Rightarrow> Show p | Private p \<Rightarrow> PrivateRoute s p | Goto u \<Rightarrow> Navigate u)
       (map_of app_routes pat)"

subsection \<open>Properties\<close>

lemma login_Inl:
  assumes "login srv c w = (Inl e, w')"
  shows "store w' = store w"
  using assms
  by (cases rule: fetchWithTimeout_cases
        [of srv w "plain_post AUTH_LOGIN c w" AUTH_REQUEST_TIMEOUT_MS])
     (auto simp: login_def bindM_def get_def split: sum.splits if_splits)

lemma login_Inr:
  assumes "login srv c w = (Inr data, w')"
  shows "truthy (oget data ''user'') \<and> getUser w' = Inr (oget data ''user'') \<and> getToken w' \<noteq> None"
  using assms
  by (cases rule: fetchWithTimeout_cases
        [of srv w "plain_post AUTH_LOGIN c w" AUTH_REQUEST_TIMEOUT_MS])
     (auto simp: login_def bindM_def get_def split: sum.splits if_splits)

lemma selectContest_Inl:
  assumes "selectContest srv c w = (Inl e, w')" "getUser w = Inr u"
  shows "store w' = store w"
proof (rule fetchWithTimeout_cases [of srv w "select_request c w" AUTH_REQUEST_TIMEOUT_MS])
  fix d a
  let ?w = "(send (select_request c w) w)\<lparr>clock := clock w + int d\<rparr>"
  assume f: "fetchWithTimeout srv (select_request c w) AUTH_REQUEST_TIMEOUT_MS w = (Inr a, ?w)"
  have "getUser ?w = Inr u" using assms(2) by simp
  then show ?thesis
    using assms(1) by (auto simp: selectContest_def f bindM_def dest!: enter_contest_user
        split: sum.splits if_splits)
qed (use assms(1) in \<open>auto simp: selectContest_def\<close>)

lemma selectContest_Inr:
  assumes "selectContest srv c w = (Inr data, w')" "getUser w = Inr u"
  shows "getToken w' = Some (js_string (oget data ''token'')) \<and>
    getUser w' = Inr (if truthy u then set_field ''team'' (team_of_reply data) u else u)"
proof (rule fetchWithTimeout_cases [of srv w "select_request c w" AUTH_REQUEST_TIMEOUT_MS])
  fix d a
  let ?w = "(send (select_request c w) w)\<lparr>clock := clock w + int d\<rparr>"
  assume f: "fetchWithTimeout srv (select_request c w) AUTH_REQUEST_TIMEOUT_MS w = (Inr a, ?w)"
  have "getUser ?w = Inr u" using assms(2) by simp
  then show ?thesis
    using assms(1) by (auto simp: selectContest_def f bindM_def dest!: enter_contest_user
        split: sum.splits if_splits)
qed (use assms(1) in \<open>auto simp: selectContest_def\<close>)

lemma truthy_set_field [simp]: "truthy (set_field k x v)"
  by (simp add: set_field_def)

text \<open>
  The runs of the context: a fresh mount, then logins, logouts and choices of a contest, successful
  or not, interleaved with code that does not write the two session keys.
\<close>

inductive auth_reach :: "server \<Rightarrow> auth_state \<Rightarrow> 'z world_scheme \<Rightarrow> bool" for srv where
  mount: "auth_mount w auth_initial = Inr s \<Longrightarrow> auth_reach srv s w"
| log_in: "auth_reach srv s w \<Longrightarrow> ctx_login srv u p cap s w = (r, w') \<Longrightarrow> getToken w' \<noteq> Some [] \<Longrightarrow>
     s' = (case r of Inl _ \<Rightarrow> s | Inr x \<Rightarrow> x) \<Longrightarrow> auth_reach srv s' w'"
| log_out: "auth_reach srv s w \<Longrightarrow> ctx_logout srv s w = (Inr s', w') \<Longrightarrow> auth_reach srv s' w'"
| select: "auth_reach srv s w \<Longrightarrow> ctx_selectContest srv c s w = (r, w') \<Longrightarrow> getToken w' \<noteq> Some [] \<Longrightarrow>
     s' = (case r of Inl _ \<Rightarrow> s | Inr x \<Rightarrow> x) \<Longrightarrow> auth_reach srv s' w'"
| other: "auth_reach srv s w \<Longrightarrow> getToken w' = getToken w \<Longrightarrow> getUser w' = getUser w \<Longrightarrow>
     auth_reach srv s w'"

lemma in_sync_cong:
  "getToken w' = getToken w \<Longrightarrow> getUser w' = getUser w \<Longrightarrow> in_sync s w' = in_sync s w"
  by (simp add: in_sync_def isAuthenticated_def split: option.splits)

lemma in_sync_store: "store w' = store w \<Longrightarrow> in_sync s w \<Longrightarrow> in_sync s w'"
  using in_sync_cong session_eqI by metis

lemma in_sync_mount: "auth_mount w auth_initial = Inr s \<Longrightarrow> in_sync s w"
  by (auto simp: auth_mount_def auth_initial_def in_sync_def split: sum.splits if_splits)

lemma in_sync_login:
  assumes "in_sync s w" "ctx_login srv u p cap s w = (r, w')" "getToken w' \<noteq> Some []"
  shows "in_sync (case r of Inl _ \<Rightarrow> s | Inr x \<Rightarrow> x) w'"
proof (cases "login srv (credentials u p cap) w")
  case (Pair x v)
  show ?thesis
  proof (cases x)
    case (Inl e)
    with Pair assms(2) have "r = Inl e" "w' = v" by (auto simp: ctx_login_def)
    moreover have "store v = store w"
      using login_Inl [of srv "credentials u p cap" w e v] Pair Inl by simp
    ultimately show ?thesis using assms(1) in_sync_store by auto
  next
    case (Inr data)
    with login_Inr [of srv "credentials u p cap" w data v] Pair
    have t: "truthy (oget data ''user'')" "getUser v = Inr (oget data ''user'')" "getToken v \<noteq> None"
      by auto
    then show ?thesis
      using assms(2,3) Pair Inr
      by (auto simp: ctx_login_def bindM_def in_sync_def isAuthenticated_def token_truthy_def
          split: if_splits option.splits)
  qed
qed

lemma in_sync_logout: "ctx_logout srv s0 w = (Inr s, w') \<Longrightarrow> in_sync s w'"
  by (auto simp: ctx_logout_def bindM_def in_sync_def split: sum.splits prod.splits)

lemma in_sync_select:
  assumes "in_sync s w" "ctx_selectContest srv c s w = (r, w')" "getToken w' \<noteq> Some []"
  shows "in_sync (case r of Inl _ \<Rightarrow> s | Inr x \<Rightarrow> x) w'"
proof (cases "user s")
  case None
  with assms(1,2) show ?thesis
    by (auto simp: in_sync_def ctx_selectContest_def bindM_def split: sum.splits prod.splits)
next
  case (Some v)
  with assms(1) have v: "is_authenticated s" "truthy v" "getUser w = Inr v"
    by (auto simp: in_sync_def)
  show ?thesis
  proof (cases "selectContest srv c w")
    case (Pair x w2)
    show ?thesis
    proof (cases x)
      case (Inl e)
      with Pair assms(2) have "r = Inl e" "w' = w2" by (auto simp: ctx_selectContest_def)
      moreover have "store w2 = store w"
        using selectContest_Inl [of srv c w e w2 v] Pair Inl v(3) by simp
      ultimately show ?thesis using assms(1) in_sync_store by auto
    next
      case (Inr data)
      with selectContest_Inr [of srv c w data w2 v] Pair v(2,3) assms(2,3) Some v(1)
      show ?thesis
        by (auto simp: ctx_selectContest_def in_sync_def isAuthenticated_def token_truthy_def)
    qed
  qed
qed

text \<open>C8: the React state never shows a session that local storage does not hold: after any run of
  logins, logouts and choices of a contest, successful or failed, in which no empty token is
  received, a user is shown exactly as stored and only while a token is stored.\<close>
theorem auth_context_in_sync:
  assumes "auth_reach srv s w"
  shows "in_sync s w"
  using assms
proof (induction rule: auth_reach.induct)
  case (log_in s w u p cap r w' s')
  then show ?case using in_sync_login by blast
next
  case (select s w c r w' s')
  then show ?case using in_sync_select by blast
next
  case (mount w s)
  then show ?case by (rule in_sync_mount)
next
  case (log_out s w s' w')
  then show ?case using in_sync_logout by blast
next
  case (other s w w')
  then show ?case using in_sync_cong by blast
qed

theorem auth_context_in_sync_witness:
  "\<exists>s. auth_reach (\<lambda>_ _. (0, NetFail)) s \<lparr>store = [(USER_KEY, Json (Obj [(''id'', Num 4)])),
      (TOKEN_KEY, Raw ''t'')], clock = 0, sent = [], path = [], redirect = None, popups = [], fired = [],
      base_url = []\<rparr> \<and> is_authenticated s \<and> in_sync s \<lparr>store = [(USER_KEY, Json (Obj [(''id'', Num 4)])),
      (TOKEN_KEY, Raw ''t'')], clock = 0, sent = [], path = [], redirect = None, popups = [], fired = [],
      base_url = []\<rparr>"
proof -
  let ?w = "\<lparr>store = [(USER_KEY, Json (Obj [(''id'', Num 4)])), (TOKEN_KEY, Raw ''t'')], clock = 0,
      sent = [], path = [], redirect = None, popups = [], fired = [], base_url = []\<rparr>"
  let ?s = "\<lparr>is_authenticated = True, user = Some (Obj [(''id'', Num 4)]), loading = False\<rparr>"
  have "auth_mount ?w auth_initial = Inr ?s"
    by (simp add: auth_mount_def auth_initial_def getUser_def isAuthenticated_def getToken_def
        get_item_def token_truthy_def TOKEN_KEY_def USER_KEY_def)
  then have "auth_reach (\<lambda>_ _. (0, NetFail)) ?s ?w" by (rule auth_reach.mount)
  with auth_context_in_sync [OF this] show ?thesis
    by (intro exI [of _ ?s]) simp
qed

text \<open>C9: no page but login, register and the public scoreboard is shown without a session, on any route
  of the table and also while the session is still being loaded.\<close>
theorem routes_guarded:
  assumes "render_route s pat = Some (Show p)" "\<not> is_authenticated s"
  shows "p \<in> {Login, Register, PublicScoreboard}"
proof -
  have all: "\<forall>(q, r) \<in> set app_routes. \<forall>x. r = Public x \<longrightarrow> x \<in> {Login, Register, PublicScoreboard}"
    by (simp add: app_routes_def)
  obtain r where r: "map_of app_routes pat = Some r"
    using assms(1) by (auto simp: render_route_def)
  then have "r = Public p"
    using assms by (cases r) (auto simp: render_route_def PrivateRoute_def split: if_splits)
  with r all show ?thesis by (auto dest!: map_of_SomeD)
qed

theorem routes_guarded_witness:
  "render_route (auth_initial\<lparr>loading := False\<rparr>) ''/login'' = Some (Show Login) \<and>
   Login \<in> {Login, Register, PublicScoreboard}"
proof -
  have "render_route (auth_initial\<lparr>loading := False\<rparr>) ''/login'' = Some (Show Login)"
    by (simp add: render_route_def app_routes_def)
  with routes_guarded [OF this] show ?thesis by (simp add: auth_initial_def)
qed

text \<open>Applying a theme leaves exactly that theme's class on the page, and the theme chosen is the one
  the next visit starts with; toggling twice is the identity.\<close>
theorem theme_persists:
  "case apply_theme t (d, st) of (d', st') \<Rightarrow>
     theme_initial st' = t \<and> toggleTheme (toggleTheme t) = t \<and>
     (\<forall>u. (theme_name u \<in> set (root_classes d')) = (u = t) \<and>
          (theme_name u \<in> set (body_classes d')) = (u = t)) \<and>
     (\<forall>k. k \<noteq> ''theme'' \<longrightarrow> get_item st' k = get_item st k)"
proof -
  have "theme_name u = theme_name t \<longleftrightarrow> u = t" "theme_name u = ''light'' \<or> theme_name u = ''dark''" for u
    by (cases u; cases t; simp add: theme_name_def)+
  then show ?thesis
    by (cases t) (auto simp: apply_theme_def Let_def theme_initial_def add_class_def toggleTheme_def
        theme_name_def)
qed

theorem theme_persists_witness:
  "theme_initial (snd (apply_theme Dark (\<lparr>root_classes = [''light''], body_classes = []\<rparr>, []))) = Dark"
  using theme_persists [where t = Dark and d = "\<lparr>root_classes = [''light''], body_classes = []\<rparr>" and st = "[]"]
  by (simp add: split_beta)

end
