(* ===== verification/Accounts.thy ===== *)
theory Accounts
  imports Session Config
begin

section \<open>Signing in and registering\<close>

text \<open>
  The pages \<open>pages/Login.tsx\<close> and \<open>pages/Register.tsx\<close>: their captcha, their forms and what
  submitting does. A toast (\<open>hooks/useToast.ts\<close>) is a pop-up whose heading is its kind; moving to
  another page of the application sets the path. \<open>captcha_on\<close> says whether a site key is configured
  (\<open>getTurnstileSiteKey\<close> of theory \<open>Config\<close>), and the captcha itself is an outside component that
  calls the page back.
\<close>

subsection \<open>Toasts and errors\<close>

definition toast :: "string \<Rightarrow> string \<Rightarrow> 'z world_scheme \<Rightarrow> 'z world_scheme" where
  "toast kind msg w = show_popup kind [Str msg] w"

definition navigate :: "string \<Rightarrow> 'z world_scheme \<Rightarrow> 'z world_scheme" where
  "navigate p w = w\<lparr>path := p\<rparr>"

text \<open>\<open>err.message\<close>. The text of an error raised by the engine is represented by its kind.\<close>

fun error_message :: "exn \<Rightarrow> string" where
  "error_message (ErrMsg v) = (if v = Undef then [] else js_string v)"
| "error_message TypeError = ''TypeError''"
| "error_message SyntaxError = ''SyntaxError''"
| "error_message NetworkError = ''Failed to fetch''"
| "error_message AbortError = ''AbortError''"
| "error_message (VisibilityError s i) = s"

subsection \<open>The captcha\<close>

record kworld = world +
  k_token :: "string option"
  k_resets :: nat
  k_last_error :: int

definition captchaEnabled :: "env_sources \<Rightarrow> bool" where
  "captchaEnabled e = (getTurnstileSiteKey e \<noteq> [])"

definition resetCaptcha :: "'z kworld_scheme \<Rightarrow> 'z kworld_scheme" where
  "resetCaptcha w = w\<lparr>k_token := None, k_resets := Suc (k_resets w)\<rparr>"

definition handleCaptchaSuccess :: "string \<Rightarrow> 'z kworld_scheme \<Rightarrow> 'z kworld_scheme" where
  "handleCaptchaSuccess t w = w\<lparr>k_token := Some t\<rparr>"

definition handleCaptchaExpire :: "'z kworld_scheme \<Rightarrow> 'z kworld_scheme" where
  "handleCaptchaExpire w = w\<lparr>k_token := None\<rparr>"

definition handleCaptchaError :: "'z kworld_scheme \<Rightarrow> 'z kworld_scheme" where
  "handleCaptchaError w =
     (let w1 = w\<lparr>k_token := None\<rparr>
      in if clock w - k_last_error w > 3000
         then toast ''error'' ''Captcha verification failed. Please retry.'' (w1\<lparr>k_last_error := clock w\<rparr>)
         else w1)"

text \<open>\<open>!captchaTokenRef.current\<close>, and the token as it is sent.\<close>

definition no_token :: "'z kworld_scheme \<Rightarrow> bool" where
  "no_token w = (case k_token w of None \<Rightarrow> True | Some t \<Rightarrow> t = [])"

definition token_value :: "'z kworld_scheme \<Rightarrow> jsval" where
  "token_value w = (case k_token w of None \<Rightarrow> Undef | Some t \<Rightarrow> Str t)"

subsection \<open>Signing in\<close>

record sworld = kworld +
  s_username :: string
  s_password :: string
  s_registration :: bool
  s_loading :: bool
  s_auth :: auth_state

definition login_submit :: "server \<Rightarrow> bool \<Rightarrow> (unit, 'z sworld_scheme) action" where
  "login_submit srv captcha_on w =
     (if captcha_on \<and> no_token w
      then (Inr (), toast ''error'' ''Please complete captcha challenge'' w)
      else finallyM (catchM
             (bindM (ctx_login srv (s_username w) (s_password w) (token_value w) (s_auth w)) (\<lambda>a.
                upd (\<lambda>w. navigate ''/contests'' (toast ''success'' ''auth_success'' (w\<lparr>s_auth := a\<rparr>)))))
             (\<lambda>e. upd (\<lambda>w. toast ''error'' (error_message e) (resetCaptcha w))))
           (\<lambda>w. w\<lparr>s_loading := False\<rparr>) (w\<lparr>s_loading := True\<rparr>))"

definition handleClear :: "'z sworld_scheme \<Rightarrow> 'z sworld_scheme" where
  "handleClear w = toast ''info'' ''form_cleared'' ((resetCaptcha w)\<lparr>s_username := [], s_password := []\<rparr>)"

definition login_mount :: "server \<Rightarrow> (unit, 'z sworld_scheme) action" where
  "login_mount srv =
     catchM (bindM (getPublicConfig srv False) (\<lambda>cfg.
       upd (\<lambda>w. w\<lparr>s_registration := truthy (oget cfg ''contestant_registration_enabled'')\<rparr>)))
     (\<lambda>_. ret ())"

subsection \<open>Registering\<close>

record reg_form =
  f_username :: string
  f_email :: string
  f_password :: string
  f_confirm :: string
  f_values :: "(rat \<times> jsval) list"

definition buildFieldDefaults :: "reg_field list \<Rightarrow> (rat \<times> jsval) list" where
  "buildFieldDefaults fs =
     fold (\<lambda>f. AList.update (rf_id f) (if rf_boolean f then BoolV False else Str [])) fs []"

definition createInitialFormState :: "reg_field list \<Rightarrow> reg_form" where
  "createInitialFormState fs =
     \<lparr>f_username = [], f_email = [], f_password = [], f_confirm = [], f_values = buildFieldDefaults fs\<rparr>"

definition value_of :: "(rat \<times> jsval) list \<Rightarrow> reg_field \<Rightarrow> jsval" where
  "value_of vs f = (case map_of vs (rf_id f) of None \<Rightarrow> Undef | Some v \<Rightarrow> v)"

definition text_of :: "jsval \<Rightarrow> string" where
  "text_of v = (case v of Str s \<Rightarrow> trim s | _ \<Rightarrow> [])"

definition field_payload :: "(rat \<times> jsval) list \<Rightarrow> reg_field \<Rightarrow> jsval list" where
  "field_payload vs f =
     (if rf_boolean f
      then (let b = seq (value_of vs f) (BoolV True)
            in if \<not> b \<and> \<not> rf_required f then []
               else [Obj [(''fieldId'', Num (rf_id f)), (''value'', BoolV b)]])
      else (let t = text_of (value_of vs f)
            in if t = [] \<and> \<not> rf_required f then []
               else [Obj [(''fieldId'', Num (rf_id f)), (''value'', Str t)]]))"

definition buildFieldPayload :: "reg_field list \<Rightarrow> (rat \<times> jsval) list \<Rightarrow> jsval list" where
  "buildFieldPayload fs vs = concat (map (field_payload vs) fs)"

record rworld = kworld +
  g_form :: reg_form
  g_meta :: "(reg_field list \<times> jsval) option"
  g_loading :: bool
  g_submitting :: bool

definition updateForm :: "(reg_form \<Rightarrow> reg_form) \<Rightarrow> 'z rworld_scheme \<Rightarrow> 'z rworld_scheme" where
  "updateForm patch w = w\<lparr>g_form := patch (g_form w)\<rparr>"

definition updateUserField :: "rat \<Rightarrow> jsval \<Rightarrow> 'z rworld_scheme \<Rightarrow> 'z rworld_scheme" where
  "updateUserField i v w =
     updateForm (\<lambda>f. f\<lparr>f_values := AList.update i v (f_values f)\<rparr>) w"

text \<open>Loading the form. The metadata are those of \<open>authService\<close>, whose fields are objects already.\<close>

definition register_mount :: "server \<Rightarrow> (unit, 'z rworld_scheme) action" where
  "register_mount srv =
     finallyM (catchM
       (bindM (getPublicConfig srv True) (\<lambda>cfg.
          if \<not> truthy cfg
          then upd (\<lambda>w. navigate ''/login'' (toast ''error'' ''Unable to load registration configuration'' w))
          else if \<not> truthy (oget cfg ''contestant_registration_enabled'')
          then upd (\<lambda>w. navigate ''/login'' (toast ''error'' ''Registration is currently disabled'' w))
          else bindM (getRegistrationMetadata srv) (\<lambda>m.
            upd (\<lambda>w. w\<lparr>g_meta := Some m, g_form := createInitialFormState (fst m)\<rparr>))))
       (\<lambda>e. upd (toast ''error'' (error_message e))))
     (\<lambda>w. w\<lparr>g_loading := False\<rparr>)"

fun first_error :: "(rat \<times> jsval) list \<Rightarrow> reg_field list \<Rightarrow> string option" where
  "first_error vs [] = None"
| "first_error vs (f # fs) =
     (if \<not> rf_required f then first_error vs fs
      else if rf_boolean f \<and> \<not> seq (value_of vs f) (BoolV True)
      then Some (''User field '' @ [CHR 0x27] @ rf_name f @ [CHR 0x27] @ '' must be accepted'')
      else if \<not> rf_boolean f \<and> text_of (value_of vs f) = []
      then Some (''User field '' @ [CHR 0x27] @ rf_name f @ [CHR 0x27] @ '' is required'')
      else first_error vs fs)"

definition validateForm :: "reg_form \<Rightarrow> (reg_field list \<times> jsval) option \<Rightarrow> string option" where
  "validateForm f meta =
     (case meta of
        None \<Rightarrow> Some ''Registration metadata is not available''
      | Some (fs, _) \<Rightarrow>
          if trim (f_username f) = [] \<or> trim (f_email f) = [] \<or> f_password f = [] \<or> f_confirm f = []
          then Some ''Username, email, password, and confirm password are required''
          else if f_password f \<noteq> f_confirm f then Some ''Password confirmation does not match''
          else first_error (f_values f) fs)"

definition register_payload :: "reg_field list \<Rightarrow> 'z rworld_scheme \<Rightarrow> jsval" where
  "register_payload fs w =
     (let f = g_form w
      in json_clean (Obj [(''username'', Str (trim (f_username f))), (''email'', Str (trim (f_email f))),
           (''password'', Str (f_password f)), (''confirmPassword'', Str (f_confirm f)),
           (''captchaToken'', token_value w), (''userFields'', Arr (buildFieldPayload fs (f_values f)))]))"

definition register_submit :: "server \<Rightarrow> bool \<Rightarrow> (unit, 'z rworld_scheme) action" where
  "register_submit srv captcha_on w =
     (case (validateForm (g_form w) (g_meta w), g_meta w) of
        (Some m, _) \<Rightarrow> (Inr (), toast ''error'' m w)
      | (None, None) \<Rightarrow> (Inr (), toast ''error'' ''Registration metadata is not available'' w)
      | (None, Some (fs, _)) \<Rightarrow>
          if captcha_on \<and> no_token w
          then (Inr (), toast ''error'' ''Please complete captcha challenge'' w)
          else finallyM (catchM
                 (bindM (registerContestant srv (register_payload fs w)) (\<lambda>_.
                    upd (\<lambda>w. navigate ''/login''
                      (toast ''success'' ''Registration submitted. Please wait for admin verification.'' w))))
                 (\<lambda>e. upd (\<lambda>w. toast ''error'' (error_message e) (resetCaptcha w))))
               (\<lambda>w. w\<lparr>g_submitting := False\<rparr>) (w\<lparr>g_submitting := True\<rparr>))"

subsection \<open>Rules\<close>

lemma toast_simps [simp]:
  "sent (toast k m w) = sent w" "path (toast k m w) = path w" "store (toast k m w) = store w"
  "clock (toast k m w) = clock w" "base_url (toast k m w) = base_url w"
  "world.more (toast k m w) = world.more w" "popups (toast k m w) = popups w @ [Popup k [Str m]]"
  by (simp_all add: toast_def)

lemma navigate_simps [simp]:
  "sent (navigate p w) = sent w" "path (navigate p w) = p" "store (navigate p w) = store w"
  "clock (navigate p w) = clock w" "popups (navigate p w) = popups w" "world.more (navigate p w) = world.more w"
  by (simp_all add: navigate_def)

lemma resetCaptcha_simps [simp]:
  "sent (resetCaptcha w) = sent w" "path (resetCaptcha w) = path w" "store (resetCaptcha w) = store w"
  "k_token (resetCaptcha w) = None" "k_resets (resetCaptcha w) = Suc (k_resets w)"
  "popups (resetCaptcha w) = popups w" "kworld.more (resetCaptcha w) = kworld.more w"
  by (simp_all add: resetCaptcha_def)

text \<open>A state that extends the world is the same when the extension is.\<close>

lemma kworld_of_more:
  assumes "world.more w' = world.more w"
  shows "k_token w' = k_token w" "k_resets w' = k_resets w" "kworld.more w' = kworld.more w"
  using assms by (cases w; cases w'; simp)+

lemma toast_kworld [simp]:
  "k_token (toast k m w) = k_token w" "k_resets (toast k m w) = k_resets w"
  "kworld.more (toast k m w) = kworld.more w"
  by (rule kworld_of_more; simp)+

lemma navigate_kworld [simp]:
  "k_token (navigate p w) = k_token w" "k_resets (navigate p w) = k_resets w"
  "kworld.more (navigate p w) = kworld.more w"
  by (rule kworld_of_more; simp)+

lemma rworld_of_more:
  assumes "kworld.more w' = kworld.more w"
  shows "g_form w' = g_form w" "g_meta w' = g_meta w" "g_submitting w' = g_submitting w"
  using assms by (cases w; cases w'; simp)+

lemma toast_rworld [simp]:
  "g_form (toast k m w) = g_form w" "g_meta (toast k m w) = g_meta w" "g_submitting (toast k m w) = g_submitting w"
  "g_form (navigate p w) = g_form w" "g_meta (navigate p w) = g_meta w" "g_submitting (navigate p w) = g_submitting w"
  "g_form (resetCaptcha w) = g_form w" "g_meta (resetCaptcha w) = g_meta w"
  "g_submitting (resetCaptcha w) = g_submitting w"
  by (rule rworld_of_more; simp)+

lemma send_rworld [simp]:
  "g_form (send q w) = g_form w" "g_meta (send q w) = g_meta w" "g_submitting (send q w) = g_submitting w"
  "k_token (send q w) = k_token w" "k_resets (send q w) = k_resets w"
  by (simp_all add: send_def)

text \<open>What the server says in time to a request: yes, or anything else.\<close>

definition accepted :: "server \<Rightarrow> request list \<Rightarrow> request \<Rightarrow> bool" where
  "accepted srv qs q =
     (case srv qs q of (d, NetFail) \<Rightarrow> False | (d, Reply a) \<Rightarrow> d < AUTH_REQUEST_TIMEOUT_MS \<and> resp_ok a)"

lemma registerContestant_cases:
  fixes b srv and w :: "'z world_scheme"
  defines "q \<equiv> plain_post AUTH_REGISTER b w"
  obtains e t where "\<not> accepted srv (sent w) q" "registerContestant srv b w = (Inl e, (send q w)\<lparr>clock := t\<rparr>)"
  | t where "accepted srv (sent w) q" "registerContestant srv b w = (Inr (), (send q w)\<lparr>clock := t\<rparr>)"
proof (rule fetchWithTimeout_cases [of srv w q AUTH_REQUEST_TIMEOUT_MS])
  fix d a
  assume "srv (sent w) q = (d, Reply a)" "d < AUTH_REQUEST_TIMEOUT_MS"
    "fetchWithTimeout srv q AUTH_REQUEST_TIMEOUT_MS w = (Inr a, (send q w)\<lparr>clock := clock w + int d\<rparr>)"
  then show thesis
    using that by (cases "resp_ok a") (auto simp: registerContestant_def q_def [symmetric] accepted_def)
next
  fix d out
  assume "srv (sent w) q = (d, out)" "AUTH_REQUEST_TIMEOUT_MS \<le> d"
    "fetchWithTimeout srv q AUTH_REQUEST_TIMEOUT_MS w =
       (Inl (ErrMsg (Str ''Request timed out. Please try again.'')),
        (send q w)\<lparr>clock := clock w + int AUTH_REQUEST_TIMEOUT_MS\<rparr>)"
  then show thesis
    using that(1) by (auto simp: registerContestant_def q_def [symmetric] accepted_def split: outcome.split)
next
  fix d
  assume "srv (sent w) q = (d, NetFail)"
    "fetchWithTimeout srv q AUTH_REQUEST_TIMEOUT_MS w = (Inl NetworkError, (send q w)\<lparr>clock := clock w + int d\<rparr>)"
  then show thesis
    using that(1) by (auto simp: registerContestant_def q_def [symmetric] accepted_def)
qed

subsection \<open>Properties\<close>

text \<open>What it is to have filled a field in.\<close>

definition filled :: "(rat \<times> jsval) list \<Rightarrow> reg_field \<Rightarrow> bool" where
  "filled vs f = (if rf_boolean f then value_of vs f = BoolV True else text_of (value_of vs f) \<noteq> [])"

definition field_entry :: "(rat \<times> jsval) list \<Rightarrow> reg_field \<Rightarrow> jsval" where
  "field_entry vs f =
     Obj [(''fieldId'', Num (rf_id f)),
          (''value'', if rf_boolean f then BoolV True else Str (text_of (value_of vs f)))]"

lemma first_error_None: "first_error vs fs = None \<longleftrightarrow> (\<forall>f \<in> set fs. rf_required f \<longrightarrow> filled vs f)"
  by (induction fs) (auto simp: filled_def)

lemma field_payload_filled:
  "rf_required f \<longrightarrow> filled vs f \<Longrightarrow> field_payload vs f = (if filled vs f then [field_entry vs f] else [])"
  by (auto simp: field_payload_def filled_def field_entry_def Let_def)

lemma field_payloads:
  "(\<And>x. x \<in> set fs \<Longrightarrow> rf_required x \<longrightarrow> filled vs x) \<Longrightarrow>
   concat (map (field_payload vs) fs) = map (field_entry vs) (filter (filled vs) fs)"
  by (induction fs) (simp_all add: field_payload_filled)

text \<open>A form that passes the checks sends exactly the fields that are filled in, in the order of the
  form, each with its trimmed text or \<open>true\<close>; every required field is among them.\<close>
theorem registration_fields:
  assumes "validateForm f (Some (fs, c)) = None"
  shows "buildFieldPayload fs (f_values f) = map (field_entry (f_values f)) (filter (filled (f_values f)) fs) \<and>
    (\<forall>x \<in> set fs. rf_required x \<longrightarrow> filled (f_values f) x)"
proof -
  have req: "rf_required x \<longrightarrow> filled (f_values f) x" if "x \<in> set fs" for x
    using assms that by (auto simp: validateForm_def first_error_None split: if_splits)
  then show ?thesis
    unfolding buildFieldPayload_def using field_payloads by blast
qed

theorem registration_fields_witness:
  "buildFieldPayload
     [\<lparr>rf_id = 1, rf_name = ''school'', rf_boolean = False, rf_description = None, rf_required = True\<rparr>,
      \<lparr>rf_id = 2, rf_name = ''news'', rf_boolean = True, rf_description = None, rf_required = False\<rparr>]
     [(1, Str '' FPT''), (2, BoolV False)] =
   [Obj [(''fieldId'', Num 1), (''value'', Str ''FPT'')]]"
proof -
  let ?f = "\<lparr>f_username = ''a'', f_email = ''b'', f_password = ''c'', f_confirm = ''c'',
     f_values = [(1, Str '' FPT''), (2, BoolV False)]\<rparr>"
  show ?thesis
    using registration_fields [where f = ?f and c = Null and
      fs = "[\<lparr>rf_id = 1, rf_name = ''school'', rf_boolean = False, rf_description = None, rf_required = True\<rparr>,
      \<lparr>rf_id = 2, rf_name = ''news'', rf_boolean = True, rf_description = None, rf_required = False\<rparr>]"]
    by (simp add: validateForm_def filled_def field_entry_def value_of_def text_of_def trim_def is_ws_def)
qed

text \<open>What can be wrong with a form, in the order in which it is reported, and the message for it.\<close>

definition form_problems :: "bool \<Rightarrow> string option \<Rightarrow> reg_form \<Rightarrow> reg_field list \<Rightarrow> (bool \<times> string) list" where
  "form_problems captcha_on token f fs =
     [([] \<in> {trim (f_username f), trim (f_email f), f_password f, f_confirm f},
       ''Username, email, password, and confirm password are required''),
      (f_password f \<noteq> f_confirm f, ''Password confirmation does not match'')] @
     map (\<lambda>x. (rf_required x \<and> \<not> filled (f_values f) x,
       ''User field '' @ [CHR 0x27] @ rf_name x @ [CHR 0x27] @
       (if rf_boolean x then '' must be accepted'' else '' is required''))) fs @
     [(captcha_on \<and> token \<in> {None, Some []}, ''Please complete captcha challenge'')]"

lemma find_append: "find P (xs @ ys) = (case find P xs of None \<Rightarrow> find P ys | Some x \<Rightarrow> Some x)"
  by (induction xs) auto

lemma first_error_find:
  "first_error vs fs = map_option snd (find fst (map (\<lambda>x. (rf_required x \<and> \<not> filled vs x,
       ''User field '' @ [CHR 0x27] @ rf_name x @ [CHR 0x27] @
       (if rf_boolean x then '' must be accepted'' else '' is required''))) fs))"
  by (induction fs) (auto simp: filled_def)

lemma submit_checks:
  "map_option snd (find fst (form_problems captcha_on (k_token w) f fs)) =
     (case validateForm f (Some (fs, c)) of
        Some m \<Rightarrow> Some m
      | None \<Rightarrow> if captcha_on \<and> no_token w then Some ''Please complete captcha challenge'' else None)"
  by (auto simp: form_problems_def validateForm_def first_error_find find_append no_token_def
      split: option.splits)

lemma field_entry_clean: "json_clean (field_entry vs f) = field_entry vs f"
  by (simp add: field_entry_def)

lemma register_body:
  assumes "validateForm (g_form w) (Some (fs, c)) = None"
  shows "register_payload fs w = Obj ([(''username'', Str (trim (f_username (g_form w)))),
       (''email'', Str (trim (f_email (g_form w)))), (''password'', Str (f_password (g_form w))),
       (''confirmPassword'', Str (f_password (g_form w)))] @
     (case k_token w of None \<Rightarrow> [] | Some t \<Rightarrow> [(''captchaToken'', Str t)]) @
     [(''userFields'', Arr (map (field_entry (f_values (g_form w))) (filter (filled (f_values (g_form w))) fs)))])"
proof -
  have req: "rf_required x \<longrightarrow> filled (f_values (g_form w)) x" if "x \<in> set fs" for x
    using assms that by (auto simp: validateForm_def first_error_None split: if_splits)
  have "buildFieldPayload fs vs = map (field_entry vs) (filter (filled vs) fs)"
    if "vs = f_values (g_form w)" for vs
    using field_payloads [of fs vs] req that by (simp add: buildFieldPayload_def)
  moreover have "f_confirm (g_form w) = f_password (g_form w)"
    using assms by (auto simp: validateForm_def split: if_splits)
  ultimately show ?thesis
    by (simp add: register_payload_def Let_def token_value_def field_entry_clean comp_def split: option.split)
qed

text \<open>C21: submitting the registration form never throws and keeps the form. Without metadata, or with a
  problem of the form (a name, address or password that is blank, a confirmation that differs from the
  password, a required field not filled in, no token of a captcha that is on), it sends nothing and
  shows the first problem. Otherwise it sends exactly one request, with the trimmed name and address,
  the password twice, the token there is, and the fields that are filled in; the button is enabled
  again afterwards. When the server accepts it in time the page is the login page, and otherwise an
  error is shown and the captcha has been reset.\<close>
theorem registration_submit:
  "case register_submit srv captcha_on w of (r, w') \<Rightarrow>
     r = Inr () \<and> store w' = store w \<and> g_form w' = g_form w \<and>
     (case map_option snd (case g_meta w of
          None \<Rightarrow> Some (True, ''Registration metadata is not available'')
        | Some (fs, c) \<Rightarrow> find fst (form_problems captcha_on (k_token w) (g_form w) fs)) of
        Some m \<Rightarrow> sent w' = sent w \<and> path w' = path w \<and> k_token w' = k_token w \<and>
          g_submitting w' = g_submitting w \<and> popups w' = popups w @ [Popup ''error'' [Str m]]
      | None \<Rightarrow> (\<exists>fs c b q. g_meta w = Some (fs, c) \<and>
          b = Obj ([(''username'', Str (trim (f_username (g_form w)))),
              (''email'', Str (trim (f_email (g_form w)))), (''password'', Str (f_password (g_form w))),
              (''confirmPassword'', Str (f_password (g_form w)))] @
            (case k_token w of None \<Rightarrow> [] | Some t \<Rightarrow> [(''captchaToken'', Str t)]) @
            [(''userFields'', Arr (map (field_entry (f_values (g_form w)))
               (filter (filled (f_values (g_form w))) fs)))]) \<and>
          q = plain_post AUTH_REGISTER b w \<and> sent w' = sent w @ [q] \<and> \<not> g_submitting w' \<and>
          (if accepted srv (sent w) q then path w' = ''/login'' \<and> k_token w' = k_token w
           else path w' = path w \<and> k_token w' = None \<and> k_resets w' = Suc (k_resets w) \<and>
             (\<exists>m. popups w' = popups w @ [Popup ''error'' [Str m]]))))"
proof (cases "g_meta w")
  case None
  then show ?thesis by (simp add: register_submit_def validateForm_def)
next
  case (Some p)
  then obtain fs c where m: "g_meta w = Some (fs, c)" by (cases p) auto
  note checks = submit_checks [of captcha_on w "g_form w" fs c]
  show ?thesis
  proof (cases "validateForm (g_form w) (Some (fs, c)) = None \<and> \<not> (captcha_on \<and> no_token w)")
    case False
    then show ?thesis
      using checks m by (cases "validateForm (g_form w) (Some (fs, c))") (auto simp: register_submit_def)
  next
    case True
    then have "validateForm (g_form w) (Some (fs, c)) = None" ..
    note body = register_body [OF this]
    have p: "plain_post AUTH_REGISTER b (w\<lparr>g_submitting := True\<rparr>) = plain_post AUTH_REGISTER b w" for b
      by (simp add: plain_post_def)
    have run: "register_submit srv captcha_on w = finallyM (catchM
         (bindM (registerContestant srv (register_payload fs w)) (\<lambda>_.
            upd (\<lambda>w. navigate ''/login''
              (toast ''success'' ''Registration submitted. Please wait for admin verification.'' w))))
         (\<lambda>e. upd (\<lambda>w. toast ''error'' (error_message e) (resetCaptcha w))))
       (\<lambda>w. w\<lparr>g_submitting := False\<rparr>) (w\<lparr>g_submitting := True\<rparr>)"
      using True m by (auto simp: register_submit_def)
    have none: "map_option snd (find fst (form_problems captcha_on (k_token w) (g_form w) fs)) = None"
      using checks True by auto
    show ?thesis
      by (rule registerContestant_cases [of srv "w\<lparr>g_submitting := True\<rparr>" "register_payload fs w"])
         (use m none body in \<open>simp_all add: run p finallyM_def catchM_def bindM_def\<close>)
  qed
qed

end
