(* ===== verification/Regex.thy ===== *)
theory Regex
  imports Prelude
begin

section \<open>Regular expressions of the forms\<close>

text \<open>
  The forms check texts with anchored regular expressions (\<open>/^...$/.test(s)\<close>). Such an expression
  is a value of \<open>rx\<close>, a class of characters being its membership test; \<open>rx_test\<close> decides a match by
  derivatives and \<open>rx_lang\<close> is its language. \<open>rx_test_lang\<close> says they agree, so a proof may use either.
  \<open>squeeze\<close> is \<open>s.replace(/c+/g, r)\<close> for a class \<open>c\<close> and a character \<open>r\<close>.
\<close>

datatype rx = Rnone | Rempty | Rclass "char \<Rightarrow> bool" | Rseq rx rx | Ralt rx rx | Rstar rx

definition Rplus :: "rx \<Rightarrow> rx" where
  "Rplus r = Rseq r (Rstar r)"

definition Rchar :: "char \<Rightarrow> rx" where
  "Rchar c = Rclass (\<lambda>d. d = c)"

fun rx_nullable :: "rx \<Rightarrow> bool" where
  "rx_nullable Rnone = False"
| "rx_nullable Rempty = True"
| "rx_nullable (Rclass P) = False"
| "rx_nullable (Rseq r s) = (rx_nullable r \<and> rx_nullable s)"
| "rx_nullable (Ralt r s) = (rx_nullable r \<or> rx_nullable s)"
| "rx_nullable (Rstar r) = True"

fun rx_deriv :: "char \<Rightarrow> rx \<Rightarrow> rx" where
  "rx_deriv c Rnone = Rnone"
| "rx_deriv c Rempty = Rnone"
| "rx_deriv c (Rclass P) = (if P c then Rempty else Rnone)"
| "rx_deriv c (Rseq r s) =
     (if rx_nullable r then Ralt (Rseq (rx_deriv c r) s) (rx_deriv c s) else Rseq (rx_deriv c r) s)"
| "rx_deriv c (Ralt r s) = Ralt (rx_deriv c r) (rx_deriv c s)"
| "rx_deriv c (Rstar r) = Rseq (rx_deriv c r) (Rstar r)"

fun rx_test :: "rx \<Rightarrow> string \<Rightarrow> bool" where
  "rx_test r [] = rx_nullable r"
| "rx_test r (c # s) = rx_test (rx_deriv c r) s"

fun rx_lang :: "rx \<Rightarrow> string set" where
  "rx_lang Rnone = {}"
| "rx_lang Rempty = {[]}"
| "rx_lang (Rclass P) = {[c] | c. P c}"
| "rx_lang (Rseq r s) = {u @ v | u v. u \<in> rx_lang r \<and> v \<in> rx_lang s}"
| "rx_lang (Ralt r s) = rx_lang r \<union> rx_lang s"
| "rx_lang (Rstar r) = {concat ws | ws. set ws \<subseteq> rx_lang r}"

lemma rx_nullable_lang: "rx_nullable r \<longleftrightarrow> [] \<in> rx_lang r"
  by (induction r) (auto intro: exI [where x = "[]"])

lemma rx_star_Cons:
  "c # s \<in> rx_lang (Rstar r) \<longleftrightarrow> (\<exists>u v. s = u @ v \<and> c # u \<in> rx_lang r \<and> v \<in> rx_lang (Rstar r))"
proof
  assume "c # s \<in> rx_lang (Rstar r)"
  then obtain ws where "c # s = concat ws" "set ws \<subseteq> rx_lang r" by auto
  then show "\<exists>u v. s = u @ v \<and> c # u \<in> rx_lang r \<and> v \<in> rx_lang (Rstar r)"
  proof (induction ws)
    case (Cons w ws)
    then show ?case by (cases w) auto
  qed simp
next
  assume "\<exists>u v. s = u @ v \<and> c # u \<in> rx_lang r \<and> v \<in> rx_lang (Rstar r)"
  then obtain u ws where "c # s = concat ((c # u) # ws)" "set ((c # u) # ws) \<subseteq> rx_lang r" by auto
  then show "c # s \<in> rx_lang (Rstar r)" unfolding rx_lang.simps by blast
qed

lemma rx_deriv_lang: "s \<in> rx_lang (rx_deriv c r) \<longleftrightarrow> c # s \<in> rx_lang r"
proof (induction r arbitrary: s)
  case (Rseq r1 r2)
  have "c # s \<in> rx_lang (Rseq r1 r2) \<longleftrightarrow>
    ([] \<in> rx_lang r1 \<and> c # s \<in> rx_lang r2) \<or> (\<exists>u v. s = u @ v \<and> c # u \<in> rx_lang r1 \<and> v \<in> rx_lang r2)"
    by (auto simp: Cons_eq_append_conv)
  then show ?case by (auto simp: rx_nullable_lang Rseq.IH)
next
  case (Rstar r)
  show ?case by (simp only: rx_deriv.simps rx_star_Cons) (auto simp: Rstar.IH)
qed simp_all

lemma rx_test_lang: "rx_test r s \<longleftrightarrow> s \<in> rx_lang r"
  by (induction s arbitrary: r) (simp_all add: rx_nullable_lang rx_deriv_lang)

lemma rx_star_Nil: "[] \<in> rx_lang (Rstar r)"
  by (auto intro: exI [where x = "[]"])

lemma rx_star_class: "s \<in> rx_lang (Rstar (Rclass P)) \<longleftrightarrow> list_all P s"
  by (induction s) (auto simp: rx_star_Cons rx_star_Nil simp del: rx_lang.simps(6))

lemma rx_plus_class: "s \<in> rx_lang (Rplus (Rclass P)) \<longleftrightarrow> s \<noteq> [] \<and> list_all P s"
proof -
  have "s \<in> rx_lang (Rplus (Rclass P)) \<longleftrightarrow> (\<exists>c v. s = c # v \<and> P c \<and> v \<in> rx_lang (Rstar (Rclass P)))"
    unfolding Rplus_def by (subst rx_lang.simps(4)) (auto simp del: rx_lang.simps(6), metis append_Cons append_Nil)
  then show ?thesis
    by (cases s) (simp_all add: rx_star_class del: rx_lang.simps)
qed

lemma rx_char: "s \<in> rx_lang (Rchar c) \<longleftrightarrow> s = [c]"
  by (auto simp: Rchar_def)

lemma rx_seqI: "u \<in> rx_lang r \<Longrightarrow> v \<in> rx_lang q \<Longrightarrow> u @ v \<in> rx_lang (Rseq r q)"
  by auto

subsection \<open>Replacing runs\<close>

fun squeeze :: "(char \<Rightarrow> bool) \<Rightarrow> char \<Rightarrow> string \<Rightarrow> string" where
  "squeeze P r [] = []"
| "squeeze P r [c] = [if P c then r else c]"
| "squeeze P r (c # d # s) =
     (if P c then (if P d then squeeze P r (d # s) else r # squeeze P r (d # s))
      else c # squeeze P r (d # s))"

lemma squeeze_chars: "c \<in> set (squeeze P r s) \<Longrightarrow> (c \<in> set s \<and> \<not> P c) \<or> c = r"
  by (induction P r s rule: squeeze.induct) (auto split: if_splits)

lemma squeeze_empty [simp]: "squeeze P r s = [] \<longleftrightarrow> s = []"
  by (induction P r s rule: squeeze.induct) auto

lemma squeeze_hd: "s \<noteq> [] \<Longrightarrow> hd (squeeze P r s) = (if P (hd s) then r else hd s)"
  by (induction P r s rule: squeeze.induct) auto

lemma squeeze_id: "list_all (\<lambda>c. \<not> P c) s \<Longrightarrow> squeeze P r s = s"
  by (induction P r s rule: squeeze.induct) auto

text \<open>No two neighbours in the class: the text is left alone by squeezing the class to its only character.\<close>

fun no_run :: "(char \<Rightarrow> bool) \<Rightarrow> string \<Rightarrow> bool" where
  "no_run P (c # d # s) = (\<not> (P c \<and> P d) \<and> no_run P (d # s))"
| "no_run P s = True"

lemma no_run_Cons: "no_run P (c # s) \<longleftrightarrow> no_run P s \<and> (s \<noteq> [] \<and> P c \<longrightarrow> \<not> P (hd s))"
  by (cases s) auto

lemma squeeze_no_run: "no_run P (squeeze P r s)"
proof (induction P r s rule: squeeze.induct)
  case (3 P r c d s)
  then show ?case by (cases "P c"; cases "P d") (simp_all add: no_run_Cons squeeze_hd)
qed simp_all

lemma squeeze_no_run_id: "no_run (\<lambda>c. c = r) s \<Longrightarrow> squeeze (\<lambda>c. c = r) r s = s"
  by (induction s rule: induct_list012) auto

end
