(* ===== verification/NewContest.thy ===== *)
theory NewContest
  imports Accounts Services Regex
begin

section \<open>Creating a contest and importing its participants\<close>

text \<open>
  The pages \<open>pages/CreateContest.tsx\<close> and \<open>pages/ImportParticipants.tsx\<close>: the form of a new contest
  with its generated slug, the list of addresses to import, their checks and what submitting does.
  The time a date text stands for (\<open>new Date(text)\<close>) is the parameter \<open>date\<close>, None when it is
  invalid. The contest of a page is the number in its path.
\<close>

text \<open>\<open>error.message || dflt\<close>.\<close>

definition error_text :: "string \<Rightarrow> exn \<Rightarrow> string" where
  "error_text dflt e = (if error_message e = [] then dflt else error_message e)"

definition contest_path :: "string \<Rightarrow> string" where
  "contest_path i = ''/contest/'' @ i @ ''/challenges''"

subsection \<open>The form of a contest\<close>

record contest_form =
  c_name :: string
  c_description :: string
  c_slug :: string
  c_semester :: string
  c_start :: string
  c_end :: string
  c_mode :: string

datatype cfield = F_name | F_description | F_slug | F_semester | F_start | F_end | F_mode

definition empty_form :: contest_form where
  "empty_form = \<lparr>c_name = [], c_description = [], c_slug = [], c_semester = [], c_start = [], c_end = [],
     c_mode = ''users''\<rparr>"

fun set_cfield :: "cfield \<Rightarrow> string \<Rightarrow> contest_form \<Rightarrow> contest_form" where
  "set_cfield F_name v f = f\<lparr>c_name := v\<rparr>"
| "set_cfield F_description v f = f\<lparr>c_description := v\<rparr>"
| "set_cfield F_slug v f = f\<lparr>c_slug := v\<rparr>"
| "set_cfield F_semester v f = f\<lparr>c_semester := v\<rparr>"
| "set_cfield F_start v f = f\<lparr>c_start := v\<rparr>"
| "set_cfield F_end v f = f\<lparr>c_end := v\<rparr>"
| "set_cfield F_mode v f = f\<lparr>c_mode := v\<rparr>"

definition slug_char :: "char \<Rightarrow> bool" where
  "slug_char c = (let n = (of_char c :: nat) in (97 \<le> n \<and> n \<le> 122) \<or> is_digit c \<or> c = CHR ''-'')"

definition slugify :: "string \<Rightarrow> string" where
  "slugify v =
     trim (squeeze (\<lambda>c. c = CHR ''-'') (CHR ''-'')
       (squeeze is_ws (CHR ''-'') (filter (\<lambda>c. slug_char c \<or> is_ws c) (lower v))))"

definition handleChange :: "cfield \<Rightarrow> string \<Rightarrow> contest_form \<Rightarrow> contest_form" where
  "handleChange fl v f =
     (if fl = F_name \<and> c_slug f = [] then (set_cfield fl v f)\<lparr>c_slug := slugify v\<rparr> else set_cfield fl v f)"

definition slugRegex :: rx where
  "slugRegex = Rplus (Rclass slug_char)"

definition create_error :: "(string \<Rightarrow> rat option) \<Rightarrow> contest_form \<Rightarrow> string option" where
  "create_error date f =
     (if c_name f = [] \<or> c_slug f = [] then Some ''Name and slug are required''
      else if \<not> rx_test slugRegex (c_slug f)
      then Some ''Slug must contain only lowercase letters, numbers, and hyphens''
      else if c_start f \<noteq> [] \<and> c_end f \<noteq> [] \<and> num_ge (date (c_start f)) (date (c_end f))
      then Some ''End time must be after start time''
      else None)"

definition contest_payload :: "contest_form \<Rightarrow> jsval" where
  "contest_payload f =
     Obj [(''name'', Str (c_name f)), (''description'', Str (c_description f)), (''slug'', Str (c_slug f)),
          (''semesterName'', Str (c_semester f)), (''startTime'', Str (c_start f)),
          (''endTime'', Str (c_end f)), (''userMode'', Str (c_mode f))]"

record nworld = world +
  n_form :: contest_form
  n_loading :: bool

definition create_submit :: "server \<Rightarrow> (string \<Rightarrow> rat option) \<Rightarrow> (unit, 'z nworld_scheme) action" where
  "create_submit srv date w =
     (case create_error date (n_form w) of
        Some m \<Rightarrow> (Inr (), toast ''error'' m w)
      | None \<Rightarrow>
          finallyM (catchM
            (bindM (createContest srv (contest_payload (n_form w))) (\<lambda>contest.
             bindM (upd (toast ''success'' ''Contest created successfully'')) (\<lambda>_.
             bindM (lift (get contest ''id'')) (\<lambda>i. upd (navigate (contest_path (js_string i)))))))
            (\<lambda>e. upd (toast ''error'' (error_text ''Failed to create contest'' e))))
          (\<lambda>w. w\<lparr>n_loading := False\<rparr>) (w\<lparr>n_loading := True\<rparr>))"

subsection \<open>Importing participants\<close>

definition emails_of :: "string \<Rightarrow> string list" where
  "emails_of s = filter (\<lambda>l. l \<noteq> []) (map trim (split_on (char_of (10 :: nat)) s))"

definition email_char :: "char \<Rightarrow> bool" where
  "email_char c = (\<not> is_ws c \<and> c \<noteq> CHR ''@'')"

definition emailRegex :: rx where
  "emailRegex = Rseq (Rplus (Rclass email_char)) (Rseq (Rchar (CHR ''@''))
     (Rseq (Rplus (Rclass email_char)) (Rseq (Rchar (CHR ''.'')) (Rplus (Rclass email_char)))))"

record iworld = world +
  i_text :: string
  i_role :: string
  i_loading :: bool
  i_result :: jsval

definition import_error :: "string list \<Rightarrow> string option" where
  "import_error es =
     (if es = [] then Some ''Please enter at least one email address''
      else let bad = filter (\<lambda>e. \<not> rx_test emailRegex e) es
        in if bad \<noteq> [] then Some (''Invalid email format: '' @ join '', '' bad) else None)"

definition handleImport :: "server \<Rightarrow> int \<Rightarrow> (unit, 'z iworld_scheme) action" where
  "handleImport srv contest w =
     (let es = emails_of (i_text w)
      in case import_error es of
          Some m \<Rightarrow> (Inr (), toast ''error'' m w)
        | None \<Rightarrow>
            finallyM (catchM
              (bindM (importParticipants srv contest
                  (Obj [(''emails'', Arr (map Str es)), (''role'', Str (i_role w))])) (\<lambda>r.
               bindM (upd (\<lambda>w. w\<lparr>i_result := r\<rparr>)) (\<lambda>_.
               upd (toast ''success'' ''Participants imported successfully''))))
              (\<lambda>e. upd (toast ''error'' (error_text ''Failed to import participants'' e))))
            (\<lambda>w. w\<lparr>i_loading := False\<rparr>) (w\<lparr>i_loading := True\<rparr>))"

definition handleReset :: "'z iworld_scheme \<Rightarrow> 'z iworld_scheme" where
  "handleReset w = w\<lparr>i_text := [], i_result := Null\<rparr>"

text \<open>What the page shows: the form, with its button usable or not, or the summary of an import.\<close>

datatype import_view = Import_form bool | Import_summary "(string \<times> jsval) list"

definition import_page :: "'z iworld_scheme \<Rightarrow> import_view" where
  "import_page w =
     (let r = i_result w; bad = oget r ''failedEmails''
      in if \<not> truthy r then Import_form (\<not> i_loading w \<and> trim (i_text w) \<noteq> [])
         else Import_summary
           ([(''Total Emails'', oget r ''totalEmails''), (''New Users Created'', oget r ''newUsersCreated''),
             (''Existing Users Added'', oget r ''existingUsersAdded''),
             (''Already Participants'', oget r ''alreadyParticipants'')] @
            (if truthy bad \<and> num_gt (as_num (oget bad ''length'')) (Some 0)
             then [(''Failed'', oget bad ''length'')] else [])))"

subsection \<open>Rules\<close>

lemma slug_char_plain: "slug_char c \<Longrightarrow> \<not> is_ws c" "slug_char c \<Longrightarrow> lower_char c = c"
  by (auto simp: slug_char_def is_ws_def is_digit_def lower_char_def Let_def)

lemma hyphen_slug [simp]: "slug_char (CHR ''-'')"
  by (simp add: slug_char_def)

lemma trim_no_ws:
  assumes "list_all (\<lambda>c. \<not> is_ws c) s"
  shows "trim s = s"
proof -
  have d: "dropWhile is_ws t = t" if "\<And>c. c \<in> set t \<Longrightarrow> \<not> is_ws c" for t
    using that by (cases t) auto
  have "dropWhile is_ws s = s" "dropWhile is_ws (rev s) = rev s"
    using assms by (auto intro!: d simp: list_all_iff)
  then show ?thesis by (simp add: trim_def)
qed

lemma slugify_trimmed:
  "slugify v = squeeze (\<lambda>c. c = CHR ''-'') (CHR ''-'')
       (squeeze is_ws (CHR ''-'') (filter (\<lambda>c. slug_char c \<or> is_ws c) (lower v)))"
  and slugify_chars: "list_all slug_char (slugify v)"
proof -
  let ?u = "squeeze is_ws (CHR ''-'') (filter (\<lambda>c. slug_char c \<or> is_ws c) (lower v))"
  have "slug_char c" if "c \<in> set ?u" for c
  proof -
    from squeeze_chars [OF that] consider "c \<in> set (filter (\<lambda>c. slug_char c \<or> is_ws c) (lower v))" "\<not> is_ws c"
      | "c = CHR ''-''" by blast
    then show ?thesis by cases (use hyphen_slug in simp_all)
  qed
  note u = this
  have "slug_char c" if "c \<in> set (squeeze (\<lambda>c. c = CHR ''-'') (CHR ''-'') ?u)" for c
    using squeeze_chars [OF that] u hyphen_slug by metis
  then have c: "list_all slug_char (squeeze (\<lambda>c. c = CHR ''-'') (CHR ''-'') ?u)"
    unfolding list_all_iff by blast
  then have "list_all (\<lambda>c. \<not> is_ws c) (squeeze (\<lambda>c. c = CHR ''-'') (CHR ''-'') ?u)"
    by (rule list.pred_mono_strong) (rule slug_char_plain)
  then show t: "slugify v = squeeze (\<lambda>c. c = CHR ''-'') (CHR ''-'') ?u"
    unfolding slugify_def by (rule trim_no_ws)
  from c show "list_all slug_char (slugify v)" by (simp only: t)
qed

lemma slugify_no_run: "no_run (\<lambda>c. c = CHR ''-'') (slugify v)"
  unfolding slugify_trimmed by (rule squeeze_no_run)

lemma slugify_slug:
  assumes "list_all slug_char s" "no_run (\<lambda>c. c = CHR ''-'') s"
  shows "slugify s = s"
proof -
  have "lower s = s"
    using assms(1) unfolding lower_def by (intro map_idI) (auto simp: list_all_iff slug_char_plain)
  moreover have "filter (\<lambda>c. slug_char c \<or> is_ws c) s = s"
    using assms(1) by (intro filter_True) (auto simp: list_all_iff)
  moreover have "squeeze is_ws (CHR ''-'') s = s"
    using assms(1) by (intro squeeze_id) (auto simp: list_all_iff slug_char_plain)
  ultimately show ?thesis
    using squeeze_no_run_id [OF assms(2)] by (simp add: slugify_trimmed)
qed

text \<open>What the answer to a request amounts to.\<close>

definition contest_answer :: "server \<Rightarrow> (response \<Rightarrow> exn + jsval) \<Rightarrow> request list \<Rightarrow> request \<Rightarrow> exn + jsval" where
  "contest_answer srv f qs q = (case snd (srv qs q) of NetFail \<Rightarrow> Inl NetworkError | Reply r \<Rightarrow> f r)"

lemma contest_call:
  obtains t where
    "bindM (fetch srv q) (\<lambda>r. lift (f r)) w = (contest_answer srv f (sent w) q, (send q w)\<lparr>clock := t\<rparr>)"
  by (rule fetch_cases [of srv w q]) (auto simp: bindM_def contest_answer_def)

subsection \<open>Properties\<close>

text \<open>C36: A generated slug consists of lower case letters, digits and single hyphens, so it passes the
  form's own test unless it is empty; generating a slug from a slug gives the same slug.\<close>
theorem slugify_valid:
  "(rx_test slugRegex (slugify v) \<longleftrightarrow> slugify v \<noteq> []) \<and>
   no_run (\<lambda>c. c = CHR ''-'') (slugify v) \<and> slugify (slugify v) = slugify v"
  by (simp add: slugRegex_def rx_test_lang rx_plus_class slugify_chars slugify_no_run slugify_slug)

text \<open>Typing a text into the name field, one character at a time, and pasting it.\<close>

definition type_name :: "string \<Rightarrow> contest_form \<Rightarrow> contest_form" where
  "type_name s f = fold (\<lambda>n. handleChange F_name (take n s)) [1..<Suc (length s)] f"

lemma handleChange_slug_kept: "c_slug f \<noteq> [] \<Longrightarrow> c_slug (handleChange F_name v f) = c_slug f"
  by (simp add: handleChange_def)

lemma fold_slug_kept: "c_slug f \<noteq> [] \<Longrightarrow> c_slug (fold (\<lambda>n. handleChange F_name (take n s)) ns f) = c_slug f"
  by (induction ns arbitrary: f) (simp_all add: handleChange_slug_kept)

lemma slugify_single: "slug_char (lower_char c) \<Longrightarrow> slugify [c] = [lower_char c]"
  by (simp add: slugify_trimmed lower_def slug_char_plain)

text \<open>The slug follows the name only until it is not empty any more. Pasting a name gives its slug,
  but typing it one character at a time leaves the slug of its first character, although the form
  means to derive the slug from the name.\<close>
theorem typed_name_slug:
  assumes "c_slug f = []" "slug_char (lower_char c)"
  shows "c_slug (handleChange F_name (c # s) f) = slugify (c # s) \<and>
         c_slug (type_name (c # s) f) = [lower_char c]"
proof -
  have "[1..<Suc (length (c # s))] = 1 # [2..<Suc (length (c # s))]"
    by (simp add: upt_conv_Cons numeral_2_eq_2 del: upt_Suc)
  then have "type_name (c # s) f =
      fold (\<lambda>n. handleChange F_name (take n (c # s))) [2..<Suc (length (c # s))] (handleChange F_name [c] f)"
    by (simp add: type_name_def del: upt_Suc)
  moreover have "c_slug (handleChange F_name [c] f) = [lower_char c]"
    using assms by (simp add: handleChange_def slugify_single)
  ultimately show ?thesis
    using assms(1) by (simp add: fold_slug_kept del: upt_Suc) (simp add: handleChange_def)
qed

theorem typed_name_slug_witness:
  "c_slug (handleChange F_name ''Spring CTF'' empty_form) = ''spring-ctf'' \<and>
   c_slug (type_name ''Spring CTF'' empty_form) = ''s''"
proof -
  have l: "lower_char (CHR ''S'') = CHR ''s''" "slugify ''Spring CTF'' = ''spring-ctf''" by code_simp+
  show ?thesis
    using typed_name_slug [of empty_form "CHR ''S''" "''pring CTF''"]
    by (simp only: l) (simp add: empty_form_def slug_char_def Let_def)
qed

text \<open>The test of an address: it accepts exactly a non-empty local part, an at sign and a domain with a
  dot that is neither its first nor its last character, and no white space or second at sign.\<close>
theorem email_accepted:
  "rx_test emailRegex s \<longleftrightarrow>
   (\<exists>a b c. s = a @ ''@'' @ b @ ''.'' @ c \<and> a \<noteq> [] \<and> b \<noteq> [] \<and> c \<noteq> [] \<and> list_all email_char (a @ b @ c))"
proof
  assume "rx_test emailRegex s"
  then show "\<exists>a b c. s = a @ ''@'' @ b @ ''.'' @ c \<and> a \<noteq> [] \<and> b \<noteq> [] \<and> c \<noteq> [] \<and> list_all email_char (a @ b @ c)"
    unfolding rx_test_lang emailRegex_def rx_lang.simps(4) mem_Collect_eq rx_char rx_plus_class by auto
next
  assume "\<exists>a b c. s = a @ ''@'' @ b @ ''.'' @ c \<and> a \<noteq> [] \<and> b \<noteq> [] \<and> c \<noteq> [] \<and> list_all email_char (a @ b @ c)"
  then show "rx_test emailRegex s"
    unfolding rx_test_lang emailRegex_def
    by (elim exE conjE) (simp only: , intro rx_seqI; simp add: rx_plus_class rx_char del: rx_lang.simps)
qed

lemma import_error_None:
  "import_error es = None \<longleftrightarrow> es \<noteq> [] \<and> list_all (rx_test emailRegex) es"
  by (auto simp: import_error_def Let_def filter_empty_conv list_all_iff)

lemma contest_request_cong:
  "store v = store w \<Longrightarrow> base_url v = base_url w \<Longrightarrow> contest_request m u b v = contest_request m u b w"
  by (simp add: contest_request_def getToken_def)

lemma iworld_of_more:
  assumes "world.more w' = world.more w"
  shows "i_text w' = i_text w" "i_loading w' = i_loading w" "i_result w' = i_result w"
  using assms by (cases w; cases w'; simp)+

lemma nworld_of_more:
  assumes "world.more w' = world.more w"
  shows "n_form w' = n_form w" "n_loading w' = n_loading w"
  using assms by (cases w; cases w'; simp)+

lemma contest_world [simp]:
  "i_result (toast k m w) = i_result w" "n_form (toast k m u) = n_form u" "n_form (navigate p u) = n_form u"
  "n_form (send q u) = n_form u"
  by (rule iworld_of_more nworld_of_more; simp)+

text \<open>Importing never throws. With no address, or with one of a wrong form, nothing is sent and the
  page says why; otherwise exactly one request goes out, for this contest and role, with the trimmed
  lines that are not empty, in their order, all of which pass the test. The button is usable again
  afterwards.\<close>
theorem import_participants:
  "case handleImport srv contest w of (r, w') \<Rightarrow> r = Inr () \<and> store w' = store w \<and> path w' = path w \<and>
     (if emails_of (i_text w) \<noteq> [] \<and> list_all (rx_test emailRegex) (emails_of (i_text w))
      then sent w' = sent w @ [contest_request ''POST'' (''/'' @ show_int contest @ ''/import-participants'')
             (Some (Obj [(''emails'', Arr (map Str (emails_of (i_text w)))), (''role'', Str (i_role w))])) w] \<and>
           \<not> i_loading w'
      else sent w' = sent w \<and> i_result w' = i_result w \<and> (\<exists>m. popups w' = popups w @ [Popup ''error'' [Str m]]))"
proof (cases "import_error (emails_of (i_text w))")
  case (Some m)
  then have "\<not> (emails_of (i_text w) \<noteq> [] \<and> list_all (rx_test emailRegex) (emails_of (i_text w)))"
    using import_error_None by (metis option.distinct(1))
  with Some show ?thesis
    by (simp add: handleImport_def Let_def)
next
  case None
  let ?v = "w\<lparr>i_loading := True\<rparr>"
  let ?b = "Obj [(''emails'', Arr (map Str (emails_of (i_text w)))), (''role'', Str (i_role w))]"
  have c: "json_clean ?b = ?b" by (simp add: comp_def)
  obtain x t where call: "importParticipants srv contest ?b ?v = (x, (send (contest_request ''POST''
      (''/'' @ show_int contest @ ''/import-participants'') (Some ?b) w) ?v)\<lparr>clock := t\<rparr>)"
    unfolding importParticipants_def c contest_request_cong [of ?v w, simplified] by (blast intro: contest_call)
  from None show ?thesis
    unfolding import_error_None
    by (cases x) (simp_all add: handleImport_def Let_def import_error_None None call finallyM_def catchM_def bindM_def)
qed

text \<open>Creating a contest never throws. A form with an empty name or slug, a slug that fails the test,
  or an end that is not after the start sends nothing and shows why. Any other form is sent once, as
  it is, and the page moves to the contest the answer names, staying where it is on every failure.\<close>
theorem create_contest:
  "case create_submit srv date w of (r, w') \<Rightarrow> r = Inr () \<and> store w' = store w \<and> n_form w' = n_form w \<and>
     (case create_error date (n_form w) of
        None \<Rightarrow> \<exists>q. q = contest_request ''POST'' ''/create'' (Some (contest_payload (n_form w))) w \<and>
          sent w' = sent w @ [q] \<and> \<not> n_loading w' \<and> rx_test slugRegex (c_slug (n_form w)) \<and>
          path w' = (case contest_answer srv (contest_data ''Failed to create contest'') (sent w) q of
              Inl e \<Rightarrow> path w
            | Inr contest \<Rightarrow> if nullish contest then path w else contest_path (js_string (oget contest ''id'')))
      | Some m \<Rightarrow> sent w' = sent w \<and> path w' = path w \<and> popups w' = popups w @ [Popup ''error'' [Str m]])"
proof (cases "create_error date (n_form w)")
  case (Some m)
  then show ?thesis by (simp add: create_submit_def)
next
  case None
  let ?v = "w\<lparr>n_loading := True\<rparr>" and ?p = "contest_payload (n_form w)"
  let ?q = "contest_request ''POST'' ''/create'' (Some ?p) w"
  have c: "json_clean ?p = ?p" by (simp add: contest_payload_def)
  have slug: "rx_test slugRegex (c_slug (n_form w))"
    using None by (auto simp: create_error_def split: if_splits)
  obtain t where call: "createContest srv ?p ?v = (contest_answer srv (contest_data ''Failed to create contest'')
      (sent w) ?q, (send ?q ?v)\<lparr>clock := t\<rparr>)"
    unfolding createContest_def c contest_request_cong [of ?v w, simplified]
    by (rule contest_call [of srv ?q _ ?v]) simp
  show ?thesis
    using None slug
    by (cases "contest_answer srv (contest_data ''Failed to create contest'') (sent w) ?q")
       (simp_all add: create_submit_def call finallyM_def catchM_def bindM_def get_def)
qed

end
