(* ===== verification/ContestPages.thy ===== *)
theory ContestPages
  imports NewContest Session
begin

section \<open>The list of contests and pulling challenges into one\<close>

text \<open>
  The pages \<open>pages/ContestList.tsx\<close> and \<open>pages/PullChallenges.tsx\<close>. A set of identifiers is a list
  without repetitions in the order of insertion, a map an association list; identifiers are numbers
  or texts. What the pull page lets the user do in each state are the events of \<open>pull_step\<close>: its
  dialog is modal, and its buttons are disabled as the page says.
\<close>

subsection \<open>The list of contests\<close>

record clworld = world +
  cl_contests :: jsval
  cl_loading :: bool
  cl_auth :: auth_state

definition loadContests :: "server \<Rightarrow> (unit, 'z clworld_scheme) action" where
  "loadContests srv w =
     finallyM (catchM
       (bindM (getAllContests srv) (\<lambda>data. upd (\<lambda>w. w\<lparr>cl_contests := data\<rparr>)))
       (\<lambda>e. upd (toast ''error'' (error_text ''Failed to load contests'' e))))
     (\<lambda>w. w\<lparr>cl_loading := False\<rparr>) (w\<lparr>cl_loading := True\<rparr>)"

definition handleContestClick :: "server \<Rightarrow> int \<Rightarrow> (unit, 'z clworld_scheme) action" where
  "handleContestClick srv i w =
     catchM (bindM (ctx_selectContest srv i (cl_auth w)) (\<lambda>a.
       upd (\<lambda>w. navigate (contest_path (show_int i)) (toast ''success'' ''Contest selected'' (w\<lparr>cl_auth := a\<rparr>)))))
     (\<lambda>e. upd (toast ''error'' (error_text ''Failed to select contest'' e))) w"

definition getStateColor :: "string \<Rightarrow> string" where
  "getStateColor st =
     (if st = ''visible'' then ''success'' else if st = ''paused'' then ''warning''
      else if st = ''ended'' then ''error'' else ''default'')"

definition formatDate :: "(jsval \<Rightarrow> string) \<Rightarrow> jsval \<Rightarrow> string" where
  "formatDate locale_date d = (if \<not> truthy d then ''Not set'' else locale_date d)"

text \<open>\<open>user?.type\<close> and \<open>user?.id\<close> of the context.\<close>

definition user_get :: "auth_state \<Rightarrow> string \<Rightarrow> jsval" where
  "user_get a k = (case user a of None \<Rightarrow> Undef | Some u \<Rightarrow> oget u k)"

definition may_create :: "auth_state \<Rightarrow> bool" where
  "may_create a = (seq (user_get a ''type'') (Str ''admin'') \<or> seq (user_get a ''type'') (Str ''teacher''))"

definition may_manage :: "auth_state \<Rightarrow> jsval \<Rightarrow> bool" where
  "may_manage a contest =
     (seq (user_get a ''type'') (Str ''admin'') \<or> seq (oget contest ''ownerId'') (user_get a ''id''))"

record contest_card =
  cc_id :: jsval
  cc_name :: jsval
  cc_state :: jsval
  cc_color :: string
  cc_start :: string
  cc_end :: string
  cc_manage :: bool

datatype contests_view = Contests_loading | Contests_shown bool "contest_card list"

definition contest_card_of :: "(jsval \<Rightarrow> string) \<Rightarrow> auth_state \<Rightarrow> jsval \<Rightarrow> contest_card" where
  "contest_card_of locale_date a c =
     \<lparr>cc_id = oget c ''id'', cc_name = oget c ''name'', cc_state = oget c ''state'',
      cc_color = getStateColor (case oget c ''state'' of Str s \<Rightarrow> s | _ \<Rightarrow> []),
      cc_start = formatDate locale_date (oget c ''startTime''),
      cc_end = formatDate locale_date (oget c ''endTime''), cc_manage = may_manage a c\<rparr>"

definition contests_page :: "(jsval \<Rightarrow> string) \<Rightarrow> 'z clworld_scheme \<Rightarrow> contests_view" where
  "contests_page locale_date w =
     (if cl_loading w then Contests_loading
      else Contests_shown (may_create (cl_auth w))
        (map (contest_card_of locale_date (cl_auth w)) (elems (cl_contests w))))"

subsection \<open>Pulling challenges\<close>

record plworld = world +
  pl_loading :: bool
  pl_submitting :: bool
  pl_bank :: jsval
  pl_selected :: "jsval list"
  pl_open :: bool
  pl_current :: "jsval option"
  pl_configs :: "(jsval \<times> jsval) list"

definition loadBankChallenges :: "server \<Rightarrow> (unit, 'z plworld_scheme) action" where
  "loadBankChallenges srv w =
     finallyM (catchM
       (bindM (getBankChallenges srv) (\<lambda>data. upd (\<lambda>w. w\<lparr>pl_bank := data\<rparr>)))
       (\<lambda>e. upd (toast ''error'' (error_text ''Failed to load challenges'' e))))
     (\<lambda>w. w\<lparr>pl_loading := False\<rparr>) (w\<lparr>pl_loading := True\<rparr>)"

definition handleSelectChallenge :: "jsval \<Rightarrow> 'z plworld_scheme \<Rightarrow> 'z plworld_scheme" where
  "handleSelectChallenge i w =
     (if i \<in> set (pl_selected w)
      then w\<lparr>pl_selected := removeAll i (pl_selected w), pl_configs := AList.delete i (pl_configs w)\<rparr>
      else w\<lparr>pl_selected := pl_selected w @ [i]\<rparr>)"

text \<open>\<open>new Set(xs)\<close>: the first occurrences, in order.\<close>

definition set_of :: "jsval list \<Rightarrow> jsval list" where
  "set_of xs = rev (remdups (rev xs))"

definition bank_ids :: "'z plworld_scheme \<Rightarrow> jsval list" where
  "bank_ids w = map (\<lambda>c. oget c ''id'') (elems (pl_bank w))"

definition handleSelectAll :: "bool \<Rightarrow> 'z plworld_scheme \<Rightarrow> 'z plworld_scheme" where
  "handleSelectAll checked w =
     (if checked then w\<lparr>pl_selected := set_of (bank_ids w)\<rparr>
      else w\<lparr>pl_selected := [], pl_configs := []\<rparr>)"

definition bank_item :: "jsval \<Rightarrow> jsval \<Rightarrow> jsval" where
  "bank_item i c =
     Obj [(''bankChallengeId'', i), (''name'', oget c ''name''), (''value'', oget c ''value''),
          (''maxAttempts'', oget c ''maxAttempts''), (''state'', oget c ''state''),
          (''requireDeploy'', oget c ''requireDeploy''), (''maxDeployCount'', oget c ''maxDeployCount''),
          (''connectionProtocol'', oget c ''connectionProtocol'')]"

definition handleConfigureChallenge :: "jsval \<Rightarrow> 'z plworld_scheme \<Rightarrow> 'z plworld_scheme" where
  "handleConfigureChallenge c w =
     w\<lparr>pl_current := Some (case map_of (pl_configs w) (oget c ''id'') of
         Some cfg \<Rightarrow> cfg | None \<Rightarrow> bank_item (oget c ''id'') c), pl_open := True\<rparr>"

text \<open>An edit in the dialog: texts as they are, numbers by \<open>Number(text)\<close>.\<close>

datatype edit = Text_edit string string | Number_edit string string

fun edit_key :: "edit \<Rightarrow> string" where
  "edit_key (Text_edit k s) = k"
| "edit_key (Number_edit k s) = k"

fun edit_value :: "edit \<Rightarrow> jsval" where
  "edit_value (Text_edit k s) = Str s"
| "edit_value (Number_edit k s) = num_of (as_num (Str s))"

definition dialog_fields :: "string list" where
  "dialog_fields = [''name'', ''value'', ''maxAttempts'', ''state'', ''timeLimit'', ''cooldown'',
     ''maxDeployCount'', ''connectionProtocol'', ''connectionInfo'']"

definition edit_config :: "edit \<Rightarrow> 'z plworld_scheme \<Rightarrow> 'z plworld_scheme" where
  "edit_config e w =
     w\<lparr>pl_current := map_option (set_field (edit_key e) (edit_value e)) (pl_current w)\<rparr>"

definition closeDialog :: "'z plworld_scheme \<Rightarrow> 'z plworld_scheme" where
  "closeDialog w = w\<lparr>pl_open := False\<rparr>"

definition handleSaveConfig :: "'z plworld_scheme \<Rightarrow> 'z plworld_scheme" where
  "handleSaveConfig w =
     (case pl_current w of
        None \<Rightarrow> w
      | Some cfg \<Rightarrow> toast ''success'' ''Configuration saved''
          (w\<lparr>pl_configs := AList.update (oget cfg ''bankChallengeId'') cfg (pl_configs w), pl_open := False\<rparr>))"

text \<open>\<open>bankChallenges.find((c) => c.id === id)\<close>, and the item pulled for an identifier.\<close>

fun find_bank :: "jsval \<Rightarrow> jsval list \<Rightarrow> exn + jsval" where
  "find_bank i [] = Inr Undef"
| "find_bank i (c # cs) =
     (if nullish c then Inl TypeError else if seq (oget c ''id'') i then Inr c else find_bank i cs)"

definition pull_item :: "(jsval \<times> jsval) list \<Rightarrow> jsval list \<Rightarrow> jsval \<Rightarrow> exn + jsval" where
  "pull_item configs bank i =
     (case map_of configs i of
        Some cfg \<Rightarrow> Inr cfg
      | None \<Rightarrow> (case find_bank i bank of
            Inl e \<Rightarrow> Inl e
          | Inr c \<Rightarrow> if nullish c then Inl TypeError else Inr (bank_item i c)))"

fun pull_items :: "(jsval \<times> jsval) list \<Rightarrow> jsval list \<Rightarrow> jsval list \<Rightarrow> exn + jsval list" where
  "pull_items configs bank [] = Inr []"
| "pull_items configs bank (i # js) =
     (case pull_item configs bank i of
        Inl e \<Rightarrow> Inl e
      | Inr x \<Rightarrow> (case pull_items configs bank js of Inl e \<Rightarrow> Inl e | Inr xs \<Rightarrow> Inr (x # xs)))"

definition handlePullChallenges :: "server \<Rightarrow> int \<Rightarrow> (unit, 'z plworld_scheme) action" where
  "handlePullChallenges srv contest w =
     (if pl_selected w = [] then (Inr (), toast ''error'' ''Please select at least one challenge'' w)
      else finallyM (catchM
        (bindM (lift (pull_items (pl_configs w) (elems (pl_bank w)) (pl_selected w))) (\<lambda>items.
         bindM (pullChallengesToContest srv contest (Obj [(''challenges'', Arr items)])) (\<lambda>_.
         upd (\<lambda>w. navigate (contest_path (show_int contest))
           (toast ''success'' (''Successfully pulled '' @ show_nat (length items) @ '' challenges'') w)))))
        (\<lambda>e. upd (toast ''error'' (error_text ''Failed to pull challenges'' e))))
      (\<lambda>w. w\<lparr>pl_submitting := False\<rparr>) (w\<lparr>pl_submitting := True\<rparr>))"

definition isConfigured :: "'z plworld_scheme \<Rightarrow> jsval \<Rightarrow> bool" where
  "isConfigured w i = (map_of (pl_configs w) i \<noteq> None)"

text \<open>The events of the page, when it offers them, and the states they lead to.\<close>

datatype pull_event = Toggle jsval | Toggle_all bool | Configure jsval | Edit edit | Save | Close

fun pull_offered :: "pull_event \<Rightarrow> 'z plworld_scheme \<Rightarrow> bool" where
  "pull_offered (Toggle i) w = (\<not> pl_open w \<and> i \<in> set (bank_ids w))"
| "pull_offered (Toggle_all b) w = (\<not> pl_open w)"
| "pull_offered (Configure c) w =
     (\<not> pl_open w \<and> c \<in> set (elems (pl_bank w)) \<and> oget c ''id'' \<in> set (pl_selected w))"
| "pull_offered (Edit e) w = (pl_open w \<and> edit_key e \<in> set dialog_fields)"
| "pull_offered Save w = pl_open w"
| "pull_offered Close w = pl_open w"

fun pull_apply :: "pull_event \<Rightarrow> 'z plworld_scheme \<Rightarrow> 'z plworld_scheme" where
  "pull_apply (Toggle i) w = handleSelectChallenge i w"
| "pull_apply (Toggle_all b) w = handleSelectAll b w"
| "pull_apply (Configure c) w = handleConfigureChallenge c w"
| "pull_apply (Edit e) w = edit_config e w"
| "pull_apply Save w = handleSaveConfig w"
| "pull_apply Close w = closeDialog w"

inductive pull_reach :: "jsval \<Rightarrow> 'z plworld_scheme \<Rightarrow> bool" for bank where
  loaded: "pl_bank w = bank \<Longrightarrow> pl_selected w = [] \<Longrightarrow> pl_configs w = [] \<Longrightarrow> \<not> pl_open w \<Longrightarrow> pull_reach bank w"
| event: "pull_reach bank w \<Longrightarrow> pull_offered e w \<Longrightarrow> pull_reach bank (pull_apply e w)"

subsection \<open>Rules\<close>

lemma plworld_of_more:
  assumes "world.more w' = world.more w"
  shows "pl_bank w' = pl_bank w" "pl_selected w' = pl_selected w" "pl_configs w' = pl_configs w"
    "pl_open w' = pl_open w" "pl_current w' = pl_current w"
  using assms by (cases w; cases w'; simp)+

lemma toast_plworld [simp]:
  "pl_bank (toast k m w) = pl_bank w" "pl_selected (toast k m w) = pl_selected w"
  "pl_configs (toast k m w) = pl_configs w" "pl_open (toast k m w) = pl_open w"
  "pl_current (toast k m w) = pl_current w" "pl_selected (navigate p w) = pl_selected w"
  "pl_selected (send q w) = pl_selected w"
  by (rule plworld_of_more; simp)+

lemma set_of_simps [simp]: "set (set_of xs) = set xs" "distinct (set_of xs)"
  by (simp_all add: set_of_def)

definition config_id :: "jsval \<Rightarrow> jsval" where
  "config_id cfg = oget cfg ''bankChallengeId''"

fun is_object :: "jsval \<Rightarrow> bool" where
  "is_object (Obj _) = True"
| "is_object _ = False"

lemma config_id_bank_item [simp]: "config_id (bank_item i c) = i"
  by (simp add: config_id_def bank_item_def)

lemma is_object_simps [simp]: "is_object (bank_item i c)" "is_object (set_field k v cfg)"
  by (simp_all add: bank_item_def set_field_def)

lemma config_id_edit [simp]:
  "edit_key e \<in> set dialog_fields \<Longrightarrow> is_object cfg \<Longrightarrow> config_id (set_field (edit_key e) v cfg) = config_id cfg"
  by (cases cfg) (auto simp: config_id_def dialog_fields_def)

text \<open>
  What holds in every reachable state: the selected challenges are of the bank and each is selected once,
  a configuration belongs to a selected challenge and carries its identifier, and so does the one an
  open dialog edits.
\<close>

definition config_ok :: "jsval list \<Rightarrow> jsval \<Rightarrow> jsval \<Rightarrow> bool" where
  "config_ok sel i cfg = (i \<in> set sel \<and> config_id cfg = i \<and> is_object cfg)"

definition pull_ok :: "jsval \<Rightarrow> 'z plworld_scheme \<Rightarrow> bool" where
  "pull_ok bank w =
     (pl_bank w = bank \<and> distinct (pl_selected w) \<and> set (pl_selected w) \<subseteq> set (bank_ids w) \<and>
      (\<forall>i cfg. map_of (pl_configs w) i = Some cfg \<longrightarrow> config_ok (pl_selected w) i cfg) \<and>
      (pl_open w \<longrightarrow> (\<exists>cfg. pl_current w = Some cfg \<and> config_ok (pl_selected w) (config_id cfg) cfg)))"

lemma config_ok_mono: "config_ok sel i cfg \<Longrightarrow> i \<in> set sel' \<Longrightarrow> config_ok sel' i cfg"
  by (simp add: config_ok_def)

lemma pull_ok_select:
  assumes "pull_ok bank w" "pull_offered (Toggle i) w"
  shows "pull_ok bank (handleSelectChallenge i w)"
  using assms by (auto simp: handleSelectChallenge_def pull_ok_def bank_ids_def config_ok_def distinct_removeAll
      delete_conv' split: if_splits)

lemma pull_ok_all:
  assumes "pull_ok bank w" "pull_offered (Toggle_all b) w"
  shows "pull_ok bank (handleSelectAll b w)"
  using assms by (cases b) (auto simp: handleSelectAll_def pull_ok_def bank_ids_def config_ok_def)

lemma pull_ok_configure:
  assumes "pull_ok bank w" "pull_offered (Configure c) w"
  shows "pull_ok bank (handleConfigureChallenge c w)"
proof -
  have "config_ok (pl_selected w) (oget c ''id'') cfg" if "map_of (pl_configs w) (oget c ''id'') = Some cfg" for cfg
    using assms(1) that by (auto simp: pull_ok_def)
  then show ?thesis
    using assms by (auto simp: handleConfigureChallenge_def pull_ok_def bank_ids_def config_ok_def split: option.split)
qed

lemma pull_ok_edit:
  assumes "pull_ok bank w" "pull_offered (Edit e) w"
  shows "pull_ok bank (edit_config e w)"
  using assms by (auto simp: edit_config_def pull_ok_def bank_ids_def config_ok_def)

lemma pull_ok_save:
  assumes "pull_ok bank w" "pull_offered Save w"
  shows "pull_ok bank (handleSaveConfig w)"
  using assms by (auto simp: handleSaveConfig_def pull_ok_def bank_ids_def config_id_def [symmetric] update_conv'
      split: if_splits)

lemma pull_ok_reach: "pull_reach bank w \<Longrightarrow> pull_ok bank w"
proof (induction rule: pull_reach.induct)
  case (loaded w)
  then show ?case by (simp add: pull_ok_def)
next
  case (event w e)
  then show ?case
    by (cases e) (simp_all only: pull_apply.simps pull_ok_select pull_ok_all pull_ok_configure pull_ok_edit pull_ok_save,
        auto simp: pull_ok_def closeDialog_def bank_ids_def)
qed

definition usable_bank :: "jsval \<Rightarrow> bool" where
  "usable_bank bank = list_all (\<lambda>c. \<not> nullish c \<and> seq (oget c ''id'') (oget c ''id'')) (elems bank)"

lemma seq_eq: "seq a a \<Longrightarrow> seq a b \<longleftrightarrow> a = b"
  by (auto simp: seq_iff)

lemma find_bank_found:
  assumes "list_all (\<lambda>c. \<not> nullish c \<and> seq (oget c ''id'') (oget c ''id'')) cs" "c \<in> set cs"
  shows "\<exists>d \<in> set cs. find_bank (oget c ''id'') cs = Inr d \<and> oget d ''id'' = oget c ''id'' \<and> \<not> nullish d"
  using assms by (induction cs) (auto simp: seq_eq)

text \<open>Where the item pulled for a challenge comes from: what the user saved for it, or the bank.\<close>

definition item_source :: "(jsval \<times> jsval) list \<Rightarrow> jsval \<Rightarrow> jsval \<Rightarrow> jsval \<Rightarrow> bool" where
  "item_source configs bank i x =
     (case map_of configs i of
        Some cfg \<Rightarrow> x = cfg
      | None \<Rightarrow> \<exists>c \<in> set (elems bank). oget c ''id'' = i \<and> x = bank_item i c)"

lemma pull_item_ok:
  assumes "usable_bank bank" "i \<in> (\<lambda>c. oget c ''id'') ` set (elems bank)"
    and "\<And>cfg. map_of configs i = Some cfg \<Longrightarrow> config_id cfg = i"
  shows "\<exists>x. pull_item configs (elems bank) i = Inr x \<and> item_source configs bank i x \<and> config_id x = i"
proof (cases "map_of configs i")
  case None
  obtain c where c: "c \<in> set (elems bank)" "oget c ''id'' = i" using assms(2) by auto
  obtain d where "d \<in> set (elems bank)" "find_bank i (elems bank) = Inr d" "oget d ''id'' = i" "\<not> nullish d"
    using find_bank_found [OF assms(1) [unfolded usable_bank_def] c(1)] c(2) by auto
  then show ?thesis using None by (auto simp: pull_item_def item_source_def)
next
  case (Some cfg)
  then show ?thesis using assms(3) by (simp add: pull_item_def item_source_def)
qed

lemma pull_items_ok:
  assumes "pull_ok bank w" "usable_bank bank" "set is \<subseteq> set (pl_selected w)"
  shows "\<exists>xs. pull_items (pl_configs w) (elems bank) is = Inr xs \<and> map config_id xs = is \<and>
    list_all2 (item_source (pl_configs w) bank) is xs"
  using assms(3)
proof (induction "is")
  case (Cons i "is")
  have "i \<in> (\<lambda>c. oget c ''id'') ` set (elems bank)"
    using assms(1) Cons.prems by (auto simp: pull_ok_def bank_ids_def)
  then obtain x where "pull_item (pl_configs w) (elems bank) i = Inr x" "item_source (pl_configs w) bank i x" "config_id x = i"
    using pull_item_ok [OF assms(2), where i = i and configs = "pl_configs w"] assms(1)
    by (metis config_ok_def pull_ok_def)
  then show ?case using Cons by auto
qed simp

subsection \<open>Properties\<close>

text \<open>C22: however the user selects, deselects and configures, a stored configuration belongs to a
  selected challenge of the bank: deselecting a challenge forgets its configuration, and what is saved
  from the dialog is stored under the challenge it was opened for.\<close>
theorem configurations_selected:
  assumes "pull_reach bank w" "isConfigured w i"
  shows "i \<in> set (pl_selected w) \<and> i \<in> set (bank_ids w) \<and> config_id (the (map_of (pl_configs w) i)) = i"
  using pull_ok_reach [OF assms(1)] assms(2) by (auto simp: pull_ok_def isConfigured_def config_ok_def)

text \<open>A bank of one challenge, and the page after selecting it, configuring it and saving a new name.\<close>

definition bank1 :: jsval where
  "bank1 = Arr [Obj [(''id'', Num 7), (''name'', Str ''web''), (''value'', Num 100)]]"

definition pull0 :: plworld where
  "pull0 = \<lparr>store = [], clock = 0, sent = [], path = [], redirect = None, popups = [], fired = [], base_url = [],
     pl_loading = False, pl_submitting = False, pl_bank = bank1, pl_selected = [], pl_open = False,
     pl_current = None, pl_configs = []\<rparr>"

definition pull1 :: plworld where
  "pull1 = fold pull_apply [Toggle (Num 7), Configure (hd (elems bank1)), Edit (Text_edit ''name'' ''intro''), Save] pull0"

lemma pull1_reach: "pull_reach bank1 pull1"
proof -
  have r: "pull_reach bank1 pull0"
    by (rule pull_reach.loaded) (simp_all add: pull0_def)
  have o: "pull_offered (Toggle (Num 7)) pull0"
    "pull_offered (Configure (hd (elems bank1))) (pull_apply (Toggle (Num 7)) pull0)"
    "pull_offered (Edit (Text_edit ''name'' ''intro'')) (fold pull_apply [Toggle (Num 7), Configure (hd (elems bank1))] pull0)"
    "pull_offered Save (fold pull_apply [Toggle (Num 7), Configure (hd (elems bank1)), Edit (Text_edit ''name'' ''intro'')] pull0)"
    by (simp_all add: pull0_def bank1_def bank_ids_def handleSelectChallenge_def handleConfigureChallenge_def
        dialog_fields_def edit_config_def)
  show ?thesis
    unfolding pull1_def using r o by (simp add: pull_reach.event del: pull_apply.simps pull_offered.simps)
qed

theorem configurations_selected_witness:
  "isConfigured pull1 (Num 7) \<and> Num 7 \<in> set (pl_selected pull1)"
proof -
  have "isConfigured pull1 (Num 7)"
    by (simp add: isConfigured_def pull1_def pull0_def bank1_def handleSelectChallenge_def
        handleConfigureChallenge_def edit_config_def handleSaveConfig_def bank_item_def set_field_def)
  then show ?thesis using configurations_selected [OF pull1_reach] by blast
qed

text \<open>C23: pulling sends, in one request, exactly one item per selected challenge, in the order of
  selection and with the challenge's identifier: the configuration the user saved for it, and
  otherwise the values of the bank. On an answer with data the page moves to the contest.\<close>
theorem pull_request:
  assumes "pull_reach bank w" "usable_bank bank" "pl_selected w \<noteq> []"
  shows "\<exists>items q. q = contest_request ''POST'' (''/'' @ show_int contest @ ''/pull-challenges'')
             (Some (json_clean (Obj [(''challenges'', Arr items)]))) w \<and>
     map config_id items = pl_selected w \<and> list_all2 (item_source (pl_configs w) bank) (pl_selected w) items \<and>
     (case handlePullChallenges srv contest w of (r, w') \<Rightarrow> r = Inr () \<and> sent w' = sent w @ [q] \<and>
        \<not> pl_submitting w' \<and> pl_selected w' = pl_selected w \<and>
        path w' = (case contest_answer srv (contest_data ''Failed to pull challenges'') (sent w) q of
            Inl e \<Rightarrow> path w | Inr _ \<Rightarrow> contest_path (show_int contest)))"
proof -
  have ok: "pull_ok bank w" by (rule pull_ok_reach) (rule assms(1))
  then have bank: "pl_bank w = bank" by (simp add: pull_ok_def)
  obtain items where items: "pull_items (pl_configs w) (elems bank) (pl_selected w) = Inr items"
    "map config_id items = pl_selected w" "list_all2 (item_source (pl_configs w) bank) (pl_selected w) items"
    using pull_items_ok [OF ok assms(2) subset_refl] by auto
  let ?v = "w\<lparr>pl_submitting := True\<rparr>"
  let ?q = "contest_request ''POST'' (''/'' @ show_int contest @ ''/pull-challenges'')
             (Some (json_clean (Obj [(''challenges'', Arr items)]))) w"
  obtain t where call: "pullChallengesToContest srv contest (Obj [(''challenges'', Arr items)]) ?v =
      (contest_answer srv (contest_data ''Failed to pull challenges'') (sent w) ?q, (send ?q ?v)\<lparr>clock := t\<rparr>)"
    unfolding pullChallengesToContest_def contest_request_cong [of ?v w, simplified]
    by (rule contest_call [of srv ?q _ ?v]) simp
  show ?thesis
    using items assms(3)
    by (intro exI [where x = items] exI [where x = ?q],
        cases "contest_answer srv (contest_data ''Failed to pull challenges'') (sent w) ?q")
       (simp_all add: handlePullChallenges_def bank call finallyM_def catchM_def bindM_def)
qed

theorem pull_request_witness:
  "map req_url (sent (snd (handlePullChallenges (\<lambda>_ _. (1, NetFail)) 3 pull1))) = [''/api/Contest/3/pull-challenges'']"
proof -
  have sel: "pl_selected pull1 = [Num 7]" "sent pull1 = []" "base_url pull1 = []"
    by (simp_all add: pull1_def pull0_def bank1_def handleSelectChallenge_def
        handleConfigureChallenge_def edit_config_def handleSaveConfig_def bank_item_def set_field_def toast_def show_popup_def)
  have u: "usable_bank bank1" by (simp add: usable_bank_def bank1_def)
  have three: "show_int 3 = ''3''" by code_simp
  show ?thesis
    using sel pull_request [OF pull1_reach u, of 3 "\<lambda>_ _. (1, NetFail)", simplified sel(1), OF list.distinct(2)]
    by (elim exE conjE) (simp_all add: case_prod_unfold contest_request_def three)
qed

lemma fetchWithTimeout_world:
  "path (snd (fetchWithTimeout srv q ms w)) = path w \<and> world.more (snd (fetchWithTimeout srv q ms w)) = world.more w"
  by (rule fetchWithTimeout_cases [of srv w q ms]) auto

lemma selectContest_world:
  "path (snd (selectContest srv i w)) = path w \<and> world.more (snd (selectContest srv i w)) = world.more w"
proof (cases "fetchWithTimeout srv (select_request i w) AUTH_REQUEST_TIMEOUT_MS w")
  case (Pair x v)
  have v: "path v = path w" "world.more v = world.more w"
    using fetchWithTimeout_world [of srv "select_request i w" AUTH_REQUEST_TIMEOUT_MS w] by (simp_all add: Pair)
  have "path (snd (enter_contest d v)) = path w \<and> world.more (snd (enter_contest d v)) = world.more w" for d
    by (simp add: enter_contest_def Let_def setToken_def setUser_def v split: sum.split)
  then show ?thesis
    by (cases x) (auto simp: selectContest_def Pair bindM_def v split: sum.split)
qed

lemma clworld_of_more:
  assumes "world.more w' = world.more w"
  shows "cl_auth w' = cl_auth w" "cl_contests w' = cl_contests w"
  using assms by (cases w; cases w'; simp)+

lemma clworld_simps [simp]:
  "cl_auth (toast k m w) = cl_auth w" "cl_auth (navigate p w) = cl_auth w"
  "cl_contests (toast k m w) = cl_contests w" "cl_contests (navigate p w) = cl_contests w"
  by (rule clworld_of_more; simp)+

text \<open>Opening a contest from the list never throws. When the server accepts the choice, the page
  is the contest's, the stored token is the one received, and the context agrees with the session;
  otherwise the page, local storage and context are as before and an error is shown.\<close>
theorem open_contest:
  assumes "in_sync (cl_auth w) w" "getUser w = Inr u"
  shows "case (handleContestClick srv i w, selectContest srv i w) of ((r, w'), (x, _)) \<Rightarrow>
     r = Inr () \<and> cl_contests w' = cl_contests w \<and>
     (case x of
        Inl e \<Rightarrow> path w' = path w \<and> store w' = store w \<and> cl_auth w' = cl_auth w
      | Inr data \<Rightarrow> path w' = contest_path (show_int i) \<and>
          getToken w' = Some (js_string (oget data ''token'')) \<and>
          (js_string (oget data ''token'') \<noteq> [] \<longrightarrow> in_sync (cl_auth w') w'))"
proof (cases "selectContest srv i w")
  case (Pair x v)
  have v: "path v = path w" "cl_auth v = cl_auth w" "cl_contests v = cl_contests w"
    using selectContest_world [of srv i w] clworld_of_more [of v w] by (simp_all add: Pair)
  show ?thesis
  proof (cases x)
    case (Inl e)
    then show ?thesis
      using Pair v selectContest_Inl [of srv i w e v u] assms(2)
      by (simp add: handleContestClick_def ctx_selectContest_def)
  next
    case (Inr data)
    then have d: "getToken v = Some (js_string (oget data ''token''))"
      using selectContest_Inr [of srv i w data v u] Pair assms(2) by simp
    obtain a where a: "ctx_selectContest srv i (cl_auth w) w = (Inr a, v)"
      using Pair Inr by (simp add: ctx_selectContest_def)
    have "in_sync a v" if "js_string (oget data ''token'') \<noteq> []"
      using in_sync_select [OF assms(1) a] d that by simp
    then have "in_sync a v'" if "js_string (oget data ''token'') \<noteq> []" "store v' = store v" for v' :: "'a clworld_scheme"
      using that in_sync_store by blast
    moreover have "getToken v' = getToken v" if "store v' = store v" for v' :: "'a clworld_scheme"
      using that by (simp add: getToken_def)
    ultimately show ?thesis
      using Pair Inr a v d by (simp add: handleContestClick_def)
  qed
qed

theorem open_contest_witness:
  "path (snd (handleContestClick (\<lambda>_ _. (1, Reply \<lparr>status = 200, body =
        JBody (Obj [(''data'', Obj [(''token'', Str ''t2'')])])\<rparr>)) 3
      \<lparr>store = [], clock = 0, sent = [], path = ''/contests'', redirect = None, popups = [], fired = [],
       base_url = [], cl_contests = Null, cl_loading = False, cl_auth = auth_initial\<rparr>)) = ''/contest/3/challenges''"
proof -
  let ?w = "\<lparr>store = [], clock = 0, sent = [], path = ''/contests'', redirect = None, popups = [], fired = [],
       base_url = [], cl_contests = Null, cl_loading = False, cl_auth = auth_initial\<rparr>"
  have "in_sync (cl_auth ?w) ?w" "getUser ?w = Inr Null"
    by (simp_all add: in_sync_def auth_initial_def getUser_def get_item_def)
  moreover have "contest_path (show_int 3) = ''/contest/3/challenges''" by code_simp
  moreover have "fst (selectContest (\<lambda>_ _. (1, Reply \<lparr>status = 200, body =
        JBody (Obj [(''data'', Obj [(''token'', Str ''t2'')])])\<rparr>)) 3 ?w) = Inr (Obj [(''token'', Str ''t2'')])"
    by (simp add: selectContest_def fetchWithTimeout_def AUTH_REQUEST_TIMEOUT_MS_def receive_def bindM_def
        resp_ok_def resp_json_def get_def enter_contest_def Let_def getUser_def get_item_def setToken_def set_store_def
        TOKEN_KEY_def USER_KEY_def set_item_def)
  ultimately show ?thesis
    using open_contest [where w = ?w and u = Null and i = 3 and srv = "\<lambda>_ _. (1, Reply \<lparr>status = 200, body =
        JBody (Obj [(''data'', Obj [(''token'', Str ''t2'')])])\<rparr>)"]
    by (simp add: case_prod_unfold)
qed

end
