(* ===== verification/Standings.thy ===== *)
theory Standings
  imports Services Accounts Paging "HOL-Library.Multiset"
begin

section \<open>The scoreboards\<close>

text \<open>
  The pages \<open>pages/Scoreboard.tsx\<close> and \<open>pages/PublicScoreboard.tsx\<close> and the chart
  \<open>components/ChartComponent.tsx\<close>: the rows made of the standings, search, sorting, pages, the
  countdown and the points of the chart. The standings are an array or an object with numeric keys; a
  team's place is its key. Sorting is stable, as in the language; a value that is no number counts as
  0 in it. A team's name is a text and its list of solves an array, as their types declare; \<open>date\<close> is the
  moment (in milliseconds) that the date library makes of a text.
\<close>

subsection \<open>Rows\<close>

text \<open>\<open>Object.entries\<close>: keys that are array indices come first, in ascending order.\<close>

definition is_index :: "string \<Rightarrow> bool" where
  "is_index k = (k = show_nat (read_nat k) \<and> read_nat k < 2 ^ 32 - 1)"

definition entries :: "jsval \<Rightarrow> (string \<times> jsval) list" where
  "entries v =
     (case v of
        Obj fs \<Rightarrow> sort_key (\<lambda>(k, _). read_nat k) (filter (\<lambda>(k, _). is_index k) fs) @
                  filter (\<lambda>(k, _). \<not> is_index k) fs
      | Arr xs \<Rightarrow> zip (map show_nat [0..<length xs]) xs
      | Str s \<Rightarrow> zip (map show_nat [0..<length s]) (map (\<lambda>c. Str [c]) s)
      | _ \<Rightarrow> [])"

record row =
  r_top :: jsval
  r_team :: jsval

definition rows :: "jsval \<Rightarrow> row list" where
  "rows scores = map (\<lambda>(k, t). \<lparr>r_top = parseInt k, r_team = t\<rparr>) (entries scores)"

definition team_name :: "row \<Rightarrow> string" where
  "team_name r = str_or (oget (r_team r) ''name'')"

definition num_val :: "jsval \<Rightarrow> rat" where
  "num_val v = (case v of Num q \<Rightarrow> q | _ \<Rightarrow> 0)"

text \<open>
  The operands of the comparator's subtraction: numeric texts count as their numbers. A value that is none
  makes the difference \<open>NaN\<close>, with which \<open>sort\<close> promises no order; here it counts as 0.
\<close>

definition team_score :: "row \<Rightarrow> rat" where
  "team_score r = (case as_num (oget (r_team r) ''score'') of Some q \<Rightarrow> q | None \<Rightarrow> 0)"

datatype sort_col = By_top | By_score
datatype sort_dir = Asc | Desc

definition sort_value :: "sort_col \<Rightarrow> row \<Rightarrow> rat" where
  "sort_value c r = (case c of By_top \<Rightarrow> num_val (r_top r) | By_score \<Rightarrow> team_score r)"

definition sort_rows :: "(sort_col \<times> sort_dir) option \<Rightarrow> row list \<Rightarrow> row list" where
  "sort_rows cfg rs =
     (case cfg of
        None \<Rightarrow> rs
      | Some (c, Asc) \<Rightarrow> sort_key (sort_value c) rs
      | Some (c, Desc) \<Rightarrow> sort_key (\<lambda>r. - sort_value c r) rs)"

definition filteredScores :: "jsval \<Rightarrow> string \<Rightarrow> (sort_col \<times> sort_dir) option \<Rightarrow> row list" where
  "filteredScores scores query cfg =
     sort_rows cfg (filter (\<lambda>r. has_substring (lower (team_name r)) (lower query)) (rows scores))"

subsection \<open>The page of the portal\<close>

record scworld = world +
  sc_scores :: jsval
  sc_error :: string
  sc_visibility :: "(int \<times> string) option"
  sc_loading :: bool
  sc_refreshing :: bool
  sc_term :: string
  sc_query :: string
  sc_sort :: "(sort_col \<times> sort_dir) option"
  sc_page :: int
  sc_per :: nat
  sc_bracket :: jsval

definition sc_filtered :: "'z scworld_scheme \<Rightarrow> row list" where
  "sc_filtered w = filteredScores (sc_scores w) (sc_query w) (sc_sort w)"

text \<open>\<open>slice(start, end)\<close> of the page shown; pages count from 1.\<close>

definition paginatedScores :: "'z scworld_scheme \<Rightarrow> row list" where
  "paginatedScores w = take (sc_per w) (drop (nat ((sc_page w - 1) * int (sc_per w))) (sc_filtered w))"

definition totalPages :: "'z scworld_scheme \<Rightarrow> int" where
  "totalPages w = int (ceil_div (length (sc_filtered w)) (sc_per w))"

definition fetchScores :: "server \<Rightarrow> bool \<Rightarrow> (unit, 'z scworld_scheme) action" where
  "fetchScores srv showRefreshing w =
     finallyM (catchM
       (bindM (getTopStandings srv (sc_bracket w)) (\<lambda>data.
          upd (\<lambda>w. w\<lparr>sc_scores := data, sc_error := [], sc_visibility := None\<rparr>)))
       (\<lambda>e. upd (\<lambda>w. case e of
            VisibilityError m st \<Rightarrow> w\<lparr>sc_visibility := Some (st, m), sc_error := []\<rparr>
          | _ \<Rightarrow> w\<lparr>sc_error := (if error_message e = [] then ''Failed to fetch scoreboard data'' else error_message e),
                   sc_visibility := None\<rparr>)))
     (\<lambda>w. w\<lparr>sc_loading := False, sc_refreshing := False\<rparr>)
     (if showRefreshing then w\<lparr>sc_refreshing := True\<rparr> else w\<lparr>sc_loading := True\<rparr>)"

definition sc_handleRefresh :: "server \<Rightarrow> (unit, 'z scworld_scheme) action" where
  "sc_handleRefresh srv = fetchScores srv True"

text \<open>Choosing a bracket runs the effect that loads its standings and goes back to page 1.\<close>

definition select_bracket :: "server \<Rightarrow> jsval \<Rightarrow> (unit, 'z scworld_scheme) action" where
  "select_bracket srv b w = fetchScores srv False (w\<lparr>sc_bracket := b, sc_page := 1\<rparr>)"

definition handleSearch :: "'z scworld_scheme \<Rightarrow> 'z scworld_scheme" where
  "handleSearch w = w\<lparr>sc_query := sc_term w, sc_page := 1\<rparr>"

definition requestSort :: "sort_col \<Rightarrow> 'z scworld_scheme \<Rightarrow> 'z scworld_scheme" where
  "requestSort c w =
     w\<lparr>sc_sort := Some (c, if sc_sort w = Some (c, Asc) then Desc else Asc), sc_page := 1\<rparr>"

definition handlePageChange :: "int \<Rightarrow> 'z scworld_scheme \<Rightarrow> 'z scworld_scheme" where
  "handlePageChange p w = w\<lparr>sc_page := max 1 (min p (totalPages w))\<rparr>"

definition setItemsPerPage :: "nat \<Rightarrow> 'z scworld_scheme \<Rightarrow> 'z scworld_scheme" where
  "setItemsPerPage n w = w\<lparr>sc_per := n, sc_page := 1\<rparr>"

text \<open>The numbers offered, None standing for the dots.\<close>

definition score_page_numbers :: "int \<Rightarrow> int \<Rightarrow> int option list" where
  "score_page_numbers n cur =
     (if n \<le> 7 then map Some [1..n]
      else if cur \<le> 4 then map Some [1, 2, 3, 4, 5] @ [None, Some n]
      else if cur \<ge> n - 3 then [Some 1, None] @ map Some [n - 4, n - 3, n - 2, n - 1, n]
      else [Some 1, None] @ map Some [cur - 1, cur, cur + 1] @ [None, Some n])"

text \<open>What a row shows: its number and whether it carries the star of the top three.\<close>

definition is_top3 :: "row \<Rightarrow> bool" where
  "is_top3 r = (case r_top r of Num q \<Rightarrow> q \<le> 3 | _ \<Rightarrow> False)"

definition rank_shown :: "row \<Rightarrow> jsval" where
  "rank_shown r = (case r_top r of Num q \<Rightarrow> Num (q + 1) | _ \<Rightarrow> NaN)"

subsection \<open>The public page\<close>

datatype phase = Starting | Running | Ended

record countdown =
  t_phase :: phase
  t_days :: int
  t_hours :: int
  t_minutes :: int
  t_seconds :: int

definition split_time :: "phase \<Rightarrow> int \<Rightarrow> countdown" where
  "split_time p d =
     \<lparr>t_phase = p, t_days = d div (1000 * 60 * 60 * 24),
      t_hours = (d mod (1000 * 60 * 60 * 24)) div (1000 * 60 * 60),
      t_minutes = (d mod (1000 * 60 * 60)) div (1000 * 60), t_seconds = (d mod (1000 * 60)) div 1000\<rparr>"

definition public_time_remaining :: "int \<Rightarrow> int \<Rightarrow> int \<Rightarrow> countdown" where
  "public_time_remaining now start fin =
     (if now < start then split_time Starting (start - now)
      else if now \<ge> start \<and> now < fin then split_time Running (fin - now)
      else \<lparr>t_phase = Ended, t_days = 0, t_hours = 0, t_minutes = 0, t_seconds = 0\<rparr>)"

definition rankedTeams :: "jsval \<Rightarrow> row list" where
  "rankedTeams scores = take 10 (sort_key (\<lambda>r. num_val (r_top r)) (rows scores))"

definition solves_of :: "row \<Rightarrow> jsval list" where
  "solves_of r = elems (oget (r_team r) ''solves'')"

definition latest_solver :: "(jsval \<Rightarrow> int) \<Rightarrow> row list \<Rightarrow> string option" where
  "latest_solver date ranked =
     (let all = concat (map (\<lambda>r. map (\<lambda>s. (team_name r, date (oget s ''date''))) (solves_of r)) ranked)
      in case sort_key (\<lambda>(_, d). - d) all of [] \<Rightarrow> None | (n, _) # _ \<Rightarrow> Some n)"

record pubworld = world +
  pb_scores :: jsval
  pb_loading :: bool
  pb_initial :: bool
  pb_visibility :: "(int \<times> string) option"
  pb_bracket :: jsval

definition public_fetch :: "server \<Rightarrow> (unit, 'z pubworld_scheme) action" where
  "public_fetch srv w =
     finallyM (catchM
       (bindM (getPublicScoreboard srv (pb_bracket w)) (\<lambda>data.
          upd (\<lambda>w. w\<lparr>pb_scores := data, pb_visibility := None\<rparr>)))
       (\<lambda>e. upd (\<lambda>w. case e of VisibilityError m st \<Rightarrow> w\<lparr>pb_visibility := Some (st, m)\<rparr> | _ \<Rightarrow> w)))
     (\<lambda>w. if pb_initial w then w\<lparr>pb_loading := False, pb_initial := False\<rparr> else w)
     (if pb_initial w then w else w\<lparr>pb_loading := False\<rparr>)"

subsection \<open>The chart\<close>

record chart_point =
  p_time :: int
  p_scores :: "(string \<times> rat) list"

definition solve_time :: "(jsval \<Rightarrow> int) \<Rightarrow> jsval \<Rightarrow> int" where
  "solve_time date s = date (oget s ''date'')"

definition all_dates :: "(jsval \<Rightarrow> int) \<Rightarrow> row list \<Rightarrow> int list" where
  "all_dates date ts = sort (remdups (concat (map (\<lambda>r. map (solve_time date) (solves_of r)) ts)))"

definition score_at :: "(jsval \<Rightarrow> int) \<Rightarrow> int \<Rightarrow> row \<Rightarrow> rat" where
  "score_at date t r =
     foldl (\<lambda>a s. a + num_val (oget s ''value'')) 0 (filter (\<lambda>s. solve_time date s \<le> t) (solves_of r))"

definition chart_data :: "(jsval \<Rightarrow> int) \<Rightarrow> row list \<Rightarrow> chart_point list" where
  "chart_data date ts =
     (let ds = all_dates date ts;
          start = (case ds of [] \<Rightarrow> []
            | d # _ \<Rightarrow> [\<lparr>p_time = d - 5 * 60 * 1000,
                        p_scores = fold (\<lambda>r. AList.update (team_name r) 0) ts []\<rparr>])
      in start @ map (\<lambda>t. \<lparr>p_time = t,
           p_scores = fold (\<lambda>r. AList.update (team_name r) (score_at date t r)) ts []\<rparr>) ds)"

definition visible_teams :: "row list \<Rightarrow> jsval \<Rightarrow> string list" where
  "visible_teams ts selected =
     (if truthy selected
      then filter (\<lambda>n. case find (\<lambda>r. team_name r = n) ts of
             None \<Rightarrow> False | Some r \<Rightarrow> seq (oget (r_team r) ''id'') selected) (map team_name ts)
      else map team_name ts)"

subsection \<open>Rules\<close>

lemma scworld_of_more:
  assumes "world.more w' = world.more w"
  shows "sc_page w' = sc_page w" "sc_per w' = sc_per w" "sc_query w' = sc_query w" "sc_sort w' = sc_sort w"
    "sc_scores w' = sc_scores w"
  using assms by (cases w; cases w'; simp)+

text \<open>Loading changes neither the page, its size, the search nor the order.\<close>

lemma fetchScores_view:
  "sc_page (snd (fetchScores srv b w)) = sc_page w \<and> sc_per (snd (fetchScores srv b w)) = sc_per w \<and>
   sc_query (snd (fetchScores srv b w)) = sc_query w \<and> sc_sort (snd (fetchScores srv b w)) = sc_sort w"
proof -
  let ?v = "if b then w\<lparr>sc_refreshing := True\<rparr> else w\<lparr>sc_loading := True\<rparr>"
  obtain x u where x: "getTopStandings srv (sc_bracket w) ?v = (x, u)" by (cases "getTopStandings srv (sc_bracket w) ?v")
  have "world.more u = world.more ?v"
    using fetchWithAuth_more [of srv _ GET_opts ?v] x
    by (auto simp: getTopStandings_def bindM_def split: prod.splits sum.splits) (metis snd_conv)+
  note u = scworld_of_more [OF this]
  show ?thesis
    using x u by (cases x) (auto simp: fetchScores_def finallyM_def catchM_def bindM_def split: exn.split)
qed

lemma fetchScores_ends: "fst (fetchScores srv b w) = Inr ()"
  by (auto simp: fetchScores_def finallyM_def catchM_def bindM_def split: prod.split sum.split)

text \<open>The user's actions on the page. Loading, a new bracket and a refresh talk to the server.\<close>

datatype sc_event = Type_term string | Search | Sort sort_col | Page int | Per_page nat | Bracket jsval

inductive sc_reach :: "server \<Rightarrow> 'z scworld_scheme \<Rightarrow> bool" for srv where
  loaded: "sc_page w = 1 \<Longrightarrow> 0 < sc_per w \<Longrightarrow> sc_reach srv w"
| event: "sc_reach srv w \<Longrightarrow>
     w' = (case e of
        Type_term s \<Rightarrow> w\<lparr>sc_term := s\<rparr>
      | Search \<Rightarrow> handleSearch w
      | Sort c \<Rightarrow> requestSort c w
      | Page p \<Rightarrow> handlePageChange p w
      | Per_page n \<Rightarrow> setItemsPerPage n w
      | Bracket b \<Rightarrow> snd (select_bracket srv b w)) \<Longrightarrow> 0 < sc_per w' \<Longrightarrow> sc_reach srv w'"

definition page_ok :: "'z scworld_scheme \<Rightarrow> bool" where
  "page_ok w = (0 < sc_per w \<and> 1 \<le> sc_page w \<and> sc_page w \<le> max 1 (totalPages w))"

lemma totalPages_cong:
  "sc_scores v = sc_scores w \<Longrightarrow> sc_query v = sc_query w \<Longrightarrow> sc_sort v = sc_sort w \<Longrightarrow> sc_per v = sc_per w \<Longrightarrow>
   totalPages v = totalPages w"
  by (simp add: totalPages_def sc_filtered_def)

lemma page_one_ok: "sc_page w = 1 \<Longrightarrow> 0 < sc_per w \<Longrightarrow> page_ok w"
  by (simp add: page_ok_def)

lemma page_ok_reach: "sc_reach srv w \<Longrightarrow> page_ok w"
proof (induction rule: sc_reach.induct)
  case (loaded w)
  then show ?case by (rule page_one_ok)
next
  case (event w w' e)
  show ?case
  proof (cases e)
    case (Type_term s)
    then have "w' = w\<lparr>sc_term := s\<rparr>" using event by simp
    then show ?thesis
      using event.IH totalPages_cong [of w' w] by (simp add: page_ok_def)
  next
    case (Page p)
    then have "w' = handlePageChange p w" using event by simp
    then show ?thesis
      using event.IH totalPages_cong [of w' w] by (simp add: page_ok_def handlePageChange_def)
  next
    case (Bracket b)
    then show ?thesis
      using event fetchScores_view [of srv False "w\<lparr>sc_bracket := b, sc_page := 1\<rparr>"]
      by (intro page_one_ok) (simp_all add: select_bracket_def)
  qed (use event in \<open>auto intro!: page_one_ok simp: handleSearch_def requestSort_def setItemsPerPage_def\<close>)
qed

interpretation score_pager: pager "Suc n" "\<lambda>k xs. take (Suc n) (drop (Suc n * k) xs)" for n
  by unfold_locales simp_all

lemma paginated_slice:
  assumes "1 \<le> sc_page w"
  shows "paginatedScores w = take (sc_per w) (drop (sc_per w * nat (sc_page w - 1)) (sc_filtered w))"
proof -
  have "nat ((sc_page w - 1) * int (sc_per w)) = sc_per w * nat (sc_page w - 1)"
    using assms by (simp add: nat_mult_distrib mult.commute)
  then show ?thesis by (simp add: paginatedScores_def)
qed

subsection \<open>Properties\<close>

text \<open>C24: whatever the user searches, sorts, chooses and pages through, the page shown exists: as soon as a
  team matches, the page has a team on it, and the pages from the first to the last are the matching
  teams, each on one page.\<close>
theorem scoreboard_pages:
  assumes "sc_reach srv w" "sc_filtered w \<noteq> []"
  shows "paginatedScores w \<noteq> [] \<and> 1 \<le> sc_page w \<and> sc_page w \<le> totalPages w \<and>
    concat (map (\<lambda>k. paginatedScores (w\<lparr>sc_page := 1 + int k\<rparr>)) [0..<nat (totalPages w)]) = sc_filtered w"
proof -
  have ok: "0 < sc_per w" "1 \<le> sc_page w" "sc_page w \<le> max 1 (totalPages w)"
    using page_ok_reach [OF assms(1)] by (simp_all add: page_ok_def)
  obtain n where n: "sc_per w = Suc n" using ok(1) gr0_implies_Suc by blast
  have "totalPages w \<noteq> 0"
    using ceil_div_pos [OF ok(1), of "length (sc_filtered w)"] assms(2) by (simp add: totalPages_def)
  then have t: "sc_page w \<le> totalPages w" using ok(3) by (simp add: totalPages_def)
  have "take (Suc n) (drop (Suc n * nat (sc_page w - 1)) (sc_filtered w)) \<noteq> []"
    using ok(2) t n by (intro score_pager.page_filled) (simp add: totalPages_def)
  then have "paginatedScores w \<noteq> []"
    using paginated_slice [OF ok(2)] n by simp
  moreover have "paginatedScores (w\<lparr>sc_page := 1 + int k\<rparr>) = take (Suc n) (drop (Suc n * k) (sc_filtered w))" for k
    using paginated_slice [of "w\<lparr>sc_page := 1 + int k\<rparr>"] n by (simp add: sc_filtered_def)
  ultimately show ?thesis
    using score_pager.partition [of n "sc_filtered w"] ok(2) t n by (simp add: totalPages_def)
qed

text \<open>Three teams shown two per page, and the second page of them.\<close>

definition three_teams :: jsval where
  "three_teams = Arr (map (\<lambda>n. Obj [(''name'', Str [n])]) ''abc'')"

definition score0 :: scworld where
  "score0 = \<lparr>store = [], clock = 0, sent = [], path = [], redirect = None, popups = [], fired = [], base_url = [],
     sc_scores = three_teams, sc_error = [], sc_visibility = None, sc_loading = False, sc_refreshing = False,
     sc_term = [], sc_query = [], sc_sort = None, sc_page = 1, sc_per = 2, sc_bracket = Undef\<rparr>"

lemma score0_filtered: "map team_name (sc_filtered (score0\<lparr>sc_page := p\<rparr>)) = [''a'', ''b'', ''c'']"
  by (simp add: sc_filtered_def score0_def filteredScores_def sort_rows_def rows_def entries_def three_teams_def
      team_name_def lower_def upt_rec)

lemma score0_reach: "sc_reach srv (handlePageChange p score0)"
  by (rule sc_reach.event [where e = "Page p" and w = score0, OF sc_reach.loaded])
     (simp_all add: score0_def handlePageChange_def)

theorem scoreboard_pages_witness:
  "sc_filtered (handlePageChange 7 score0) \<noteq> [] \<and> paginatedScores (handlePageChange 7 score0) \<noteq> []"
proof -
  have "sc_filtered (handlePageChange 7 score0) \<noteq> []"
    using score0_filtered unfolding handlePageChange_def by (metis list.distinct(1) list.map_disc_iff)
  then show ?thesis using scoreboard_pages [OF score0_reach] by blast
qed

text \<open>A refresh keeps the page number, so it may leave the user on a page that does not exist: when
  fewer teams come back, the table says no team was found although there are teams.\<close>
theorem refresh_may_empty_page:
  "\<exists>srv (w :: scworld). sc_reach srv w \<and> paginatedScores w \<noteq> [] \<and>
     (case sc_handleRefresh srv w of (r, w') \<Rightarrow>
        r = Inr () \<and> sc_filtered w' \<noteq> [] \<and> paginatedScores w' = [] \<and> totalPages w' < sc_page w')"
proof -
  let ?srv = "\<lambda>_ _. (1, Reply \<lparr>status = 200, body = JBody (Obj [(''data'', Arr [Obj [(''name'', Str ''a'')]])])\<rparr>) :: nat \<times> outcome"
  let ?w = "score0\<lparr>sc_page := 2\<rparr>"
  have t: "totalPages score0 = 2"
    using arg_cong [OF score0_filtered [of 1], of length]
    by (simp add: totalPages_def ceil_div_def) (simp add: score0_def)
  then have "handlePageChange 2 score0 = ?w" by (simp add: handlePageChange_def)
  then have "sc_reach ?srv ?w" using score0_reach [of ?srv 2] by simp
  moreover have "paginatedScores ?w \<noteq> []" by code_simp
  moreover have "case sc_handleRefresh ?srv ?w of (r, w') \<Rightarrow>
        r = Inr () \<and> sc_filtered w' \<noteq> [] \<and> paginatedScores w' = [] \<and> totalPages w' < sc_page w'"
    by code_simp
  ultimately show ?thesis
    by (intro exI [where x = ?srv] exI [where x = ?w] conjI)
qed

text \<open>The rows shown are the matching teams, in the order asked for: sorting loses and repeats no team,
  sorts by the column, and keeps the order of the standings among equal values.\<close>
theorem scoreboard_order:
  "case cfg of
     None \<Rightarrow> filteredScores scores q cfg = filter (\<lambda>r. has_substring (lower (team_name r)) (lower q)) (rows scores)
   | Some (c, d) \<Rightarrow>
       mset (filteredScores scores q cfg) = mset (filteredScores scores q None) \<and>
       sorted (map (\<lambda>r. case d of Asc \<Rightarrow> sort_value c r | Desc \<Rightarrow> - sort_value c r) (filteredScores scores q cfg)) \<and>
       filter (\<lambda>r. sort_value c r = v) (filteredScores scores q cfg) =
         filter (\<lambda>r. sort_value c r = v) (filteredScores scores q None)"
proof -
  have "filter (\<lambda>r. sort_value c r = v) (sort_key (\<lambda>r. - sort_value c r) rs) = filter (\<lambda>r. sort_value c r = v) rs" for c rs
    using sort_key_stable [of "\<lambda>r. - sort_value c r" "- v" rs] by simp
  then show ?thesis
    by (auto simp: filteredScores_def sort_rows_def sort_key_stable split: sort_dir.split option.split)
qed

text \<open>The place of a team in an array of standings counts from 0, and the mark of the top three is
  given to places 0 to 3: the team shown as number 4 carries it too.\<close>
theorem star_on_fourth:
  assumes "k < length ts"
  shows "rank_shown (rows (Arr ts) ! k) = Num (of_nat (Suc k)) \<and> (is_top3 (rows (Arr ts) ! k) \<longleftrightarrow> Suc k \<le> 4)"
proof -
  have "r_top (rows (Arr ts) ! k) = Num (of_nat k)"
    using assms parseInt_show_int [of "int k"] by (simp add: rows_def entries_def show_int_def)
  then show ?thesis by (simp add: rank_shown_def is_top3_def)
qed

theorem star_on_fourth_witness:
  "rank_shown (rows three_teams ! 2) = Num 3 \<and> is_top3 (rows three_teams ! 2)"
  using star_on_fourth [of 2 "elems three_teams"] by (simp add: three_teams_def)

lemma mod_div_eq: "n = b * c \<Longrightarrow> 0 < b \<Longrightarrow> 0 < c \<Longrightarrow> (d mod n) div b = d div b mod c" for b c d n :: int
  by (simp add: zmod_zmult2_eq)

lemma div_div_eq: "n = b * c \<Longrightarrow> 0 < c \<Longrightarrow> d div n = d div b div c" for b c d n :: int
  by (simp add: zdiv_zmult2_eq)

lemma time_mods:
  fixes d :: int
  shows "(d mod 86400000) div 3600000 = d div 3600000 mod 24" "(d mod 3600000) div 60000 = d div 60000 mod 60"
    "(d mod 60000) div 1000 = d div 1000 mod 60"
  by (rule mod_div_eq; simp)+

lemma time_divs:
  fixes d :: int
  shows "d div 86400000 = d div 3600000 div 24" "d div 3600000 = d div 60000 div 60" "d div 60000 = d div 1000 div 60"
  by (rule div_div_eq; simp)+

lemma split_time_alt:
  "split_time p d = \<lparr>t_phase = p, t_days = d div 86400000, t_hours = d div 3600000 mod 24,
     t_minutes = d div 60000 mod 60, t_seconds = d div 1000 mod 60\<rparr>"
proof -
  have "1000 * 60 * 60 * 24 = (86400000 :: int)" "1000 * 60 * 60 = (3600000 :: int)" "1000 * 60 = (60000 :: int)"
    by simp_all
  then show ?thesis by (simp only: split_time_def time_mods)
qed

lemma time_parts:
  fixes d :: int
  shows "d div 86400000 * 86400 + d div 3600000 mod 24 * 3600 + d div 60000 mod 60 * 60 + d div 1000 mod 60 = d div 1000"
proof -
  define x y z where "x = d div 1000" and "y = x div 60" and "z = y div 60"
  have "x = y * 60 + x mod 60" "y = z * 60 + y mod 60" "z = z div 24 * 24 + z mod 24"
    by (simp_all only: y_def z_def div_mult_mod_eq)
  then have "z div 24 * 86400 + z mod 24 * 3600 + y mod 60 * 60 + x mod 60 = x" by linarith
  then show ?thesis
    by (simp only: time_divs(1) time_divs(2) time_divs(3) x_def y_def z_def)
qed

lemma split_time_exact:
  assumes "0 < d"
  shows "case split_time p d of c \<Rightarrow>
     t_days c * 86400 + t_hours c * 3600 + t_minutes c * 60 + t_seconds c = d div 1000 \<and>
     0 \<le> t_days c \<and> t_hours c \<in> {0..23} \<and> t_minutes c \<in> {0..59} \<and> t_seconds c \<in> {0..59} \<and> t_phase c = p"
proof -
  have "0 \<le> d div 86400000" using assms by (simp add: pos_imp_zdiv_nonneg_iff)
  moreover have "x mod 24 \<in> {0..23}" "x mod 60 \<in> {0..59}" for x :: int
    using pos_mod_sign [of 24 x] pos_mod_bound [of 24 x] pos_mod_sign [of 60 x] pos_mod_bound [of 60 x] by simp_all
  ultimately show ?thesis
    unfolding split_time_alt using time_parts [of d] by (simp only: countdown.simps simp_thms)
qed

text \<open>The countdown of the public page is exact: in every phase its days, hours, minutes and seconds
  are in range and add up to the whole seconds left until the start or the end, and the contest counts
  as ended exactly when neither lies ahead.\<close>
theorem countdown_exact:
  "case public_time_remaining now start fin of c \<Rightarrow>
     t_days c * 86400 + t_hours c * 3600 + t_minutes c * 60 + t_seconds c =
       (if now < start then start - now else if now < fin then fin - now else 0) div 1000 \<and>
     0 \<le> t_days c \<and> t_hours c \<in> {0..23} \<and> t_minutes c \<in> {0..59} \<and> t_seconds c \<in> {0..59} \<and>
     (t_phase c = Ended \<longleftrightarrow> start \<le> now \<and> fin \<le> now)"
proof (cases "now < start \<or> now < fin")
  case True
  define d where "d = (if now < start then start - now else fin - now)"
  have "0 < d" "public_time_remaining now start fin = split_time (if now < start then Starting else Running) d"
    using True by (auto simp: public_time_remaining_def d_def)
  then show ?thesis
    using split_time_exact [of d "if now < start then Starting else Running"] True by (auto simp: d_def)
next
  case False
  then show ?thesis by (simp add: public_time_remaining_def)
qed

lemma foldl_sum: "foldl (\<lambda>a s. a + f s) (b :: rat) xs = b + sum_list (map f xs)"
  by (induction xs arbitrary: b) (simp_all add: add.assoc)

lemma score_at_sum:
  "score_at date t r = sum_list (map (\<lambda>s. if solve_time date s \<le> t then num_val (oget s ''value'') else 0) (solves_of r))"
  by (simp add: score_at_def foldl_sum sum_list_map_filter')

text \<open>The chart's points are in strictly ascending order of time and there is one for every solve. A
  team's line starts at 0, never falls when the values of its solves are not negative, and ends at
  the sum of their values.\<close>
theorem chart_lines:
  assumes "r \<in> set ts" "\<forall>s \<in> set (solves_of r). 0 \<le> num_val (oget s ''value'')"
  shows "sorted_wrt (<) (map p_time (chart_data date ts)) \<and>
    (\<forall>s \<in> set (solves_of r). \<exists>p \<in> set (chart_data date ts). p_time p = solve_time date s) \<and>
    (t \<le> u \<longrightarrow> score_at date t r \<le> score_at date u r) \<and>
    ((\<forall>s \<in> set (solves_of r). solve_time date s \<le> u) \<longrightarrow>
       score_at date u r = (\<Sum>s\<leftarrow>solves_of r. num_val (oget s ''value'')))"
proof (intro conjI impI)
  have sorted: "sorted_wrt (<) (all_dates date ts)"
    unfolding all_dates_def by (simp add: strict_sorted_iff)
  then show "sorted_wrt (<) (map p_time (chart_data date ts))"
    by (cases "all_dates date ts") (auto simp: chart_data_def comp_def)
  show "\<forall>s \<in> set (solves_of r). \<exists>p \<in> set (chart_data date ts). p_time p = solve_time date s"
  proof
    fix s
    assume "s \<in> set (solves_of r)"
    then have "solve_time date s \<in> set (all_dates date ts)"
      using assms(1) by (auto simp: all_dates_def)
    then show "\<exists>p \<in> set (chart_data date ts). p_time p = solve_time date s"
      by (force simp: chart_data_def Let_def)
  qed
  show "score_at date t r \<le> score_at date u r" if "t \<le> u"
    unfolding score_at_sum by (rule sum_list_mono) (use assms(2) that in auto)
  show "score_at date u r = (\<Sum>s\<leftarrow>solves_of r. num_val (oget s ''value''))"
    if "\<forall>s \<in> set (solves_of r). solve_time date s \<le> u"
    unfolding score_at_sum using that by (intro arg_cong [where f = sum_list] map_cong) auto
qed

theorem chart_lines_witness:
  "score_at (\<lambda>v. \<lfloor>num_val v\<rfloor>) 9
     \<lparr>r_top = Num 0, r_team = Obj [(''name'', Str ''a''),
        (''solves'', Arr [Obj [(''date'', Num 5), (''value'', Num 10)], Obj [(''date'', Num 8), (''value'', Num 20)]])]\<rparr> = 30"
proof -
  let ?r = "\<lparr>r_top = Num 0, r_team = Obj [(''name'', Str ''a''),
        (''solves'', Arr [Obj [(''date'', Num 5), (''value'', Num 10)], Obj [(''date'', Num 8), (''value'', Num 20)]])]\<rparr>"
  have "\<forall>s \<in> set (solves_of ?r). 0 \<le> num_val (oget s ''value'')"
    "\<forall>s \<in> set (solves_of ?r). solve_time (\<lambda>v. \<lfloor>num_val v\<rfloor>) s \<le> 9"
    "(\<Sum>s\<leftarrow>solves_of ?r. num_val (oget s ''value'')) = 30"
    by (simp_all add: solves_of_def num_val_def solve_time_def)
  then show ?thesis
    using chart_lines [where r = ?r and ts = "[?r]" and date = "\<lambda>v. \<lfloor>num_val v\<rfloor>" and u = 9] by simp
qed

text \<open>The latest solver shown is a team with a solve that no other solve of the teams ranked is later than.\<close>
theorem latest_solver_latest:
  assumes "latest_solver date ranked = Some n"
  shows "\<exists>r \<in> set ranked. \<exists>s \<in> set (solves_of r). team_name r = n \<and>
    (\<forall>r' \<in> set ranked. \<forall>s' \<in> set (solves_of r'). solve_time date s' \<le> solve_time date s)"
proof -
  define all where "all = concat (map (\<lambda>r. map (\<lambda>s. (team_name r, solve_time date s)) (solves_of r)) ranked)"
  obtain d xs where xs: "sort_key (\<lambda>(_, d). - d) all = (n, d) # xs"
    using assms by (auto simp: latest_solver_def all_def solve_time_def Let_def split: list.splits)
  have "e \<le> d" if "(m, e) \<in> set all" for m e
  proof -
    have "(m, e) \<in> set ((n, d) # xs)" using that arg_cong [OF xs, of set] by simp
    moreover have "sorted (map (\<lambda>(_, d). - d) ((n, d) # xs))"
      by (simp only: xs [symmetric] sorted_sort_key)
    ultimately show ?thesis by auto
  qed
  note latest = this
  have "(n, d) \<in> set all" using arg_cong [OF xs, of set] by auto
  then obtain r s where r: "r \<in> set ranked" "s \<in> set (solves_of r)" "team_name r = n" "solve_time date s = d"
    unfolding all_def by auto
  moreover have "solve_time date s' \<le> d" if "r' \<in> set ranked" "s' \<in> set (solves_of r')" for r' s'
    using latest [of "team_name r'" "solve_time date s'"] that by (auto simp: all_def)
  ultimately show ?thesis by blast
qed

theorem latest_solver_latest_witness:
  "latest_solver (\<lambda>v. \<lfloor>num_val v\<rfloor>)
     [\<lparr>r_top = Num 0, r_team = Obj [(''name'', Str ''a''), (''solves'', Arr [Obj [(''date'', Num 5)]])]\<rparr>] = Some ''a'' \<and>
   (\<exists>r \<in> set [\<lparr>r_top = Num 0, r_team = Obj [(''name'', Str ''a''), (''solves'', Arr [Obj [(''date'', Num 5)]])]\<rparr>].
      team_name r = ''a'')"
proof -
  have "latest_solver (\<lambda>v. \<lfloor>num_val v\<rfloor>)
     [\<lparr>r_top = Num 0, r_team = Obj [(''name'', Str ''a''), (''solves'', Arr [Obj [(''date'', Num 5)]])]\<rparr>] = Some ''a''"
    by (simp add: latest_solver_def solves_of_def team_name_def)
  then show ?thesis using latest_solver_latest by blast
qed

end
