(* ===== verification/ChartLines.thy ===== *)
theory ChartLines
  imports Standings
begin

section \<open>The lines of the charts\<close>

text \<open>
  What \<open>components/ChartComponent.tsx\<close> and \<open>components/PublicChartComponent.tsx\<close> draw from the points of
  \<open>Standings\<close>: the lines with their colours and widths, the legend, and the text shown at a point. Both make
  their points with the same code. How a line is laid out is the chart library's.
\<close>

definition COLORS :: "string list" where
  "COLORS = [''#00ff9f'', ''#00d4ff'', ''#ff00ff'', ''#ffff00'', ''#ff3864'', ''#7b2cbf'', ''#06ffa5'', ''#ff006e'']"

definition TEAM_COLORS :: "string list" where
  "TEAM_COLORS =
     [''#ff0000'', ''#00ff00'', ''#0000ff'', ''#ffff00'', ''#ff00ff'', ''#00ffff'', ''#ff8800'', ''#8800ff'', ''#00ff88'', ''#ff0088'',
      ''#88ff00'', ''#0088ff'', ''#ff6600'', ''#6600ff'', ''#00ff66'', ''#ff0066'', ''#66ff00'', ''#0066ff'', ''#ff3333'', ''#33ff33'']"

record chart_line =
  li_key :: string
  li_color :: string
  li_width :: nat

definition nth_color :: "string list \<Rightarrow> nat \<Rightarrow> string" where
  "nth_color cs i = cs ! (i mod length cs)"

subsection \<open>The chart of the contest\<close>

text \<open>Every team drawn is the one selected, when one is selected; it is then the only line, and wide.\<close>

definition chart_lines_of :: "row list \<Rightarrow> jsval \<Rightarrow> chart_line list" where
  "chart_lines_of ts selected =
     map (\<lambda>(i, n).
         let marked = (if truthy selected
               then (case find (\<lambda>r. team_name r = n) ts of None \<Rightarrow> False | Some r \<Rightarrow> seq (oget (r_team r) ''id'') selected)
               else True)
         in \<lparr>li_key = n, li_color = nth_color COLORS i, li_width = (if marked then 3 else 2)\<rparr>)
       (enumerate 0 (visible_teams ts selected))"

subsection \<open>The public chart\<close>

definition public_chart_data :: "(jsval \<Rightarrow> int) \<Rightarrow> row list \<Rightarrow> chart_point list" where
  "public_chart_data date ts = chart_data date ts"

datatype public_chart = No_chart_data | Chart "chart_point list" "chart_line list"

definition PublicChartComponent :: "(jsval \<Rightarrow> int) \<Rightarrow> row list \<Rightarrow> public_chart" where
  "PublicChartComponent date ts =
     (let ps = public_chart_data date ts
      in if ps = [] then No_chart_data
         else Chart ps (map (\<lambda>(i, n). \<lparr>li_key = n, li_color = nth_color TEAM_COLORS i, li_width = (if i = 0 then 4 else 2)\<rparr>)
                (enumerate 0 (map team_name ts))))"

text \<open>What the pointer shows at a point, if the chart says it is over one.\<close>

definition CustomTooltip :: "bool \<Rightarrow> (string \<times> string \<times> string) list \<Rightarrow> string \<Rightarrow> (string \<times> string list) option" where
  "CustomTooltip active payload label =
     (if active \<and> payload \<noteq> [] then Some (label, map (\<lambda>(n, c, v). n @ '': '' @ v) payload) else None)"

definition CustomLegend :: "chart_line list \<Rightarrow> (string \<times> string) list" where
  "CustomLegend ls = map (\<lambda>l. (li_key l, li_color l)) ls"

subsection \<open>Properties\<close>

lemma nth_color_eq:
  assumes "distinct cs" "cs \<noteq> []"
  shows "nth_color cs i = nth_color cs j \<longleftrightarrow> i mod length cs = j mod length cs"
  using assms by (simp add: nth_color_def nth_eq_iff_index_eq)

lemma distinct_colors: "distinct COLORS" "distinct TEAM_COLORS" "length COLORS = 8" "length TEAM_COLORS = 20"
  by (simp_all add: COLORS_def TEAM_COLORS_def)

text \<open>
  The public chart has a line for each team, in their order, the first one wide; two lines have the same
  colour just when their places differ by a multiple of twenty.
\<close>
theorem public_lines:
  assumes "PublicChartComponent date ts = Chart ps ls"
  shows "map li_key ls = map team_name ts \<and> ps \<noteq> [] \<and>
    (\<forall>i < length ts. \<forall>j < length ts. li_color (ls ! i) = li_color (ls ! j) \<longleftrightarrow> i mod 20 = j mod 20) \<and>
    (\<forall>i < length ts. li_width (ls ! i) = (if i = 0 then 4 else 2))"
proof -
  have ls: "ls = map (\<lambda>(i, n). \<lparr>li_key = n, li_color = nth_color TEAM_COLORS i, li_width = (if i = 0 then 4 else 2)\<rparr>)
      (enumerate 0 (map team_name ts))" and ps: "ps \<noteq> []"
    using assms by (auto simp: PublicChartComponent_def Let_def split: if_splits)
  have "TEAM_COLORS \<noteq> []" using distinct_colors(4) by auto
  note c = nth_color_eq [OF distinct_colors(2) this, unfolded distinct_colors(4)]
  have nth: "ls ! i = \<lparr>li_key = team_name (ts ! i), li_color = nth_color TEAM_COLORS i, li_width = (if i = 0 then 4 else 2)\<rparr>"
    if "i < length ts" for i using that by (simp add: ls nth_enumerate_eq)
  have "map li_key ls = map team_name ts"
    by (rule nth_equalityI) (simp_all add: ls nth_enumerate_eq)
  then show ?thesis using ps by (simp add: nth c)
qed

text \<open>With no team selected every line is wide; with one selected only its lines are drawn.\<close>
theorem selected_line:
  "(\<not> truthy sel \<longrightarrow> map li_key (chart_lines_of ts sel) = map team_name ts) \<and>
   (\<forall>l \<in> set (chart_lines_of ts sel). li_width l = 3)"
proof (intro conjI impI ballI)
  have keys: "map li_key (chart_lines_of ts sel) = visible_teams ts sel"
    by (rule nth_equalityI) (simp_all add: chart_lines_of_def nth_enumerate_eq Let_def)
  then show "map li_key (chart_lines_of ts sel) = map team_name ts" if "\<not> truthy sel"
    using that by (simp add: visible_teams_def)
  fix l assume "l \<in> set (chart_lines_of ts sel)"
  then obtain i n where n: "(i, n) \<in> set (enumerate 0 (visible_teams ts sel))" and
    l: "li_width l = (if truthy sel then (if (case find (\<lambda>r. team_name r = n) ts of None \<Rightarrow> False
          | Some r \<Rightarrow> seq (oget (r_team r) ''id'') sel) then 3 else 2) else 3)"
    by (auto simp: chart_lines_of_def Let_def)
  have "n \<in> set (visible_teams ts sel)" using n by (simp add: enumerate_eq_zip set_zip_rightD)
  then show "li_width l = 3" using l by (auto simp: visible_teams_def split: if_splits option.splits)
qed

end
