(* ===== verification/Support.thy ===== *)
theory Support
  imports Effects Accounts
begin

section \<open>Tickets and running instances\<close>

text \<open>
  The pages \<open>pages/Tickets.tsx\<close>, \<open>pages/TicketDetail.tsx\<close> and \<open>pages/Instances.tsx\<close>. A confirmation
  dialog is the argument \<open>confirmed\<close>, the user's answer. Texts of tickets and instances are texts, as
  their types declare. The state of the instances page extends the world of the timer service, which
  runs beside every page.
\<close>

text \<open>
  \<open>formatUTCToLocaleString\<close> of \<open>utils/timezone.ts\<close>; \<open>to_locale\<close> prints a date in the browser's locale.
\<close>

definition formatUTCToLocaleString ::
  "(string \<Rightarrow> 'd option) \<Rightarrow> (rat option \<Rightarrow> 'd) \<Rightarrow> ('d \<Rightarrow> bool) \<Rightarrow> ('d \<Rightarrow> string) \<Rightarrow> string + rat \<Rightarrow> string" where
  "formatUTCToLocaleString parse_iso of_ms valid to_locale inp =
     (let d = parseUTCToLocal parse_iso of_ms inp in if valid d then to_locale d else ''Invalid date'')"

definition showAlert :: "jsval \<Rightarrow> string \<Rightarrow> 'z world_scheme \<Rightarrow> 'z world_scheme" where
  "showAlert message icon w = show_popup icon [message] w"

subsection \<open>The list of tickets\<close>

record tkworld = world +
  tk_tickets :: jsval
  tk_loading :: bool
  tk_search :: string
  tk_filter :: string
  tk_modal :: bool
  tk_submitting :: bool

definition fetchTickets :: "server \<Rightarrow> (unit, 'z tkworld_scheme) action" where
  "fetchTickets srv w =
     finallyM (catchM
       (bindM (fetchWithAuth srv (endpoint_url TICKET_LIST) GET_opts) (\<lambda>r.
        bindM (lift (resp_json r)) (\<lambda>data.
          if truthy data \<and> truthy (oget data ''tickets'')
          then upd (\<lambda>w. w\<lparr>tk_tickets := oget data ''tickets''\<rparr>) else ret ())))
       (\<lambda>_. upd (showAlert (Str ''Failed to load tickets'') ''error'')))
     (\<lambda>w. w\<lparr>tk_loading := False\<rparr>) (w\<lparr>tk_loading := True\<rparr>)"

text \<open>
  Sending the form of a new ticket. Reloading the list is started and not awaited; it never throws and
  touches neither the form nor its button, so it is run after them.
\<close>

definition ticket_body :: "string \<Rightarrow> string \<Rightarrow> string \<Rightarrow> jsval" where
  "ticket_body title type description =
     Obj [(''title'', Str title), (''type'', Str type), (''description'', Str description)]"

definition ticket_created :: "response \<Rightarrow> jsval \<Rightarrow> (bool, 'z tkworld_scheme) action" where
  "ticket_created r data =
     (if nullish data then throw TypeError
      else if seq (oget data ''status'') (BoolV True) \<or> resp_ok r
      then bindM (upd (\<lambda>w. (showAlert (Str ''Ticket created successfully'') ''success'' w)\<lparr>tk_modal := False\<rparr>))
             (\<lambda>_. ret True)
      else bindM (upd (showAlert (js_or (oget data ''message'') (Str ''Failed to create ticket'')) ''error''))
             (\<lambda>_. ret False))"

definition ticket_submit :: "server \<Rightarrow> jsval \<Rightarrow> (unit, 'z tkworld_scheme) action" where
  "ticket_submit srv tk w =
     bindM (finallyM (catchM
         (bindM (fetchWithAuth srv (endpoint_url TICKET_CREATE) (POST_opts tk)) (\<lambda>r.
          bindM (lift (resp_json r)) (\<lambda>data. ticket_created r data)))
         (\<lambda>_. bindM (upd (showAlert (Str ''Failed to create ticket'') ''error'')) (\<lambda>_. ret False)))
       (\<lambda>w. w\<lparr>tk_submitting := False\<rparr>))
     (\<lambda>created. if created then fetchTickets srv else ret ()) (w\<lparr>tk_submitting := True\<rparr>)"

definition handleTicketClick :: "string \<Rightarrow> 'z world_scheme \<Rightarrow> 'z world_scheme" where
  "handleTicketClick i w = navigate (''/tickets/'' @ i) w"

definition DELETE_opts :: fetch_opts where
  "DELETE_opts = \<lparr>o_method = ''DELETE'', o_headers = [], o_body = None\<rparr>"

definition handleDeleteTicket :: "server \<Rightarrow> string \<Rightarrow> bool \<Rightarrow> (unit, 'z tkworld_scheme) action" where
  "handleDeleteTicket srv i confirmed =
     bindM (upd (show_popup ''Delete Ticket'' [])) (\<lambda>_.
     if \<not> confirmed then ret ()
     else catchM
       (bindM (fetchWithAuth srv (endpoint_url (TICKET_DELETE i)) DELETE_opts) (\<lambda>r.
        bindM (lift (resp_json r)) (\<lambda>data.
          if resp_ok r
          then bindM (upd (showAlert (Str ''Ticket deleted successfully'') ''success'')) (\<lambda>_. fetchTickets srv)
          else if nullish data then throw TypeError
          else upd (showAlert (js_or (oget data ''message'') (Str ''Failed to delete ticket'')) ''error''))))
       (\<lambda>_. upd (showAlert (Str ''Failed to delete ticket'') ''error'')))"

definition text_field :: "jsval \<Rightarrow> string \<Rightarrow> string" where
  "text_field v k = str_or (oget v k)"

definition matches_ticket :: "string \<Rightarrow> string \<Rightarrow> jsval \<Rightarrow> bool" where
  "matches_ticket search st t =
     ((has_substring (lower (text_field t ''title'')) (lower search) \<or>
       has_substring (lower (text_field t ''description'')) (lower search)) \<and>
      (st = ''all'' \<or> lower (text_field t ''status'') = lower st))"

definition filteredTickets :: "'z tkworld_scheme \<Rightarrow> jsval list" where
  "filteredTickets w = filter (matches_ticket (tk_search w) (tk_filter w)) (elems (tk_tickets w))"

definition getStatusIcon :: "string \<Rightarrow> string" where
  "getStatusIcon st =
     (if lower st = ''open'' then ''text-yellow-500'' else if lower st = ''in_progress'' then ''text-orange-500''
      else if lower st = ''closed'' then ''text-green-500'' else ''text-red-500'')"

text \<open>A row of the table; the button that deletes is there for open tickets without a reply.\<close>

record ticket_row =
  tr_id :: jsval
  tr_icon :: string
  tr_status :: string
  tr_delete :: bool

definition may_delete :: "jsval \<Rightarrow> bool" where
  "may_delete t = (lower (text_field t ''status'') = ''open'' \<and> \<not> truthy (oget t ''replier_message''))"

definition ticket_row_of :: "jsval \<Rightarrow> ticket_row" where
  "ticket_row_of t =
     \<lparr>tr_id = oget t ''id'', tr_icon = getStatusIcon (text_field t ''status''),
      tr_status = replace_first ''_'' '' '' (text_field t ''status''), tr_delete = may_delete t\<rparr>"

subsection \<open>One ticket\<close>

record tdworld = world +
  td_ticket :: "jsval option"
  td_loading :: bool

definition fetchTicketDetail :: "server \<Rightarrow> string \<Rightarrow> (unit, 'z tdworld_scheme) action" where
  "fetchTicketDetail srv i w =
     finallyM (catchM
       (bindM (fetchWithAuth srv (endpoint_url (TICKET_DETAIL i)) GET_opts) (\<lambda>r.
        bindM (lift (resp_json r)) (\<lambda>data.
        bindM (lift (get data ''data'')) (\<lambda>t.
          if truthy t then upd (\<lambda>w. w\<lparr>td_ticket := Some t\<rparr>) else ret ()))))
       (\<lambda>_. ret ()))
     (\<lambda>w. w\<lparr>td_loading := False\<rparr>) (w\<lparr>td_loading := True\<rparr>)"

definition ticket_mount :: "server \<Rightarrow> string \<Rightarrow> (unit, 'z tdworld_scheme) action" where
  "ticket_mount srv i = (if i \<noteq> [] then fetchTicketDetail srv i else ret ())"

datatype reply_box = Replied jsval | Awaiting | No_box

datatype ticket_view = Ticket_loading | Ticket_missing | Ticket_shown string reply_box

definition ticket_page :: "'z tdworld_scheme \<Rightarrow> ticket_view" where
  "ticket_page w =
     (if td_loading w then Ticket_loading
      else case td_ticket w of
          None \<Rightarrow> Ticket_missing
        | Some t \<Rightarrow> Ticket_shown (getStatusIcon (text_field t ''status''))
            (if truthy (oget t ''replierMessage'') then Replied (oget t ''replierMessage'')
             else if lower (text_field t ''status'') = ''open'' then Awaiting else No_box))"

subsection \<open>Running instances\<close>

record inworld = tworld +
  in_instances :: jsval
  in_loading :: bool
  in_refreshing :: bool
  in_stopping :: "int list"
  in_copied :: "int option"

definition fetchInstances :: "server \<Rightarrow> bool \<Rightarrow> (unit, 'z inworld_scheme) action" where
  "fetchInstances srv showRefreshing w =
     finallyM (catchM
       (bindM (fetchWithAuth srv (endpoint_url CH_INSTANCES) GET_opts) (\<lambda>r.
        bindM (lift (resp_json r)) (\<lambda>data.
        bindM (lift (get data ''success'')) (\<lambda>ok.
          if truthy ok \<and> truthy (oget data ''data'')
          then upd (\<lambda>w. w\<lparr>in_instances := oget data ''data''\<rparr>) else ret ()))))
       (\<lambda>_. upd (show_popup ''Error'' [Str ''Failed to load instances''])))
     (\<lambda>w. w\<lparr>in_loading := False, in_refreshing := False\<rparr>)
     (if showRefreshing then w\<lparr>in_refreshing := True\<rparr> else w\<lparr>in_loading := True\<rparr>)"

definition in_handleRefresh :: "server \<Rightarrow> (unit, 'z inworld_scheme) action" where
  "in_handleRefresh srv = fetchInstances srv True"

definition handleStop :: "server \<Rightarrow> int \<Rightarrow> string \<Rightarrow> bool \<Rightarrow> (unit, 'z inworld_scheme) action" where
  "handleStop srv i name confirmed =
     bindM (upd (show_popup ''Stop challenge'' [Str name])) (\<lambda>_.
     if \<not> confirmed then ret ()
     else bindM (upd (\<lambda>w. w\<lparr>in_stopping := List.insert i (in_stopping w)\<rparr>)) (\<lambda>_.
       finallyM (catchM
         (bindM (fetchWithAuth srv (endpoint_url CH_STOP) (POST_opts (stop_body i))) (\<lambda>r.
          bindM (lift (resp_json r)) (\<lambda>data.
          bindM (lift (get data ''success'')) (\<lambda>ok.
            if truthy ok
            then bindM (upd (show_popup ''Success'' [Str ''Challenge stopped''])) (\<lambda>_. fetchInstances srv False)
            else throw (ErrMsg (js_or (oget data ''message'') (Str ''Failed to stop challenge'')))))))
         (\<lambda>e. upd (show_popup ''Error''
            [Str (if error_message e = [] then ''Failed to stop challenge'' else error_message e)])))
       (\<lambda>w. w\<lparr>in_stopping := removeAll i (in_stopping w)\<rparr>)))"

definition handleNavigateToChallenge :: "int \<Rightarrow> string \<Rightarrow> 'z world_scheme \<Rightarrow> 'z world_scheme" where
  "handleNavigateToChallenge i category w =
     navigate (''/challenges?category='' @ encodeURIComponent category @ ''&challenge='' @ show_int i) w"

definition parseUnixTimeToDate :: "(rat \<Rightarrow> string) \<Rightarrow> string \<Rightarrow> string" where
  "parseUnixTimeToDate format_date s =
     (case parseInt s of Num q \<Rightarrow> if q \<le> 0 then ''N/A'' else format_date q | _ \<Rightarrow> ''N/A'')"

text \<open>\<open>replace(/^Connection string:\s*/i, '')\<close> and \<open>split(/\s+/)\<close>.\<close>

definition strip_prefix :: "string \<Rightarrow> string" where
  "strip_prefix s =
     (if starts_with ''connection string:'' (lower s) then dropWhile is_ws (drop 18 s) else s)"

function split_ws :: "string \<Rightarrow> string list" where
  "split_ws s =
     (let w = takeWhile (\<lambda>c. \<not> is_ws c) s; rest = dropWhile (\<lambda>c. \<not> is_ws c) s
      in case rest of [] \<Rightarrow> [w] | _ # t \<Rightarrow> w # split_ws (dropWhile is_ws t))"
  by pat_completeness auto
termination
proof (relation "measure length")
  fix s w rest c t
  assume "rest = dropWhile (\<lambda>c. \<not> is_ws c) (s :: string)" "rest = c # t"
  then have "length (c # t) \<le> length s" by (metis length_dropWhile_le)
  moreover have "length (dropWhile is_ws t) \<le> length t" by (rule length_dropWhile_le)
  ultimately show "(dropWhile is_ws t, s) \<in> measure length" by simp
qed simp

declare split_ws.simps [simp del]

definition parseAndFormatURL :: "string \<Rightarrow> string" where
  "parseAndFormatURL rawUrl =
     (let cleaned = trim (strip_prefix rawUrl)
      in case split_ws cleaned of host # port # _ \<Rightarrow> host @ '':'' @ port | _ \<Rightarrow> cleaned)"

text \<open>Copying an address marks the instance; a timer of two seconds takes the mark away.\<close>

definition handleCopyURL :: "bool \<Rightarrow> int \<Rightarrow> 'z inworld_scheme \<Rightarrow> 'z inworld_scheme" where
  "handleCopyURL copied i w = (if copied then w\<lparr>in_copied := Some i\<rparr> else w)"

record instance_row =
  ir_url :: "string option"
  ir_stop :: bool
  ir_stop_disabled :: bool

definition instance_row_of :: "'z inworld_scheme \<Rightarrow> int \<Rightarrow> jsval \<Rightarrow> instance_row" where
  "instance_row_of w i v =
     (let running = seq (oget v ''status'') (Str ''Running'')
      in \<lparr>ir_url = (if running then Some (parseAndFormatURL (text_field v ''challenge_url'')) else None),
          ir_stop = running, ir_stop_disabled = (i \<in> set (in_stopping w))\<rparr>)"

subsection \<open>Rules\<close>

lemma showAlert_simps [simp]:
  "sent (showAlert m k w) = sent w" "base_url (showAlert m k w) = base_url w" "store (showAlert m k w) = store w"
  "path (showAlert m k w) = path w" "world.more (showAlert m k w) = world.more w" "clock (showAlert m k w) = clock w"
  by (simp_all add: showAlert_def)

lemma tkworld_of_more:
  assumes "world.more w' = world.more w"
  shows "tk_modal w' = tk_modal w" "tk_submitting w' = tk_submitting w" "tk_tickets w' = tk_tickets w"
  using assms by (cases w; cases w'; simp)+

lemma tkworld_alert [simp]:
  "tk_modal (showAlert m k w) = tk_modal w" "tk_submitting (showAlert m k w) = tk_submitting w"
  "tk_modal (show_popup t xs w) = tk_modal w" "tk_submitting (show_popup t xs w) = tk_submitting w"
  by (rule tkworld_of_more; simp)+

lemma fetchTickets_run:
  obtains v where "fetchTickets srv w = (Inr (), v)" "\<not> tk_loading v" "tk_modal v = tk_modal w"
    "tk_submitting v = tk_submitting w" "\<exists>q. sent v = sent w @ [q] \<and> req_method q = ''GET''"
proof -
  let ?w = "w\<lparr>tk_loading := True\<rparr>" and ?q = "auth_request (endpoint_url TICKET_LIST) GET_opts (w\<lparr>tk_loading := True\<rparr>)"
  obtain x v where f: "fetchWithAuth srv (endpoint_url TICKET_LIST) GET_opts ?w = (x, v)"
    by (cases "fetchWithAuth srv (endpoint_url TICKET_LIST) GET_opts ?w")
  note step = fetchWithAuth_step [OF f]
  note view = tkworld_of_more [OF step(4)]
  have q: "req_method ?q = ''GET''" by (simp add: auth_request_def GET_opts_def)
  have "case fetchTickets srv w of (r, u) \<Rightarrow> r = Inr () \<and> \<not> tk_loading u \<and> tk_modal u = tk_modal w \<and>
    tk_submitting u = tk_submitting w \<and> sent u = sent w @ [?q]"
  proof (cases x)
    case (Inl e)
    then show ?thesis
      using f step view by (simp add: fetchTickets_def finallyM_def catchM_def bindM_def)
  next
    case (Inr r)
    then show ?thesis
      using f step view by (cases "resp_json r") (simp_all add: fetchTickets_def finallyM_def catchM_def bindM_def)
  qed
  with q that show ?thesis by (cases "fetchTickets srv w") auto
qed

lemma split_ws_single: "list_all (\<lambda>c. \<not> is_ws c) s \<Longrightarrow> split_ws s = [s]"
  by (subst split_ws.simps) (simp add: list_all_iff takeWhile_eq_all_conv [THEN iffD2] dropWhile_eq_Nil_conv [THEN iffD2])

lemma split_ws_word:
  assumes "list_all (\<lambda>c. \<not> is_ws c) h" "is_ws c"
  shows "split_ws (h @ c # t) = h # split_ws (dropWhile is_ws t)"
  using assms
  by (subst split_ws.simps) (simp add: list_all_iff takeWhile_append2 dropWhile_append2 Let_def)

lemma auth_request_cong:
  "store v = store w \<Longrightarrow> base_url v = base_url w \<Longrightarrow> auth_request u opts v = auth_request u opts w"
  by (simp add: auth_request_def getToken_def)

text \<open>Requests that only read.\<close>

definition only_reads :: "request list \<Rightarrow> bool" where
  "only_reads qs = list_all (\<lambda>q. req_method q = ''GET'') qs"

lemma fetchTickets_reads: "\<exists>v q. fetchTickets srv w = (Inr (), v) \<and> sent v = sent w @ [q] \<and> req_method q = ''GET'' \<and>
    tk_modal v = tk_modal w \<and> tk_submitting v = tk_submitting w"
  by (rule fetchTickets_run [of srv w]) blast

lemma fetchInstances_run:
  obtains v q where "fetchInstances srv b w = (Inr (), v)" "sent v = sent w @ [q]" "req_method q = ''GET''"
    "store_left w v" "in_stopping v = in_stopping w" "t_handles v = t_handles w" "t_pending v = t_pending w"
proof -
  define u where "u = (if b then w\<lparr>in_refreshing := True\<rparr> else w\<lparr>in_loading := True\<rparr>)"
  have u: "sent u = sent w" "store u = store w" "in_stopping u = in_stopping w" "t_handles u = t_handles w"
    "t_pending u = t_pending w" "base_url u = base_url w"
    by (simp_all add: u_def)
  obtain x v where f: "fetchWithAuth srv (endpoint_url CH_INSTANCES) GET_opts u = (x, v)"
    by (cases "fetchWithAuth srv (endpoint_url CH_INSTANCES) GET_opts u")
  note step = fetchWithAuth_step [OF f]
  have more: "in_stopping v = in_stopping u" "t_handles v = t_handles u" "t_pending v = t_pending u"
    using step(4) by (cases u; cases v; simp)+
  have p: "in_stopping (show_popup t xs v) = in_stopping v" "t_handles (show_popup t xs v) = t_handles v"
    "t_pending (show_popup t xs v) = t_pending v" for t xs
    by (simp_all add: show_popup_def)
  let ?q = "auth_request (endpoint_url CH_INSTANCES) GET_opts u"
  have "case fetchInstances srv b w of (r, z) \<Rightarrow> r = Inr () \<and> sent z = sent w @ [?q] \<and> store z = store v \<and>
    in_stopping z = in_stopping w \<and> t_handles z = t_handles w \<and> t_pending z = t_pending w"
  proof (cases x)
    case (Inl e)
    then show ?thesis
      using f step more p u by (simp add: fetchInstances_def u_def [symmetric] finallyM_def catchM_def bindM_def)
  next
    case (Inr r)
    show ?thesis
    proof (cases "resp_json r")
      case Inl
      then show ?thesis using \<open>x = Inr r\<close> f step more p u
        by (simp add: fetchInstances_def u_def [symmetric] finallyM_def catchM_def bindM_def)
    next
      case (Inr data)
      then show ?thesis using \<open>x = Inr r\<close> f step more p u
        by (cases "get data ''success''")
           (simp_all add: fetchInstances_def u_def [symmetric] finallyM_def catchM_def bindM_def)
    qed
  qed
  moreover have "req_method ?q = ''GET''" by (simp add: auth_request_def GET_opts_def)
  moreover have "store_left w v" using step(3) u(2) by (simp add: store_left_def)
  ultimately show ?thesis
    using that by (cases "fetchInstances srv b w") (auto simp: store_left_def)
qed

subsection \<open>Properties\<close>

text \<open>A ticket is deleted only after the user's confirmation, by exactly one request; what else is sent
  is at most the request that reloads the list. Nothing is thrown.\<close>
theorem delete_ticket:
  "case handleDeleteTicket srv i confirmed w of (r, w') \<Rightarrow> r = Inr () \<and>
     (if confirmed
      then \<exists>qs. sent w' = sent w @ auth_request (endpoint_url (TICKET_DELETE i)) DELETE_opts w # qs \<and>
        only_reads qs \<and> length qs \<le> 1
      else sent w' = sent w \<and> store w' = store w)"
proof (cases confirmed)
  case True
  let ?w = "show_popup ''Delete Ticket'' [] w"
  obtain x v where f: "fetchWithAuth srv (endpoint_url (TICKET_DELETE i)) DELETE_opts ?w = (x, v)"
    by (cases "fetchWithAuth srv (endpoint_url (TICKET_DELETE i)) DELETE_opts ?w")
  have s: "sent v = sent w @ [auth_request (endpoint_url (TICKET_DELETE i)) DELETE_opts w]"
    using fetchWithAuth_step(1) [OF f] auth_request_cong [of ?w w] by simp
  show ?thesis
  proof (cases x)
    case (Inl e)
    then show ?thesis using True f s
      by (simp add: handleDeleteTicket_def catchM_def bindM_def only_reads_def)
  next
    case (Inr r)
    obtain z q where t: "fetchTickets srv (showAlert (Str ''Ticket deleted successfully'') ''success'' v) = (Inr (), z)"
      "sent z = sent v @ [q]" "req_method q = ''GET''"
      using fetchTickets_reads [of srv "showAlert (Str ''Ticket deleted successfully'') ''success'' v"] by auto
    show ?thesis using True Inr f s t
      by (cases "resp_json r") (simp_all add: handleDeleteTicket_def catchM_def bindM_def only_reads_def)
  qed
qed (simp add: handleDeleteTicket_def bindM_def)

text \<open>Creating a ticket never throws and frees the button. Exactly one ticket is sent; the form is
  closed and the list reloaded together, exactly when the server says so, and a failure keeps the form
  and what was written in it.\<close>
theorem create_ticket:
  "case ticket_submit srv tk w of (r, w') \<Rightarrow> r = Inr () \<and> \<not> tk_submitting w' \<and>
     (\<exists>qs. sent w' = sent w @ auth_request (endpoint_url TICKET_CREATE) (POST_opts tk) w # qs \<and>
        only_reads qs \<and> (if qs = [] then tk_modal w' = tk_modal w else \<not> tk_modal w' \<and> length qs = 1))"
proof -
  let ?w = "w\<lparr>tk_submitting := True\<rparr>" and ?q = "auth_request (endpoint_url TICKET_CREATE) (POST_opts tk) w"
  obtain x v where f: "fetchWithAuth srv (endpoint_url TICKET_CREATE) (POST_opts tk) ?w = (x, v)"
    by (cases "fetchWithAuth srv (endpoint_url TICKET_CREATE) (POST_opts tk) ?w")
  have s: "sent v = sent w @ [?q]"
    using fetchWithAuth_step(1) [OF f] auth_request_cong [of ?w w] by simp
  have m: "tk_modal v = tk_modal w"
    using tkworld_of_more(1) [OF fetchWithAuth_step(4) [OF f]] by simp
  show ?thesis
  proof (cases x)
    case (Inl e)
    then show ?thesis using f s m
      by (simp add: ticket_submit_def finallyM_def catchM_def bindM_def only_reads_def)
  next
    case (Inr r)
    note x = this
    show ?thesis
    proof (cases "resp_json r")
      case (Inl e)
      then show ?thesis using x f s m
        by (simp add: ticket_submit_def finallyM_def catchM_def bindM_def only_reads_def)
    next
      case (Inr data)
      let ?u = "(showAlert (Str ''Ticket created successfully'') ''success'' v)\<lparr>tk_modal := False, tk_submitting := False\<rparr>"
      obtain z q where t: "fetchTickets srv ?u = (Inr (), z)" "sent z = sent v @ [q]" "req_method q = ''GET''"
        "\<not> tk_modal z" "\<not> tk_submitting z"
        using fetchTickets_reads [of srv ?u] by auto
      then show ?thesis using x Inr f s m
        by (simp add: ticket_submit_def ticket_created_def finallyM_def catchM_def bindM_def only_reads_def)
    qed
  qed
qed

lemma inworld_of_more:
  assumes "world.more w' = world.more w"
  shows "in_stopping w' = in_stopping w" "t_handles w' = t_handles w" "t_pending w' = t_pending w"
  using assms by (cases w; cases w'; simp)+

lemma inworld_popup [simp]:
  "in_stopping (show_popup t xs w) = in_stopping w" "t_handles (show_popup t xs w) = t_handles w"
  "t_pending (show_popup t xs w) = t_pending w"
  by (rule inworld_of_more; simp)+

text \<open>C29: Stopping an instance from the list of instances sends exactly one stop request, after the user's
  confirmation, and frees the button afterwards. It does not tell the timer service: the entries in
  local storage stay (unless the user is signed out), and so do the timeouts that are armed, one for
  the stopped challenge included, if there is one.\<close>
theorem stop_from_list:
  fixes w :: "'z inworld_scheme"
  shows "case handleStop srv i name confirmed w of (r, w') \<Rightarrow> r = Inr () \<and>
     store_left w w' \<and> t_pending w' = t_pending w \<and> t_handles w' = t_handles w \<and>
     (if confirmed
      then i \<notin> set (in_stopping w') \<and>
        (\<exists>qs. sent w' = sent w @ stop_request i w # qs \<and> only_reads qs \<and> length qs \<le> 1)
      else sent w' = sent w)"
proof (cases confirmed)
  case True
  define u where "u = (show_popup ''Stop challenge'' [Str name] w)
      \<lparr>in_stopping := List.insert i (in_stopping (show_popup ''Stop challenge'' [Str name] w))\<rparr>"
  have u: "sent u = sent w" "store u = store w" "base_url u = base_url w" "t_handles u = t_handles w" "t_pending u = t_pending w"
    by (simp_all add: u_def)
  obtain x v where f: "fetchWithAuth srv (endpoint_url CH_STOP) (POST_opts (stop_body i)) u = (x, v)"
    by (cases "fetchWithAuth srv (endpoint_url CH_STOP) (POST_opts (stop_body i)) u")
  have v: "sent v = sent w @ [stop_request i w]" "store_left w v" "t_handles v = t_handles w" "t_pending v = t_pending w"
    using fetchWithAuth_step [OF f] inworld_of_more [OF fetchWithAuth_step(4) [OF f]] u auth_request_cong [of u w]
    by (simp_all add: stop_request_def store_left_def)
  define g :: "'z inworld_scheme \<Rightarrow> 'z inworld_scheme" where "g = (\<lambda>w. w\<lparr>in_stopping := removeAll i (in_stopping w)\<rparr>)"
  have run: "handleStop srv i name True w = finallyM (catchM
         (bindM (fetchWithAuth srv (endpoint_url CH_STOP) (POST_opts (stop_body i))) (\<lambda>r.
          bindM (lift (resp_json r)) (\<lambda>data.
          bindM (lift (get data ''success'')) (\<lambda>ok.
            if truthy ok
            then bindM (upd (show_popup ''Success'' [Str ''Challenge stopped''])) (\<lambda>_. fetchInstances srv False)
            else throw (ErrMsg (js_or (oget data ''message'') (Str ''Failed to stop challenge'')))))))
         (\<lambda>e. upd (show_popup ''Error''
            [Str (if error_message e = [] then ''Failed to stop challenge'' else error_message e)]))) g u"
    by (simp add: handleStop_def bindM_def u_def g_def)
  obtain z q where t: "fetchInstances srv False (show_popup ''Success'' [Str ''Challenge stopped''] v) = (Inr (), z)"
    "sent z = sent v @ [q]" "req_method q = ''GET''" "store_left v z" "t_handles z = t_handles v" "t_pending z = t_pending v"
    by (rule fetchInstances_run [of srv False "show_popup ''Success'' [Str ''Challenge stopped''] v"])
       (auto simp: store_left_def)
  have z: "store_left w z" using sl.trans [OF v(2) t(4)] .
  have g: "sent (g w) = sent w" "store (g w) = store w" "t_handles (g w) = t_handles w" "t_pending (g w) = t_pending w"
    "i \<notin> set (in_stopping (g w))" for w :: "'z inworld_scheme"
    by (simp_all add: g_def)
  have p: "store_left w (g y)" if "store_left w y" for y :: "'z inworld_scheme"
    using that by (simp add: store_left_def g)
  consider e where "x = Inl e" | r e where "x = Inr r" "resp_json r = Inl e"
    | r d e where "x = Inr r" "resp_json r = Inr d" "get d ''success'' = Inl e"
    | r d y where "x = Inr r" "resp_json r = Inr d" "get d ''success'' = Inr y"
    by (metis sum.exhaust)
  then show ?thesis
    using True f v t z by cases (simp_all add: run finallyM_def catchM_def bindM_def g p only_reads_def store_left_def)
qed (simp add: handleStop_def bindM_def sl.refl store_left_def)

lemma trim_words:
  assumes "a \<noteq> []" "b \<noteq> []" "list_all (\<lambda>c. \<not> is_ws c) (a @ b)"
  shows "trim (a @ m @ b) = a @ m @ b"
proof -
  have "dropWhile is_ws (a @ t) = a @ t" for t using assms(1,3) by (cases a) auto
  moreover have "dropWhile is_ws (rev b @ t) = rev b @ t" for t
    using assms(2,3) by (cases b rule: rev_cases) auto
  ultimately show ?thesis by (simp add: trim_def)
qed

text \<open>An address that names a host and a port is copied as \<open>host:port\<close>, with or without the words
  \<open>Connection string:\<close> in front, whatever the space between them.\<close>
theorem address_shown:
  assumes "host \<noteq> []" "port \<noteq> []" "list_all (\<lambda>c. \<not> is_ws c) (host @ port)" "list_all is_ws sp" "sp \<noteq> []"
    and "\<not> starts_with ''connection string:'' (lower (host @ sp @ port))"
  shows "parseAndFormatURL (''Connection string: '' @ host @ sp @ port) = host @ '':'' @ port \<and>
         parseAndFormatURL (host @ sp @ port) = host @ '':'' @ port"
proof -
  obtain c t where sp: "sp = c # t" using assms(5) by (cases sp) auto
  have ws: "is_ws c" "list_all is_ws t" "list_all (\<lambda>c. \<not> is_ws c) host" "list_all (\<lambda>c. \<not> is_ws c) port"
    using assms(3,4) sp by simp_all
  have drop: "dropWhile is_ws (t @ port) = port"
  proof -
    have "dropWhile is_ws (t @ port) = dropWhile is_ws port"
      using ws(2) by (intro dropWhile_append2) (simp add: list_all_iff)
    then show ?thesis using ws(4) assms(2) by (cases port) auto
  qed
  have "split_ws (host @ sp @ port) = [host, port]"
    using split_ws_word [OF ws(3) ws(1), of "t @ port"] by (simp add: sp drop split_ws_single [OF ws(4)])
  moreover have "trim (host @ sp @ port) = host @ sp @ port"
    using trim_words [OF assms(1,2,3)] .
  moreover have "strip_prefix (host @ sp @ port) = host @ sp @ port"
    using assms(6) by (simp add: strip_prefix_def)
  moreover have "strip_prefix (''Connection string: '' @ host @ sp @ port) = host @ sp @ port"
  proof -
    have "lower (''Connection string: '' @ r) = ''connection string:'' @ '' '' @ lower r" for r
    proof -
      have "lower ''Connection string: '' = ''connection string: ''" by code_simp
      then show ?thesis by (simp add: lower_def)
    qed
    then have "starts_with ''connection string:'' (lower (''Connection string: '' @ host @ sp @ port))"
      by (metis starts_with_append)
    moreover have "dropWhile is_ws ('' '' @ host @ sp @ port) = host @ sp @ port"
      using ws(3) assms(1) by (cases host) (auto simp: is_ws_def)
    ultimately show ?thesis by (simp add: strip_prefix_def)
  qed
  ultimately show ?thesis by (simp only: parseAndFormatURL_def Let_def) simp
qed

theorem address_shown_witness:
  "parseAndFormatURL ''Connection string: ctf.fpt.vn  31337'' = ''ctf.fpt.vn:31337''"
proof -
  have "\<not> starts_with ''connection string:'' (lower ''ctf.fpt.vn  31337'')" by code_simp
  then show ?thesis
    using address_shown [of "''ctf.fpt.vn''" "''31337''" "''  ''"] by (simp add: is_ws_def)
qed

end
