(* ===== verification/ProfilePage.thy ===== *)
theory ProfilePage
  imports Support "HOL-Library.Multiset"
begin

section \<open>The profile page\<close>

text \<open>
  \<open>pages/Profile.tsx\<close>: the three requests it sends at once when it opens, the share of points shown,
  and changing the password. The requests run side by side: all of them are sent before any answer
  arrives, and \<open>order\<close> is the order in which the answers do.
\<close>

subsection \<open>State\<close>

record password_criteria =
  minLength :: bool
  uppercase :: bool
  lowercase :: bool
  has_number :: bool
  specialChar :: bool

record prworld = world +
  pr_user :: jsval
  pr_team :: jsval
  pr_percent :: rat
  pr_solves :: jsval
  pr_loading :: bool
  pr_modal :: bool
  pr_old :: string
  pr_new :: string
  pr_confirm :: string
  pr_criteria :: password_criteria
  pr_changing :: bool

definition no_criteria :: password_criteria where
  "no_criteria = \<lparr>minLength = False, uppercase = False, lowercase = False, has_number = False, specialChar = False\<rparr>"

subsection \<open>Loading\<close>

datatype profile_part = User_info | Team_points | Team_solves

fun part_url :: "profile_part \<Rightarrow> string" where
  "part_url User_info = endpoint_url USER_PROFILE"
| "part_url Team_points = ''/team/contestant''"
| "part_url Team_solves = ''/team/solves''"

text \<open>\<open>Number(v) || 0\<close>, and the share of the points in percent.\<close>

definition num_or_0 :: "jsval \<Rightarrow> rat" where
  "num_or_0 v = (case as_num v of None \<Rightarrow> 0 | Some q \<Rightarrow> q)"

definition finish_percent :: "jsval \<Rightarrow> rat" where
  "finish_percent d =
     (let score = num_or_0 (oget d ''score''); total = num_or_0 (oget d ''challengeTotalScore'');
          raw = (if total > 0 then score / total * 100 else 0)
      in min 100 (max 0 raw))"

fun store_part :: "profile_part \<Rightarrow> jsval \<Rightarrow> 'z prworld_scheme \<Rightarrow> 'z prworld_scheme" where
  "store_part User_info d w = w\<lparr>pr_user := d\<rparr>"
| "store_part Team_points d w = w\<lparr>pr_team := d, pr_percent := finish_percent d\<rparr>"
| "store_part Team_solves d w = w\<lparr>pr_solves := d\<rparr>"

text \<open>The answer to one of the requests; what goes wrong is only logged.\<close>

definition answer_data :: "response \<Rightarrow> jsval option" where
  "answer_data r =
     (case resp_json r of
        Inl e \<Rightarrow> None
      | Inr data \<Rightarrow> if truthy (oget data ''data'') then Some (oget data ''data'') else None)"

definition profile_answer :: "profile_part \<Rightarrow> outcome \<Rightarrow> 'z prworld_scheme \<Rightarrow> 'z prworld_scheme" where
  "profile_answer k out w =
     (case out of
        NetFail \<Rightarrow> w
      | Reply r \<Rightarrow> (case answer_data r of
            None \<Rightarrow> handle_401 r w | Some d \<Rightarrow> store_part k d (handle_401 r w)))"

definition profile_request :: "'z world_scheme \<Rightarrow> profile_part \<Rightarrow> request" where
  "profile_request w k = auth_request (part_url k) GET_opts w"

fun profile_reply :: "server \<Rightarrow> 'z world_scheme \<Rightarrow> profile_part \<Rightarrow> nat \<times> outcome" where
  "profile_reply srv w User_info = srv (sent w) (profile_request w User_info)"
| "profile_reply srv w Team_points = srv (sent w @ [profile_request w User_info]) (profile_request w Team_points)"
| "profile_reply srv w Team_solves =
     srv (sent w @ [profile_request w User_info, profile_request w Team_points]) (profile_request w Team_solves)"

definition all_parts :: "profile_part list" where
  "all_parts = [User_info, Team_points, Team_solves]"

definition fetchAllData :: "server \<Rightarrow> profile_part list \<Rightarrow> 'z prworld_scheme \<Rightarrow> 'z prworld_scheme" where
  "fetchAllData srv order w =
     (let w0 = w\<lparr>pr_loading := True\<rparr>;
          w1 = w0\<lparr>sent := sent w0 @ map (profile_request w0) all_parts\<rparr>;
          w2 = fold (\<lambda>k. profile_answer k (snd (profile_reply srv w0 k))) order w1
      in w2\<lparr>clock := clock w0 + int (Max (set (map (\<lambda>k. fst (profile_reply srv w0 k)) all_parts))),
           pr_loading := False\<rparr>)"

subsection \<open>Changing the password\<close>

definition upper_letter :: "char \<Rightarrow> bool" where
  "upper_letter c = (let n = (of_char c :: nat) in 65 \<le> n \<and> n \<le> 90)"

definition lower_letter :: "char \<Rightarrow> bool" where
  "lower_letter c = (let n = (of_char c :: nat) in 97 \<le> n \<and> n \<le> 122)"

definition special_char :: "char \<Rightarrow> bool" where
  "special_char c = (c \<in> set (''!@#$%^&*(),.?:{}|<>'' @ [CHR 0x22]))"

definition criteria_of :: "string \<Rightarrow> password_criteria" where
  "criteria_of p =
     \<lparr>minLength = (8 \<le> length p), uppercase = list_ex upper_letter p, lowercase = list_ex lower_letter p,
      has_number = list_ex is_digit p, specialChar = list_ex special_char p\<rparr>"

definition validatePassword :: "string \<Rightarrow> 'z prworld_scheme \<Rightarrow> 'z prworld_scheme" where
  "validatePassword p w = w\<lparr>pr_criteria := criteria_of p\<rparr>"

datatype password_field = Old_password | New_password | Confirm_password

fun handlePasswordInputChange :: "password_field \<Rightarrow> string \<Rightarrow> 'z prworld_scheme \<Rightarrow> 'z prworld_scheme" where
  "handlePasswordInputChange Old_password v w = w\<lparr>pr_old := v\<rparr>"
| "handlePasswordInputChange New_password v w = validatePassword v (w\<lparr>pr_new := v\<rparr>)"
| "handlePasswordInputChange Confirm_password v w = w\<lparr>pr_confirm := v\<rparr>"

definition criteria_list :: "password_criteria \<Rightarrow> bool list" where
  "criteria_list c = [minLength c, uppercase c, lowercase c, has_number c, specialChar c]"

definition password_error :: "'z prworld_scheme \<Rightarrow> string option" where
  "password_error w =
     (if pr_old w = [] \<or> pr_new w = [] \<or> pr_confirm w = [] then Some ''All fields are required!''
      else if pr_new w \<noteq> pr_confirm w then Some ''New password and confirm password do not match!''
      else if pr_old w = pr_new w then Some ''New password must be different from current password.''
      else if length (pr_new w) < 8 then Some ''New password must be at least 8 characters long.''
      else if \<not> list_all (\<lambda>b. b) (criteria_list (pr_criteria w))
      then Some ''Password does not meet all security requirements.'' else None)"

definition password_body :: "'z prworld_scheme \<Rightarrow> jsval" where
  "password_body w = Obj [(''oldPassword'', Str (pr_old w)), (''newPassword'', Str (pr_new w)),
     (''confirmPassword'', Str (pr_confirm w))]"

definition password_done :: "'z prworld_scheme \<Rightarrow> 'z prworld_scheme" where
  "password_done w =
     (showAlert (Str ''Password changed successfully!'') ''success'' w)
       \<lparr>pr_modal := False, pr_old := [], pr_new := [], pr_confirm := [], pr_criteria := no_criteria\<rparr>"

definition handleChangePassword :: "server \<Rightarrow> (unit, 'z prworld_scheme) action" where
  "handleChangePassword srv w =
     (case password_error w of
        Some m \<Rightarrow> (Inr (), showAlert (Str m) ''error'' w)
      | None \<Rightarrow>
          finallyM (catchM
            (bindM (fetchWithAuth srv (endpoint_url AUTH_CHANGE_PASSWORD) (POST_opts (password_body w))) (\<lambda>r.
             bindM (lift (resp_json r)) (\<lambda>data.
             bindM (lift (get data ''message'')) (\<lambda>m.
               if resp_ok r \<and> truthy m then upd password_done
               else upd (showAlert (js_or m (Str ''Failed to change password.'')) ''error'')))))
            (\<lambda>_. upd (showAlert (Str ''An error occurred while changing password. Please try again.'') ''error'')))
          (\<lambda>w. w\<lparr>pr_changing := False\<rparr>) (w\<lparr>pr_changing := True\<rparr>))"

text \<open>The strength shown: a label and the width of its bar.\<close>

definition getPasswordStrength :: "password_criteria \<Rightarrow> string \<times> nat" where
  "getPasswordStrength c =
     (let n = length (filter (\<lambda>b. b) (criteria_list c))
      in if n \<le> 2 then (''Weak'', 33) else if n \<le> 4 then (''Medium'', 66) else (''Strong'', 100))"

definition close_password :: "'z prworld_scheme \<Rightarrow> 'z prworld_scheme" where
  "close_password w = (if \<not> pr_changing w then w\<lparr>pr_modal := False\<rparr> else w)"

definition open_password :: "'z prworld_scheme \<Rightarrow> 'z prworld_scheme" where
  "open_password w = w\<lparr>pr_modal := True\<rparr>"

definition change_enabled :: "'z prworld_scheme \<Rightarrow> bool" where
  "change_enabled w = (\<not> pr_changing w \<and> pr_old w \<noteq> [] \<and> pr_new w \<noteq> [] \<and> pr_confirm w \<noteq> [] \<and> pr_new w = pr_confirm w)"

text \<open>The five latest entries of the team's activity are shown.\<close>

definition recent_activity :: "'z prworld_scheme \<Rightarrow> jsval list" where
  "recent_activity w = take 5 (elems (pr_solves w))"

subsection \<open>Runs\<close>

inductive pr_reach :: "server \<Rightarrow> 'z prworld_scheme \<Rightarrow> bool" for srv where
  opened: "pr_new w = [] \<Longrightarrow> pr_criteria w = no_criteria \<Longrightarrow> pr_percent w = 0 \<Longrightarrow> pr_reach srv w"
| load: "pr_reach srv w \<Longrightarrow> mset order = mset all_parts \<Longrightarrow> pr_reach srv (fetchAllData srv order w)"
| input: "pr_reach srv w \<Longrightarrow> pr_reach srv (handlePasswordInputChange f v w)"
| change: "pr_reach srv w \<Longrightarrow> pr_reach srv (snd (handleChangePassword srv w))"
| show_modal: "pr_reach srv w \<Longrightarrow> pr_reach srv (open_password w)"
| hide_modal: "pr_reach srv w \<Longrightarrow> pr_reach srv (close_password w)"

subsection \<open>Rules\<close>

lemma prworld_of_more:
  assumes "world.more w' = world.more w"
  shows "pr_user w' = pr_user w" "pr_team w' = pr_team w" "pr_percent w' = pr_percent w" "pr_solves w' = pr_solves w"
    "pr_new w' = pr_new w" "pr_criteria w' = pr_criteria w" "pr_modal w' = pr_modal w" "pr_old w' = pr_old w"
    "pr_confirm w' = pr_confirm w"
  using assms by (cases w; cases w'; simp)+

lemma prworld_alert [simp]:
  "pr_percent (showAlert m k w) = pr_percent w" "pr_new (showAlert m k w) = pr_new w"
  "pr_criteria (showAlert m k w) = pr_criteria w" "pr_modal (showAlert m k w) = pr_modal w"
  "pr_old (showAlert m k w) = pr_old w" "pr_confirm (showAlert m k w) = pr_confirm w"
  by (rule prworld_of_more; simp)+

lemma prworld_401 [simp]:
  "pr_percent (handle_401 r w) = pr_percent w" "pr_new (handle_401 r w) = pr_new w"
  "pr_criteria (handle_401 r w) = pr_criteria w"
  by (rule prworld_of_more; simp)+

lemma finish_percent_range: "0 \<le> finish_percent d \<and> finish_percent d \<le> 100"
  by (simp add: finish_percent_def Let_def)

definition pr_ok :: "'z prworld_scheme \<Rightarrow> bool" where
  "pr_ok w = (pr_criteria w = criteria_of (pr_new w) \<and> 0 \<le> pr_percent w \<and> pr_percent w \<le> 100)"

lemma no_criteria: "criteria_of [] = no_criteria"
  by (simp add: criteria_of_def no_criteria_def)

lemma pr_ok_store: "pr_ok w \<Longrightarrow> pr_ok (store_part k d w)"
  by (cases k) (simp_all add: pr_ok_def finish_percent_range)

lemma pr_ok_401: "pr_ok w \<Longrightarrow> pr_ok (handle_401 r w)"
  by (simp add: pr_ok_def)

lemma pr_ok_answer: "pr_ok w \<Longrightarrow> pr_ok (profile_answer k out w)"
  by (simp add: profile_answer_def pr_ok_store pr_ok_401 split: outcome.split option.split)

lemma pr_ok_fold: "pr_ok w \<Longrightarrow> pr_ok (fold (\<lambda>k. profile_answer k (f k)) ks w)"
  by (induction ks arbitrary: w) (simp_all add: pr_ok_answer)

lemma pr_ok_done: "pr_ok w \<Longrightarrow> pr_ok (password_done w)"
  by (simp add: pr_ok_def password_done_def no_criteria)

lemma password_request:
  obtains x v where "fetchWithAuth srv (endpoint_url AUTH_CHANGE_PASSWORD) (POST_opts b) (w\<lparr>pr_changing := True\<rparr>) = (x, v)"
    "sent v = sent w @ [auth_request (endpoint_url AUTH_CHANGE_PASSWORD) (POST_opts b) w]"
    "pr_old v = pr_old w" "pr_new v = pr_new w" "pr_confirm v = pr_confirm w" "pr_modal v = pr_modal w"
    "pr_criteria v = pr_criteria w" "pr_percent v = pr_percent w"
proof (cases "fetchWithAuth srv (endpoint_url AUTH_CHANGE_PASSWORD) (POST_opts b) (w\<lparr>pr_changing := True\<rparr>)")
  case (Pair x v)
  then show ?thesis
    using that [OF Pair] fetchWithAuth_step [OF Pair] prworld_of_more [OF fetchWithAuth_step(4) [OF Pair]]
      auth_request_cong [of "w\<lparr>pr_changing := True\<rparr>" w] by simp
qed

text \<open>The outcomes of a change that is sent.\<close>

lemma change_cases:
  assumes "password_error w = None"
  obtains w' where "handleChangePassword srv w = (Inr (), w')" "\<not> pr_changing w'" "pr_percent w' = pr_percent w"
    "sent w' = sent w @ [auth_request (endpoint_url AUTH_CHANGE_PASSWORD) (POST_opts (password_body w)) w]"
    "pr_new w' = pr_new w \<and> pr_old w' = pr_old w \<and> pr_confirm w' = pr_confirm w \<and> pr_modal w' = pr_modal w \<and>
       pr_criteria w' = pr_criteria w \<or>
     pr_new w' = [] \<and> pr_old w' = [] \<and> pr_confirm w' = [] \<and> \<not> pr_modal w' \<and> pr_criteria w' = no_criteria"
proof (rule password_request [of srv "password_body w" w])
  fix x v
  assume f: "fetchWithAuth srv (endpoint_url AUTH_CHANGE_PASSWORD) (POST_opts (password_body w)) (w\<lparr>pr_changing := True\<rparr>) = (x, v)"
    and v: "sent v = sent w @ [auth_request (endpoint_url AUTH_CHANGE_PASSWORD) (POST_opts (password_body w)) w]"
    "pr_old v = pr_old w" "pr_new v = pr_new w" "pr_confirm v = pr_confirm w" "pr_modal v = pr_modal w"
    "pr_criteria v = pr_criteria w" "pr_percent v = pr_percent w"
  note simps = handleChangePassword_def finallyM_def catchM_def bindM_def password_done_def
  consider e where "x = Inl e" | r e where "x = Inr r" "resp_json r = Inl e"
    | r d e where "x = Inr r" "resp_json r = Inr d" "get d ''message'' = Inl e"
    | r d m where "x = Inr r" "resp_json r = Inr d" "get d ''message'' = Inr m"
    by (metis sum.exhaust)
  then have "case handleChangePassword srv w of (y, w') \<Rightarrow> y = Inr () \<and> \<not> pr_changing w' \<and> pr_percent w' = pr_percent w \<and>
    sent w' = sent w @ [auth_request (endpoint_url AUTH_CHANGE_PASSWORD) (POST_opts (password_body w)) w] \<and>
    (pr_new w' = pr_new w \<and> pr_old w' = pr_old w \<and> pr_confirm w' = pr_confirm w \<and> pr_modal w' = pr_modal w \<and>
       pr_criteria w' = pr_criteria w \<or>
     pr_new w' = [] \<and> pr_old w' = [] \<and> pr_confirm w' = [] \<and> \<not> pr_modal w' \<and> pr_criteria w' = no_criteria)"
    using f v assms by cases (simp_all add: simps)
  then show thesis using that by (cases "handleChangePassword srv w") auto
qed

lemma pr_ok_change: "pr_ok w \<Longrightarrow> pr_ok (snd (handleChangePassword srv w))"
proof (cases "password_error w")
  case None
  assume "pr_ok w"
  then show ?thesis
    by (rule_tac change_cases [OF None, of srv]) (auto simp: pr_ok_def no_criteria)
next
  case (Some m)
  then show "pr_ok w \<Longrightarrow> ?thesis" by (simp add: handleChangePassword_def pr_ok_def)
qed

lemma pr_ok_reach: "pr_reach srv w \<Longrightarrow> pr_ok w"
proof (induction rule: pr_reach.induct)
  case (opened w)
  then show ?case by (simp add: pr_ok_def no_criteria)
next
  case (load w order)
  then have "pr_ok (w\<lparr>pr_loading := True, sent := s\<rparr>)" for s by (simp add: pr_ok_def)
  note f = pr_ok_fold [OF this]
  show ?case
    using f unfolding fetchAllData_def Let_def by (simp add: pr_ok_def)
next
  case (input w f v)
  then show ?case by (cases f) (simp_all add: pr_ok_def validatePassword_def)
qed (simp_all add: pr_ok_change, simp_all add: pr_ok_def open_password_def close_password_def)

subsection \<open>Properties\<close>

definition strong_password :: "string \<Rightarrow> bool" where
  "strong_password p = (8 \<le> length p \<and> list_ex upper_letter p \<and> list_ex lower_letter p \<and> list_ex is_digit p \<and>
     list_ex special_char p)"

text \<open>C27: Whatever was typed before, a change of the password is sent exactly when all fields are filled in,
  the new password differs from the old one, is repeated correctly and is strong: the marks kept
  beside the field never lag behind it. One request is sent; afterwards the button is free, and the
  form is either as it was or emptied and closed.\<close>
theorem change_password:
  assumes "pr_reach srv w"
  shows "case handleChangePassword srv w of (r, w') \<Rightarrow> r = Inr () \<and>
    (if pr_old w \<noteq> [] \<and> pr_new w = pr_confirm w \<and> pr_old w \<noteq> pr_new w \<and> strong_password (pr_new w)
     then sent w' = sent w @ [auth_request (endpoint_url AUTH_CHANGE_PASSWORD) (POST_opts (password_body w)) w] \<and>
       \<not> pr_changing w' \<and>
       (pr_new w' = pr_new w \<and> pr_old w' = pr_old w \<and> pr_confirm w' = pr_confirm w \<and> pr_modal w' = pr_modal w \<or>
        pr_new w' = [] \<and> pr_old w' = [] \<and> pr_confirm w' = [] \<and> \<not> pr_modal w')
     else sent w' = sent w \<and> (\<exists>m. popups w' = popups w @ [Popup ''error'' [Str m]]))"
proof -
  have "pr_criteria w = criteria_of (pr_new w)"
    using pr_ok_reach [OF assms] by (simp add: pr_ok_def)
  then have err: "password_error w = None \<longleftrightarrow>
      pr_old w \<noteq> [] \<and> pr_new w = pr_confirm w \<and> pr_old w \<noteq> pr_new w \<and> strong_password (pr_new w)"
    by (auto simp: password_error_def strong_password_def criteria_list_def criteria_of_def)
  show ?thesis
  proof (cases "password_error w")
    case None
    then show ?thesis
      using err by (rule_tac change_cases [OF None, of srv]) auto
  next
    case (Some m)
    then show ?thesis
      unfolding err [symmetric] by (simp add: handleChangePassword_def showAlert_def)
  qed
qed

text \<open>A signed-in user with a new password typed in.\<close>

definition prof0 :: prworld where
  "prof0 = \<lparr>store = [(TOKEN_KEY, Raw ''t'')], clock = 0, sent = [], path = ''/profile'', redirect = None, popups = [],
     fired = [], base_url = [], pr_user = Null, pr_team = Null, pr_percent = 0, pr_solves = Null, pr_loading = False,
     pr_modal = True, pr_old = ''old'', pr_new = [], pr_confirm = ''Str0ng!pass'', pr_criteria = no_criteria,
     pr_changing = False\<rparr>"

theorem change_password_witness:
  "map req_url (sent (snd (handleChangePassword (\<lambda>_ _. (1, NetFail))
     (handlePasswordInputChange New_password ''Str0ng!pass'' prof0)))) = [''/api/Auth/change-password'']"
proof -
  let ?w = "handlePasswordInputChange New_password ''Str0ng!pass'' prof0"
  have r: "pr_reach (\<lambda>_ _. (1, NetFail)) ?w"
    by (rule pr_reach.input) (rule pr_reach.opened; simp add: prof0_def)
  have "strong_password ''Str0ng!pass''" by code_simp
  moreover have "pr_old ?w = ''old''" "pr_new ?w = ''Str0ng!pass''" "pr_confirm ?w = ''Str0ng!pass''"
    "sent ?w = []" "base_url ?w = []"
    by (simp_all add: prof0_def validatePassword_def)
  ultimately show ?thesis
    using change_password [OF r] by (simp add: case_prod_unfold auth_request_def)
qed

lemma handle_401_store_part: "handle_401 r (store_part k d w) = store_part k d (handle_401 r w)"
  by (cases k) (simp_all add: handle_401_def goto_login_def clearSession_def on_auth_page_def)

lemma handle_401_comm: "handle_401 r (handle_401 s w) = handle_401 s (handle_401 r w)"
  by (simp add: handle_401_def goto_login_def clearSession_def on_auth_page_def)

lemma store_part_comm: "k \<noteq> k' \<Longrightarrow> store_part k d (store_part k' e w) = store_part k' e (store_part k d w)"
  by (cases k; cases k') simp_all

lemma profile_answer_comm:
  "k \<noteq> k' \<Longrightarrow> profile_answer k x (profile_answer k' y w) = profile_answer k' y (profile_answer k x w)"
  by (simp add: profile_answer_def handle_401_store_part handle_401_comm store_part_comm split: outcome.split option.split)

text \<open>C28: The three requests of the page are sent together, with the token it was opened with, and the
  order in which their answers arrive makes no difference: the page, the session and every other part
  of the state end up the same.\<close>
theorem answers_in_any_order:
  fixes w :: "'z prworld_scheme"
  assumes "mset order = mset all_parts"
  shows "fetchAllData srv order w = fetchAllData srv all_parts w \<and>
    sent (fetchAllData srv order w) = sent w @ map (profile_request w) all_parts"
proof -
  have comm: "profile_answer k (f k) \<circ> profile_answer k' (f k') =
      (profile_answer k' (f k') \<circ> profile_answer k (f k) :: 'z prworld_scheme \<Rightarrow> 'z prworld_scheme)"
    for k k' and f :: "profile_part \<Rightarrow> outcome"
    by (cases "k = k'") (auto simp: fun_eq_iff profile_answer_comm)
  have "fold (\<lambda>k. profile_answer k (f k)) order v = fold (\<lambda>k. profile_answer k (f k)) all_parts v"
    for f :: "profile_part \<Rightarrow> outcome" and v :: "'z prworld_scheme"
    by (rule fun_cong [OF fold_multiset_equiv [OF comm assms]])
  then have same: "fetchAllData srv order w = fetchAllData srv all_parts w"
    by (simp only: fetchAllData_def Let_def)
  have sent: "sent (profile_answer k x v) = sent v" for k x and v :: "'z prworld_scheme"
    by (cases k) (simp_all add: profile_answer_def split: outcome.split option.split)
  have "profile_request (w\<lparr>pr_loading := True\<rparr>) k = profile_request w k" for k
    unfolding profile_request_def by (rule auth_request_cong) simp_all
  then have "sent (fetchAllData srv all_parts w) = sent w @ map (profile_request w) all_parts"
    by (simp add: fetchAllData_def Let_def all_parts_def sent)
  with same show ?thesis by simp
qed

theorem answers_in_any_order_witness:
  "fetchAllData (\<lambda>_ _. (1, NetFail)) [Team_solves, User_info, Team_points] prof0 =
   fetchAllData (\<lambda>_ _. (1, NetFail)) all_parts prof0"
  using answers_in_any_order [of "[Team_solves, User_info, Team_points]" "\<lambda>_ _. (1, NetFail)" prof0]
  by (simp add: all_parts_def)

text \<open>The share of points shown stays between 0 and 100, whatever the server sends.\<close>
theorem percent_in_range:
  assumes "pr_reach srv w"
  shows "0 \<le> pr_percent w \<and> pr_percent w \<le> 100"
  using pr_ok_reach [OF assms] by (simp add: pr_ok_def)

theorem percent_in_range_witness: "0 \<le> pr_percent prof0 \<and> pr_percent prof0 \<le> 100"
  by (rule percent_in_range [of "\<lambda>_ _. (1, NetFail)"]) (rule pr_reach.opened; simp add: prof0_def)

end
