(* ===== verification/Activity.thy ===== *)
theory Activity
  imports Support Paging "HOL-Library.List_Lexorder" "HOL-Library.Char_ord"
begin

section \<open>The activity of a team\<close>

text \<open>
  \<open>components/ActionLogs.tsx\<close>, which \<open>pages/ActionLogsPage.tsx\<close> shows, and the labels of
  \<open>models/actionLog.model.ts\<close>: loading the log, the three filters, the pages and the badge of an entry.
  Texts of an entry are texts, as its type declares. Texts are sorted by code units, as
  \<open>Array.prototype.sort\<close> does.
\<close>

subsection \<open>State and loading\<close>

record alworld = world +
  al_logs :: "jsval list"
  al_loading :: bool
  al_page :: int
  al_rows :: nat
  al_search :: string
  al_type :: jsval
  al_topic :: string

definition fetchActionLogs :: "server \<Rightarrow> (unit, 'z alworld_scheme) action" where
  "fetchActionLogs srv w =
     finallyM (catchM
       (bindM (getTeamActionLogs srv) (\<lambda>r.
        bindM (lift (get r ''success'')) (\<lambda>ok.
          if truthy ok \<and> truthy (oget r ''data'')
          then upd (\<lambda>w. w\<lparr>al_logs := elems (oget r ''data'')\<rparr>) else ret ())))
       (\<lambda>_. ret ()))
     (\<lambda>w. w\<lparr>al_loading := False\<rparr>) (w\<lparr>al_loading := True\<rparr>)"

subsection \<open>Filters\<close>

definition topic_of :: "jsval \<Rightarrow> string" where
  "topic_of l = text_field l ''topicName''"

definition uniqueTopics :: "jsval list \<Rightarrow> string list" where
  "uniqueTopics ls = sort (remdups (map topic_of ls))"

definition matches_log :: "string \<Rightarrow> jsval \<Rightarrow> string \<Rightarrow> jsval \<Rightarrow> bool" where
  "matches_log q ty tp l =
     ((q = [] \<or> has_substring (lower (text_field l ''actionDetail'')) (lower q) \<or>
        has_substring (lower (text_field l ''userName'')) (lower q) \<or>
        has_substring (lower (topic_of l)) (lower q)) \<and>
      (ty = Str ''all'' \<or> seq (oget l ''actionType'') ty) \<and>
      (tp = ''all'' \<or> topic_of l = tp))"

definition filteredLogs :: "'z alworld_scheme \<Rightarrow> jsval list" where
  "filteredLogs w = filter (matches_log (al_search w) (al_type w) (al_topic w)) (al_logs w)"

subsection \<open>Pages\<close>

definition paginatedLogs :: "'z alworld_scheme \<Rightarrow> jsval list" where
  "paginatedLogs w = take (al_rows w) (drop (nat (al_page w * int (al_rows w))) (filteredLogs w))"

definition log_pages :: "'z alworld_scheme \<Rightarrow> int" where
  "log_pages w = int (ceil_div (length (filteredLogs w)) (al_rows w))"

definition handleChangePage :: "int \<Rightarrow> 'z alworld_scheme \<Rightarrow> 'z alworld_scheme" where
  "handleChangePage p w = w\<lparr>al_page := p\<rparr>"

definition row_choices :: "nat list" where
  "row_choices = [10, 25, 50, 100]"

definition handleChangeRowsPerPage :: "nat \<Rightarrow> 'z alworld_scheme \<Rightarrow> 'z alworld_scheme" where
  "handleChangeRowsPerPage n w = w\<lparr>al_rows := n, al_page := 0\<rparr>"

definition handleSearchChange :: "string \<Rightarrow> 'z alworld_scheme \<Rightarrow> 'z alworld_scheme" where
  "handleSearchChange q w = w\<lparr>al_search := q, al_page := 0\<rparr>"

definition handleActionTypeFilterChange :: "string \<Rightarrow> 'z alworld_scheme \<Rightarrow> 'z alworld_scheme" where
  "handleActionTypeFilterChange v w =
     w\<lparr>al_type := (if v = ''all'' then Str ''all'' else parseInt v), al_page := 0\<rparr>"

definition handleTopicFilterChange :: "string \<Rightarrow> 'z alworld_scheme \<Rightarrow> 'z alworld_scheme" where
  "handleTopicFilterChange tp w = w\<lparr>al_topic := tp, al_page := 0\<rparr>"

definition prev_disabled :: "'z alworld_scheme \<Rightarrow> bool" where
  "prev_disabled w = (al_page w = 0)"

definition next_disabled :: "'z alworld_scheme \<Rightarrow> bool" where
  "next_disabled w = (al_page w \<ge> log_pages w - 1)"

subsection \<open>What is shown\<close>

definition ACTION_TYPE_LABELS :: "(int \<times> string) list" where
  "ACTION_TYPE_LABELS =
     [(1, ''Access Challenge''), (2, ''Start Challenge''), (3, ''Correct Flag''), (4, ''Incorrect Flag''),
      (5, ''Unlock Hint'')]"

text \<open>The label of a badge and the name of its colour.\<close>

definition getActionTypeBadge :: "jsval \<Rightarrow> string \<times> string" where
  "getActionTypeBadge t =
     (let n = (case t of Num q \<Rightarrow> if q = of_int \<lfloor>q\<rfloor> then \<lfloor>q\<rfloor> else 0 | _ \<Rightarrow> 0)
      in (case map_of ACTION_TYPE_LABELS n of Some l \<Rightarrow> l | None \<Rightarrow> ''Unknown'',
          if n = 1 then ''blue'' else if n = 2 then ''green'' else if n = 3 then ''emerald''
          else if n = 4 then ''red'' else if n = 5 then ''yellow'' else ''gray''))"

datatype log_date = Invalid_date | Log_date string string string

definition log_formatDate ::
  "(string \<Rightarrow> 'd option) \<Rightarrow> (rat option \<Rightarrow> 'd) \<Rightarrow> ('d \<Rightarrow> bool) \<Rightarrow> ('d \<Rightarrow> string \<Rightarrow> string) \<Rightarrow> ('d \<Rightarrow> string) \<Rightarrow>
   string \<Rightarrow> log_date" where
  "log_formatDate parse_iso of_ms valid fmt from_now s =
     (let d = parseUTCToLocal parse_iso of_ms (Inl s)
      in if \<not> valid d then Invalid_date
         else Log_date (formatUTCToLocal parse_iso of_ms valid fmt (Inl s) ''MMM DD, YYYY'')
                       (formatUTCToLocal parse_iso of_ms valid fmt (Inl s) ''HH:mm:ss'') (from_now d))"

datatype log_view =
    Logs_loading
  | Logs_shown (lv_topics: "string list") (lv_shown: nat) (lv_count: nat) (lv_rows: "jsval list")
      (lv_pager: "(int \<times> int \<times> bool \<times> bool) option")

definition logs_page :: "'z alworld_scheme \<Rightarrow> log_view" where
  "logs_page w =
     (if al_loading w then Logs_loading
      else Logs_shown (uniqueTopics (al_logs w)) (length (filteredLogs w)) (length (al_logs w)) (paginatedLogs w)
        (if filteredLogs w = [] then None
         else Some (al_page w + 1, log_pages w, prev_disabled w, next_disabled w)))"

text \<open>What the user can do, as far as the page offers it.\<close>

datatype al_event = Search_for string | Choose_type string | Choose_topic string | Choose_rows nat | Prev | Next

definition al_offered :: "'z alworld_scheme \<Rightarrow> al_event \<Rightarrow> bool" where
  "al_offered w e =
     (\<not> al_loading w \<and>
      (case e of
         Choose_topic tp \<Rightarrow> tp = ''all'' \<or> tp \<in> set (uniqueTopics (al_logs w))
       | Choose_type s \<Rightarrow> s = ''all'' \<or> s \<in> set (map (\<lambda>(n, _). show_int n) ACTION_TYPE_LABELS)
       | Choose_rows n \<Rightarrow> filteredLogs w \<noteq> [] \<and> n \<in> set row_choices
       | Prev \<Rightarrow> filteredLogs w \<noteq> [] \<and> \<not> prev_disabled w
       | Next \<Rightarrow> filteredLogs w \<noteq> [] \<and> \<not> next_disabled w
       | Search_for _ \<Rightarrow> True))"

fun al_apply :: "al_event \<Rightarrow> 'z alworld_scheme \<Rightarrow> 'z alworld_scheme" where
  "al_apply (Search_for q) w = handleSearchChange q w"
| "al_apply (Choose_type s) w = handleActionTypeFilterChange s w"
| "al_apply (Choose_topic tp) w = handleTopicFilterChange tp w"
| "al_apply (Choose_rows n) w = handleChangeRowsPerPage n w"
| "al_apply Prev w = handleChangePage (al_page w - 1) w"
| "al_apply Next w = handleChangePage (al_page w + 1) w"

text \<open>The component as it is mounted, and its runs: the log is loaded once.\<close>

definition al_mounted :: "'z alworld_scheme \<Rightarrow> bool" where
  "al_mounted w = (al_logs w = [] \<and> al_page w = 0 \<and> al_rows w = 10 \<and> al_search w = [] \<and> al_type w = Str ''all'' \<and>
     al_topic w = ''all'')"

inductive al_reach :: "server \<Rightarrow> 'z alworld_scheme \<Rightarrow> bool" for srv where
  loaded: "al_mounted w \<Longrightarrow> al_reach srv (snd (fetchActionLogs srv w))"
| event: "al_reach srv w \<Longrightarrow> al_offered w e \<Longrightarrow> al_reach srv (al_apply e w)"

subsection \<open>Rules\<close>

lemma alworld_of_more:
  assumes "world.more w' = world.more w"
  shows "al_logs w' = al_logs w" "al_page w' = al_page w" "al_rows w' = al_rows w" "al_search w' = al_search w"
    "al_type w' = al_type w" "al_topic w' = al_topic w"
  using assms by (cases w; cases w'; simp)+

lemma getTeamActionLogs_run:
  obtains v u where "getTeamActionLogs srv w = (Inr v, u)" "world.more u = world.more w"
    "sent u = sent w @ [auth_request (endpoint_url ACTION_LOGS_GET) GET_opts w]"
proof -
  obtain x u where f: "fetchWithAuth srv (endpoint_url ACTION_LOGS_GET) GET_opts w = (x, u)"
    by (cases "fetchWithAuth srv (endpoint_url ACTION_LOGS_GET) GET_opts w")
  note step = fetchWithAuth_step [OF f]
  have "\<exists>v. getTeamActionLogs srv w = (Inr v, u)"
    using f by (cases x; cases "case x of Inr r \<Rightarrow> resp_json r")
      (auto simp: getTeamActionLogs_def catchM_def bindM_def)
  with step that show ?thesis by auto
qed

lemma fetchActionLogs_run:
  obtains w' where "fetchActionLogs srv w = (Inr (), w')" "\<not> al_loading w'" "al_page w' = al_page w"
    "al_rows w' = al_rows w" "al_search w' = al_search w" "al_type w' = al_type w" "al_topic w' = al_topic w"
proof -
  obtain v u where r: "getTeamActionLogs srv (w\<lparr>al_loading := True\<rparr>) = (Inr v, u)"
    "world.more u = world.more (w\<lparr>al_loading := True\<rparr>)"
    by (rule getTeamActionLogs_run [of srv "w\<lparr>al_loading := True\<rparr>"])
  note view = alworld_of_more [OF r(2)]
  have "case fetchActionLogs srv w of (x, w') \<Rightarrow> x = Inr () \<and> \<not> al_loading w' \<and> al_page w' = al_page w \<and>
      al_rows w' = al_rows w \<and> al_search w' = al_search w \<and> al_type w' = al_type w \<and> al_topic w' = al_topic w"
    using r view by (cases "get v ''success''") (simp_all add: fetchActionLogs_def finallyM_def catchM_def bindM_def)
  with that show ?thesis by (cases "fetchActionLogs srv w") auto
qed

definition log_page_ok :: "'z alworld_scheme \<Rightarrow> bool" where
  "log_page_ok w = (\<not> al_loading w \<and> al_rows w \<in> set row_choices \<and> 0 \<le> al_page w \<and> al_page w \<le> max 0 (log_pages w - 1))"

lemma log_page_zero: "\<not> al_loading w \<Longrightarrow> al_rows w \<in> set row_choices \<Longrightarrow> al_page w = 0 \<Longrightarrow> log_page_ok w"
  by (simp add: log_page_ok_def)

lemma log_pages_page [simp]: "log_pages (w\<lparr>al_page := p\<rparr>) = log_pages w"
  by (simp add: log_pages_def filteredLogs_def)

lemma log_page_ok_reach: "al_reach srv w \<Longrightarrow> log_page_ok w"
proof (induction rule: al_reach.induct)
  case (loaded w)
  then show ?case
    by (rule_tac fetchActionLogs_run [of srv w]) (auto simp: al_mounted_def row_choices_def intro!: log_page_zero)
next
  case (event w e)
  then show ?case
    by (cases e)
       (auto simp: log_page_ok_def al_offered_def handleSearchChange_def handleActionTypeFilterChange_def
         handleTopicFilterChange_def handleChangeRowsPerPage_def handleChangePage_def prev_disabled_def next_disabled_def)
qed

interpretation log_pager: pager "Suc n" "\<lambda>k xs. take (Suc n) (drop (Suc n * k) xs)" for n
  by unfold_locales simp_all

lemma paginatedLogs_slice:
  assumes "0 \<le> al_page w"
  shows "paginatedLogs w = take (al_rows w) (drop (al_rows w * nat (al_page w)) (filteredLogs w))"
  using assms by (simp add: paginatedLogs_def nat_mult_distrib mult.commute)

lemma filteredLogs_page [simp]: "filteredLogs (w\<lparr>al_page := p\<rparr>) = filteredLogs w"
  by (simp add: filteredLogs_def)

subsection \<open>Properties\<close>

text \<open>C30: Whatever the user filters and pages through with the controls the page offers: as soon as an
  entry matches, the page shown has entries, its number lies between 1 and the number of pages, and
  the pages together are the matching entries, each on one page. The buttons lead to every page but no
  further: the first page offers no step back, the last none forward.\<close>
theorem action_log_pages:
  assumes "al_reach srv w" "filteredLogs w \<noteq> []"
  shows "paginatedLogs w \<noteq> [] \<and> 0 \<le> al_page w \<and> al_page w < log_pages w \<and>
    concat (map (\<lambda>k. paginatedLogs (w\<lparr>al_page := int k\<rparr>)) [0..<nat (log_pages w)]) = filteredLogs w \<and>
    (al_offered w Prev \<longleftrightarrow> 0 < al_page w) \<and> (al_offered w Next \<longleftrightarrow> al_page w + 1 < log_pages w)"
proof -
  have ok: "\<not> al_loading w" "al_rows w \<in> set row_choices" "0 \<le> al_page w" "al_page w \<le> max 0 (log_pages w - 1)"
    using log_page_ok_reach [OF assms(1)] by (simp_all add: log_page_ok_def)
  then have "0 < al_rows w" by (auto simp: row_choices_def)
  then obtain n where n: "al_rows w = Suc n" using gr0_implies_Suc by blast
  have "0 < log_pages w"
    using ceil_div_pos [of "al_rows w" "length (filteredLogs w)"] n assms(2) by (simp add: log_pages_def)
  then have t: "al_page w < log_pages w" using ok by linarith
  have "take (Suc n) (drop (Suc n * nat (al_page w)) (filteredLogs w)) \<noteq> []"
    using ok t n by (intro log_pager.page_filled) (simp add: log_pages_def)
  then have "paginatedLogs w \<noteq> []"
    using paginatedLogs_slice [OF ok(3)] n by simp
  moreover have "paginatedLogs (w\<lparr>al_page := int k\<rparr>) = take (Suc n) (drop (Suc n * k) (filteredLogs w))" for k
    using paginatedLogs_slice [of "w\<lparr>al_page := int k\<rparr>"] n by simp
  ultimately show ?thesis
    using log_pager.partition [of n "filteredLogs w"] ok t n assms(2)
    by (auto simp: log_pages_def al_offered_def prev_disabled_def next_disabled_def)
qed

text \<open>The topics offered are those of the log, each once and in order; choosing one of them with the
  other filters off shows exactly the entries of that topic, and there is at least one, unless a topic
  is called \<open>all\<close>, the value that stands for every topic.\<close>
theorem topics_offered:
  assumes "al_logs w = ls" "al_search w = []" "al_type w = Str ''all''" "tp \<in> set (uniqueTopics ls)"
  shows "sorted_wrt (<) (uniqueTopics ls) \<and> set (uniqueTopics ls) = topic_of ` set ls \<and>
    filteredLogs (handleTopicFilterChange tp w) =
      (if tp = ''all'' then ls else filter (\<lambda>l. topic_of l = tp) ls) \<and>
    filteredLogs (handleTopicFilterChange tp w) \<noteq> []"
proof (intro conjI)
  show s: "set (uniqueTopics ls) = topic_of ` set ls" by (simp add: uniqueTopics_def)
  show "sorted_wrt (<) (uniqueTopics ls)" by (simp add: uniqueTopics_def strict_sorted_iff)
  show f: "filteredLogs (handleTopicFilterChange tp w) = (if tp = ''all'' then ls else filter (\<lambda>l. topic_of l = tp) ls)"
    using assms by (auto simp: filteredLogs_def handleTopicFilterChange_def matches_log_def intro!: filter_cong filter_True)
  obtain l where "l \<in> set ls" "topic_of l = tp" using assms(4) s by auto
  then show "filteredLogs (handleTopicFilterChange tp w) \<noteq> []"
    using f by (auto simp: filter_empty_conv)
qed

text \<open>The log of a team: three entries of two topics.\<close>

definition log_entry :: "string \<Rightarrow> rat \<Rightarrow> jsval" where
  "log_entry tp n = Obj [(''topicName'', Str tp), (''actionType'', Num n), (''userName'', Str ''u''), (''actionDetail'', Str ''d'')]"

definition activity0 :: alworld where
  "activity0 = \<lparr>store = [(TOKEN_KEY, Raw ''t'')], clock = 0, sent = [], path = ''/action-logs'', redirect = None,
     popups = [], fired = [], base_url = [], al_logs = [], al_loading = True, al_page = 0, al_rows = 10,
     al_search = [], al_type = Str ''all'', al_topic = ''all''\<rparr>"

definition log_server :: server where
  "log_server = (\<lambda>_ _. (1, Reply \<lparr>status = 200, body = JBody (Obj [(''success'', BoolV True),
     (''data'', Arr [log_entry ''Web'' 1, log_entry ''Crypto'' 2, log_entry ''Web'' 4])])\<rparr>))"

lemma activity_loaded: "al_logs (snd (fetchActionLogs log_server activity0)) =
   [log_entry ''Web'' 1, log_entry ''Crypto'' 2, log_entry ''Web'' 4]"
  by code_simp

theorem action_log_pages_witness:
  "paginatedLogs (snd (fetchActionLogs log_server activity0)) \<noteq> []"
proof -
  have "al_reach log_server (snd (fetchActionLogs log_server activity0))"
    by (rule al_reach.loaded) (simp add: al_mounted_def activity0_def)
  moreover have "filteredLogs (snd (fetchActionLogs log_server activity0)) \<noteq> []" by code_simp
  ultimately show ?thesis using action_log_pages by blast
qed

theorem topics_offered_witness:
  "filteredLogs (handleTopicFilterChange ''Crypto'' (snd (fetchActionLogs log_server activity0))) = [log_entry ''Crypto'' 2]"
proof -
  let ?w = "snd (fetchActionLogs log_server activity0)"
  have "al_search ?w = []" "al_type ?w = Str ''all''" by code_simp+
  moreover have "''Crypto'' \<in> set (uniqueTopics (al_logs ?w))"
    unfolding activity_loaded by (simp add: uniqueTopics_def topic_of_def text_field_def log_entry_def)
  ultimately show ?thesis
    using topics_offered [of ?w "al_logs ?w" "''Crypto''"] unfolding activity_loaded
    by (simp add: topic_of_def text_field_def log_entry_def)
qed

end
