(* ===== verification/PortalLayout.thy ===== *)
theory PortalLayout
  imports Standings Effects
begin

section \<open>The frame around every page\<close>

text \<open>
  \<open>components/Layout.tsx\<close>: the tabs of a contest, the countdown to its start or end, the logo and the
  icon, and the user's menu. The interval of the countdown calls back every second at the earliest:
  \<open>lo_tick\<close> is one call, at whatever time it comes. The two requests of the mount effect run side by side;
  they store into different parts of the state and of local storage, so each is one step.
\<close>

subsection \<open>State\<close>

record time_left =
  tl_days :: int
  tl_hours :: int
  tl_minutes :: int
  tl_seconds :: int

record loworld = world +
  lo_contest :: "string option"
  lo_auth :: auth_state
  lo_theme :: theme
  lo_menu :: bool
  lo_left :: "time_left option"
  lo_status :: string
  lo_target :: "int option"
  lo_logo :: jsval
  lo_icon :: jsval
  lo_favicon :: jsval

text \<open>\<open>!!contestId\<close>, the prefix of the contest's routes and the tabs.\<close>

definition isInContest :: "'z loworld_scheme \<Rightarrow> bool" where
  "isInContest w = (case lo_contest w of None \<Rightarrow> False | Some c \<Rightarrow> c \<noteq> [])"

definition contestPrefix :: "'z loworld_scheme \<Rightarrow> string" where
  "contestPrefix w = (if isInContest w then ''/contest/'' @ the (lo_contest w) else [])"

definition tab_list :: "(string \<times> string) list" where
  "tab_list =
     [(''Challenges'', ''/challenges''), (''Instances'', ''/instances''), (''Scoreboard'', ''/scoreboard''),
      (''Action Logs'', ''/action-logs''), (''Tickets'', ''/tickets'')]"

definition tabs :: "'z loworld_scheme \<Rightarrow> (string \<times> string) list" where
  "tabs w = map (\<lambda>(label, p). (label, contestPrefix w @ p)) tab_list"

subsection \<open>The countdown\<close>

text \<open>\<open>new Date(v * 1000)\<close>: its milliseconds, None for an invalid date, which no comparison accepts.\<close>

definition date_ms :: "jsval \<Rightarrow> int option" where
  "date_ms v =
     (case as_num v of
        None \<Rightarrow> None
      | Some q \<Rightarrow> (let m = (if 0 \<le> q then \<lfloor>q * 1000\<rfloor> else \<lceil>q * 1000\<rceil>)
                   in if \<bar>m\<bar> \<le> 8640000000000000 then Some m else None))"

definition startCountdown :: "int \<Rightarrow> 'z loworld_scheme \<Rightarrow> 'z loworld_scheme" where
  "startCountdown t w = w\<lparr>lo_target := Some t\<rparr>"

definition count_to :: "string \<Rightarrow> jsval \<Rightarrow> 'z loworld_scheme \<Rightarrow> 'z loworld_scheme" where
  "count_to st v w =
     (case date_ms v of
        None \<Rightarrow> w
      | Some t \<Rightarrow> if clock w < t then startCountdown t (w\<lparr>lo_status := st\<rparr>) else w)"

definition apply_dates :: "jsval \<Rightarrow> 'z loworld_scheme \<Rightarrow> 'z loworld_scheme" where
  "apply_dates config w =
     (if \<not> truthy config then w
      else if seq (oget config ''message'') (Str ''CTFd has not been started'') \<and> truthy (oget config ''start_date'')
      then count_to ''Starts in'' (oget config ''start_date'') w
      else if seq (oget config ''message'') (Str ''CTFd has been started'') \<and> truthy (oget config ''end_date'')
      then count_to ''Ends in'' (oget config ''end_date'') w
      else w\<lparr>lo_status := ''Contest ended''\<rparr>)"

definition fetchContestStatus :: "server \<Rightarrow> (unit, 'z loworld_scheme) action" where
  "fetchContestStatus srv =
     catchM (bindM (getDateConfig srv) (\<lambda>config. upd (apply_dates config))) (\<lambda>_. ret ())"

definition time_left_of :: "int \<Rightarrow> time_left" where
  "time_left_of d =
     \<lparr>tl_days = d div (1000 * 60 * 60 * 24), tl_hours = (d mod (1000 * 60 * 60 * 24)) div (1000 * 60 * 60),
      tl_minutes = (d mod (1000 * 60 * 60)) div (1000 * 60), tl_seconds = (d mod (1000 * 60)) div 1000\<rparr>"

definition lo_tick :: "'z loworld_scheme \<Rightarrow> 'z loworld_scheme" where
  "lo_tick w =
     (case lo_target w of
        None \<Rightarrow> w
      | Some t \<Rightarrow> (let difference = t - clock w
                   in if difference \<le> 0 then w\<lparr>lo_target := None, lo_left := None\<rparr>
                      else w\<lparr>lo_left := Some (time_left_of difference)\<rparr>))"

definition pad2 :: "int \<Rightarrow> string" where
  "pad2 n = (let s = show_int n in if length s < 2 then replicate (2 - length s) (CHR ''0'') @ s else s)"

definition formatTime :: "time_left option \<Rightarrow> string" where
  "formatTime left =
     (case left of
        None \<Rightarrow> []
      | Some t \<Rightarrow> join '':''
          ((if tl_days t > 0 then [pad2 (tl_days t) @ ''d''] else []) @
           [pad2 (tl_hours t) @ ''h'', pad2 (tl_minutes t) @ ''m'', pad2 (tl_seconds t) @ ''s'']))"

subsection \<open>Logo and icon\<close>

definition apply_public :: "jsval \<Rightarrow> 'z loworld_scheme \<Rightarrow> 'z loworld_scheme" where
  "apply_public cfg w =
     (if \<not> truthy cfg then w
      else (let w1 = (if truthy (oget cfg ''ctf_logo'') then w\<lparr>lo_logo := oget cfg ''ctf_logo''\<rparr> else w)
            in if truthy (oget cfg ''ctf_small_icon'') then w1\<lparr>lo_icon := oget cfg ''ctf_small_icon''\<rparr> else w1))"

text \<open>The effect of the icon sets the address of the document's icon.\<close>

definition icon_effect :: "'z loworld_scheme \<Rightarrow> 'z loworld_scheme" where
  "icon_effect w = (if truthy (lo_icon w) then w\<lparr>lo_favicon := lo_icon w\<rparr> else w)"

definition fetchPublic :: "server \<Rightarrow> (unit, 'z loworld_scheme) action" where
  "fetchPublic srv =
     catchM (bindM (getPublicConfig srv False) (\<lambda>cfg. upd (\<lambda>w. icon_effect (apply_public cfg w)))) (\<lambda>_. ret ())"

subsection \<open>The menu\<close>

definition handleMenuOpen :: "'z loworld_scheme \<Rightarrow> 'z loworld_scheme" where
  "handleMenuOpen w = w\<lparr>lo_menu := True\<rparr>"

definition handleMenuClose :: "'z loworld_scheme \<Rightarrow> 'z loworld_scheme" where
  "handleMenuClose w = w\<lparr>lo_menu := False\<rparr>"

definition handleProfile :: "'z loworld_scheme \<Rightarrow> 'z loworld_scheme" where
  "handleProfile w = navigate ''/profile'' (handleMenuClose w)"

definition handleThemeToggle :: "'z loworld_scheme \<Rightarrow> 'z loworld_scheme" where
  "handleThemeToggle w =
     toast ''success'' (''Switched to '' @ (if lo_theme w = Dark then ''light'' else ''dark'') @ '' mode'')
       (w\<lparr>lo_theme := toggleTheme (lo_theme w)\<rparr>)"

definition handleLogout :: "server \<Rightarrow> (unit, 'z loworld_scheme) action" where
  "handleLogout srv w =
     bindM (ctx_logout srv (lo_auth w)) (\<lambda>a.
       upd (\<lambda>w. navigate ''/login'' (toast ''success'' ''Logged out successfully'' (w\<lparr>lo_auth := a\<rparr>))))
     (handleMenuClose w)"

subsection \<open>What the header shows\<close>

record header =
  hd_logo :: jsval
  hd_back :: bool
  hd_tabs :: "(string \<times> bool) list"
  hd_countdown :: "(string \<times> string) option"
  hd_user :: jsval
  hd_team :: jsval

definition header_of :: "'z loworld_scheme \<Rightarrow> header" where
  "header_of w =
     \<lparr>hd_logo = js_or (lo_logo w) (Str ''/assets/fctf-logo.png''), hd_back = isInContest w,
      hd_tabs = map (\<lambda>(label, p). (label, path w = p)) (tabs w),
      hd_countdown = map_option (\<lambda>t. (lo_status w, formatTime (Some t))) (lo_left w),
      hd_user = (case user (lo_auth w) of None \<Rightarrow> Undef | Some u \<Rightarrow> oget u ''username''),
      hd_team = (case user (lo_auth w) of
         None \<Rightarrow> Str ''No Team''
       | Some u \<Rightarrow> js_nn (if nullish (oget u ''team'') then Undef else oget (oget u ''team'') ''teamName'') (Str ''No Team''))\<rparr>"

subsection \<open>Runs\<close>

inductive lo_reach :: "server \<Rightarrow> 'z loworld_scheme \<Rightarrow> bool" for srv where
  mounted: "lo_left w = None \<Longrightarrow> lo_target w = None \<Longrightarrow> lo_reach srv (snd (fetchContestStatus srv w))"
| public: "lo_reach srv w \<Longrightarrow> lo_reach srv (snd (fetchPublic srv w))"
| wait: "lo_reach srv w \<Longrightarrow> lo_reach srv (w\<lparr>clock := clock w + int n\<rparr>)"
| tick: "lo_reach srv w \<Longrightarrow> lo_reach srv (lo_tick w)"
| menu: "lo_reach srv w \<Longrightarrow> lo_reach srv (w\<lparr>lo_menu := b\<rparr>)"
| toggle: "lo_reach srv w \<Longrightarrow> lo_reach srv (handleThemeToggle w)"

subsection \<open>Rules\<close>

lemma loworld_of_more:
  assumes "world.more w' = world.more w"
  shows "lo_left w' = lo_left w" "lo_target w' = lo_target w" "lo_status w' = lo_status w" "lo_auth w' = lo_auth w"
    "lo_menu w' = lo_menu w" "lo_contest w' = lo_contest w"
  using assms by (cases w; cases w'; simp)+

lemma getDateConfig_more: "world.more (snd (getDateConfig srv w)) = world.more w"
proof -
  obtain x v where f: "fetchWithAuth srv (endpoint_url CONFIG_DATE_CONFIG) GET_opts (snd (getCachedDateConfig w)) = (x, v)"
    by (cases "fetchWithAuth srv (endpoint_url CONFIG_DATE_CONFIG) GET_opts (snd (getCachedDateConfig w))")
  have c: "world.more (snd (getCachedDateConfig w)) = world.more w"
    by (simp add: getCachedDateConfig_def split: prod.split)
  have "world.more v = world.more w" using fetchWithAuth_step(4) [OF f] c by simp
  moreover obtain y u where "getCachedDateConfig w = (y, u)" by (cases "getCachedDateConfig w")
  ultimately show ?thesis
    using f c
    by (cases x; cases y; cases "case x of Inr r \<Rightarrow> resp_json r")
       (auto simp: getDateConfig_def catchM_def bindM_def fetch_json_def setCachedDateConfig_def)
qed

lemma fetchData_more: "world.more (snd (fetchData srv url opts w)) = world.more w"
  by (auto simp: fetchData_def fetch_def receive_def Let_def split: prod.split outcome.split)

lemma getPublicConfig_more: "world.more (snd (getPublicConfig srv b w)) = world.more w"
proof -
  define m :: "(jsval, 'a world_scheme) action" where "m = (if b then ret Null else getCachedPublicConfig)"
  obtain y u where y: "m w = (y, u)" by (cases "m w")
  then have u: "world.more u = world.more w"
    by (auto simp: m_def getCachedPublicConfig_def split: if_splits prod.splits)
  obtain x v where x: "fetchData srv (endpoint_url CONFIG_PUBLIC) GET_opts u = (x, v)"
    by (cases "fetchData srv (endpoint_url CONFIG_PUBLIC) GET_opts u")
  then have v: "world.more v = world.more w"
    using fetchData_more [of srv "endpoint_url CONFIG_PUBLIC" GET_opts u] u by simp
  show ?thesis
  proof (cases y)
    case (Inl e)
    then show ?thesis using y u unfolding getPublicConfig_def m_def [symmetric] by simp
  next
    case (Inr c)
    show ?thesis
      using y x u v Inr unfolding getPublicConfig_def m_def [symmetric]
      by (cases x; cases "case x of Inr r \<Rightarrow> resp_json r")
         (simp_all add: catchM_def bindM_def setCachedPublicConfig_def Let_def)
  qed
qed

lemma clearSession_more: "world.more (clearSession w) = world.more w"
  by (simp add: clearSession_def)

lemma logout_run:
  obtains v where "logout srv w = (Inr (), v)" "store v = clear_storage" "\<not> isAuthenticated v"
    "world.more v = world.more w"
proof (cases "isAuthenticated w")
  case True
  then show thesis
    using that by (rule_tac fetch_cases [of srv w "logout_request (the (getToken w)) w"])
       (auto simp: logout_def finallyM_def catchM_def bindM_def isAuthenticated_def token_truthy_def clearSession_more)
next
  case False
  then show thesis using that by (simp add: logout_def finallyM_def catchM_def isAuthenticated_def token_truthy_def clearSession_more)
qed

text \<open>A countdown is shown, or still running, only under the words for its start or its end.\<close>

definition countdown_ok :: "'z loworld_scheme \<Rightarrow> bool" where
  "countdown_ok w =
     (lo_target w = None \<and> lo_left w = None \<or> lo_target w \<noteq> None \<and> lo_status w \<in> {''Starts in'', ''Ends in''})"

lemma countdown_ok_more: "world.more w' = world.more w \<Longrightarrow> countdown_ok w' = countdown_ok w"
  using loworld_of_more [of w' w] by (simp add: countdown_ok_def)

lemma countdown_ok_dates:
  "lo_left w = None \<Longrightarrow> lo_target w = None \<Longrightarrow> countdown_ok (apply_dates c w)"
  by (simp add: apply_dates_def count_to_def startCountdown_def countdown_ok_def split: option.split)

lemma countdown_ok_tick: "countdown_ok w \<Longrightarrow> countdown_ok (lo_tick w)"
  by (auto simp: countdown_ok_def lo_tick_def Let_def split: option.split)

lemma countdown_ok_public: "countdown_ok (icon_effect (apply_public c w)) = countdown_ok w"
  by (simp add: icon_effect_def apply_public_def countdown_ok_def Let_def)

lemma countdown_ok_reach: "lo_reach srv w \<Longrightarrow> countdown_ok w"
proof (induction rule: lo_reach.induct)
  case (mounted w)
  obtain x v where d: "getDateConfig srv w = (x, v)" by (cases "getDateConfig srv w")
  then have "world.more v = world.more w" using getDateConfig_more [of srv w] by simp
  with mounted have "lo_left v = None" "lo_target v = None" using loworld_of_more by metis+
  then show ?case
    using d countdown_ok_dates
    by (cases x) (auto simp: fetchContestStatus_def catchM_def bindM_def countdown_ok_def)
next
  case (public w)
  obtain x v where d: "getPublicConfig srv False w = (x, v)" by (cases "getPublicConfig srv False w")
  then have "countdown_ok v = countdown_ok w"
    using getPublicConfig_more [of srv False w] countdown_ok_more by simp
  then show ?case
    using d public.IH by (cases x) (simp_all add: fetchPublic_def catchM_def bindM_def countdown_ok_public)
next
  case (toggle w)
  moreover have "countdown_ok (handleThemeToggle w) = countdown_ok (w\<lparr>lo_theme := toggleTheme (lo_theme w)\<rparr>)"
    unfolding handleThemeToggle_def toast_def by (rule countdown_ok_more) simp
  ultimately show ?case by (simp add: countdown_ok_def)
qed (simp_all add: countdown_ok_tick, simp_all add: countdown_ok_def)

text \<open>Reading the text of a countdown back.\<close>

definition shown_seconds :: "string \<Rightarrow> nat" where
  "shown_seconds s =
     (case map (\<lambda>p. read_nat (butlast p)) (split_on (CHR '':'') s) of
        [h, m, s] \<Rightarrow> h * 3600 + m * 60 + s
      | [d, h, m, s] \<Rightarrow> d * 86400 + h * 3600 + m * 60 + s
      | _ \<Rightarrow> 0)"

lemma split_on_append: "d \<notin> set a \<Longrightarrow> split_on d (a @ d # r) = a # split_on d r"
  by (induction a) auto

lemma read_nat_zeros: "read_nat (replicate k (CHR ''0'') @ s) = read_nat s"
  by (induction k) (simp_all add: read_nat_def digit_val_def)

lemma read_pad2: "0 \<le> n \<Longrightarrow> read_nat (pad2 n) = nat n"
  by (simp add: pad2_def show_int_def Let_def read_nat_zeros)

lemma pad2_colon: "0 \<le> n \<Longrightarrow> CHR '':'' \<notin> set (pad2 n)"
proof -
  assume "0 \<le> n"
  moreover have "CHR '':'' \<notin> set (show_nat m)" for m
    using show_nat_digits [of "CHR '':''" m] by (auto simp: is_digit_def)
  ultimately show ?thesis by (simp add: pad2_def show_int_def Let_def)
qed

lemma shown_seconds_formatTime:
  assumes "0 \<le> tl_days t" "0 \<le> tl_hours t" "0 \<le> tl_minutes t" "0 \<le> tl_seconds t"
  shows "int (shown_seconds (formatTime (Some t))) =
    tl_days t * 86400 + tl_hours t * 3600 + tl_minutes t * 60 + tl_seconds t"
proof -
  have part: "CHR '':'' \<notin> set (pad2 n @ [c])" if "0 \<le> n" "c \<noteq> CHR '':''" for n c
    using pad2_colon [OF that(1)] that(2) by simp
  note parts = part [of "tl_days t" "CHR ''d''"] part [of "tl_hours t" "CHR ''h''"]
    part [of "tl_minutes t" "CHR ''m''"] part [of "tl_seconds t" "CHR ''s''"]
  show ?thesis
    using assms parts
    by (simp add: formatTime_def shown_seconds_def split_on_append [of _ "_ @ [_]", simplified] split_on_single
      butlast_append read_pad2)
qed

lemma time_left_split:
  "time_left_of d = (case split_time p d of c \<Rightarrow>
     \<lparr>tl_days = t_days c, tl_hours = t_hours c, tl_minutes = t_minutes c, tl_seconds = t_seconds c\<rparr>)"
  by (simp only: time_left_of_def split_time_def countdown.simps)

lemma shown_seconds_left:
  assumes "0 < d"
  shows "int (shown_seconds (formatTime (Some (time_left_of d)))) = d div 1000"
proof -
  note c = split_time_exact [OF assms, of Running]
  then have "0 \<le> tl_days (time_left_of d)" "0 \<le> tl_hours (time_left_of d)" "0 \<le> tl_minutes (time_left_of d)"
    "0 \<le> tl_seconds (time_left_of d)"
    unfolding time_left_split [of d Running] by simp_all
  from shown_seconds_formatTime [OF this] show ?thesis
    using c unfolding time_left_split [of d Running] by simp
qed

text \<open>A number as a text of at least two digits.\<close>

definition two_digits :: "int \<Rightarrow> string" where
  "two_digits n = (if n < 100 then [digit (nat (n div 10)), digit (nat (n mod 10))] else show_nat (nat n))"

lemma show_nat_three: "100 \<le> n \<Longrightarrow> 2 \<le> length (show_nat n)"
  by (subst show_nat.simps) (simp add: Suc_le_eq)

lemma digit_zero: "digit 0 = CHR ''0''"
  by code_simp

lemma pad2_two_digits: "0 \<le> n \<Longrightarrow> pad2 n = two_digits n"
proof (cases "n < 100")
  case True
  assume "0 \<le> n"
  then obtain k where k: "n = int k" by (metis nonneg_int_cases)
  have small: "show_nat (k div 10) = [digit (k div 10)]" if "10 \<le> k"
    using k True that by (subst show_nat.simps) simp
  have "show_nat k = (if k < 10 then [digit k] else [digit (k div 10), digit (k mod 10)])"
    using small by (subst show_nat.simps) simp
  moreover have "n div 10 = int (k div 10)" "n mod 10 = int (k mod 10)" using k by (simp_all add: zdiv_int zmod_int)
  ultimately show ?thesis using k True using digit_zero by (auto simp: pad2_def two_digits_def show_int_def)
next
  case False
  moreover have "\<not> length (show_nat (nat n)) < 2" using show_nat_three [of "nat n"] False by linarith
  ultimately show ?thesis by (simp add: pad2_def two_digits_def show_int_def)
qed

lemma time_left_seconds:
  assumes "0 < d"
  defines "q \<equiv> d div 1000"
  shows "time_left_of d = \<lparr>tl_days = q div 86400, tl_hours = q div 3600 mod 24, tl_minutes = q div 60 mod 60,
    tl_seconds = q mod 60\<rparr>"
proof -
  have "q div k = d div (1000 * k)" if "0 \<le> k" for k
    using zdiv_zmult2_eq [OF that, of d 1000] by (simp only: q_def)
  from this [of 86400] this [of 3600] this [of 60]
  have "q div 86400 = d div 86400000" "q div 3600 = d div 3600000" "q div 60 = d div 60000" by simp_all
  then show ?thesis
    by (simp only: time_left_split [of d Running] split_time_alt countdown.simps q_def)
qed

lemma formatTime_two_digits:
  assumes "0 < d"
  defines "q \<equiv> d div 1000"
  shows "formatTime (Some (time_left_of d)) =
    (if 86400 \<le> q then two_digits (q div 86400) @ ''d:'' else []) @ two_digits (q div 3600 mod 24) @ ''h:'' @
    two_digits (q div 60 mod 60) @ ''m:'' @ two_digits (q mod 60) @ ''s''"
proof -
  have "0 \<le> q" using assms(1) by (simp add: q_def)
  then have pads: "pad2 (q div 86400) = two_digits (q div 86400)"
    "pad2 (q div 3600 mod 24) = two_digits (q div 3600 mod 24)"
    "pad2 (q div 60 mod 60) = two_digits (q div 60 mod 60)" "pad2 (q mod 60) = two_digits (q mod 60)"
    by (simp_all add: pad2_two_digits pos_imp_zdiv_nonneg_iff)
  have "0 < q div 86400 \<longleftrightarrow> 86400 \<le> q" by linarith
  then show ?thesis
    unfolding time_left_seconds [OF assms(1)] q_def [symmetric] formatTime_def
    by (simp only: option.case time_left.simps pads) (simp add: numeral_eq_Suc)
qed

subsection \<open>Properties\<close>

text \<open>C31: The countdown in the header is exact: in every state reached, a call of its interval shows the
  whole seconds left until the moment counted down to, as days (only when there are any), hours,
  minutes and seconds of at least two digits each, which read back to them, under the words for a
  start or an end; once the moment has come nothing is shown and the interval is over.\<close>
theorem header_countdown:
  assumes "lo_reach srv w" "lo_target w = Some t"
  shows "case hd_countdown (header_of (lo_tick w)) of
      None \<Rightarrow> t \<le> clock w \<and> lo_target (lo_tick w) = None
    | Some (st, s) \<Rightarrow> clock w < t \<and> st \<in> {''Starts in'', ''Ends in''} \<and>
        (let q = (t - clock w) div 1000 in
         int (shown_seconds s) = q \<and>
         s = (if 86400 \<le> q then two_digits (q div 86400) @ ''d:'' else []) @ two_digits (q div 3600 mod 24) @ ''h:'' @
           two_digits (q div 60 mod 60) @ ''m:'' @ two_digits (q mod 60) @ ''s'')"
proof (cases "clock w < t")
  case True
  then have tick: "lo_tick w = w\<lparr>lo_left := Some (time_left_of (t - clock w))\<rparr>"
    using assms(2) by (simp add: lo_tick_def)
  have status: "lo_status w \<in> {''Starts in'', ''Ends in''}"
    using countdown_ok_reach [OF assms(1)] assms(2) by (auto simp: countdown_ok_def)
  have head: "hd_countdown (header_of (lo_tick w)) =
      Some (lo_status w, formatTime (Some (time_left_of (t - clock w))))"
    unfolding tick by (simp add: header_of_def)
  have "0 < t - clock w" using True by simp
  from shown_seconds_left [OF this] formatTime_two_digits [OF this] show ?thesis
    unfolding head Let_def option.case prod.case using True status by (simp only: simp_thms)
next
  case False
  then show ?thesis using assms(2) by (simp add: lo_tick_def header_of_def)
qed

text \<open>A server that says the contest starts at second 100000, and a page opened at second 10.\<close>

definition date_server :: server where
  "date_server = (\<lambda>_ _. (0, Reply \<lparr>status = 200, body = JBody (Obj [(''message'', Str ''CTFd has not been started''),
     (''start_date'', Num 100000)])\<rparr>))"

definition layout0 :: loworld where
  "layout0 = \<lparr>store = [(TOKEN_KEY, Raw ''t'')], clock = 10000, sent = [], path = ''/contest/7/challenges'', redirect = None,
     popups = [], fired = [], base_url = [], lo_contest = Some ''7'', lo_auth = auth_initial, lo_theme = Dark,
     lo_menu = False, lo_left = None, lo_status = [], lo_target = None, lo_logo = Null, lo_icon = Null,
     lo_favicon = Null\<rparr>"

lemma layout0_target: "lo_target (snd (fetchContestStatus date_server layout0)) = Some 100000000"
  "clock (snd (fetchContestStatus date_server layout0)) = 10000"
  by code_simp+

theorem header_countdown_witness:
  "case hd_countdown (header_of (lo_tick (snd (fetchContestStatus date_server layout0)))) of
     None \<Rightarrow> False | Some (st, s) \<Rightarrow> shown_seconds s = 99990"
proof -
  have "lo_reach date_server (snd (fetchContestStatus date_server layout0))"
    by (rule lo_reach.mounted) (simp_all add: layout0_def)
  from header_countdown [OF this layout0_target(1)] show ?thesis
    by (auto simp: layout0_target Let_def split: option.splits)
qed

text \<open>When the countdown to the start ends, nothing follows it: the interval is over, and however long
  the page stays open, neither a call of it nor the passing of time brings the countdown to the
  contest's end. Only mounting the frame anew does.\<close>
theorem countdown_not_renewed:
  assumes "lo_target w = Some t" "t \<le> clock w"
  shows "lo_tick w = w\<lparr>lo_target := None, lo_left := None\<rparr> \<and>
    (\<forall>n. lo_tick ((lo_tick w)\<lparr>clock := n\<rparr>) = (lo_tick w)\<lparr>clock := n\<rparr>)"
  using assms by (simp add: lo_tick_def)

theorem countdown_not_renewed_witness:
  "hd_countdown (header_of (lo_tick ((lo_tick (layout0\<lparr>lo_target := Some 5\<rparr>))\<lparr>clock := 9\<rparr>))) = None"
proof -
  let ?w = "layout0\<lparr>lo_target := Some 5\<rparr>"
  have "lo_target ?w = Some 5" "5 \<le> clock ?w" by (simp_all add: layout0_def)
  from countdown_not_renewed [OF this]
  have "lo_tick ?w = ?w\<lparr>lo_target := None, lo_left := None\<rparr>"
    "lo_tick ((lo_tick ?w)\<lparr>clock := 9\<rparr>) = (lo_tick ?w)\<lparr>clock := 9\<rparr>" by blast+
  then show ?thesis by (simp add: header_of_def)
qed

text \<open>Inside a contest every tab leads to a private page of the same contest, and the tab marked is the
  one whose page is shown; outside a contest the tabs lead to the routes without one.\<close>
theorem tabs_lead_to_routes:
  assumes "(label, p) \<in> set (tabs w)"
  shows "\<exists>pat pg. map_of app_routes pat = Some (Private pg) \<and>
    (if isInContest w then starts_with ''/contest/:contestId/'' pat \<and> p = replace_first '':contestId'' (the (lo_contest w)) pat
     else p = pat) \<and>
    ((label, True) \<in> set (hd_tabs (header_of w)) \<longleftrightarrow> path w = p)"
proof -
  define c where "c = the (lo_contest w)"
  have routes: "list_all (\<lambda>(l, q). (\<exists>pg. map_of app_routes q = Some (Private pg)) \<and>
      (\<exists>pg. map_of app_routes (''/contest/:contestId'' @ q) = Some (Private pg)) \<and>
      starts_with ''/contest/:contestId/'' (''/contest/:contestId'' @ q)) tab_list"
    by (simp add: tab_list_def app_routes_def starts_with_def)
  obtain q where q: "p = contestPrefix w @ q" "(label, q) \<in> set tab_list"
    using assms by (auto simp: tabs_def)
  then have r: "\<exists>pg. map_of app_routes q = Some (Private pg)"
    "\<exists>pg. map_of app_routes (''/contest/:contestId'' @ q) = Some (Private pg)"
    "starts_with ''/contest/:contestId/'' (''/contest/:contestId'' @ q)"
    using routes unfolding list_all_iff by blast+
  have d: "distinct (map fst tab_list)" by (simp add: tab_list_def)
  have mark: "(label, True) \<in> set (hd_tabs (header_of w)) \<longleftrightarrow> path w = p"
  proof -
    have "(label, True) \<in> set (hd_tabs (header_of w)) \<longleftrightarrow> (\<exists>t. (label, t) \<in> set tab_list \<and> path w = contestPrefix w @ t)"
      unfolding header_of_def tabs_def header.simps set_map image_iff Bex_def by (simp only: split_paired_Ex prod.case prod.inject) blast
    then show ?thesis using q eq_key_imp_eq_value [OF d q(2)] by metis
  qed
  have repl: "replace_first '':contestId'' c (''/contest/:contestId'' @ q) = ''/contest/'' @ c @ q"
    by (simp add: starts_with_def)
  show ?thesis
  proof (cases "isInContest w")
    case True
    then have "p = replace_first '':contestId'' c (''/contest/:contestId'' @ q)"
      using q(1) repl by (simp add: contestPrefix_def c_def)
    then show ?thesis using r(2,3) mark True unfolding c_def by metis
  next
    case False
    then have "p = q" using q(1) by (simp add: contestPrefix_def)
    then show ?thesis using r(1) mark False by metis
  qed
qed

theorem tabs_lead_to_routes_witness:
  "(''Challenges'', True) \<in> set (hd_tabs (header_of layout0))"
proof -
  have "(''Challenges'', path layout0) \<in> set (tabs layout0)"
    by (simp add: tabs_def tab_list_def contestPrefix_def isInContest_def layout0_def)
  from tabs_lead_to_routes [OF this] show ?thesis by blast
qed

text \<open>Logging out from the menu always works: whatever the server answers, the menu closes, local
  storage is empty, the context shows nobody and the user is on the page to log in.\<close>
theorem menu_logout:
  "case handleLogout srv w of (r, w') \<Rightarrow>
     r = Inr () \<and> path w' = ''/login'' \<and> \<not> lo_menu w' \<and> store w' = clear_storage \<and>
     \<not> isAuthenticated w' \<and> \<not> is_authenticated (lo_auth w') \<and> user (lo_auth w') = None \<and>
     hd_team (header_of w') = Str ''No Team''"
proof -
  obtain v where l: "logout srv (handleMenuClose w) = (Inr (), v)" "store v = clear_storage" "\<not> isAuthenticated v"
    "world.more v = world.more (handleMenuClose w)"
    by (rule logout_run)
  from loworld_of_more [OF l(4)] have "\<not> lo_menu v" by (simp add: handleMenuClose_def)
  moreover define a where "a = (lo_auth w)\<lparr>is_authenticated := False, user := None\<rparr>"
  moreover define u where "u = toast ''success'' ''Logged out successfully'' (v\<lparr>lo_auth := a\<rparr>)"
  moreover have "world.more u = world.more (v\<lparr>lo_auth := a\<rparr>)" "store u = store v"
    by (simp_all add: u_def toast_def)
  ultimately have u: "\<not> lo_menu u" "lo_auth u = a" "store u = clear_storage"
    using loworld_of_more [of u "v\<lparr>lo_auth := a\<rparr>"] l(2) by simp_all
  have "handleLogout srv w = (Inr (), navigate ''/login'' u)"
    using l by (simp add: handleLogout_def ctx_logout_def bindM_def handleMenuClose_def u_def a_def)
  moreover have "\<not> isAuthenticated (navigate ''/login'' u)"
    using u(3) l(2,3) by (simp add: isAuthenticated_def getToken_def navigate_def)
  ultimately show ?thesis using u by (simp add: navigate_def header_of_def a_def)
qed

end
