(* ===== verification/AdminBase.thy ===== *)
theory AdminBase
  imports World Api
begin

section \<open>The management console: requests, forms and bulk actions\<close>

text \<open>
  What the pages of the admin theme share (\<open>CTFd/themes/admin/assets/js\<close>): \<open>compat/fetch.js\<close>, the domain
  of the generated client, \<open>compat/json.js\<close> and the dialogs of \<open>compat/ezq.js\<close>.
  A dialog is a pop-up and the argument \<open>confirmed\<close>, the user's answer to it. \<open>urlRoot\<close> of the configuration
  is \<open>base_url\<close>. Requests sent together (\<open>Promise.all\<close>) are all sent before any answer is looked at;
  what waits for them goes on when every one is answered.
\<close>

record adworld = world +
  ad_nonce :: string
  ad_reloads :: nat
  ad_exporting :: bool
  ad_saved :: "(body \<times> string) list"
  ad_dropdown :: bool
  ad_include :: bool
  ad_include_disabled :: bool
  ad_warning :: bool
  ad_busy :: bool

subsection \<open>Requests\<close>

definition ctfd_headers :: "'z adworld_scheme \<Rightarrow> (string \<times> string) list" where
  "ctfd_headers w =
     [(''Accept'', ''application/json''), (''Content-Type'', ''application/json''), (''CSRF-Token'', ad_nonce w)]"

definition ctfd_request :: "string \<Rightarrow> string \<Rightarrow> jsval option \<Rightarrow> 'z adworld_scheme \<Rightarrow> request" where
  "ctfd_request m url b w =
     \<lparr>req_method = m, req_url = base_url w @ url, req_headers = ctfd_headers w, req_body = map_option json_clean b\<rparr>"

definition ctfd_fetch :: "server \<Rightarrow> string \<Rightarrow> string \<Rightarrow> jsval option \<Rightarrow> (response, 'z adworld_scheme) action" where
  "ctfd_fetch srv m url b w = fetch srv (ctfd_request m url b w) w"

text \<open>The generated client: its domain already starts with \<open>urlRoot\<close>, which \<open>fetch\<close> puts in front again.\<close>

definition api_domain :: "'z adworld_scheme \<Rightarrow> string" where
  "api_domain w = base_url w @ ''/api/v1''"

subsection \<open>Requests sent together\<close>

fun replies :: "server \<Rightarrow> request list \<Rightarrow> request list \<Rightarrow> (nat \<times> outcome) list" where
  "replies srv past [] = []"
| "replies srv past (q # qs) = srv past q # replies srv (past @ [q]) qs"

fun answered :: "outcome \<Rightarrow> bool" where
  "answered NetFail = False"
| "answered (Reply r) = True"

fun readable :: "outcome \<Rightarrow> bool" where
  "readable NetFail = False"
| "readable (Reply r) = (case resp_json r of Inl _ \<Rightarrow> False | Inr _ \<Rightarrow> True)"

text \<open>
  \<open>ok\<close> says which answers count as fulfilled: any answer for \<open>fetch\<close>, one with a JSON body for the
  client. The world is the one at the last answer; when a promise is rejected nothing follows.
\<close>

definition promise_all :: "(outcome \<Rightarrow> bool) \<Rightarrow> server \<Rightarrow> request list \<Rightarrow> 'z adworld_scheme \<Rightarrow> bool \<times> 'z adworld_scheme" where
  "promise_all ok srv qs w =
     (let rs = replies srv (sent w) qs
      in (list_all (\<lambda>(d, out). ok out) rs,
          w\<lparr>sent := sent w @ qs, clock := clock w + int (fold (\<lambda>(d, out). max d) rs 0)\<rparr>))"

definition reload :: "'z adworld_scheme \<Rightarrow> 'z adworld_scheme" where
  "reload w = w\<lparr>ad_reloads := ad_reloads w + 1\<rparr>"

definition send_all :: "(outcome \<Rightarrow> bool) \<Rightarrow> server \<Rightarrow> request list \<Rightarrow> 'z adworld_scheme \<Rightarrow> 'z adworld_scheme" where
  "send_all ok srv qs w = (case promise_all ok srv qs w of (b, w') \<Rightarrow> if b then reload w' else w')"

subsection \<open>Forms\<close>

text \<open>
  A form as the browser and jQuery hand it over: what \<open>serializeArray\<close> returns, the check boxes with
  their state, and what \<open>data('initial')\<close> and \<open>val()\<close> return for a name.
\<close>

record form_data =
  fm_array :: "(string \<times> string) list"
  fm_boxes :: "(string \<times> bool) list"
  fm_initial :: "string \<Rightarrow> jsval"
  fm_value :: "string \<Rightarrow> jsval"

definition form_values :: "form_data \<Rightarrow> (string \<times> jsval) list" where
  "form_values f =
     map (\<lambda>(n, v). (n, Str v)) (fm_array f) @
     map (\<lambda>(n, b). (n, BoolV True)) (filter snd (fm_boxes f)) @
     map (\<lambda>(n, b). (n, BoolV False)) (filter (\<lambda>(n, b). \<not> b) (fm_boxes f))"

definition serializeJSON :: "bool \<Rightarrow> form_data \<Rightarrow> jsval" where
  "serializeJSON omit_nulls f =
     fold (\<lambda>(n, v) params.
         if omit_nulls \<and> v = Str [] \<and> seq (fm_initial f n) (fm_value f n) then params
         else set_field n v params)
       (form_values f) (Obj [])"

definition del_field :: "string \<Rightarrow> jsval \<Rightarrow> jsval" where
  "del_field k v = Obj (filter (\<lambda>(n, x). n \<noteq> k) (obj_fields v))"

text \<open>A form whose controls are selection lists with the initial value \<open>''\<close>, as the bulk dialogs use.\<close>

definition select_form :: "(string \<times> string) list \<Rightarrow> form_data" where
  "select_form vs =
     \<lparr>fm_array = vs, fm_boxes = [], fm_initial = (\<lambda>n. if n \<in> set (map fst vs) then Str [] else Undef),
      fm_value = (\<lambda>n. case map_of vs n of Some v \<Rightarrow> Str v | None \<Rightarrow> Undef)\<rparr>"

subsection \<open>Numbers with decimals\<close>

text \<open>\<open>toFixed\<close> on exact numbers: halves are rounded up.\<close>

definition pad_left :: "nat \<Rightarrow> string \<Rightarrow> string" where
  "pad_left n s = replicate (n - length s) (CHR ''0'') @ s"

definition toFixed :: "nat \<Rightarrow> rat \<Rightarrow> string" where
  "toFixed d x =
     (let n = nat \<lfloor>\<bar>x\<bar> * 10 ^ d + 1 / 2\<rfloor>
      in (if x < 0 then ''-'' else []) @ show_nat (n div 10 ^ d) @
         (if d = 0 then [] else ''.'' @ pad_left d (show_nat (n mod 10 ^ d))))"

subsection \<open>Bulk actions\<close>

definition counted :: "nat \<Rightarrow> string \<Rightarrow> string" where
  "counted n thing = show_nat n @ '' '' @ thing @ (if n = 1 then [] else ''s'')"

definition ask :: "string \<Rightarrow> string \<Rightarrow> 'z world_scheme \<Rightarrow> 'z world_scheme" where
  "ask title txt w = show_popup title [Str txt] w"

text \<open>
  The contract of an action on all selected rows: nothing is sent unless the user confirms, and then
  one request for each, at once; the page is loaded anew when all of them are fulfilled.
\<close>

locale bulk_action =
  fixes act :: "server \<Rightarrow> int list \<Rightarrow> bool \<Rightarrow> 'z adworld_scheme \<Rightarrow> 'z adworld_scheme"
    and mk :: "int \<Rightarrow> 'z adworld_scheme \<Rightarrow> request"
    and ok :: "outcome \<Rightarrow> bool"
  assumes cancelled: "sent (act srv ids False w) = sent w" "ad_reloads (act srv ids False w) = ad_reloads w"
    and confirmed: "sent (act srv ids True w) = sent w @ map (\<lambda>i. mk i w) ids"
    and reloaded: "ids \<noteq> [] \<Longrightarrow> ad_reloads (act srv ids True w) =
      ad_reloads w + (if list_all (\<lambda>(d, out). ok out) (replies srv (sent w) (map (\<lambda>i. mk i w) ids)) then 1 else 0)"
    and distinct_requests: "mk i w = mk j w \<Longrightarrow> i = j"
begin

lemma nothing_unless_confirmed: "sent (act srv ids c w) \<noteq> sent w \<Longrightarrow> c"
  using cancelled(1) by (cases c) auto

lemma one_each:
  assumes "distinct ids"
  shows "distinct (drop (length (sent w)) (sent (act srv ids c w))) \<and>
    set (drop (length (sent w)) (sent (act srv ids c w))) = (if c then (\<lambda>i. mk i w) ` set ids else {})"
proof (cases c)
  case True
  have "inj_on (\<lambda>i. mk i w) (set ids)" using distinct_requests by (auto intro: inj_onI)
  then show ?thesis using assms True by (simp add: confirmed distinct_map)
qed (simp add: cancelled(1))

text \<open>A request that is lost keeps the page as it was, although the other requests were carried out.\<close>

lemma stale_page:
  assumes "(d, out) \<in> set (replies srv (sent w) (map (\<lambda>i. mk i w) ids))" "\<not> ok out"
  shows "ad_reloads (act srv ids True w) = ad_reloads w \<and>
    sent (act srv ids True w) = sent w @ map (\<lambda>i. mk i w) ids"
proof -
  have "ids \<noteq> []" using assms(1) by auto
  then show ?thesis using assms by (auto simp: reloaded confirmed list_all_iff)
qed

end

subsection \<open>Rules\<close>

lemma adworld_of_more:
  assumes "world.more w' = world.more w"
  shows "ad_nonce w' = ad_nonce w" "ad_reloads w' = ad_reloads w" "ad_include w' = ad_include w"
    "ad_saved w' = ad_saved w" "ad_exporting w' = ad_exporting w" "ad_dropdown w' = ad_dropdown w"
    "ad_include_disabled w' = ad_include_disabled w" "ad_warning w' = ad_warning w"
  using assms by (cases w; cases w'; simp)+

lemma ask_simps [simp]:
  "sent (ask t x w) = sent w" "base_url (ask t x w) = base_url w" "clock (ask t x w) = clock w"
  "store (ask t x w) = store w" "world.more (ask t x w) = world.more w"
  by (simp_all add: ask_def)

lemma ask_adworld [simp]:
  "ad_nonce (ask t x w) = ad_nonce w" "ad_reloads (ask t x w) = ad_reloads w"
  "ad_nonce (show_popup t xs w) = ad_nonce w" "ad_reloads (show_popup t xs w) = ad_reloads w"
  by (rule adworld_of_more; simp)+

lemma ctfd_request_cong:
  "base_url v = base_url w \<Longrightarrow> ad_nonce v = ad_nonce w \<Longrightarrow> ctfd_request m url b v = ctfd_request m url b w"
  by (simp add: ctfd_request_def ctfd_headers_def)

lemma ctfd_request_ask [simp]: "ctfd_request m url b (ask t x w) = ctfd_request m url b w"
  by (rule ctfd_request_cong) simp_all

lemma ctfd_request_inj [simp]: "ctfd_request m u b w = ctfd_request m' u' b' w \<longleftrightarrow>
    m = m' \<and> u = u' \<and> map_option json_clean b = map_option json_clean b'"
  by (auto simp: ctfd_request_def)

lemma send_all_simps [simp]:
  "sent (send_all ok srv qs w) = sent w @ qs"
  "ad_reloads (send_all ok srv qs w) =
     ad_reloads w + (if list_all (\<lambda>(d, out). ok out) (replies srv (sent w) qs) then 1 else 0)"
  by (simp_all add: send_all_def promise_all_def reload_def Let_def case_prod_unfold)

lemma length_replies [simp]: "length (replies srv past qs) = length qs"
  by (induction qs arbitrary: past) simp_all

lemma obj_fields_set_field [simp]: "obj_fields (set_field k x v) = AList.update k x (obj_fields v)"
  by (simp add: set_field_def)

text \<open>A dialog of selection lists sends the fields that were chosen and no other.\<close>

lemma fold_fields:
  assumes "distinct (map fst xs)" "\<And>n v. (n, v) \<in> set xs \<Longrightarrow> blank n v = (v = [])"
  shows "map_of (obj_fields (fold (\<lambda>(n, v) p. if blank n v then p else set_field n (Str v) p) xs p)) k =
    (case map_of xs k of Some v \<Rightarrow> if v = [] then map_of (obj_fields p) k else Some (Str v) | None \<Rightarrow> map_of (obj_fields p) k)"
  using assms
proof (induction xs arbitrary: p)
  case (Cons x xs)
  obtain n v where x: "x = (n, v)" by (cases x)
  have s: "blank n v = (v = [])" using Cons.prems(2) x by simp
  have "map_of xs n = None" using Cons.prems(1) x by (simp add: map_of_eq_None_iff)
  then show ?case
    using Cons.IH [of "if v = [] then p else set_field n (Str v) p"] Cons.prems x s
    by (auto simp: update_conv' split: option.splits)
qed simp

lemma fold_map_pairs: "fold f (map (\<lambda>(n, v). (n, g v)) xs) p = fold (\<lambda>(n, v). f (n, g v)) xs p"
  by (induction xs arbitrary: p) (simp_all add: case_prod_unfold)

lemma serialize_select:
  assumes "distinct (map fst vs)"
  shows "map_of (obj_fields (serializeJSON True (select_form vs))) n =
     (case map_of vs n of Some v \<Rightarrow> if v = [] then None else Some (Str v) | None \<Rightarrow> None)"
proof -
  let ?f = "select_form vs"
  define blank where "blank n v = (v = [] \<and> seq (fm_initial ?f n) (fm_value ?f n))" for n and v :: string
  have blank: "blank n v = (v = [])" if "(n, v) \<in> set vs" for n v
  proof -
    have "map_of vs n = Some v" using that assms by simp
    moreover have "n \<in> set (map fst vs)" using that by force
    ultimately show ?thesis by (auto simp: blank_def select_form_def)
  qed
  have "serializeJSON True ?f = fold (\<lambda>(n, v) p. if blank n v then p else set_field n (Str v) p) vs (Obj [])"
    unfolding serializeJSON_def form_values_def
    by (simp add: select_form_def fold_map_pairs) (simp add: blank_def select_form_def)
  then show ?thesis
    using fold_fields [OF assms, of blank "Obj []" n] blank by (simp split: option.splits)
qed

lemma serializeJSON_obj: "\<exists>fs. serializeJSON b f = Obj fs"
proof -
  have "\<exists>fs. fold (\<lambda>(n, v) p. if P n v then p else set_field n v p) xs (Obj gs) = Obj fs"
    for P and xs :: "(string \<times> jsval) list" and gs
    by (induction xs arbitrary: gs) (auto simp: set_field_def)
  then show ?thesis unfolding serializeJSON_def .
qed

lemma oget_obj: "v = Obj fs \<Longrightarrow> oget v k = (case map_of (obj_fields v) k of Some x \<Rightarrow> x | None \<Rightarrow> Undef)"
  by (simp add: field_def split: option.split)

lemma map_of_set_field [simp]: "map_of (obj_fields (set_field k x v)) n = (if n = k then Some x else map_of (obj_fields v) n)"
  by (simp add: update_conv')

lemma map_of_del_field [simp]: "map_of (obj_fields (del_field k v)) n = (if n = k then None else map_of (obj_fields v) n)"
  by (simp add: del_field_def map_of_filter_key)

end
