(* ===== verification/ApiClient.thy ===== *)
theory ApiClient
  imports AdminBase
begin

section \<open>The generated client of the management console\<close>

text \<open>
  \<open>compat/api.js\<close>, the client generated from the server's description, method by method, and
  \<open>compat/patch.js\<close>, which replaces ten of its methods. A method takes an object of parameters; it is
  rejected when one that the path needs is missing, or else makes the call that \<open>request\<close> sends. An
  object's keys stay in the order in which they were put in. \<open>requestRaw\<close> of \<open>patch.js\<close> is not modelled.
\<close>

record api_call =
  call_verb :: string
  call_path :: string
  call_body :: jsval
  call_query :: jsval

type_synonym api_method = "jsval \<Rightarrow> exn + api_call"

subsection \<open>Paths and queries\<close>

text \<open>\<open>path.replace(hole, v)\<close>: the first occurrence; \<open>$\<close> patterns in the replacement are expanded.\<close>

fun find_sub :: "string \<Rightarrow> string \<Rightarrow> (string \<times> string) option" where
  "find_sub p [] = (if p = [] then Some ([], []) else None)"
| "find_sub p (c # cs) =
     (if starts_with p (c # cs) then Some ([], drop (length p) (c # cs))
      else map_option (\<lambda>(a, b). (c # a, b)) (find_sub p cs))"

fun substitution :: "string \<Rightarrow> string \<Rightarrow> string \<Rightarrow> string \<Rightarrow> string" where
  "substitution pre p post (d # c # s) =
     (if d \<noteq> CHR ''$'' then d # substitution pre p post (c # s)
      else if c = CHR ''$'' then CHR ''$'' # substitution pre p post s
      else if c = CHR ''&'' then p @ substitution pre p post s
      else if c = CHR 0x60 then pre @ substitution pre p post s
      else if c = CHR 0x27 then post @ substitution pre p post s
      else d # substitution pre p post (c # s))"
| "substitution pre p post s = s"

definition js_replace :: "string \<Rightarrow> string \<Rightarrow> string \<Rightarrow> string" where
  "js_replace p r s = (case find_sub p s of None \<Rightarrow> s | Some (a, b) \<Rightarrow> a @ substitution a p b r @ b)"

definition serializeQueryParams :: "jsval \<Rightarrow> string" where
  "serializeQueryParams q =
     join ''&'' (map (\<lambda>(p, v). encodeURIComponent p @ ''='' @ encodeURIComponent (js_string v)) (obj_fields q))"

definition mergeQueryParams :: "jsval \<Rightarrow> jsval \<Rightarrow> jsval" where
  "mergeQueryParams parameters q =
     fold (\<lambda>(n, v) q. set_field n v q) (obj_fields (oget parameters ''$queryParameters'')) q"

subsection \<open>Sending a call\<close>

fun no_keys :: "jsval \<Rightarrow> bool" where
  "no_keys (Obj fs) = (fs = [])"
| "no_keys (Arr xs) = (xs = [])"
| "no_keys (Str s) = (s = [])"
| "no_keys v = True"

definition wire_body :: "jsval \<Rightarrow> jsval option" where
  "wire_body b = (if b = Undef \<or> truthy b \<and> no_keys b then None else Some b)"

definition API_request :: "api_call \<Rightarrow> 'z adworld_scheme \<Rightarrow> request" where
  "API_request c w =
     ctfd_request (call_verb c)
       (api_domain w @ call_path c @
        (if no_keys (call_query c) \<or> serializeQueryParams (call_query c) = [] then []
         else ''?'' @ serializeQueryParams (call_query c)))
       (wire_body (call_body c)) w"

definition call_api :: "server \<Rightarrow> exn + api_call \<Rightarrow> (jsval, 'z adworld_scheme) action" where
  "call_api srv call w =
     (case call of Inl e \<Rightarrow> (Inl e, w)
      | Inr c \<Rightarrow> bindM (fetch srv (API_request c w)) (\<lambda>r. lift (resp_json r)) w)"

subsection \<open>What the generated methods share\<close>

definition missing :: "string \<Rightarrow> exn" where
  "missing k = ErrMsg (Str (''Missing required  parameter: '' @ k))"

text \<open>
  Parameters that may go into the query under another name are read first, then the hole of the path
  is filled; a missing parameter rejects the call.
\<close>

definition generated :: "string \<Rightarrow> string \<Rightarrow> (string \<times> string) option \<Rightarrow> (string \<times> string) list \<Rightarrow> api_method" where
  "generated m tmpl hole extra parameters =
     (let p = (if parameters = Undef then Obj [] else parameters);
          q = fold (\<lambda>(n, k) q. if oget p k = Undef then q else set_field n (oget p k) q) extra (Obj [])
      in if p = Null then Inl TypeError
         else case hole of
             None \<Rightarrow> Inr \<lparr>call_verb = m, call_path = tmpl, call_body = Obj [], call_query = mergeQueryParams p q\<rparr>
           | Some (h, k) \<Rightarrow>
               if oget p k = Undef then Inl (missing k)
               else Inr \<lparr>call_verb = m, call_path = js_replace h (js_string (oget p k)) tmpl, call_body = Obj [],
                         call_query = mergeQueryParams p q\<rparr>)"

subsection \<open>The methods of \<open>api.js\<close>\<close>

definition post_award_list :: api_method where
  "post_award_list = generated ''POST'' ''/awards'' None []"

definition delete_award :: api_method where
  "delete_award = generated ''DELETE'' ''/awards/{award_id}'' (Some (''{award_id}'', ''awardId'')) []"

definition get_award :: api_method where
  "get_award = generated ''GET'' ''/awards/{award_id}'' (Some (''{award_id}'', ''awardId'')) []"

definition post_challenge_list :: api_method where
  "post_challenge_list = generated ''POST'' ''/challenges'' None []"

definition get_challenge_list :: api_method where
  "get_challenge_list = generated ''GET'' ''/challenges'' None []"

definition post_challenge_attempt :: api_method where
  "post_challenge_attempt = generated ''POST'' ''/challenges/attempt'' None []"

definition get_challenge_types :: api_method where
  "get_challenge_types = generated ''GET'' ''/challenges/types'' None []"

definition patch_challenge :: api_method where
  "patch_challenge = generated ''PATCH'' ''/challenges/{challenge_id}'' (Some (''{challenge_id}'', ''challengeId'')) []"

definition delete_challenge :: api_method where
  "delete_challenge = generated ''DELETE'' ''/challenges/{challenge_id}'' (Some (''{challenge_id}'', ''challengeId'')) []"

definition get_challenge :: api_method where
  "get_challenge = generated ''GET'' ''/challenges/{challenge_id}'' (Some (''{challenge_id}'', ''challengeId'')) []"

definition get_challenge_files :: api_method where
  "get_challenge_files = generated ''GET'' ''/challenges/{challenge_id}/files''
     (Some (''{challenge_id}'', ''challengeId'')) [(''id'', ''id'')]"

definition get_challenge_flags :: api_method where
  "get_challenge_flags = generated ''GET'' ''/challenges/{challenge_id}/flags''
     (Some (''{challenge_id}'', ''challengeId'')) [(''id'', ''id'')]"

definition get_challenge_hints :: api_method where
  "get_challenge_hints = generated ''GET'' ''/challenges/{challenge_id}/hints''
     (Some (''{challenge_id}'', ''challengeId'')) [(''id'', ''id'')]"

definition get_challenge_solves :: api_method where
  "get_challenge_solves = generated ''GET'' ''/challenges/{challenge_id}/solves''
     (Some (''{challenge_id}'', ''challengeId'')) [(''id'', ''id'')]"

definition get_challenge_tags :: api_method where
  "get_challenge_tags = generated ''GET'' ''/challenges/{challenge_id}/tags''
     (Some (''{challenge_id}'', ''challengeId'')) [(''id'', ''id'')]"

definition post_config_list :: api_method where
  "post_config_list = generated ''POST'' ''/configs'' None []"

definition patch_config_list :: api_method where
  "patch_config_list = generated ''PATCH'' ''/configs'' None []"

definition get_config_list :: api_method where
  "get_config_list = generated ''GET'' ''/configs'' None []"

definition patch_config :: api_method where
  "patch_config = generated ''PATCH'' ''/configs/{config_key}'' (Some (''{config_key}'', ''configKey'')) []"

definition delete_config :: api_method where
  "delete_config = generated ''DELETE'' ''/configs/{config_key}'' (Some (''{config_key}'', ''configKey'')) []"

definition get_config :: api_method where
  "get_config = generated ''GET'' ''/configs/{config_key}'' (Some (''{config_key}'', ''configKey'')) []"

definition post_files_list :: api_method where
  "post_files_list = generated ''POST'' ''/files'' None []"

definition get_files_list :: api_method where
  "get_files_list = generated ''GET'' ''/files'' None []"

definition delete_files_detail :: api_method where
  "delete_files_detail = generated ''DELETE'' ''/files/{file_id}'' (Some (''{file_id}'', ''fileId'')) []"

definition get_files_detail :: api_method where
  "get_files_detail = generated ''GET'' ''/files/{file_id}'' (Some (''{file_id}'', ''fileId'')) []"

definition post_flag_list :: api_method where
  "post_flag_list = generated ''POST'' ''/flags'' None []"

definition get_flag_list :: api_method where
  "get_flag_list = generated ''GET'' ''/flags'' None []"

definition get_flag_types :: api_method where
  "get_flag_types = generated ''GET'' ''/flags/types'' None []"

definition get_flag_types_1 :: api_method where
  "get_flag_types_1 = generated ''GET'' ''/flags/types/{type_name}'' (Some (''{type_name}'', ''typeName'')) []"

definition patch_flag :: api_method where
  "patch_flag = generated ''PATCH'' ''/flags/{flag_id}'' (Some (''{flag_id}'', ''flagId'')) []"

definition delete_flag :: api_method where
  "delete_flag = generated ''DELETE'' ''/flags/{flag_id}'' (Some (''{flag_id}'', ''flagId'')) []"

definition get_flag :: api_method where
  "get_flag = generated ''GET'' ''/flags/{flag_id}'' (Some (''{flag_id}'', ''flagId'')) []"

definition post_hint_list :: api_method where
  "post_hint_list = generated ''POST'' ''/hints'' None []"

definition get_hint_list :: api_method where
  "get_hint_list = generated ''GET'' ''/hints'' None []"

definition patch_hint :: api_method where
  "patch_hint = generated ''PATCH'' ''/hints/{hint_id}'' (Some (''{hint_id}'', ''hintId'')) []"

definition delete_hint :: api_method where
  "delete_hint = generated ''DELETE'' ''/hints/{hint_id}'' (Some (''{hint_id}'', ''hintId'')) []"

definition get_hint :: api_method where
  "get_hint = generated ''GET'' ''/hints/{hint_id}'' (Some (''{hint_id}'', ''hintId'')) []"

definition post_notification_list :: api_method where
  "post_notification_list = generated ''POST'' ''/notifications'' None []"

definition get_notification_list :: api_method where
  "get_notification_list = generated ''GET'' ''/notifications'' None []"

definition delete_notification :: api_method where
  "delete_notification = generated ''DELETE'' ''/notifications/{notification_id}''
     (Some (''{notification_id}'', ''notificationId'')) []"

definition get_notification :: api_method where
  "get_notification = generated ''GET'' ''/notifications/{notification_id}''
     (Some (''{notification_id}'', ''notificationId'')) []"

definition get_scoreboard_list :: api_method where
  "get_scoreboard_list = generated ''GET'' ''/scoreboard'' None []"

definition get_scoreboard_detail :: api_method where
  "get_scoreboard_detail = generated ''GET'' ''/scoreboard/top/{count}'' (Some (''{count}'', ''count'')) []"

definition get_challenge_solve_statistics :: api_method where
  "get_challenge_solve_statistics = generated ''GET'' ''/statistics/challenges/solves'' None []"

definition get_challenge_solve_percentages :: api_method where
  "get_challenge_solve_percentages = generated ''GET'' ''/statistics/challenges/solves/percentages'' None []"

definition get_challenge_property_counts :: api_method where
  "get_challenge_property_counts = generated ''GET'' ''/statistics/challenges/{column}''
     (Some (''{column}'', ''column'')) []"

definition get_submission_property_counts :: api_method where
  "get_submission_property_counts = generated ''GET'' ''/statistics/submissions/{column}''
     (Some (''{column}'', ''column'')) []"

definition get_team_statistics :: api_method where
  "get_team_statistics = generated ''GET'' ''/statistics/teams'' None []"

definition get_user_statistics :: api_method where
  "get_user_statistics = generated ''GET'' ''/statistics/users'' None []"

definition get_user_property_counts :: api_method where
  "get_user_property_counts = generated ''GET'' ''/statistics/users/{column}'' (Some (''{column}'', ''column'')) []"

definition post_submissions_list :: api_method where
  "post_submissions_list = generated ''POST'' ''/submissions'' None []"

definition get_submissions_list :: api_method where
  "get_submissions_list = generated ''GET'' ''/submissions'' None []"

definition delete_submission :: api_method where
  "delete_submission = generated ''DELETE'' ''/submissions/{submission_id}''
     (Some (''{submission_id}'', ''submissionId'')) []"

definition get_submission :: api_method where
  "get_submission = generated ''GET'' ''/submissions/{submission_id}'' (Some (''{submission_id}'', ''submissionId'')) []"

definition post_tag_list :: api_method where
  "post_tag_list = generated ''POST'' ''/tags'' None []"

definition get_tag_list :: api_method where
  "get_tag_list = generated ''GET'' ''/tags'' None []"

definition patch_tag :: api_method where
  "patch_tag = generated ''PATCH'' ''/tags/{tag_id}'' (Some (''{tag_id}'', ''tagId'')) []"

definition delete_tag :: api_method where
  "delete_tag = generated ''DELETE'' ''/tags/{tag_id}'' (Some (''{tag_id}'', ''tagId'')) []"

definition get_tag :: api_method where
  "get_tag = generated ''GET'' ''/tags/{tag_id}'' (Some (''{tag_id}'', ''tagId'')) []"

definition post_team_list :: api_method where
  "post_team_list = generated ''POST'' ''/teams'' None []"

definition get_team_list :: api_method where
  "get_team_list = generated ''GET'' ''/teams'' None []"

definition patch_team_private :: api_method where
  "patch_team_private = generated ''PATCH'' ''/teams/me'' None [(''teamId'', ''team_id'')]"

definition get_team_private :: api_method where
  "get_team_private = generated ''GET'' ''/teams/me'' None [(''teamId'', ''team_id'')]"

definition patch_team_public :: api_method where
  "patch_team_public = generated ''PATCH'' ''/teams/{team_id}'' (Some (''{team_id}'', ''teamId'')) []"

definition delete_team_public :: api_method where
  "delete_team_public = generated ''DELETE'' ''/teams/{team_id}'' (Some (''{team_id}'', ''teamId'')) []"

definition get_team_public :: api_method where
  "get_team_public = generated ''GET'' ''/teams/{team_id}'' (Some (''{team_id}'', ''teamId'')) []"

definition get_team_awards :: api_method where
  "get_team_awards = generated ''GET'' ''/teams/{team_id}/awards'' (Some (''{team_id}'', ''teamId'')) []"

definition get_team_fails :: api_method where
  "get_team_fails = generated ''GET'' ''/teams/{team_id}/fails'' (Some (''{team_id}'', ''teamId'')) []"

definition get_team_solves :: api_method where
  "get_team_solves = generated ''GET'' ''/teams/{team_id}/solves'' (Some (''{team_id}'', ''teamId'')) []"

definition post_unlock_list :: api_method where
  "post_unlock_list = generated ''POST'' ''/unlocks'' None []"

definition get_unlock_list :: api_method where
  "get_unlock_list = generated ''GET'' ''/unlocks'' None []"

definition post_user_list :: api_method where
  "post_user_list = generated ''POST'' ''/users'' None []"

definition get_user_list :: api_method where
  "get_user_list = generated ''GET'' ''/users'' None []"

definition patch_user_private :: api_method where
  "patch_user_private = generated ''PATCH'' ''/users/me'' None []"

definition get_user_private :: api_method where
  "get_user_private = generated ''GET'' ''/users/me'' None []"

definition patch_user_public :: api_method where
  "patch_user_public = generated ''PATCH'' ''/users/{user_id}'' (Some (''{user_id}'', ''userId'')) []"

definition delete_user_public :: api_method where
  "delete_user_public = generated ''DELETE'' ''/users/{user_id}'' (Some (''{user_id}'', ''userId'')) []"

definition get_user_public :: api_method where
  "get_user_public = generated ''GET'' ''/users/{user_id}'' (Some (''{user_id}'', ''userId'')) []"

definition get_user_awards :: api_method where
  "get_user_awards = generated ''GET'' ''/users/{user_id}/awards'' (Some (''{user_id}'', ''userId'')) []"

definition get_user_fails :: api_method where
  "get_user_fails = generated ''GET'' ''/users/{user_id}/fails'' (Some (''{user_id}'', ''userId'')) []"

definition get_user_solves :: api_method where
  "get_user_solves = generated ''GET'' ''/users/{user_id}/solves'' (Some (''{user_id}'', ''userId'')) []"

subsection \<open>The methods \<open>patch.js\<close> puts in their place\<close>

text \<open>They take a body; some merge all the parameters into the query, and some never read them.\<close>

definition merge_all :: "jsval \<Rightarrow> jsval \<Rightarrow> jsval" where
  "merge_all parameters q = Obj (fold (\<lambda>(n, v) fs. AList.update n v fs) (obj_fields q) (obj_fields parameters))"

definition default_params :: "jsval \<Rightarrow> jsval" where
  "default_params parameters = (if parameters = Undef then Obj [] else parameters)"

definition patched_item :: "string \<Rightarrow> string \<Rightarrow> string \<Rightarrow> string \<Rightarrow> (jsval \<Rightarrow> jsval) \<Rightarrow> jsval \<Rightarrow> api_method" where
  "patched_item m tmpl h k merge data parameters =
     (let p = default_params parameters
      in if p = Null then Inl TypeError
         else if oget p k = Undef then Inl (missing k)
         else Inr \<lparr>call_verb = m, call_path = js_replace h (js_string (oget p k)) tmpl, call_body = data,
                   call_query = merge p\<rparr>)"

definition patched_patch_user_public :: "jsval \<Rightarrow> api_method" where
  "patched_patch_user_public = patched_item ''PATCH'' ''/users/{user_id}'' ''{user_id}'' ''userId'' (\<lambda>p. Obj [])"

definition patched_patch_user_private :: "jsval \<Rightarrow> api_method" where
  "patched_patch_user_private data parameters =
     Inr \<lparr>call_verb = ''PATCH'', call_path = ''/users/me'', call_body = data, call_query = Obj []\<rparr>"

definition patched_post_unlock_list :: "jsval \<Rightarrow> api_method" where
  "patched_post_unlock_list data parameters =
     Inr \<lparr>call_verb = ''POST'', call_path = ''/unlocks'', call_body = data, call_query = Obj []\<rparr>"

definition patched_post_notification_list :: "jsval \<Rightarrow> api_method" where
  "patched_post_notification_list data parameters =
     Inr \<lparr>call_verb = ''POST'', call_path = ''/notifications'', call_body = data, call_query = Obj []\<rparr>"

definition patched_patch_config :: "jsval \<Rightarrow> api_method" where
  "patched_patch_config = patched_item ''PATCH'' ''/configs/{config_key}'' ''{config_key}'' ''configKey'' (\<lambda>p. Obj [])"

definition patched_patch_config_list :: "jsval \<Rightarrow> api_method" where
  "patched_patch_config_list data parameters =
     Inr \<lparr>call_verb = ''PATCH'', call_path = ''/configs'', call_body = data,
          call_query = merge_all (default_params parameters) (Obj [])\<rparr>"

definition patched_post_tag_list :: "jsval \<Rightarrow> api_method" where
  "patched_post_tag_list data parameters =
     Inr \<lparr>call_verb = ''POST'', call_path = ''/tags'', call_body = data,
          call_query = merge_all (default_params parameters) (Obj [])\<rparr>"

definition patched_patch_team_public :: "jsval \<Rightarrow> api_method" where
  "patched_patch_team_public =
     patched_item ''PATCH'' ''/teams/{team_id}'' ''{team_id}'' ''teamId'' (\<lambda>p. merge_all p (Obj []))"

definition patched_post_challenge_attempt :: "jsval \<Rightarrow> api_method" where
  "patched_post_challenge_attempt data parameters =
     Inr \<lparr>call_verb = ''POST'', call_path = ''/challenges/attempt'', call_body = data,
          call_query = merge_all (default_params parameters) (Obj [])\<rparr>"

text \<open>\<open>get_hint\<close> deletes the parameter it used from the caller's object, the second component.\<close>

definition patched_get_hint :: "jsval \<Rightarrow> (exn + api_call) \<times> jsval" where
  "patched_get_hint parameters =
     (let p = default_params parameters; rest = del_field ''hintId'' p
      in if p = Null then (Inl TypeError, p)
         else if oget p ''hintId'' = Undef then (Inl (missing ''hintId''), p)
         else (Inr \<lparr>call_verb = ''GET'', call_path = js_replace ''{hint_id}'' (js_string (oget p ''hintId'')) ''/hints/{hint_id}'',
                    call_body = Obj [], call_query = merge_all rest (Obj [])\<rparr>, rest))"

subsection \<open>Rules\<close>

lemma generated_verb: "generated m t h x p = Inr c \<Longrightarrow> call_verb c = m"
  by (auto simp: generated_def Let_def split: option.splits if_splits)

lemma generated_body: "generated m t h x p = Inr c \<Longrightarrow> call_body c = Obj []"
  by (auto simp: generated_def Let_def split: option.splits if_splits)

lemma substitution_plain: "CHR ''$'' \<notin> set r \<Longrightarrow> substitution a p b r = r"
  by (induction a p b r rule: substitution.induct) auto

lemma generated_item:
  assumes "find_sub h t = Some (a, b)" "CHR ''$'' \<notin> set (js_string v)" "v \<noteq> Undef"
  shows "generated m t (Some (h, k)) x (Obj ((k, v) # fs)) =
    Inr \<lparr>call_verb = m, call_path = a @ js_string v @ b, call_body = Obj [],
         call_query = mergeQueryParams (Obj ((k, v) # fs))
           (fold (\<lambda>(n, k') q. if oget (Obj ((k, v) # fs)) k' = Undef then q
               else set_field n (oget (Obj ((k, v) # fs)) k') q) x (Obj []))\<rparr>"
  using assms by (simp add: generated_def field_def js_replace_def substitution_plain Let_def)

lemma generated_missing:
  "p \<noteq> Null \<Longrightarrow> oget p k = Undef \<Longrightarrow> generated m t (Some (h, k)) x p = Inl (missing k)"
  by (auto simp: generated_def Let_def field_def)

lemma API_request_ask [simp]: "API_request c (ask t x w) = API_request c w"
  by (simp add: API_request_def api_domain_def)

lemma call_api_sent: "sent (snd (call_api srv c w)) = sent w @ (case c of Inl e \<Rightarrow> [] | Inr c \<Rightarrow> [API_request c w])"
  by (cases c; cases "snd (srv (sent w) (case c of Inr c \<Rightarrow> API_request c w))";
      auto simp: call_api_def fetch_def receive_def bindM_def lift_def Let_def case_prod_unfold split: sum.splits)

subsection \<open>The methods as tables\<close>

text \<open>Every generated method under its name; and those whose path has a hole, with what stands before and
  after it and the parameter that fills it.\<close>

definition client :: "(string \<times> api_method) list" where
  "client = [
      (''post_award_list'', post_award_list), (''delete_award'', delete_award), (''get_award'', get_award),
      (''post_challenge_list'', post_challenge_list), (''get_challenge_list'', get_challenge_list),
      (''post_challenge_attempt'', post_challenge_attempt), (''get_challenge_types'', get_challenge_types),
      (''patch_challenge'', patch_challenge), (''delete_challenge'', delete_challenge),
      (''get_challenge'', get_challenge), (''get_challenge_files'', get_challenge_files),
      (''get_challenge_flags'', get_challenge_flags), (''get_challenge_hints'', get_challenge_hints),
      (''get_challenge_solves'', get_challenge_solves), (''get_challenge_tags'', get_challenge_tags),
      (''post_config_list'', post_config_list), (''patch_config_list'', patch_config_list),
      (''get_config_list'', get_config_list), (''patch_config'', patch_config),
      (''delete_config'', delete_config), (''get_config'', get_config), (''post_files_list'', post_files_list),
      (''get_files_list'', get_files_list), (''delete_files_detail'', delete_files_detail),
      (''get_files_detail'', get_files_detail), (''post_flag_list'', post_flag_list),
      (''get_flag_list'', get_flag_list), (''get_flag_types'', get_flag_types),
      (''get_flag_types_1'', get_flag_types_1), (''patch_flag'', patch_flag), (''delete_flag'', delete_flag),
      (''get_flag'', get_flag), (''post_hint_list'', post_hint_list), (''get_hint_list'', get_hint_list),
      (''patch_hint'', patch_hint), (''delete_hint'', delete_hint), (''get_hint'', get_hint),
      (''post_notification_list'', post_notification_list), (''get_notification_list'', get_notification_list),
      (''delete_notification'', delete_notification), (''get_notification'', get_notification),
      (''get_scoreboard_list'', get_scoreboard_list), (''get_scoreboard_detail'', get_scoreboard_detail),
      (''get_challenge_solve_statistics'', get_challenge_solve_statistics),
      (''get_challenge_solve_percentages'', get_challenge_solve_percentages),
      (''get_challenge_property_counts'', get_challenge_property_counts),
      (''get_submission_property_counts'', get_submission_property_counts),
      (''get_team_statistics'', get_team_statistics), (''get_user_statistics'', get_user_statistics),
      (''get_user_property_counts'', get_user_property_counts),
      (''post_submissions_list'', post_submissions_list), (''get_submissions_list'', get_submissions_list),
      (''delete_submission'', delete_submission), (''get_submission'', get_submission),
      (''post_tag_list'', post_tag_list), (''get_tag_list'', get_tag_list), (''patch_tag'', patch_tag),
      (''delete_tag'', delete_tag), (''get_tag'', get_tag), (''post_team_list'', post_team_list),
      (''get_team_list'', get_team_list), (''patch_team_private'', patch_team_private),
      (''get_team_private'', get_team_private), (''patch_team_public'', patch_team_public),
      (''delete_team_public'', delete_team_public), (''get_team_public'', get_team_public),
      (''get_team_awards'', get_team_awards), (''get_team_fails'', get_team_fails),
      (''get_team_solves'', get_team_solves), (''post_unlock_list'', post_unlock_list),
      (''get_unlock_list'', get_unlock_list), (''post_user_list'', post_user_list),
      (''get_user_list'', get_user_list), (''patch_user_private'', patch_user_private),
      (''get_user_private'', get_user_private), (''patch_user_public'', patch_user_public),
      (''delete_user_public'', delete_user_public), (''get_user_public'', get_user_public),
      (''get_user_awards'', get_user_awards), (''get_user_fails'', get_user_fails),
      (''get_user_solves'', get_user_solves)]"

definition item_methods :: "(api_method \<times> string \<times> string \<times> string) list" where
  "item_methods = [
      (delete_award, ''/awards/'', ''awardId'', ''''), (get_award, ''/awards/'', ''awardId'', ''''),
      (patch_challenge, ''/challenges/'', ''challengeId'', ''''),
      (delete_challenge, ''/challenges/'', ''challengeId'', ''''),
      (get_challenge, ''/challenges/'', ''challengeId'', ''''),
      (get_challenge_files, ''/challenges/'', ''challengeId'', ''/files''),
      (get_challenge_flags, ''/challenges/'', ''challengeId'', ''/flags''),
      (get_challenge_hints, ''/challenges/'', ''challengeId'', ''/hints''),
      (get_challenge_solves, ''/challenges/'', ''challengeId'', ''/solves''),
      (get_challenge_tags, ''/challenges/'', ''challengeId'', ''/tags''),
      (patch_config, ''/configs/'', ''configKey'', ''''), (delete_config, ''/configs/'', ''configKey'', ''''),
      (get_config, ''/configs/'', ''configKey'', ''''), (delete_files_detail, ''/files/'', ''fileId'', ''''),
      (get_files_detail, ''/files/'', ''fileId'', ''''),
      (get_flag_types_1, ''/flags/types/'', ''typeName'', ''''), (patch_flag, ''/flags/'', ''flagId'', ''''),
      (delete_flag, ''/flags/'', ''flagId'', ''''), (get_flag, ''/flags/'', ''flagId'', ''''),
      (patch_hint, ''/hints/'', ''hintId'', ''''), (delete_hint, ''/hints/'', ''hintId'', ''''),
      (get_hint, ''/hints/'', ''hintId'', ''''),
      (delete_notification, ''/notifications/'', ''notificationId'', ''''),
      (get_notification, ''/notifications/'', ''notificationId'', ''''),
      (get_scoreboard_detail, ''/scoreboard/top/'', ''count'', ''''),
      (get_challenge_property_counts, ''/statistics/challenges/'', ''column'', ''''),
      (get_submission_property_counts, ''/statistics/submissions/'', ''column'', ''''),
      (get_user_property_counts, ''/statistics/users/'', ''column'', ''''),
      (delete_submission, ''/submissions/'', ''submissionId'', ''''),
      (get_submission, ''/submissions/'', ''submissionId'', ''''), (patch_tag, ''/tags/'', ''tagId'', ''''),
      (delete_tag, ''/tags/'', ''tagId'', ''''), (get_tag, ''/tags/'', ''tagId'', ''''),
      (patch_team_public, ''/teams/'', ''teamId'', ''''), (delete_team_public, ''/teams/'', ''teamId'', ''''),
      (get_team_public, ''/teams/'', ''teamId'', ''''),
      (get_team_awards, ''/teams/'', ''teamId'', ''/awards''),
      (get_team_fails, ''/teams/'', ''teamId'', ''/fails''),
      (get_team_solves, ''/teams/'', ''teamId'', ''/solves''),
      (patch_user_public, ''/users/'', ''userId'', ''''), (delete_user_public, ''/users/'', ''userId'', ''''),
      (get_user_public, ''/users/'', ''userId'', ''''),
      (get_user_awards, ''/users/'', ''userId'', ''/awards''),
      (get_user_fails, ''/users/'', ''userId'', ''/fails''),
      (get_user_solves, ''/users/'', ''userId'', ''/solves'')]"

lemmas client_defs =
  post_award_list_def delete_award_def get_award_def post_challenge_list_def get_challenge_list_def
  post_challenge_attempt_def get_challenge_types_def patch_challenge_def delete_challenge_def
  get_challenge_def get_challenge_files_def get_challenge_flags_def get_challenge_hints_def
  get_challenge_solves_def get_challenge_tags_def post_config_list_def patch_config_list_def
  get_config_list_def patch_config_def delete_config_def get_config_def post_files_list_def
  get_files_list_def delete_files_detail_def get_files_detail_def post_flag_list_def get_flag_list_def
  get_flag_types_def get_flag_types_1_def patch_flag_def delete_flag_def get_flag_def post_hint_list_def
  get_hint_list_def patch_hint_def delete_hint_def get_hint_def post_notification_list_def
  get_notification_list_def delete_notification_def get_notification_def get_scoreboard_list_def
  get_scoreboard_detail_def get_challenge_solve_statistics_def get_challenge_solve_percentages_def
  get_challenge_property_counts_def get_submission_property_counts_def get_team_statistics_def
  get_user_statistics_def get_user_property_counts_def post_submissions_list_def get_submissions_list_def
  delete_submission_def get_submission_def post_tag_list_def get_tag_list_def patch_tag_def
  delete_tag_def get_tag_def post_team_list_def get_team_list_def patch_team_private_def
  get_team_private_def patch_team_public_def delete_team_public_def get_team_public_def
  get_team_awards_def get_team_fails_def get_team_solves_def post_unlock_list_def get_unlock_list_def
  post_user_list_def get_user_list_def patch_user_private_def get_user_private_def patch_user_public_def
  delete_user_public_def get_user_public_def get_user_awards_def get_user_fails_def get_user_solves_def

definition upper_char :: "char \<Rightarrow> char" where
  "upper_char c = (let n = (of_char c :: nat) in if 97 \<le> n \<and> n \<le> 122 then char_of (n - 32) else c)"

definition verb_of :: "string \<Rightarrow> string" where
  "verb_of n = map upper_char (takeWhile (\<lambda>c. c \<noteq> CHR ''_'') n)"

lemma client_rows: "list_all (\<lambda>(n, f). \<exists>m t h x. f = generated m t h x \<and> verb_of n = m) client"
  unfolding client_def client_defs list.pred_inject prod.case
  by (intro conjI TrueI exI list.pred_inject(1)) (rule refl, code_simp)+

lemma item_rows:
  "list_all (\<lambda>(f, a, k, b). \<exists>m t h x. f = generated m t (Some (h, k)) x \<and> find_sub h t = Some (a, b)) item_methods"
  unfolding item_methods_def client_defs list.pred_inject prod.case
  by (intro conjI TrueI exI list.pred_inject(1)) (rule refl, code_simp)+

subsection \<open>Properties\<close>

text \<open>C35: A method of the generated client that is not rejected sends exactly one request, with the verb its
  name begins with and without a body, whatever it is given; a rejected one sends nothing.\<close>
theorem client_calls:
  assumes "(n, f) \<in> set client"
  shows "case call_api srv (f p) w of (r, w') \<Rightarrow>
    (case f p of Inl e \<Rightarrow> r = Inl e \<and> w' = w
     | Inr c \<Rightarrow> \<exists>q. sent w' = sent w @ [q] \<and> req_method q = verb_of n \<and> req_body q = None)"
proof -
  obtain m t h x where f: "f = generated m t h x" and m: "verb_of n = m"
    using assms client_rows by (auto simp: list_all_iff)
  show ?thesis
  proof (cases "f p")
    case (Inl e)
    then show ?thesis by (simp add: call_api_def)
  next
    case (Inr c)
    then have "call_verb c = m" "call_body c = Obj []" using f generated_verb generated_body by auto
    then have "req_method (API_request c w) = m \<and> req_body (API_request c w) = None"
      by (simp add: API_request_def ctfd_request_def wire_body_def)
    then show ?thesis using Inr m call_api_sent [of srv "f p" w] by (auto simp: case_prod_unfold)
  qed
qed

theorem client_calls_witness:
  "\<forall>w :: adworld. case call_api (\<lambda>past q. (0, NetFail)) (get_flag (Obj [(''flagId'', Num 7)])) w of (r, w') \<Rightarrow>
     \<exists>q. sent w' = sent w @ [q] \<and> req_method q = ''GET'' \<and> req_body q = None"
proof (intro allI)
  fix w :: adworld
  have "(''get_flag'', get_flag) \<in> set client" by (simp add: client_def)
  moreover have "\<exists>c. get_flag (Obj [(''flagId'', Num 7)]) = Inr c"
    by (simp add: get_flag_def generated_def field_def Let_def)
  moreover have "verb_of ''get_flag'' = ''GET''" by code_simp
  ultimately show "case call_api (\<lambda>past q. (0, NetFail)) (get_flag (Obj [(''flagId'', Num 7)])) w of (r, w') \<Rightarrow>
     \<exists>q. sent w' = sent w @ [q] \<and> req_method q = ''GET'' \<and> req_body q = None"
    using client_calls [where n = "''get_flag''" and f = get_flag and srv = "\<lambda>past q. (0, NetFail)"
      and p = "Obj [(''flagId'', Num 7)]" and w = w]
    by (auto simp: case_prod_unfold)
qed

text \<open>A method whose path has a hole puts the parameter there as it is, and is rejected when the
  parameter is missing.\<close>
theorem item_paths:
  assumes "(f, a, k, b) \<in> set item_methods" "CHR ''$'' \<notin> set (js_string v)"
  shows "if v = Undef then f (Obj ((k, v) # fs)) = Inl (missing k)
    else \<exists>c. f (Obj ((k, v) # fs)) = Inr c \<and> call_path c = a @ js_string v @ b"
proof -
  obtain m t h x where f: "f = generated m t (Some (h, k)) x" and t: "find_sub h t = Some (a, b)"
    using assms(1) item_rows by (auto simp: list_all_iff)
  show ?thesis
  proof (cases "v = Undef")
    case True
    then show ?thesis unfolding f by (simp add: generated_missing field_def)
  next
    case False
    then show ?thesis unfolding f using generated_item [OF t assms(2) False] by auto
  qed
qed

theorem item_paths_witness:
  "\<exists>c. delete_award (Obj [(''awardId'', Num 7)]) = Inr c \<and> call_path c = ''/awards/7''"
proof -
  have "(delete_award, ''/awards/'', ''awardId'', '''') \<in> set item_methods" by (simp add: item_methods_def)
  moreover have "js_string (Num 7) = ''7''" by code_simp
  ultimately show ?thesis using item_paths [of delete_award "''/awards/''" "''awardId''" "''''" "Num 7" "[]"] by auto
qed

text \<open>The hint method of \<open>patch.js\<close> spends its parameters: with the object it was called with, it is
  rejected the second time.\<close>
theorem hint_once:
  assumes "patched_get_hint parameters = (Inr c, p')"
  shows "fst (patched_get_hint p') = Inl (missing ''hintId'')"
proof -
  have "p' = del_field ''hintId'' (default_params parameters)"
    using assms by (auto simp: patched_get_hint_def Let_def split: if_splits)
  moreover have "map_of (obj_fields (del_field ''hintId'' q)) ''hintId'' = None" for q by simp
  ultimately show ?thesis
    by (simp add: patched_get_hint_def default_params_def del_field_def field_def Let_def)
qed

end
