(* ===== verification/AdminConsole.thy ===== *)
theory AdminConsole
  imports ApiClient Accounts
begin

section \<open>The management console: users, teams, submissions, challenges, scoreboard\<close>

text \<open>
  The lists of the admin theme (\<open>pages/users.js\<close>, \<open>teams.js\<close>, \<open>submissions.js\<close>, \<open>challenges.js\<close> and
  \<open>scoreboard.js\<close> under \<open>CTFd/themes/admin/assets/js\<close>): their bulk actions, the guarded export of
  users and the visibility of accounts. \<open>ids\<close> are the rows ticked, \<open>form\<close> what the dialog's selection lists
  say when it is submitted.
\<close>

subsection \<open>Deleting and editing the rows ticked\<close>

definition bulk :: "string \<Rightarrow> string \<Rightarrow> string \<Rightarrow> (outcome \<Rightarrow> bool) \<Rightarrow> server \<Rightarrow>
    (int \<Rightarrow> 'z adworld_scheme \<Rightarrow> request) \<Rightarrow> int list \<Rightarrow> bool \<Rightarrow> 'z adworld_scheme \<Rightarrow> 'z adworld_scheme" where
  "bulk title question rest ok srv mk ids yes w =
     (let w1 = ask title (question @ rest) w in if yes then send_all ok srv (map (\<lambda>i. mk i w) ids) w1 else w1)"

definition delete_url :: "string \<Rightarrow> int \<Rightarrow> 'z adworld_scheme \<Rightarrow> request" where
  "delete_url p i w = ctfd_request ''DELETE'' (p @ show_int i) None w"

definition patch_url :: "string \<Rightarrow> jsval \<Rightarrow> int \<Rightarrow> 'z adworld_scheme \<Rightarrow> request" where
  "patch_url p data i w = ctfd_request ''PATCH'' (p @ show_int i) (Some data) w"

abbreviation sure_delete :: string where "sure_delete \<equiv> ''Are you sure you want to delete ''"

definition deleteSelectedUsers :: "server \<Rightarrow> int list \<Rightarrow> bool \<Rightarrow> 'z adworld_scheme \<Rightarrow> 'z adworld_scheme" where
  "deleteSelectedUsers srv ids yes w =
     bulk ''Delete Users'' sure_delete (counted (length ids) ''user'' @ ''?'') answered srv
       (delete_url ''/api/v1/users/'') ids yes w"

definition bulkEditUsers :: "form_data \<Rightarrow> server \<Rightarrow> int list \<Rightarrow> bool \<Rightarrow> 'z adworld_scheme \<Rightarrow> 'z adworld_scheme" where
  "bulkEditUsers form srv ids yes w =
     bulk ''Edit Users'' [] [] answered srv (patch_url ''/api/v1/users/'' (serializeJSON True form)) ids yes w"

definition deleteSelectedTeams :: "server \<Rightarrow> int list \<Rightarrow> bool \<Rightarrow> 'z adworld_scheme \<Rightarrow> 'z adworld_scheme" where
  "deleteSelectedTeams srv ids yes w =
     bulk ''Delete Teams'' sure_delete (counted (length ids) ''team'' @ ''?'') answered srv
       (delete_url ''/api/v1/teams/'') ids yes w"

text \<open>The brackets are asked for before the dialog of teams opens; the choice of a bracket is read so.\<close>

definition bracket_options :: "server \<Rightarrow> 'z adworld_scheme \<Rightarrow> (string \<times> string) list \<times> 'z adworld_scheme" where
  "bracket_options srv w =
     (let base = [([], ''-- No change --''), (''__null__'', ''Clear bracket'')]
      in case ctfd_fetch srv ''GET'' ''/api/v1/brackets?type=teams'' None w of
           (Inl e, w') \<Rightarrow> (base, w')
         | (Inr r, w') \<Rightarrow> (case resp_json r of
               Inl e \<Rightarrow> (base, w')
             | Inr d \<Rightarrow> (base @ map (\<lambda>b. (js_string (oget b ''id''), js_string (oget b ''name'')))
                          (if truthy (oget d ''data'') then elems (oget d ''data'') else []), w')))"

definition bracket_choice :: "jsval \<Rightarrow> jsval" where
  "bracket_choice data =
     (let b = oget data ''bracket_id''
      in if \<not> truthy b then del_field ''bracket_id'' data
         else if seq b (Str ''__null__'') then set_field ''bracket_id'' Null data
         else set_field ''bracket_id'' (parseInt10 (js_string b)) data)"

definition teams_dialog :: "form_data \<Rightarrow> server \<Rightarrow> int list \<Rightarrow> bool \<Rightarrow> 'z adworld_scheme \<Rightarrow> 'z adworld_scheme" where
  "teams_dialog form srv ids yes w =
     bulk ''Edit Teams'' [] [] answered srv
       (patch_url ''/api/v1/teams/'' (bracket_choice (serializeJSON True form))) ids yes w"

definition bulkEditTeams :: "form_data \<Rightarrow> server \<Rightarrow> int list \<Rightarrow> bool \<Rightarrow> 'z adworld_scheme \<Rightarrow> 'z adworld_scheme" where
  "bulkEditTeams form srv ids yes w = teams_dialog form srv ids yes (snd (bracket_options srv w))"

definition deleteSelectedChallenges :: "server \<Rightarrow> int list \<Rightarrow> bool \<Rightarrow> 'z adworld_scheme \<Rightarrow> 'z adworld_scheme" where
  "deleteSelectedChallenges srv ids yes w =
     bulk ''Delete Challenges'' sure_delete (counted (length ids) ''challenge'' @ ''?'') answered srv
       (delete_url ''/api/v1/challenges/'') ids yes w"

definition bulkEditChallenges :: "form_data \<Rightarrow> server \<Rightarrow> int list \<Rightarrow> bool \<Rightarrow> 'z adworld_scheme \<Rightarrow> 'z adworld_scheme" where
  "bulkEditChallenges form srv ids yes w =
     bulk ''Edit Challenges'' [] [] answered srv
       (patch_url ''/api/v1/challenges/'' (serializeJSON True form)) ids yes w"

subsection \<open>Submissions\<close>

text \<open>The client's call for one submission; its parameter is never missing.\<close>

definition submission_request :: "int \<Rightarrow> 'z adworld_scheme \<Rightarrow> request" where
  "submission_request i w = API_request (projr (delete_submission (Obj [(''submissionId'', Num (of_int i))]))) w"

definition deleteSelectedSubmissions :: "server \<Rightarrow> int list \<Rightarrow> bool \<Rightarrow> 'z adworld_scheme \<Rightarrow> 'z adworld_scheme" where
  "deleteSelectedSubmissions srv ids yes w =
     bulk ''Delete Submissions'' sure_delete (counted (length ids) ''submission'' @ ''?'') readable srv
       submission_request ids yes w"

definition no_selection :: "'z adworld_scheme \<Rightarrow> 'z adworld_scheme" where
  "no_selection w = ask ''No Selection'' ''Please select at least one submission.'' w"

definition mark_body :: "string \<Rightarrow> jsval" where
  "mark_body t = Obj [(''type'', Str t)]"

definition correctSubmissions :: "server \<Rightarrow> int list \<Rightarrow> bool \<Rightarrow> 'z adworld_scheme \<Rightarrow> 'z adworld_scheme" where
  "correctSubmissions srv ids yes w =
     (if ids = [] then no_selection w
      else bulk ''Correct Submissions'' ''Are you sure you want to mark ''
        (counted (length ids) ''submission'' @ '' as correct?'') answered srv
        (patch_url ''/api/v1/submissions/'' (mark_body ''correct'')) ids yes w)"

definition incorrectSubmissions :: "server \<Rightarrow> int list \<Rightarrow> bool \<Rightarrow> 'z adworld_scheme \<Rightarrow> 'z adworld_scheme" where
  "incorrectSubmissions srv ids yes w =
     (if ids = [] then no_selection w
      else bulk ''Mark Incorrect'' ''Are you sure you want to mark ''
        (counted (length ids) ''submission'' @ '' as incorrect? This will remove solves and update standings.'')
        answered srv (patch_url ''/api/v1/submissions/'' (mark_body ''incorrect'')) ids yes w)"

text \<open>One submission: whether its row is taken away; \<open>question\<close> is the text of the dialog.\<close>

definition deleteCorrectSubmission :: "string \<Rightarrow> server \<Rightarrow> int \<Rightarrow> bool \<Rightarrow> 'z adworld_scheme \<Rightarrow> bool \<times> 'z adworld_scheme" where
  "deleteCorrectSubmission question srv i yes w =
     (let w1 = ask ''Delete Submission'' question w
      in if \<not> yes then (False, w1)
         else case bindM (call_api srv (delete_submission (Obj [(''submissionId'', Num (of_int i))])))
                (\<lambda>r. lift (get r ''success'')) w1 of
             (Inl e, v) \<Rightarrow> (False, v)
           | (Inr s, v) \<Rightarrow> (truthy s, v))"

definition resyncDynamicChallenges :: "server \<Rightarrow> bool \<Rightarrow> (unit, 'z adworld_scheme) action" where
  "resyncDynamicChallenges srv yes w =
     (let w1 = ask ''Resync Dynamic Challenges'' ''Are you sure you want to recalculate all dynamic challenge values? This will update the point values based on current solve counts.'' w
      in if \<not> yes then (Inr (), w1)
         else finallyM (catchM
           (bindM (ctfd_fetch srv ''POST'' ''/admin/submissions/resync-dynamic'' None) (\<lambda>r.
            bindM (lift (resp_json r)) (\<lambda>d.
            bindM (lift (get d ''success'')) (\<lambda>ok.
              if truthy ok then upd (show_popup ''Success'' [oget d ''message''])
              else upd (show_popup ''Error'' [js_or (oget d ''message'') (Str ''Failed to resync dynamic challenges'')])))))
           (\<lambda>e. upd (show_popup ''Error'' [Str (''An error occurred while resyncing: '' @ error_message e)])))
           (\<lambda>w. w\<lparr>ad_busy := False\<rparr>) (w1\<lparr>ad_busy := True\<rparr>))"

subsection \<open>The visibility of accounts\<close>

text \<open>\<open>patch_user_public\<close> and \<open>patch_team_public\<close> of \<open>compat/patch.js\<close>; the mode is \<open>users\<close> or \<open>teams\<close>.\<close>

definition account_call :: "string \<Rightarrow> jsval \<Rightarrow> int \<Rightarrow> exn + api_call" where
  "account_call mode data i =
     (if mode = ''users'' then patched_patch_user_public data (Obj [(''userId'', Num (of_int i))])
      else patched_patch_team_public data (Obj [(''teamId'', Num (of_int i))]))"

definition patch_public :: "string \<Rightarrow> jsval \<Rightarrow> int \<Rightarrow> 'z adworld_scheme \<Rightarrow> request" where
  "patch_public mode data i w = API_request (projr (account_call mode data i)) w"

definition hidden_body :: "bool \<Rightarrow> jsval" where
  "hidden_body b = Obj [(''hidden'', BoolV b)]"

text \<open>The button of one account: its state is the text kept with it.\<close>

definition setVisibilityButtonState :: "jsval \<Rightarrow> string" where
  "setVisibilityButtonState hidden = (if truthy hidden then ''hidden'' else ''visible'')"

definition toggled :: "string \<Rightarrow> jsval" where
  "toggled state = (if state = ''visible'' then BoolV True else if state = ''hidden'' then BoolV False else Undef)"

definition toggleAccount :: "string \<Rightarrow> server \<Rightarrow> int \<Rightarrow> string \<Rightarrow> (string, 'z adworld_scheme) action" where
  "toggleAccount mode srv i state =
     bindM (call_api srv (account_call mode (Obj [(''hidden'', toggled state)]) i)) (\<lambda>r.
     bindM (lift (get r ''success'')) (\<lambda>ok.
       ret (if truthy ok then setVisibilityButtonState (toggled state) else state)))"

definition toggleUser :: "server \<Rightarrow> int \<Rightarrow> string \<Rightarrow> (string, 'z adworld_scheme) action" where
  "toggleUser = toggleAccount ''users''"

definition toggleSelectedAccounts :: "string \<Rightarrow> server \<Rightarrow> int list \<Rightarrow> int list \<Rightarrow> jsval \<Rightarrow> 'z adworld_scheme \<Rightarrow>
    'z adworld_scheme" where
  "toggleSelectedAccounts mode srv accounts users action w =
     (let data = hidden_body (seq action (Str ''hidden''))
      in send_all readable srv
           (map (\<lambda>i. patch_public mode data i w) accounts @ map (\<lambda>i. patch_public ''users'' data i w) users) w)"

definition bulkToggleAccounts :: "string \<Rightarrow> form_data \<Rightarrow> server \<Rightarrow> int list \<Rightarrow> int list \<Rightarrow> bool \<Rightarrow> 'z adworld_scheme \<Rightarrow>
    'z adworld_scheme" where
  "bulkToggleAccounts mode form srv accounts users yes w =
     (let w1 = ask ''Toggle Visibility'' [] w
      in if yes then toggleSelectedAccounts mode srv accounts users (oget (serializeJSON True form) ''visibility'') w1 else w1)"

subsection \<open>Exporting the users\<close>

definition config_time :: "jsval \<Rightarrow> jsval" where
  "config_time c =
     (let v = (if nullish (oget c ''data'') then Undef else oget (oget c ''data'') ''value'')
      in if truthy v then parseInt (js_string v) else Num 0)"

text \<open>The comparison of the two configured times with the present second.\<close>

definition ctf_window :: "jsval \<Rightarrow> jsval \<Rightarrow> int \<Rightarrow> bool" where
  "ctf_window start fin now =
     (let s = as_num start; e = as_num fin; n = Some (of_int now)
      in if num_gt s (Some 0) \<and> num_gt e (Some 0) then num_gt n s \<and> num_gt e n
         else if num_gt s (Some 0) \<and> seq fin (Num 0) then num_gt n s
         else False)"

definition isCtfActive :: "server \<Rightarrow> (bool, 'z adworld_scheme) action" where
  "isCtfActive srv =
     catchM
       (bindM (ctfd_fetch srv ''GET'' ''/api/v1/configs/start'' None) (\<lambda>r1.
        bindM (lift (resp_json r1)) (\<lambda>startConfig.
        bindM (ctfd_fetch srv ''GET'' ''/api/v1/configs/end'' None) (\<lambda>r2.
        bindM (lift (resp_json r2)) (\<lambda>endConfig.
        bindM (lift (get startConfig ''success'')) (\<lambda>ok1.
          if \<not> truthy ok1 then ret False
          else bindM (lift (get endConfig ''success'')) (\<lambda>ok2.
            if \<not> truthy ok2 then ret False
            else (\<lambda>w. (Inr (ctf_window (config_time startConfig) (config_time endConfig) (clock w div 1000)), w)))))))))
       (\<lambda>_. ret False)"

text \<open>The parameters of the page's own address, and the address of the export.\<close>

definition export_params :: "bool \<Rightarrow> (string \<Rightarrow> string option) \<Rightarrow> (string \<times> string) list" where
  "export_params include query =
     (if include then [(''include_passwords'', ''1'')] else []) @
     (case (query ''field'', query ''q'') of
        (Some f, Some q) \<Rightarrow> if f \<noteq> [] \<and> q \<noteq> [] then [(''field'', f), (''q'', q)] else []
      | _ \<Rightarrow> [])"

text \<open>\<open>URLSearchParams.toString\<close>.\<close>

definition form_encode_char :: "char \<Rightarrow> string" where
  "form_encode_char c =
     (let n = (of_char c :: nat)
      in if c = CHR '' '' then ''+''
         else if n \<in> {48..57} \<or> n \<in> {65..90} \<or> n \<in> {97..122} \<or> n \<in> set [42, 45, 46, 95] then [c]
         else if n < 128 then percent n
         else percent (192 + n div 64) @ percent (128 + n mod 64))"

definition search_string :: "(string \<times> string) list \<Rightarrow> string" where
  "search_string ps =
     join ''&'' (map (\<lambda>(k, v). concat (map form_encode_char k) @ ''='' @ concat (map form_encode_char v)) ps)"

definition export_url :: "bool \<Rightarrow> (string \<Rightarrow> string option) \<Rightarrow> string" where
  "export_url include query =
     ''/admin/export/csv/user'' @
     (if search_string (export_params include query) = [] then []
      else ''?'' @ search_string (export_params include query))"

text \<open>\<open>match(/filename="?([^"]+)"?/)\<close>\<close>

fun find_filename :: "string \<Rightarrow> string option" where
  "find_filename [] = None"
| "find_filename (c # s) =
     (let r = (if starts_with ''filename='' (c # s) then drop 9 (c # s) else []);
          r' = (if r \<noteq> [] \<and> hd r = CHR 0x22 then tl r else r);
          n = takeWhile (\<lambda>x. x \<noteq> CHR 0x22) r'
      in if n \<noteq> [] then Some n else find_filename s)"

definition exportUsers :: "(response \<Rightarrow> string option) \<Rightarrow> (string \<Rightarrow> string option) \<Rightarrow> server \<Rightarrow> bool \<Rightarrow>
    (unit, 'z adworld_scheme) action" where
  "exportUsers disposition query srv include w =
     finallyM (catchM
       (bindM (upd (\<lambda>w. (show_popup ''Export Started''
             [Str (if include then ''Resetting passwords and preparing CSV...'' else ''Preparing CSV for download...'')] w)
             \<lparr>ad_dropdown := False\<rparr>)) (\<lambda>_.
        bindM (ctfd_fetch srv ''GET'' (export_url include query) None) (\<lambda>r.
          if \<not> resp_ok r then throw (ErrMsg (Str (''Export failed ('' @ show_int (status r) @ '')'')))
          else upd (\<lambda>w. show_popup ''Export Complete''
             [Str (if include then ''User CSV (with reset passwords) downloaded successfully.''
                   else ''User CSV downloaded successfully.'')]
             (w\<lparr>ad_saved := ad_saved w @
                [(body r, case (case disposition r of None \<Rightarrow> None | Some d \<Rightarrow> find_filename d) of
                    Some n \<Rightarrow> n | None \<Rightarrow> ''users.csv'')]\<rparr>)))))
       (\<lambda>e. upd (show_popup ''Export Failed'' [Str (error_message e)])))
     (\<lambda>w. w\<lparr>ad_exporting := False\<rparr>) (w\<lparr>ad_exporting := True\<rparr>)"

text \<open>The handlers of the page: the export button, opening its menu and ticking the box for passwords.\<close>

definition export_click :: "(response \<Rightarrow> string option) \<Rightarrow> (string \<Rightarrow> string option) \<Rightarrow> server \<Rightarrow>
    (unit, 'z adworld_scheme) action" where
  "export_click disposition query srv w =
     (if ad_include w
      then bindM (isCtfActive srv) (\<lambda>active.
             if active then upd (show_popup ''Export Restricted'' [])
             else exportUsers disposition query srv True) w
      else exportUsers disposition query srv False w)"

definition menu_click :: "server \<Rightarrow> (unit, 'z adworld_scheme) action" where
  "menu_click srv w =
     (if ad_dropdown w then (Inr (), w\<lparr>ad_dropdown := False\<rparr>)
      else bindM (isCtfActive srv) (\<lambda>active.
             upd (\<lambda>w. if active then w\<lparr>ad_warning := True, ad_include_disabled := True, ad_include := False\<rparr>
                      else w\<lparr>ad_warning := False, ad_include_disabled := False\<rparr>)) (w\<lparr>ad_dropdown := True\<rparr>))"

definition include_change :: "server \<Rightarrow> bool \<Rightarrow> (unit, 'z adworld_scheme) action" where
  "include_change srv ticked w =
     (if \<not> ticked then (Inr (), w\<lparr>ad_include := False\<rparr>)
      else bindM (isCtfActive srv) (\<lambda>active.
             upd (\<lambda>w. if active then (show_popup ''Warning'' [] w)\<lparr>ad_include := False\<rparr> else show_popup ''Warning'' [] w))
           (w\<lparr>ad_include := True\<rparr>))"

subsection \<open>The bulk actions keep the contract\<close>

lemma bulk_simps [simp]:
  "sent (bulk t a b ok srv mk ids False w) = sent w"
  "ad_reloads (bulk t a b ok srv mk ids False w) = ad_reloads w"
  "sent (bulk t a b ok srv mk ids True w) = sent w @ map (\<lambda>i. mk i w) ids"
  "ad_reloads (bulk t a b ok srv mk ids True w) =
     ad_reloads w + (if list_all (\<lambda>(d, out). ok out) (replies srv (sent w) (map (\<lambda>i. mk i w) ids)) then 1 else 0)"
  by (simp_all add: bulk_def Let_def)

lemma no_selection_simps [simp]:
  "sent (no_selection w) = sent w" "ad_reloads (no_selection w) = ad_reloads w"
  by (simp_all add: no_selection_def)

lemmas request_defs = delete_url_def patch_url_def submission_request_def patch_public_def

lemma show_int_dollar: "CHR ''$'' \<notin> set (show_int i)"
proof -
  have "\<not> is_digit (CHR ''$'')" by code_simp
  then show ?thesis using show_nat_digits by (auto simp: show_int_def)
qed

lemma delete_submission_call:
  "delete_submission (Obj [(''submissionId'', Num (of_int i))]) =
     Inr \<lparr>call_verb = ''DELETE'', call_path = ''/submissions/'' @ show_int i, call_body = Obj [], call_query = Obj []\<rparr>"
proof -
  have "find_sub ''{submission_id}'' ''/submissions/{submission_id}'' = Some (''/submissions/'', [])" by code_simp
  from generated_item [OF this, of "Num (of_int i)" "''DELETE''" "''submissionId''" "[]" "[]"]
  show ?thesis unfolding delete_submission_def by (simp add: show_int_dollar mergeQueryParams_def field_def)
qed

lemma submission_request_url:
  "submission_request i w = ctfd_request ''DELETE'' (api_domain w @ ''/submissions/'' @ show_int i) None w"
  by (simp add: submission_request_def delete_submission_call API_request_def wire_body_def)

interpretation users_delete: bulk_action deleteSelectedUsers "delete_url ''/api/v1/users/''" answered
  by unfold_locales (simp_all add: deleteSelectedUsers_def request_defs)

interpretation users_edit: bulk_action "bulkEditUsers form" "patch_url ''/api/v1/users/'' (serializeJSON True form)" answered
  for form by unfold_locales (simp_all add: bulkEditUsers_def request_defs)

interpretation teams_delete: bulk_action deleteSelectedTeams "delete_url ''/api/v1/teams/''" answered
  by unfold_locales (simp_all add: deleteSelectedTeams_def request_defs)

interpretation teams_edit: bulk_action "teams_dialog form"
    "patch_url ''/api/v1/teams/'' (bracket_choice (serializeJSON True form))" answered
  for form by unfold_locales (simp_all add: teams_dialog_def request_defs)

interpretation challenges_delete: bulk_action deleteSelectedChallenges "delete_url ''/api/v1/challenges/''" answered
  by unfold_locales (simp_all add: deleteSelectedChallenges_def request_defs)

interpretation challenges_edit: bulk_action "bulkEditChallenges form"
    "patch_url ''/api/v1/challenges/'' (serializeJSON True form)" answered
  for form by unfold_locales (simp_all add: bulkEditChallenges_def request_defs)

interpretation submissions_delete: bulk_action deleteSelectedSubmissions submission_request readable
  by unfold_locales (simp_all add: deleteSelectedSubmissions_def submission_request_url)

interpretation submissions_correct: bulk_action correctSubmissions
    "patch_url ''/api/v1/submissions/'' (mark_body ''correct'')" answered
  by unfold_locales (auto simp: correctSubmissions_def request_defs)

interpretation submissions_incorrect: bulk_action incorrectSubmissions
    "patch_url ''/api/v1/submissions/'' (mark_body ''incorrect'')" answered
  by unfold_locales (auto simp: incorrectSubmissions_def request_defs)

subsection \<open>Rules\<close>

lemma answer_cases:
  assumes "x = (case out of NetFail \<Rightarrow> Inl NetworkError | Reply r \<Rightarrow> Inr r)"
  obtains (lost) "out = NetFail" "x = Inl NetworkError"
  | (unreadable) r e where "out = Reply r" "x = Inr r" "resp_json r = Inl e"
  | (json) r c where "out = Reply r" "x = Inr r" "resp_json r = Inr c"
proof (cases out)
  case (Reply r)
  then show ?thesis using assms that by (cases "resp_json r") auto
qed (use assms that in auto)

lemma ctfd_fetch_step:
  assumes "ctfd_fetch srv m u b w = (x, v)"
  shows "sent v = sent w @ [ctfd_request m u b w]" "base_url v = base_url w" "world.more v = world.more w"
    "x = (case snd (srv (sent w) (ctfd_request m u b w)) of NetFail \<Rightarrow> Inl NetworkError | Reply r \<Rightarrow> Inr r)"
    "clock v = clock w + int (fst (srv (sent w) (ctfd_request m u b w)))"
  using assms by (cases "srv (sent w) (ctfd_request m u b w)";
      cases "snd (srv (sent w) (ctfd_request m u b w))"; auto simp: ctfd_fetch_def fetch_def receive_def Let_def)+

text \<open>What an answer to a question about the configuration says, if it can be read and is a success.\<close>

definition config_answer :: "outcome \<Rightarrow> jsval option" where
  "config_answer out =
     (case out of NetFail \<Rightarrow> None
      | Reply r \<Rightarrow> (case resp_json r of Inl e \<Rightarrow> None
          | Inr c \<Rightarrow> if nullish c \<or> \<not> truthy (oget c ''success'') then None else Some c))"

lemma get_null: "get v k = (if nullish v then Inl TypeError else Inr (oget v k))"
  by (simp add: get_def)

definition start_request_of :: "'z adworld_scheme \<Rightarrow> request" where
  "start_request_of w = ctfd_request ''GET'' ''/api/v1/configs/start'' None w"

definition end_request_of :: "'z adworld_scheme \<Rightarrow> request" where
  "end_request_of w = ctfd_request ''GET'' ''/api/v1/configs/end'' None w"

lemma isCtfActive_run:
  fixes w :: "'z adworld_scheme"
  obtains v where "isCtfActive srv w = (Inr (case (config_answer (snd (srv (sent w) (start_request_of w))),
        config_answer (snd (srv (sent w @ [start_request_of w]) (end_request_of w)))) of
      (Some c1, Some c2) \<Rightarrow> ctf_window (config_time c1) (config_time c2) (clock v div 1000) | _ \<Rightarrow> False), v)"
    "world.more v = world.more w" "base_url v = base_url w"
    "sent v = sent w @ [start_request_of w] \<or> sent v = sent w @ [start_request_of w, end_request_of w]"
proof -
  obtain x1 v1 where f1: "ctfd_fetch srv ''GET'' ''/api/v1/configs/start'' None w = (x1, v1)"
    by (cases "ctfd_fetch srv ''GET'' ''/api/v1/configs/start'' None w")
  note s1 = ctfd_fetch_step [OF f1, folded start_request_of_def]
  obtain x2 v2 where f2: "ctfd_fetch srv ''GET'' ''/api/v1/configs/end'' None v1 = (x2, v2)"
    by (cases "ctfd_fetch srv ''GET'' ''/api/v1/configs/end'' None v1")
  have e: "ctfd_request ''GET'' ''/api/v1/configs/end'' None v1 = end_request_of w"
    unfolding end_request_of_def using s1 adworld_of_more(1) [OF s1(3)] by (intro ctfd_request_cong) simp_all
  note s2 = ctfd_fetch_step [OF f2, unfolded e s1(1)]
  note d = isCtfActive_def catchM_def bindM_def config_answer_def get_null
  show thesis
  proof (rule answer_cases [OF s1(4)])
    assume "snd (srv (sent w) (start_request_of w)) = NetFail" "x1 = Inl NetworkError"
    then show ?thesis by (intro that [of v1]) (use f1 s1 in \<open>simp_all add: d\<close>)
  next
    fix r e
    assume "snd (srv (sent w) (start_request_of w)) = Reply r" "x1 = Inr r" "resp_json r = Inl e"
    then show ?thesis by (intro that [of v1]) (use f1 s1 in \<open>simp_all add: d\<close>)
  next
    fix r1 c1
    assume one: "snd (srv (sent w) (start_request_of w)) = Reply r1" "x1 = Inr r1" "resp_json r1 = Inr c1"
    show ?thesis
    proof (rule answer_cases [OF s2(4)])
      assume "snd (srv (sent w @ [start_request_of w]) (end_request_of w)) = NetFail" "x2 = Inl NetworkError"
      then show ?thesis by (intro that [of v2]) (use one f1 f2 s1 s2 in \<open>simp_all add: d split: option.split\<close>)
    next
      fix r e
      assume "snd (srv (sent w @ [start_request_of w]) (end_request_of w)) = Reply r" "x2 = Inr r" "resp_json r = Inl e"
      then show ?thesis by (intro that [of v2]) (use one f1 f2 s1 s2 in \<open>simp_all add: d split: option.split\<close>)
    next
      fix r c
      assume "snd (srv (sent w @ [start_request_of w]) (end_request_of w)) = Reply r" "x2 = Inr r" "resp_json r = Inr c"
      then show ?thesis by (intro that [of v2]) (use one f1 f2 s1 s2 in \<open>simp_all add: d\<close>)
    qed
  qed
qed

lemma brackets_step:
  "sent (snd (bracket_options srv w)) = sent w @ [ctfd_request ''GET'' ''/api/v1/brackets?type=teams'' None w]"
  "base_url (snd (bracket_options srv w)) = base_url w" "world.more (snd (bracket_options srv w)) = world.more w"
proof -
  obtain x v where f: "ctfd_fetch srv ''GET'' ''/api/v1/brackets?type=teams'' None w = (x, v)"
    by (cases "ctfd_fetch srv ''GET'' ''/api/v1/brackets?type=teams'' None w")
  have "snd (bracket_options srv w) = v" by (simp add: bracket_options_def Let_def f split: sum.split)
  then show "sent (snd (bracket_options srv w)) = sent w @ [ctfd_request ''GET'' ''/api/v1/brackets?type=teams'' None w]"
    "base_url (snd (bracket_options srv w)) = base_url w" "world.more (snd (bracket_options srv w)) = world.more w"
    using ctfd_fetch_step [OF f] by simp_all
qed

subsection \<open>Properties\<close>

text \<open>Editing teams: the brackets are asked for first; once the dialog is submitted, every team ticked gets
  exactly one request, and what it changes is exactly what was chosen: a list left at its first entry is not sent, \<open>Clear bracket\<close> sends
  \<open>null\<close>, another bracket its number; without a submission nothing is sent. The page is loaded anew
  unless a request was lost.\<close>
theorem edit_teams:
  fixes w :: "'z adworld_scheme" and yes :: bool
  assumes "distinct ids" "distinct (map fst vs)" "map_of vs ''bracket_id'' = Some b"
  defines "data \<equiv> bracket_choice (serializeJSON True (select_form vs))"
  defines "brackets \<equiv> ctfd_request ''GET'' ''/api/v1/brackets?type=teams'' None w"
    and "edits \<equiv> (if yes then map (\<lambda>i. patch_url ''/api/v1/teams/'' data i w) ids else [])"
  shows "case bulkEditTeams (select_form vs) srv ids yes w of w' \<Rightarrow>
    sent w' = sent w @ [brackets] @ edits \<and> distinct edits \<and>
    ad_reloads w' = ad_reloads w + (if yes \<and>
      list_all (\<lambda>(d, out). answered out) (replies srv (sent w @ [brackets]) edits) then 1 else 0) \<and>
    map_of (obj_fields data) ''bracket_id'' =
      (if b = [] then None else if b = ''__null__'' then Some Null else Some (parseInt10 b)) \<and>
    (\<forall>n. n \<noteq> ''bracket_id'' \<longrightarrow> map_of (obj_fields data) n =
      (case map_of vs n of Some v \<Rightarrow> if v = [] then None else Some (Str v) | None \<Rightarrow> None))"
proof -
  let ?d = "serializeJSON True (select_form vs)"
  note ser = serialize_select [OF assms(2)]
  obtain fs where fs: "?d = Obj fs" using serializeJSON_obj by blast
  have "oget ?d ''bracket_id'' = (if b = [] then Undef else Str b)"
    using ser [of "''bracket_id''"] assms(3) oget_obj [OF fs] by simp
  then have fields: "map_of (obj_fields data) n =
      (if n = ''bracket_id'' then (if b = [] then None else if b = ''__null__'' then Some Null else Some (parseInt10 b))
       else map_of (obj_fields ?d) n)" for n
    unfolding data_def bracket_choice_def by (simp add: update_conv')
  define v where "v = snd (bracket_options srv w)"
  note v = brackets_step [of srv w, folded v_def brackets_def]
  have mk: "patch_url ''/api/v1/teams/'' data i v = patch_url ''/api/v1/teams/'' data i w" for i
    using v(2) adworld_of_more(1) [OF v(3)] unfolding patch_url_def by (intro ctfd_request_cong) simp_all
  have e: "bulkEditTeams (select_form vs) srv ids yes w = teams_dialog (select_form vs) srv ids yes v"
    by (simp add: bulkEditTeams_def v_def)
  have "sent (teams_dialog (select_form vs) srv ids yes v) = sent w @ [brackets] @ edits"
    using teams_edit.cancelled(1) [of "select_form vs" srv ids v] teams_edit.confirmed [of "select_form vs" srv ids v, folded data_def]
    by (cases yes) (simp_all add: v(1) mk edits_def)
  moreover have "ad_reloads (teams_dialog (select_form vs) srv ids yes v) = ad_reloads w + (if yes \<and>
      list_all (\<lambda>(d, out). answered out) (replies srv (sent w @ [brackets]) edits) then 1 else 0)"
    using adworld_of_more(2) [OF v(3)]
    by (cases yes) (simp_all add: teams_dialog_def v(1) mk edits_def flip: data_def)
  moreover have "distinct edits"
    using assms(1) teams_edit.distinct_requests [of "select_form vs", folded data_def]
    by (auto simp: edits_def distinct_map intro!: inj_onI)
  ultimately show ?thesis using e fields ser by simp
qed

definition admin0 :: adworld where
  "admin0 = \<lparr>store = [], clock = 5000000, sent = [], path = ''/admin/users'', redirect = None, popups = [], fired = [],
     base_url = ''/ctf'', ad_nonce = ''n'', ad_reloads = 0, ad_exporting = False, ad_saved = [], ad_dropdown = True,
     ad_include = True, ad_include_disabled = False, ad_warning = False,
     ad_busy = False\<rparr>"

theorem edit_teams_witness:
  "map req_url (sent (bulkEditTeams (select_form [(''banned'', ''true''), (''bracket_id'', ''__null__'')])
       (\<lambda>past q. (0, NetFail)) [3, 8] True admin0)) =
     [''/ctf/api/v1/brackets?type=teams'', ''/ctf/api/v1/teams/3'', ''/ctf/api/v1/teams/8'']"
proof -
  have "show_int 3 = ''3''" "show_int 8 = ''8''" by code_simp+
  then show ?thesis
    using edit_teams [of "[3, 8]" "[(''banned'', ''true''), (''bracket_id'', ''__null__'')]" "''__null__''"
        "\<lambda>past q. (0, NetFail)" True admin0]
    by (simp add: admin0_def patch_url_def ctfd_request_def)
qed

text \<open>
  The server's own tests (\<open>CTFd/utils/dates/__init__.py\<close>), for the two configured times and its
  \<open>time.time()\<close>, seconds with a fraction; a time that is not configured is 0.
\<close>

definition ctftime :: "int \<Rightarrow> int \<Rightarrow> rat \<Rightarrow> bool" where
  "ctftime start fin now =
     (if start \<noteq> 0 \<and> fin \<noteq> 0 \<and> of_int start < now \<and> now < of_int fin then True
      else if of_int start < now \<and> fin = 0 then True
      else if start = 0 \<and> now < of_int fin then True
      else if start = 0 \<and> fin = 0 then True
      else False)"

definition ctf_started :: "int \<Rightarrow> rat \<Rightarrow> bool" where
  "ctf_started start now = (of_int start < now)"

definition ctf_ended :: "int \<Rightarrow> rat \<Rightarrow> bool" where
  "ctf_ended fin now = (if fin \<noteq> 0 then of_int fin < now else False)"

text \<open>C33: The console's check, which reads the clock in whole seconds, against the server's tests at the same
  moment: a contest that counts as running for the console is within \<open>ctftime\<close>, and has started and not
  ended; conversely, only three kinds of moments are missed: all those of a contest without a start,
  the first second after the start, and (as by \<open>ctftime\<close>) the very moment of the end.\<close>
theorem window_reference:
  assumes "0 \<le> start" "0 \<le> fin"
  shows "ctf_window (Num (of_int start)) (Num (of_int fin)) \<lfloor>now\<rfloor> =
      (ctftime start fin now \<and> start \<noteq> 0 \<and> of_int start + 1 \<le> now) \<and>
    ctf_window (Num (of_int start)) (Num (of_int fin)) \<lfloor>now\<rfloor> =
      (ctf_started start now \<and> \<not> ctf_ended fin now \<and> start \<noteq> 0 \<and> of_int start + 1 \<le> now \<and>
       (fin = 0 \<or> now \<noteq> of_int fin))"
proof -
  have after: "start < \<lfloor>now\<rfloor> \<longleftrightarrow> of_int start + 1 \<le> now"
    by (metis add1_zle_eq le_floor_iff of_int_1 of_int_add)
  have before: "\<lfloor>now\<rfloor> < fin \<longleftrightarrow> now < of_int fin" by (rule floor_less_iff)
  have "ctf_window (Num (of_int start)) (Num (of_int fin)) \<lfloor>now\<rfloor> \<longleftrightarrow>
      0 < start \<and> start < \<lfloor>now\<rfloor> \<and> (fin = 0 \<or> \<lfloor>now\<rfloor> < fin)"
    using assms by (auto simp: ctf_window_def num_gt_def)
  then show ?thesis
    using assms unfolding after before ctftime_def ctf_started_def ctf_ended_def by auto
qed

theorem window_reference_witness:
  "\<not> ctf_window (Num (of_int 10)) (Num (of_int 100)) \<lfloor>21 / 2 :: rat\<rfloor> \<and> ctf_started 10 (21 / 2) \<and>
   ctf_window (Num (of_int 10)) (Num (of_int 100)) \<lfloor>23 / 2 :: rat\<rfloor>"
  using window_reference [of 10 100 "21 / 2"] window_reference [of 10 100 "23 / 2"]
  by (simp add: ctftime_def ctf_started_def)

lemma exportUsers_run:
  fixes w :: "'z adworld_scheme"
  obtains v where "exportUsers disposition query srv include w = (Inr (), v)" "\<not> ad_exporting v"
    "sent v = sent w @ [ctfd_request ''GET'' (export_url include query) None w]"
    "\<not> (\<exists>r. snd (srv (sent w) (ctfd_request ''GET'' (export_url include query) None w)) = Reply r \<and> resp_ok r) \<longrightarrow>
       ad_saved v = ad_saved w"
proof -
  let ?q = "ctfd_request ''GET'' (export_url include query) None w"
  define w1 where "w1 = (show_popup ''Export Started''
      [Str (if include then ''Resetting passwords and preparing CSV...'' else ''Preparing CSV for download...'')]
      (w\<lparr>ad_exporting := True\<rparr>))\<lparr>ad_dropdown := False\<rparr>"
  obtain x v where f: "ctfd_fetch srv ''GET'' (export_url include query) None w1 = (x, v)"
    by (cases "ctfd_fetch srv ''GET'' (export_url include query) None w1")
  have w1: "sent w1 = sent w" "base_url w1 = base_url w" "ad_nonce w1 = ad_nonce w" "ad_saved w1 = ad_saved w"
    by (simp_all add: w1_def show_popup_def)
  have q: "ctfd_request ''GET'' (export_url include query) None w1 = ?q"
    by (rule ctfd_request_cong) (simp_all add: w1)
  note s = ctfd_fetch_step [OF f, unfolded q]
  have saved: "ad_saved v = ad_saved w" using adworld_of_more(4) [OF s(3)] w1 by simp
  define e where "e = exportUsers disposition query srv include w"
  have run: "e = (case x of
      Inl er \<Rightarrow> (Inr (), (show_popup ''Export Failed'' [Str (error_message er)] v)\<lparr>ad_exporting := False\<rparr>)
    | Inr r \<Rightarrow> if \<not> resp_ok r
        then (Inr (), (show_popup ''Export Failed''
            [Str (error_message (ErrMsg (Str (''Export failed ('' @ show_int (status r) @ '')''))))] v)\<lparr>ad_exporting := False\<rparr>)
        else (Inr (), (show_popup ''Export Complete''
             [Str (if include then ''User CSV (with reset passwords) downloaded successfully.''
                   else ''User CSV downloaded successfully.'')]
             (v\<lparr>ad_saved := ad_saved v @
                [(body r, case (case disposition r of None \<Rightarrow> None | Some d \<Rightarrow> find_filename d) of
                    Some n \<Rightarrow> n | None \<Rightarrow> ''users.csv'')]\<rparr>))\<lparr>ad_exporting := False\<rparr>))"
    using f unfolding e_def exportUsers_def finallyM_def catchM_def bindM_def upd_def throw_def w1_def
    by (cases x) simp_all
  have "fst e = Inr ()" "\<not> ad_exporting (snd e)" "sent (snd e) = sent w @ [?q]"
    using run s(1) w1(1) by (auto simp: show_popup_def split: sum.splits)
  moreover have "\<not> (\<exists>r. snd (srv (sent w) ?q) = Reply r \<and> resp_ok r) \<longrightarrow> ad_saved (snd e) = ad_saved w"
    using run s(4) saved w1(1) by (auto simp: show_popup_def split: sum.splits outcome.splits)
  ultimately show thesis using that [of "snd e"] unfolding e_def by (cases "exportUsers disposition query srv include w") simp
qed

text \<open>What the two answers about the configuration say at a second: a start that has passed, and no end or one
  that has not come.\<close>

definition found_running :: "server \<Rightarrow> 'z adworld_scheme \<Rightarrow> int \<Rightarrow> bool" where
  "found_running srv w now =
     (case (config_answer (snd (srv (sent w) (start_request_of w))),
            config_answer (snd (srv (sent w @ [start_request_of w]) (end_request_of w)))) of
        (Some c1, Some c2) \<Rightarrow>
          (case (as_num (config_time c1), as_num (config_time c2)) of
             (Some s, Some e) \<Rightarrow> 0 < s \<and> s < of_int now \<and> (e = 0 \<or> 0 < e \<and> of_int now < e)
           | _ \<Rightarrow> False)
      | _ \<Rightarrow> False)"

lemma config_time_num: "config_time c = NaN \<or> (\<exists>q. config_time c = Num q)"
  by (auto simp: config_time_def parseInt_def signed_def Let_def split: option.splits)

lemma ctf_window_config:
  "ctf_window v (config_time c) now =
     (case (as_num v, as_num (config_time c)) of
        (Some s, Some e) \<Rightarrow> 0 < s \<and> s < of_int now \<and> (e = 0 \<or> 0 < e \<and> of_int now < e) | _ \<Rightarrow> False)"
  using config_time_num [of c] by (auto simp: ctf_window_def num_gt_def Let_def split: option.splits)

lemma isCtfActive_found:
  fixes w :: "'z adworld_scheme"
  obtains v where "isCtfActive srv w = (Inr (found_running srv w (clock v div 1000)), v)"
    "world.more v = world.more w" "base_url v = base_url w"
    "sent v \<in> {sent w @ [start_request_of w], sent w @ [start_request_of w, end_request_of w]}"
proof (rule isCtfActive_run [of srv w])
  fix v
  assume v: "isCtfActive srv w = (Inr (case (config_answer (snd (srv (sent w) (start_request_of w))),
        config_answer (snd (srv (sent w @ [start_request_of w]) (end_request_of w)))) of
      (Some c1, Some c2) \<Rightarrow> ctf_window (config_time c1) (config_time c2) (clock v div 1000) | _ \<Rightarrow> False), v)"
    "world.more v = world.more w" "base_url v = base_url w"
    "sent v = sent w @ [start_request_of w] \<or> sent v = sent w @ [start_request_of w, end_request_of w]"
  show thesis
    by (rule that [OF _ v(2,3)]) (use v in \<open>auto simp: found_running_def ctf_window_config split: option.split\<close>)
qed

text \<open>C32: The export of passwords is guarded: with the box ticked the start and the end of the contest are
  asked for first, and only if the answers do not show it to be running now, the export is requested,
  with \<open>include_passwords=1\<close>; without the box one request is sent, and the address does not ask for
  passwords. Both addresses carry the page's filter, when it has both its parts. Nothing is thrown.\<close>
theorem export_guarded:
  fixes w :: "'z adworld_scheme"
  shows "case export_click disposition query srv w of (r, w') \<Rightarrow> r = Inr () \<and>
     (let shown = (case (query ''field'', query ''q'') of
          (Some f, Some q) \<Rightarrow> if [] \<in> {f, q} then [] else [(''field'', f), (''q'', q)] | _ \<Rightarrow> []);
        passwords = ctfd_request ''GET''
          (''/admin/export/csv/user?'' @ search_string ((''include_passwords'', ''1'') # shown)) None w;
        plain = ctfd_request ''GET''
          (''/admin/export/csv/user'' @ (if shown = [] then [] else ''?'' @ search_string shown)) None w;
        now = clock (snd (isCtfActive srv w)) div 1000
      in if ad_include w
         then (\<exists>qs. qs \<in> {[start_request_of w], [start_request_of w, end_request_of w]} \<and>
           (if found_running srv w now then ad_saved w' = ad_saved w \<and> sent w' = sent w @ qs
            else sent w' = sent w @ qs @ [passwords]))
         else sent w' = sent w @ [plain])"
proof -
  define shown where "shown = (case (query ''field'', query ''q'') of
      (Some f, Some q) \<Rightarrow> if [] \<in> {f, q} then [] else [(''field'', f), (''q'', q)] | _ \<Rightarrow> [])"
  have some: "search_string (p # ps) \<noteq> []" for p ps
    by (cases p; cases ps) (simp_all add: search_string_def)
  have params: "export_params b query = (if b then (''include_passwords'', ''1'') # shown else shown)" for b
    by (auto simp: export_params_def shown_def split: option.splits)
  have url: "export_url True query = ''/admin/export/csv/user?'' @ search_string ((''include_passwords'', ''1'') # shown)"
    "export_url False query = ''/admin/export/csv/user'' @ (if shown = [] then [] else ''?'' @ search_string shown)"
    using some by (cases shown; simp add: export_url_def params search_string_def)+
  show ?thesis
  proof (cases "ad_include w")
    case True
    obtain v where act: "isCtfActive srv w = (Inr (found_running srv w (clock v div 1000)), v)"
      "world.more v = world.more w" "base_url v = base_url w"
      "sent v \<in> {sent w @ [start_request_of w], sent w @ [start_request_of w, end_request_of w]}"
      by (rule isCtfActive_found [of srv w])
    have q: "ctfd_request ''GET'' (export_url True query) None v = ctfd_request ''GET'' (export_url True query) None w"
      using act(3) adworld_of_more(1) [OF act(2)] by (intro ctfd_request_cong) simp_all
    have saved: "ad_saved (show_popup t xs v) = ad_saved w" for t xs
      using act(2) by (intro adworld_of_more(4)) simp
    obtain u where u: "exportUsers disposition query srv True v = (Inr (), u)"
      "sent u = sent v @ [ctfd_request ''GET'' (export_url True query) None v]"
      by (rule exportUsers_run [of disposition query srv True v]) blast
    show ?thesis
      using act(4) unfolding Let_def shown_def [symmetric] url [symmetric] q [symmetric]
      by (cases "found_running srv w (clock v div 1000)")
         (auto simp: export_click_def True act(1) saved bindM_def upd_def u)
  next
    case False
    obtain u where "exportUsers disposition query srv False w = (Inr (), u)"
      "sent u = sent w @ [ctfd_request ''GET'' (export_url False query) None w]"
      by (rule exportUsers_run [of disposition query srv False w]) blast
    then show ?thesis
      using False unfolding Let_def shown_def [symmetric] url [symmetric] by (simp add: export_click_def)
  qed
qed

text \<open>The check fails open: when the first question about the configuration is lost, the passwords are
  asked for, whether or not the contest runs.\<close>
theorem export_fails_open:
  assumes "ad_include w" "config_answer (snd (srv (sent w) (start_request_of w))) = None"
  shows "sent (snd (export_click disposition query srv w)) =
     sent (snd (isCtfActive srv w)) @ [ctfd_request ''GET'' (export_url True query) None w]"
proof -
  obtain v where act: "isCtfActive srv w = (Inr False, v)" "world.more v = world.more w" "base_url v = base_url w"
    by (rule isCtfActive_run [of srv w]) (use assms(2) in simp)
  have q: "ctfd_request ''GET'' (export_url True query) None v = ctfd_request ''GET'' (export_url True query) None w"
    using act(3) adworld_of_more(1) [OF act(2)] by (intro ctfd_request_cong) simp_all
  obtain u where "exportUsers disposition query srv True v = (Inr (), u)"
    "sent u = sent v @ [ctfd_request ''GET'' (export_url True query) None v]"
    by (rule exportUsers_run [of disposition query srv True v]) blast
  then show ?thesis using act q assms(1) by (simp add: export_click_def bindM_def)
qed

theorem export_fails_open_witness:
  "\<exists>qs. sent (snd (export_click (\<lambda>r. None) (\<lambda>n. None) (\<lambda>past q. (0, NetFail)) admin0)) =
     qs @ [ctfd_request ''GET'' (export_url True (\<lambda>n. None)) None admin0]"
  using export_fails_open [of admin0 "\<lambda>past q. (0, NetFail)" "\<lambda>r. None" "\<lambda>n. None"]
  by (auto simp: admin0_def config_answer_def)

text \<open>The button of an account ends in the state the account was asked to have, if the answer is a success,
  and keeps its state otherwise.\<close>
theorem toggle_settles:
  "fst (toggleAccount mode srv i state w) \<in>
     {Inr (setVisibilityButtonState (toggled state)), Inr state} \<union> range Inl \<and>
   (state = ''visible'' \<longrightarrow> setVisibilityButtonState (toggled state) = ''hidden'') \<and>
   (state = ''hidden'' \<longrightarrow> setVisibilityButtonState (toggled state) = ''visible'')"
  by (auto simp: toggleAccount_def bindM_def lift_def ret_def setVisibilityButtonState_def toggled_def
      split: prod.splits sum.splits)

text \<open>Submitting the dialog of the scoreboard with nothing chosen makes every account ticked visible.\<close>
theorem no_choice_unhides:
  "sent (bulkToggleAccounts mode (select_form [(''visibility'', [])]) srv accounts users True w) =
     sent w @ map (\<lambda>i. patch_public mode (hidden_body False) i w) accounts @
       map (\<lambda>i. patch_public ''users'' (hidden_body False) i w) users"
proof -
  have "oget (serializeJSON True (select_form [(''visibility'', [])])) ''visibility'' = Undef"
    by code_simp
  then show ?thesis by (simp add: bulkToggleAccounts_def toggleSelectedAccounts_def Let_def patch_public_def)
qed

text \<open>The requests of the generated client carry the root of the site twice.\<close>
theorem root_twice: "req_url (submission_request i w) = base_url w @ base_url w @ ''/api/v1/submissions/'' @ show_int i"
  by (simp add: submission_request_url ctfd_request_def api_domain_def)

end
