(* ===== verification/AdminPreview.thy ===== *)
theory AdminPreview
  imports AdminConsole
begin

section \<open>The management console: previewing a challenge\<close>

text \<open>
  \<open>previewChallenge\<close>, \<open>startSharedChallenge\<close>, \<open>LoopCheckingStatus\<close>, \<open>CheckingStatus\<close> and the action menus of
  \<open>pages/challenges.js\<close>. A preview starts an instance and then asks every two seconds whether it is ready. The
  calls of an interval do not wait for one another's answers, so several questions may be under way at once;
  the state keeps, for each interval, how many. An alert is a pop-up of the texts in its body.
\<close>

record poll =
  po_chal :: int
  po_times :: nat
  po_active :: bool
  po_flight :: nat

record pvworld = adworld +
  pv_polls :: "poll list"
  pv_shown :: "int set"
  pv_waiting :: "int set"
  pv_pending :: "int set"
  pv_menus :: "nat set"

subsection \<open>Starting\<close>

definition preview_title :: "int \<Rightarrow> string \<Rightarrow> string" where
  "preview_title i s = ''Preview Challenge '' @ show_int i @ s"

definition connection_error :: "string \<Rightarrow> 'z world_scheme \<Rightarrow> 'z world_scheme" where
  "connection_error t w = show_popup ''Connection Error'' [Str t] w"

definition start_preview :: "int \<Rightarrow> 'z pvworld_scheme \<Rightarrow> request" where
  "start_preview i w = ctfd_request ''POST'' ''/api/challenge/start'' (Some (Obj [(''challenge_id'', Num (of_int i))])) w"

definition previewChallenge :: "int \<Rightarrow> 'z pvworld_scheme \<Rightarrow> 'z pvworld_scheme" where
  "previewChallenge i w = send (start_preview i w) (w\<lparr>pv_pending := insert i (pv_pending w)\<rparr>)"

definition LoopCheckingStatus :: "int \<Rightarrow> 'z pvworld_scheme \<Rightarrow> 'z pvworld_scheme" where
  "LoopCheckingStatus i w =
     w\<lparr>pv_polls := pv_polls w @ [\<lparr>po_chal = i, po_times = 0, po_active = True, po_flight = 0\<rparr>]\<rparr>"

definition preview_started :: "int \<Rightarrow> jsval \<Rightarrow> 'z pvworld_scheme \<Rightarrow> 'z pvworld_scheme" where
  "preview_started i d w =
     (if \<not> truthy d \<or> \<not> truthy (oget d ''success'')
      then show_popup (preview_title i '' Error'') [js_or (oget d ''message'') (Str ''Failed to Preview challenge.'')] w
      else let url = oget d ''challenge_url'' in
        LoopCheckingStatus i
          (if truthy url then show_popup (preview_title i '' Success'') [oget d ''message'', url] w
           else (show_popup (preview_title i []) [oget d ''message''] w)\<lparr>pv_waiting := insert i (pv_waiting w)\<rparr>))"

definition preview_answer :: "int \<Rightarrow> outcome \<Rightarrow> 'z pvworld_scheme \<Rightarrow> 'z pvworld_scheme" where
  "preview_answer i out w =
     (let w1 = (case out of
          NetFail \<Rightarrow> connection_error ''Failed to connect to the server. Please try again.'' w
        | Reply r \<Rightarrow> (case resp_json r of
              Inl e \<Rightarrow> connection_error ''Failed to connect to the server. Please try again.'' w
            | Inr d \<Rightarrow> preview_started i d w))
      in w1\<lparr>pv_pending := pv_pending w1 - {i}\<rparr>)"

definition startSharedChallenge :: "server \<Rightarrow> int \<Rightarrow> (unit, 'z adworld_scheme) action" where
  "startSharedChallenge srv i w =
     finallyM (catchM
       (bindM (ctfd_fetch srv ''POST'' ''/api/challenge/start''
           (Some (Obj [(''challenge_id'', Num (of_int i)), (''team_id'', Num (-2))]))) (\<lambda>r.
        bindM (lift (resp_json r)) (\<lambda>d.
          if \<not> truthy d \<or> \<not> truthy (oget d ''success'')
          then upd (show_popup (''Start Challenge '' @ show_int i @ '' Error'')
                 [js_or (oget d ''message'') (Str ''Failed to start shared instance.'')])
          else upd (show_popup (''Start Challenge '' @ show_int i @ '' Success'')
                 (js_or (oget d ''message'') (Str ''Shared challenge start requested.'') #
                  (if truthy (oget d ''challenge_url'') then [oget d ''challenge_url''] else []))))))
       (\<lambda>e. upd (connection_error (if error_message e = [] then ''Failed to connect to the server. Please try again.''
                                   else error_message e))))
     (\<lambda>w. w\<lparr>ad_busy := False\<rparr>) (w\<lparr>ad_busy := True\<rparr>)"

subsection \<open>Asking whether it is ready\<close>

definition status_request :: "int \<Rightarrow> 'z pvworld_scheme \<Rightarrow> request" where
  "status_request i w = ctfd_request ''GET'' (''/api/challenge/status-check/'' @ show_int i) None w"

definition set_poll :: "nat \<Rightarrow> (poll \<Rightarrow> poll) \<Rightarrow> 'z pvworld_scheme \<Rightarrow> 'z pvworld_scheme" where
  "set_poll l f w = w\<lparr>pv_polls := (pv_polls w)[l := f (pv_polls w ! l)]\<rparr>"

definition clear :: "poll \<Rightarrow> poll" where
  "clear p = p\<lparr>po_active := False\<rparr>"

text \<open>A call of the interval: it stops the interval when success was shown, and asks otherwise.\<close>

definition poll_tick :: "nat \<Rightarrow> 'z pvworld_scheme \<Rightarrow> 'z pvworld_scheme" where
  "poll_tick l w =
     (let p = pv_polls w ! l
      in if po_chal p \<in> pv_shown w then set_poll l clear w
         else send (status_request (po_chal p) w) (set_poll l (\<lambda>p. p\<lparr>po_flight := po_flight p + 1\<rparr>) w))"

text \<open>The answer to one question: whether the challenge is ready.\<close>

definition CheckingStatus :: "nat \<Rightarrow> int \<Rightarrow> outcome \<Rightarrow> 'z pvworld_scheme \<Rightarrow> bool \<times> 'z pvworld_scheme" where
  "CheckingStatus l i out w =
     (case out of
        NetFail \<Rightarrow> (False, w)
      | Reply r \<Rightarrow> (case resp_json r of
            Inl e \<Rightarrow> (False, w)
          | Inr d \<Rightarrow>
              if \<not> truthy d \<or> \<not> truthy (oget d ''success'') then (False, w)
              else let url = oget d ''challenge_url'';
                       w1 = (if i \<in> pv_shown w then w else show_popup (preview_title i []) [oget d ''message''] w)
                in if truthy url \<and> i \<notin> pv_shown w1
                   then (True, show_popup (preview_title i '' Success'') [oget d ''message'', url]
                          (set_poll l clear (w1\<lparr>pv_shown := insert i (pv_shown w1), pv_waiting := pv_waiting w1 - {i}\<rparr>)))
                   else (truthy url, w1)))"

definition maxChecks :: nat where "maxChecks = 40"

definition status_answer :: "nat \<Rightarrow> outcome \<Rightarrow> 'z pvworld_scheme \<Rightarrow> 'z pvworld_scheme" where
  "status_answer l out w =
     (let i = po_chal (pv_polls w ! l);
          (ready, w1) = CheckingStatus l i out (set_poll l (\<lambda>p. p\<lparr>po_flight := po_flight p - 1\<rparr>) w);
          w2 = (if ready then set_poll l clear w1 else w1);
          w3 = set_poll l (\<lambda>p. p\<lparr>po_times := po_times p + 1\<rparr>) w2
      in if maxChecks \<le> po_times (pv_polls w3 ! l)
         then show_popup (preview_title i '' Error'') [Str ''Some things went wrong. Please try again.''] (set_poll l clear w3)
         else w3)"

subsection \<open>Menus\<close>

definition closeAllActionMenus :: "'z pvworld_scheme \<Rightarrow> 'z pvworld_scheme" where
  "closeAllActionMenus w = w\<lparr>pv_menus := {}\<rparr>"

definition toggleActionMenu :: "nat \<Rightarrow> 'z pvworld_scheme \<Rightarrow> 'z pvworld_scheme" where
  "toggleActionMenu b w =
     (let open_now = b \<in> pv_menus w; w1 = closeAllActionMenus w
      in if open_now then w1 else w1\<lparr>pv_menus := insert b (pv_menus w1)\<rparr>)"

text \<open>Where a menu is put: \<open>rect\<close> is the button, \<open>W\<close> and \<open>H\<close> the window; the result is left and top.\<close>

record rect =
  r_left :: rat
  r_right :: rat
  r_top :: rat
  r_bottom :: rat

definition positionActionMenu :: "rect \<Rightarrow> rat \<Rightarrow> rat \<Rightarrow> rat \<Rightarrow> rat \<Rightarrow> rat \<times> rat" where
  "positionActionMenu b offW offH W H =
     (let menuW = (if offW = 0 then 170 else offW); menuH = (if offH = 0 then 160 else offH);
          left0 = r_right b - menuW; left1 = (if left0 < 4 then r_left b else left0);
          top0 = (if H - r_bottom b < menuH + 10 then r_top b - menuH - 6 else r_bottom b + 6);
          top1 = (if top0 < 4 then 4 else top0);
          left2 = (if left1 < 4 then 4 else left1);
          left3 = (if left2 + menuW > W - 4 then W - menuW - 4 else left2)
      in (left3, top1))"

subsection \<open>The page's steps\<close>

text \<open>Only an active interval calls, and only what is under way is answered.\<close>

inductive pv_step :: "'z pvworld_scheme \<Rightarrow> 'z pvworld_scheme \<Rightarrow> bool" where
  press: "i \<notin> pv_pending w \<Longrightarrow> pv_step w (previewChallenge i w)"
| started: "i \<in> pv_pending w \<Longrightarrow> pv_step w (preview_answer i out w)"
| tick: "l < length (pv_polls w) \<Longrightarrow> po_active (pv_polls w ! l) \<Longrightarrow> pv_step w (poll_tick l w)"
| answer: "l < length (pv_polls w) \<Longrightarrow> 0 < po_flight (pv_polls w ! l) \<Longrightarrow> pv_step w (status_answer l out w)"
| menu: "pv_step w (toggleActionMenu b w)"
| outside: "pv_step w (closeAllActionMenus w)"

inductive pv_reach :: "'z pvworld_scheme \<Rightarrow> 'z pvworld_scheme \<Rightarrow> bool" where
  here: "pv_reach w w"
| more: "pv_reach w v \<Longrightarrow> pv_step v u \<Longrightarrow> pv_reach w u"

text \<open>Runs in which at no time more than \<open>k\<close> questions of one interval wait for an answer.\<close>

inductive pv_within :: "nat \<Rightarrow> 'z pvworld_scheme \<Rightarrow> 'z pvworld_scheme \<Rightarrow> bool" for k where
  here: "pv_within k w w"
| more: "pv_within k w v \<Longrightarrow> pv_step v u \<Longrightarrow> \<forall>p\<in>set (pv_polls u). po_flight p \<le> k \<Longrightarrow> pv_within k w u"

subsection \<open>Rules\<close>

lemma pvworld_of_more:
  assumes "adworld.more w' = adworld.more w"
  shows "pv_polls w' = pv_polls w" "pv_shown w' = pv_shown w" "pv_waiting w' = pv_waiting w"
    "pv_pending w' = pv_pending w" "pv_menus w' = pv_menus w"
  using assms by (cases w; cases w'; simp)+

lemma pv_of_world_more:
  fixes w w' :: "'z pvworld_scheme"
  assumes "world.more w' = world.more w"
  shows "adworld.more w' = adworld.more w"
  using assms by (cases w; cases w'; simp)

lemma pv_popup [simp]:
  "pv_polls (show_popup t xs w) = pv_polls w" "pv_shown (show_popup t xs w) = pv_shown w"
  "pv_pending (show_popup t xs w) = pv_pending w" "pv_menus (show_popup t xs w) = pv_menus w"
  by (rule pvworld_of_more; rule pv_of_world_more; simp)+

lemma pv_send [simp]:
  "pv_polls (send q w) = pv_polls w" "pv_shown (send q w) = pv_shown w"
  "pv_pending (send q w) = pv_pending w" "pv_menus (send q w) = pv_menus w"
  by (rule pvworld_of_more; rule pv_of_world_more; simp)+

lemma set_poll_simps [simp]:
  "length (pv_polls (set_poll l f w)) = length (pv_polls w)" "pv_shown (set_poll l f w) = pv_shown w"
  "sent (set_poll l f w) = sent w" "pv_pending (set_poll l f w) = pv_pending w" "pv_menus (set_poll l f w) = pv_menus w"
  "l < length (pv_polls w) \<Longrightarrow> pv_polls (set_poll l f w) ! k = (if k = l then f (pv_polls w ! l) else pv_polls w ! k)"
  by (simp_all add: set_poll_def)

lemma clear_simps [simp]:
  "po_chal (clear p) = po_chal p" "po_times (clear p) = po_times p" "po_active (clear p) = False" "po_flight (clear p) = po_flight p"
  by (simp_all add: clear_def)

lemma poll_world [simp]:
  "base_url (set_poll l f w) = base_url w" "ad_nonce (set_poll l f w) = ad_nonce w"
  "popups (set_poll l f w) = popups w" "ad_nonce (send q w) = ad_nonce w" "ad_nonce (show_popup t xs w) = ad_nonce w"
  by (simp_all add: set_poll_def send_def show_popup_def)

lemma CheckingStatus_effect:
  assumes "CheckingStatus l i out w = (b, w')"
  shows "sent w' = sent w \<and> base_url w' = base_url w \<and> ad_nonce w' = ad_nonce w \<and> pv_pending w' = pv_pending w \<and>
    pv_menus w' = pv_menus w \<and> pv_shown w \<subseteq> pv_shown w' \<and> pv_shown w' \<subseteq> insert i (pv_shown w) \<and>
    (pv_polls w' = pv_polls w \<or> pv_polls w' = pv_polls (set_poll l clear w))"
  using assms
  by (auto simp: CheckingStatus_def Let_def set_poll_def split: outcome.splits sum.splits if_splits)

text \<open>An answer counts; an interval with forty answers has stopped.\<close>

definition answered_poll :: "poll \<Rightarrow> poll \<Rightarrow> bool" where
  "answered_poll p p' \<longleftrightarrow> po_chal p' = po_chal p \<and> po_times p' = po_times p + 1 \<and> po_flight p' = po_flight p - 1 \<and>
     (po_active p' \<longrightarrow> po_active p \<and> po_times p' < maxChecks)"

lemma status_answer_effect:
  assumes l: "l < length (pv_polls w)"
  obtains p' where "pv_polls (status_answer l out w) = (pv_polls w)[l := p']" "answered_poll (pv_polls w ! l) p'"
    "sent (status_answer l out w) = sent w" "base_url (status_answer l out w) = base_url w"
    "ad_nonce (status_answer l out w) = ad_nonce w" "pv_shown w \<subseteq> pv_shown (status_answer l out w)"
    "pv_shown (status_answer l out w) \<subseteq> insert (po_chal (pv_polls w ! l)) (pv_shown w)"
    "pv_menus (status_answer l out w) = pv_menus w"
proof -
  let ?p = "pv_polls w ! l"
  define w0 where "w0 = set_poll l (\<lambda>p. p\<lparr>po_flight := po_flight p - 1\<rparr>) w"
  obtain b w1 where c: "CheckingStatus l (po_chal ?p) out w0 = (b, w1)" by (cases "CheckingStatus l (po_chal ?p) out w0")
  note e = CheckingStatus_effect [OF c]
  have polls0: "pv_polls w0 = (pv_polls w)[l := ?p\<lparr>po_flight := po_flight ?p - 1\<rparr>]" by (simp add: w0_def set_poll_def)
  have polls1: "pv_polls w1 = (pv_polls w)[l := ?p\<lparr>po_flight := po_flight ?p - 1\<rparr>] \<or>
      pv_polls w1 = (pv_polls w)[l := clear (?p\<lparr>po_flight := po_flight ?p - 1\<rparr>)]"
    using e polls0 l by (auto simp: set_poll_def)
  have a: "status_answer l out w =
      (let w3 = set_poll l (\<lambda>p. p\<lparr>po_times := po_times p + 1\<rparr>) (if b then set_poll l clear w1 else w1)
       in if maxChecks \<le> po_times (pv_polls w3 ! l)
          then show_popup (preview_title (po_chal ?p) '' Error'') [Str ''Some things went wrong. Please try again.''] (set_poll l clear w3)
          else w3)"
    unfolding status_answer_def Let_def c [unfolded w0_def] prod.case by (rule refl)
  have w: "sent w1 = sent w" "base_url w1 = base_url w" "ad_nonce w1 = ad_nonce w" "pv_shown w \<subseteq> pv_shown w1"
    "pv_shown w1 \<subseteq> insert (po_chal ?p) (pv_shown w)" "pv_menus w1 = pv_menus w"
    using e by (simp_all add: w0_def)
  have "\<exists>p'. pv_polls (status_answer l out w) = (pv_polls w)[l := p'] \<and> answered_poll ?p p'"
    using polls1 l unfolding a by (auto simp: Let_def set_poll_def answered_poll_def clear_def)
  then show thesis using w that unfolding a by (auto simp: Let_def)
qed

subsection \<open>Counting the questions\<close>

definition asked :: "int \<Rightarrow> 'z pvworld_scheme \<Rightarrow> nat" where
  "asked i w = length (filter (\<lambda>q. q = status_request i w) (sent w))"

definition accounted :: "int \<Rightarrow> 'z pvworld_scheme \<Rightarrow> nat" where
  "accounted i w = sum_list (map (\<lambda>p. if po_chal p = i then po_times p + po_flight p else 0) (pv_polls w))"

lemma status_request_cong:
  "base_url v = base_url w \<Longrightarrow> ad_nonce v = ad_nonce w \<Longrightarrow> status_request i v = status_request i w"
  by (simp add: status_request_def ctfd_request_cong [of v w])

lemma status_request_inj [simp]: "status_request i w = status_request j w \<longleftrightarrow> i = j"
  by (simp add: status_request_def)

lemma start_not_status [simp]: "start_preview j w \<noteq> status_request i w"
  by (simp add: start_preview_def status_request_def)

lemma asked_cong:
  "base_url v = base_url w \<Longrightarrow> ad_nonce v = ad_nonce w \<Longrightarrow> sent v = sent w \<Longrightarrow> asked i v = asked i w"
  using status_request_cong [of v w i] by (simp add: asked_def)

lemma sum_list_at:
  fixes f :: "'a \<Rightarrow> nat"
  assumes "l < length xs"
  shows "sum_list (map f (xs[l := y])) + f (xs ! l) = sum_list (map f xs) + f y"
proof -
  have "f (xs ! l) \<le> sum_list (map f xs)" using assms by (intro member_le_sum_list) simp_all
  then show ?thesis using assms by (simp add: map_update sum_list_update)
qed

lemma accounted_at:
  assumes "l < length (pv_polls w)" "pv_polls v = (pv_polls w)[l := p']"
  shows "accounted i v + (if po_chal (pv_polls w ! l) = i then po_times (pv_polls w ! l) + po_flight (pv_polls w ! l) else 0) =
    accounted i w + (if po_chal p' = i then po_times p' + po_flight p' else 0)"
  unfolding accounted_def assms(2) using sum_list_at [OF assms(1), of "\<lambda>p. if po_chal p = i then po_times p + po_flight p else 0" p'] .

lemma preview_answer_effect:
  "sent (preview_answer i out w) = sent w" "base_url (preview_answer i out w) = base_url w"
  "ad_nonce (preview_answer i out w) = ad_nonce w" "pv_shown (preview_answer i out w) = pv_shown w"
  "pv_menus (preview_answer i out w) = pv_menus w"
  "pv_polls (preview_answer i out w) = pv_polls w \<or>
   pv_polls (preview_answer i out w) = pv_polls w @ [\<lparr>po_chal = i, po_times = 0, po_active = True, po_flight = 0\<rparr>]"
  by (auto simp: preview_answer_def preview_started_def LoopCheckingStatus_def connection_error_def Let_def
      split: outcome.split sum.split)

text \<open>What one step does: no step forgets a success or counts a question twice.\<close>

lemma pv_step_effect:
  assumes "pv_step w v"
  shows "base_url v = base_url w \<and> ad_nonce v = ad_nonce w \<and> pv_shown w \<subseteq> pv_shown v \<and>
    asked i v + accounted i w = asked i w + accounted i v \<and> (i \<in> pv_shown w \<longrightarrow> asked i v = asked i w) \<and>
    ((\<forall>p\<in>set (pv_polls w). po_active p \<longrightarrow> po_times p < maxChecks) \<longrightarrow>
     (\<forall>p\<in>set (pv_polls v). po_active p \<longrightarrow> po_times p < maxChecks)) \<and>
    (card (pv_menus w) \<le> 1 \<longrightarrow> card (pv_menus v) \<le> 1)"
  using assms
proof cases
  case (press j)
  have e: "base_url v = base_url w" "ad_nonce v = ad_nonce w" "pv_polls v = pv_polls w" "pv_shown v = pv_shown w"
    "pv_menus v = pv_menus w" "sent v = sent w @ [start_preview j w]"
    by (simp_all add: press(1) previewChallenge_def send_def start_preview_def)
  then have "asked i v = asked i w" using status_request_cong [of v w i] by (simp add: asked_def)
  then show ?thesis using e by (simp add: accounted_def)
next
  case (started j out)
  note e = preview_answer_effect [of j out w, folded started(1)]
  have "asked i v = asked i w" using e by (intro asked_cong)
  moreover have "accounted i v = accounted i w" using e(6) by (auto simp: accounted_def)
  ultimately show ?thesis using e by (auto simp: maxChecks_def)
next
  case (tick l)
  let ?p = "pv_polls w ! l"
  show ?thesis
  proof (cases "po_chal ?p \<in> pv_shown w")
    case True
    then have v: "v = set_poll l clear w" by (simp add: tick(1) poll_tick_def Let_def)
    then have "asked i v = asked i w" by (intro asked_cong) simp_all
    moreover have "accounted i v = accounted i w"
      using accounted_at [OF tick(2), of v "clear ?p" i] v by (simp add: set_poll_def split: if_splits)
    moreover have "\<forall>p\<in>set (pv_polls v). p \<in> set (pv_polls w) \<or> \<not> po_active p"
      using v set_update_subset_insert [of "pv_polls w" l "clear ?p"] by (auto simp: set_poll_def)
    ultimately show ?thesis using v by auto
  next
    case False
    have v: "v = send (status_request (po_chal ?p) w) (set_poll l (\<lambda>p. p\<lparr>po_flight := po_flight p + 1\<rparr>) w)"
      using False by (simp add: tick(1) poll_tick_def Let_def)
    have e: "base_url v = base_url w" "ad_nonce v = ad_nonce w" "pv_shown v = pv_shown w" "pv_menus v = pv_menus w"
      "pv_polls v = (pv_polls w)[l := ?p\<lparr>po_flight := po_flight ?p + 1\<rparr>]" "sent v = sent w @ [status_request (po_chal ?p) w]"
      by (simp_all add: v send_def) (simp_all add: set_poll_def)
    have "asked i v = asked i w + (if po_chal ?p = i then 1 else 0)"
      using status_request_cong [of v w i] e by (simp add: asked_def)
    moreover have "accounted i v = accounted i w + (if po_chal ?p = i then 1 else 0)"
      using accounted_at [OF tick(2) e(5), of i] by (simp split: if_splits)
    moreover have "po_active p \<longrightarrow> po_times p < maxChecks"
      if "\<forall>p\<in>set (pv_polls w). po_active p \<longrightarrow> po_times p < maxChecks" "p \<in> set (pv_polls v)" for p
      using that e(5) set_update_subset_insert [of "pv_polls w" l "?p\<lparr>po_flight := po_flight ?p + 1\<rparr>"] tick(2,3) by auto
    ultimately show ?thesis using e False by auto
  qed
next
  case (answer l out)
  obtain p' where e: "pv_polls v = (pv_polls w)[l := p']" "answered_poll (pv_polls w ! l) p'" "sent v = sent w"
    "base_url v = base_url w" "ad_nonce v = ad_nonce w" "pv_shown w \<subseteq> pv_shown v" "pv_menus v = pv_menus w"
    using status_answer_effect [OF answer(2), of out] unfolding answer(1) by metis
  have "asked i v = asked i w" using e by (intro asked_cong)
  moreover have "accounted i v = accounted i w"
    using accounted_at [OF answer(2) e(1), of i] e(2) answer(3) by (simp add: answered_poll_def split: if_splits)
  moreover have "\<forall>p\<in>set (pv_polls v). p \<in> set (pv_polls w) \<or> (po_active p \<longrightarrow> po_times p < maxChecks)"
    using e(1,2) set_update_subset_insert [of "pv_polls w" l p'] by (auto simp: answered_poll_def)
  ultimately show ?thesis using e by auto
next
  case (menu b)
  have e: "pv_polls v = pv_polls w" "pv_shown v = pv_shown w" "card (pv_menus v) \<le> 1"
    "base_url v = base_url w" "ad_nonce v = ad_nonce w" "sent v = sent w"
    by (simp_all add: menu toggleActionMenu_def closeAllActionMenus_def Let_def)
  then have "asked i v = asked i w" by (intro asked_cong)
  then show ?thesis using e by (simp add: accounted_def)
next
  case outside
  have e: "pv_polls v = pv_polls w" "pv_shown v = pv_shown w" "card (pv_menus v) \<le> 1"
    "base_url v = base_url w" "ad_nonce v = ad_nonce w" "sent v = sent w"
    by (simp_all add: outside closeAllActionMenus_def)
  then have "asked i v = asked i w" by (intro asked_cong)
  then show ?thesis using e by (simp add: accounted_def)
qed

lemma pv_reach_effect:
  assumes "pv_reach w v"
  shows "pv_shown w \<subseteq> pv_shown v \<and> asked i v + accounted i w = asked i w + accounted i v \<and>
    (i \<in> pv_shown w \<longrightarrow> asked i v = asked i w) \<and>
    ((\<forall>p\<in>set (pv_polls w). po_active p \<longrightarrow> po_times p < maxChecks) \<longrightarrow>
     (\<forall>p\<in>set (pv_polls v). po_active p \<longrightarrow> po_times p < maxChecks)) \<and>
    (card (pv_menus w) \<le> 1 \<longrightarrow> card (pv_menus v) \<le> 1)"
  using assms
proof induction
  case (more w v u)
  then show ?case using pv_step_effect [OF more(2), of i] by auto
qed simp

lemma pv_within_reach: "pv_within k w v \<Longrightarrow> pv_reach w v"
  by (induction rule: pv_within.induct) (auto intro: pv_reach.intros)

text \<open>Where the intervals after a step come from: only a call of an active one asks one question more.\<close>

lemma pv_step_polls:
  assumes "pv_step w v" "p' \<in> set (pv_polls v)"
  shows "po_times p' + po_flight p' = 0 \<or>
    (\<exists>p\<in>set (pv_polls w). po_times p' + po_flight p' = po_times p + po_flight p \<or> po_active p \<and> po_times p' = po_times p)"
  using assms
proof cases
  case (started j out)
  then show ?thesis using preview_answer_effect(6) [of j out w] assms(2) by auto
next
  case (tick l)
  then have "pv_polls v = (pv_polls w)[l := (if po_chal (pv_polls w ! l) \<in> pv_shown w then clear (pv_polls w ! l)
      else (pv_polls w ! l)\<lparr>po_flight := po_flight (pv_polls w ! l) + 1\<rparr>)]"
    by (simp add: poll_tick_def Let_def send_def set_poll_def)
  then have "p' \<in> set (pv_polls w) \<or> p' = clear (pv_polls w ! l) \<or>
      p' = (pv_polls w ! l)\<lparr>po_flight := po_flight (pv_polls w ! l) + 1\<rparr>"
    using assms(2) set_update_subset_insert by (fastforce split: if_splits)
  then show ?thesis using nth_mem [OF tick(2)] tick(3) by force
next
  case (answer l out)
  obtain q where e: "pv_polls v = (pv_polls w)[l := q]" "answered_poll (pv_polls w ! l) q"
    using status_answer_effect [OF answer(2), of out] unfolding answer(1) by metis
  then have "p' \<in> set (pv_polls w) \<or> p' = q" using assms(2) set_update_subset_insert by fastforce
  then show ?thesis using nth_mem [OF answer(2)] answer(3) e(2) by (force simp: answered_poll_def)
qed (auto simp: previewChallenge_def send_def toggleActionMenu_def closeAllActionMenus_def Let_def split: if_splits)

lemma pv_within_bound:
  assumes "pv_within k w v" "pv_polls w = []"
  shows "\<forall>p\<in>set (pv_polls v). po_times p + po_flight p \<le> 39 + k"
  using assms
proof induction
  case (more w v u)
  have active: "po_active p \<longrightarrow> po_times p \<le> 39" if "p \<in> set (pv_polls v)" for p
    using pv_reach_effect [OF pv_within_reach [OF more(1)]] more.prems that by (force simp: maxChecks_def)
  show ?case
  proof
    fix q assume q: "q \<in> set (pv_polls u)"
    then show "po_times q + po_flight q \<le> 39 + k"
      using pv_step_polls [OF more(2) q] more.IH [OF more.prems] more(3) active by fastforce
  qed
qed simp

lemma accounted_bound:
  "\<forall>p\<in>set ps. po_times p + po_flight p \<le> b \<Longrightarrow>
   sum_list (map (\<lambda>p. if po_chal p = i then po_times p + po_flight p else 0) ps) \<le>
     b * length (filter (\<lambda>p. po_chal p = i) ps)"
  by (induction ps) auto

subsection \<open>Properties\<close>

text \<open>C34: The questions of a preview are bounded if the server keeps up: when at no time more than \<open>k\<close> questions of an
  interval wait for an answer, then, whatever the user presses and in whatever order intervals call and
  answers come, no more than \<open>39 + k\<close> questions are asked for each preview of a challenge since the page was
  loaded (forty, when each is answered before the next). An interval that has had forty answers has
  stopped, and at most one menu is open.\<close>
theorem questions_bounded:
  assumes "pv_within k w v" "pv_polls w = []" "pv_menus w = {}"
  shows "asked i v \<le> asked i w + (39 + k) * length (filter (\<lambda>p. po_chal p = i) (pv_polls v)) \<and>
    list_all (\<lambda>p. po_active p \<longrightarrow> po_times p < 40) (pv_polls v) \<and> card (pv_menus v) \<le> 1"
  using pv_reach_effect [OF pv_within_reach [OF assms(1)], of i] assms(2,3)
    accounted_bound [OF pv_within_bound [OF assms(1,2)], of i]
  by (auto simp: accounted_def maxChecks_def list_all_iff)

definition preview0 :: pvworld where
  "preview0 = \<lparr>store = [], clock = 0, sent = [], path = ''/admin/challenges'', redirect = None, popups = [], fired = [],
     base_url = [], ad_nonce = ''n'', ad_reloads = 0, ad_exporting = False, ad_saved = [], ad_dropdown = False,
     ad_include = False, ad_include_disabled = False, ad_warning = False, ad_busy = False, pv_polls = [],
     pv_shown = {}, pv_waiting = {}, pv_pending = {}, pv_menus = {}\<rparr>"

definition accepted_reply :: response where
  "accepted_reply = \<lparr>status = 200, body = JBody (Obj [(''success'', BoolV True), (''message'', Str ''wait'')])\<rparr>"

definition preview1 :: pvworld where
  "preview1 = preview_answer 7 (Reply accepted_reply) (previewChallenge 7 preview0)"

lemma preview1_polls: "pv_polls preview1 = [\<lparr>po_chal = 7, po_times = 0, po_active = True, po_flight = 0\<rparr>]"
  "pv_shown preview1 = {}" "pv_pending preview1 = {}"
  by (simp_all add: preview1_def preview0_def accepted_reply_def previewChallenge_def preview_answer_def resp_json_def
      preview_started_def LoopCheckingStatus_def send_def show_popup_def field_def Let_def)

lemma preview1_reach: "pv_within 1 preview0 preview1"
proof -
  have "pv_step preview0 (previewChallenge 7 preview0)" by (rule press) (simp add: preview0_def)
  moreover have "pv_step (previewChallenge 7 preview0) preview1"
    unfolding preview1_def by (rule started) (simp add: previewChallenge_def)
  moreover have "\<forall>p\<in>set (pv_polls (previewChallenge 7 preview0)). po_flight p \<le> 1"
    by (simp add: previewChallenge_def preview0_def send_def)
  moreover have "\<forall>p\<in>set (pv_polls preview1). po_flight p \<le> 1" by (simp add: preview1_polls)
  ultimately show ?thesis by (meson pv_within.intros)
qed

theorem questions_bounded_witness:
  "asked 7 (poll_tick 0 preview1) \<le> 40 \<and> po_times (hd (pv_polls (poll_tick 0 preview1))) < 40"
proof -
  have polls: "pv_polls (poll_tick 0 preview1) = [\<lparr>po_chal = 7, po_times = 0, po_active = True, po_flight = 1\<rparr>]"
    by (simp add: poll_tick_def preview1_polls set_poll_def Let_def)
  have "pv_step preview1 (poll_tick 0 preview1)" by (rule tick) (simp_all add: preview1_polls)
  then have "pv_within 1 preview0 (poll_tick 0 preview1)"
    by (rule pv_within.more [OF preview1_reach]) (simp add: polls)
  from questions_bounded [OF this, of 7] show ?thesis
    by (simp add: preview0_def asked_def polls)
qed

lemma tick_one:
  "pv_polls v = [p] \<Longrightarrow> po_chal p \<notin> pv_shown v \<Longrightarrow>
   pv_polls (poll_tick 0 v) = [p\<lparr>po_flight := po_flight p + 1\<rparr>] \<and> pv_shown (poll_tick 0 v) = pv_shown v"
  by (simp add: poll_tick_def Let_def send_def set_poll_def)

text \<open>Without answers there is no bound: \<open>maxChecks\<close> counts answers, and a server that never answers is asked
  every two seconds as long as the page is open.\<close>
theorem silent_server_unbounded:
  "pv_reach preview0 ((poll_tick 0 ^^ n) preview1) \<and> asked 7 ((poll_tick 0 ^^ n) preview1) = n \<and>
   pv_polls ((poll_tick 0 ^^ n) preview1) = [\<lparr>po_chal = 7, po_times = 0, po_active = True, po_flight = n\<rparr>]"
proof (induction n)
  case 0
  have "asked 7 preview1 = 0"
    by (simp add: asked_def preview1_def preview0_def accepted_reply_def previewChallenge_def preview_answer_def
        resp_json_def preview_started_def LoopCheckingStatus_def send_def show_popup_def field_def Let_def)
      (simp add: start_preview_def status_request_def ctfd_request_def)
  then show ?case using pv_within_reach [OF preview1_reach] by (simp add: preview1_polls)
next
  case (Suc n)
  let ?v = "(poll_tick 0 ^^ n) preview1"
  have shown: "pv_shown ((poll_tick 0 ^^ m) preview1) = {}" for m
  proof (induction m)
    case (Suc m)
    then show ?case by (simp add: poll_tick_def Let_def send_def set_poll_def)
  qed (simp add: preview1_polls)
  have polls: "pv_polls (poll_tick 0 ?v) = [\<lparr>po_chal = 7, po_times = 0, po_active = True, po_flight = Suc n\<rparr>]"
    using Suc shown [of n] tick_one [of ?v] by simp
  have step: "pv_step ?v (poll_tick 0 ?v)" by (rule tick) (simp_all add: Suc)
  then have "asked 7 (poll_tick 0 ?v) = Suc n"
    using pv_step_effect [OF step, of 7] Suc polls by (simp add: accounted_def)
  then show ?case using polls step Suc by (auto intro: pv_reach.more)
qed

text \<open>A challenge previewed again is not watched: once its success was shown, nothing asks for its status any
  more while the page is open, although another preview still promises to wait for it.\<close>
theorem second_preview_unwatched:
  assumes "pv_reach w v" "i \<in> pv_shown w"
  shows "asked i v = asked i w"
  using pv_reach_effect [OF assms(1), of i] assms(2) by simp

theorem second_preview_unwatched_witness:
  "asked 7 (poll_tick 0 (preview1\<lparr>pv_shown := {7}\<rparr>)) = asked 7 (preview1\<lparr>pv_shown := {7}\<rparr>)"
proof -
  have "pv_step (preview1\<lparr>pv_shown := {7}\<rparr>) (poll_tick 0 (preview1\<lparr>pv_shown := {7}\<rparr>))"
    by (rule tick) (simp_all add: preview1_polls)
  then have "pv_reach (preview1\<lparr>pv_shown := {7}\<rparr>) (poll_tick 0 (preview1\<lparr>pv_shown := {7}\<rparr>))"
    by (meson pv_reach.intros)
  then show ?thesis by (rule second_preview_unwatched) simp
qed

text \<open>An instance that is ready only at the fortieth answer is announced, and reported as gone wrong.\<close>
theorem late_success:
  assumes "l < length (pv_polls w)" "po_times (pv_polls w ! l) = 39" "po_chal (pv_polls w ! l) = i" "i \<notin> pv_shown w"
    "resp_json r = Inr d" "truthy d" "truthy (oget d ''success'')" "truthy (oget d ''challenge_url'')"
  shows "popups (status_answer l (Reply r) w) = popups w @
    [Popup (preview_title i []) [oget d ''message''],
     Popup (preview_title i '' Success'') [oget d ''message'', oget d ''challenge_url''],
     Popup (preview_title i '' Error'') [Str ''Some things went wrong. Please try again.'']]"
  using assms by (simp add: status_answer_def CheckingStatus_def Let_def set_poll_def maxChecks_def clear_def show_popup_def)

text \<open>A menu that fits into the window is put inside it, four pixels from each edge at least.\<close>
theorem menu_inside:
  assumes "positionActionMenu b offW offH W H = (x, y)" "0 < offW" "0 < offH" "offW + 8 \<le> W" "offH + 8 \<le> H" "r_top b \<le> H"
  shows "4 \<le> x \<and> x + offW \<le> W - 4 \<and> 4 \<le> y \<and> y + offH \<le> H - 4"
  using assms by (auto simp: positionActionMenu_def Let_def split: if_splits)

theorem menu_inside_witness:
  "positionActionMenu \<lparr>r_left = 950, r_right = 990, r_top = 560, r_bottom = 590\<rparr> 170 160 1000 600 = (820, 394) \<and>
   (394::rat) + 160 \<le> 600 - 4"
proof -
  have "positionActionMenu \<lparr>r_left = 950, r_right = 990, r_top = 560, r_bottom = 590\<rparr> 170 160 1000 600 = (820, 394)"
    by (simp add: positionActionMenu_def Let_def)
  from menu_inside [OF this] this show ?thesis by simp
qed

end
