(* ===== verification/AdminTabs.thy ===== *)
theory AdminTabs
  imports Prelude
begin

section \<open>The management console: notifications in several tabs\<close>

text \<open>
  \<open>compat/wc.js\<close> and \<open>compat/events.js\<close>: the tabs of one browser choose a master, the one that listens to the
  server's notifications, by messages through a key of local storage. The state is that of all tabs
  together. A message reaches the other tabs at once, the answers to a \<open>hello\<close> after all have read it:
  the time between the writing of a message and the event in another tab is not modelled, and is an assumption
  of what is proved. Timers are late by any time, unless a theorem says otherwise. As the
  standard of the browser says, storing the value that is stored already is no event, so such a message reaches
  nobody. An identifier, \<open>Math.random()\<close>, is a number, also where it is the key of an object. The sound and the
  badge with the counter's number are left out.
\<close>

type_synonym tab_id = rat

record notification =
  nt_type :: string
  nt_title :: string
  nt_content :: string
  nt_html :: string

datatype wc_msg = Hello tab_id | Ping tab_id | Bye tab_id | Note tab_id notification

fun sender :: "wc_msg \<Rightarrow> tab_id" where
  "sender (Hello i) = i"
| "sender (Ping i) = i"
| "sender (Bye i) = i"
| "sender (Note i n) = i"

record tab =
  tb_id :: tab_id
  tb_master :: bool
  tb_others :: "(tab_id \<times> int) list"
  tb_check_at :: int
  tb_ping_at :: int
  tb_listeners :: nat
  tb_open :: bool
  tb_shown :: "(string \<times> string) list"

record tab_world =
  tw_clock :: int
  tw_stored :: "wc_msg option"
  tw_unread :: nat
  tw_tabs :: "tab list"

subsection \<open>One tab\<close>

definition connect :: "tab \<Rightarrow> tab" where
  "connect t = t\<lparr>tb_listeners := tb_listeners t + 1\<rparr>"

definition disconnect :: "tab \<Rightarrow> tab" where
  "disconnect t = t\<lparr>tb_open := False\<rparr>"

definition masterDidChange :: "tab \<Rightarrow> tab" where
  "masterDidChange t = (if tb_master t then connect t else disconnect t)"

definition wc_check :: "int \<Rightarrow> tab \<Rightarrow> tab" where
  "wc_check now t =
     (let others = filter (\<lambda>(i, m). \<not> m + 23000 < now) (tb_others t);
          takeMaster = list_all (\<lambda>(i, m). \<not> i < tb_id t) others;
          t1 = t\<lparr>tb_others := others\<rparr>
      in if tb_master t1 \<noteq> takeMaster then masterDidChange (t1\<lparr>tb_master := takeMaster\<rparr>) else t1)"

definition wc_ping :: "tab_id \<Rightarrow> int \<Rightarrow> tab \<Rightarrow> tab" where
  "wc_ping i now t = t\<lparr>tb_others := AList.update i now (tb_others t)\<rparr>"

definition wc_bye :: "tab_id \<Rightarrow> int \<Rightarrow> tab \<Rightarrow> tab" where
  "wc_bye i now t = wc_check now (t\<lparr>tb_others := AList.delete i (tb_others t)\<rparr>)"

definition wc_hello :: "tab_id \<Rightarrow> int \<Rightarrow> tab \<Rightarrow> tab \<times> wc_msg list" where
  "wc_hello i now t =
     (let t1 = wc_ping i now t in if i < tb_id t then (wc_check now t1, []) else (t1, [Ping (tb_id t)]))"

text \<open>What a notification shows; every kind counts as unread, also one without anything to show.\<close>

definition trimmed :: "string \<Rightarrow> string" where
  "trimmed s = (if 50 < length s then take 47 s @ ''...'' else s)"

definition render :: "notification \<Rightarrow> tab \<Rightarrow> tab" where
  "render n t =
     (if nt_type n = ''toast'' then t\<lparr>tb_shown := tb_shown t @ [(nt_title n, trimmed (nt_content n))]\<rparr>
      else if nt_type n = ''alert'' then t\<lparr>tb_shown := tb_shown t @ [(nt_title n, nt_html n)]\<rparr>
      else t)"

text \<open>The method named by the type of a message; a notification of another type names none, and the error is caught.\<close>

definition named_method :: "notification \<Rightarrow> bool" where
  "named_method n = (nt_type n \<in> set [''toast'', ''alert'', ''background''])"

definition handleEvent :: "int \<Rightarrow> wc_msg \<Rightarrow> tab \<Rightarrow> tab \<times> wc_msg list" where
  "handleEvent now msg t =
     (if sender msg = tb_id t then (t, [])
      else case msg of
          Hello i \<Rightarrow> wc_hello i now t
        | Ping i \<Rightarrow> (wc_ping i now t, [])
        | Bye i \<Rightarrow> (wc_bye i now t, [])
        | Note i n \<Rightarrow> (if named_method n then render n t else t, []))"

definition counts :: "wc_msg \<Rightarrow> tab \<Rightarrow> bool" where
  "counts msg t = (case msg of Note i n \<Rightarrow> i \<noteq> tb_id t \<and> named_method n | _ \<Rightarrow> False)"

subsection \<open>All tabs\<close>

definition broadcast :: "wc_msg \<Rightarrow> tab_world \<Rightarrow> tab_world \<times> wc_msg list" where
  "broadcast msg w =
     (if tw_stored w = Some msg then (w, [])
      else (w\<lparr>tw_stored := Some msg,
              tw_tabs := map (\<lambda>t. fst (handleEvent (tw_clock w) msg t)) (tw_tabs w),
              tw_unread := tw_unread w + length (filter (counts msg) (tw_tabs w))\<rparr>,
            concat (map (\<lambda>t. snd (handleEvent (tw_clock w) msg t)) (tw_tabs w))))"

definition announce :: "wc_msg \<Rightarrow> tab_world \<Rightarrow> tab_world" where
  "announce msg w = fst (broadcast msg w)"

definition on_tab :: "tab_id \<Rightarrow> (tab \<Rightarrow> tab) \<Rightarrow> tab_world \<Rightarrow> tab_world" where
  "on_tab i f w = w\<lparr>tw_tabs := map (\<lambda>t. if tb_id t = i then f t else t) (tw_tabs w)\<rparr>"

definition WindowController :: "tab_id \<Rightarrow> int \<Rightarrow> tab" where
  "WindowController i now =
     \<lparr>tb_id = i, tb_master = False, tb_others = [], tb_check_at = now + 500, tb_ping_at = now + 17000,
      tb_listeners = 0, tb_open = True, tb_shown = []\<rparr>"

definition open_tab :: "tab_id \<Rightarrow> tab_world \<Rightarrow> tab_world" where
  "open_tab i w =
     (case broadcast (Hello i) (w\<lparr>tw_tabs := tw_tabs w @ [WindowController i (tw_clock w)]\<rparr>) of
        (w', answers) \<Rightarrow> fold announce answers w')"

definition remove_tab :: "tab_id \<Rightarrow> tab_world \<Rightarrow> tab_world" where
  "remove_tab i w = w\<lparr>tw_tabs := filter (\<lambda>t. tb_id t \<noteq> i) (tw_tabs w)\<rparr>"

definition destroy_tab :: "tab_id \<Rightarrow> tab_world \<Rightarrow> tab_world" where
  "destroy_tab i w = announce (Bye i) (remove_tab i w)"

definition check_fires :: "tab_id \<Rightarrow> tab_world \<Rightarrow> tab_world" where
  "check_fires i w = on_tab i (\<lambda>t. (wc_check (tw_clock w) t)\<lparr>tb_check_at := tw_clock w + 9000\<rparr>) w"

definition ping_fires :: "tab_id \<Rightarrow> tab_world \<Rightarrow> tab_world" where
  "ping_fires i w = announce (Ping i) (on_tab i (\<lambda>t. t\<lparr>tb_ping_at := tw_clock w + 17000\<rparr>) w)"

text \<open>A notification reaches every tab with an open connection, once for each of its listeners.\<close>

definition noticed_by :: "notification \<Rightarrow> tab_id \<Rightarrow> tab_world \<Rightarrow> tab_world" where
  "noticed_by n i w =
     (let w1 = announce (Note i n) w in (on_tab i (render n) w1)\<lparr>tw_unread := tw_unread w1 + 1\<rparr>)"

definition notice :: "notification \<Rightarrow> tab_world \<Rightarrow> tab_world" where
  "notice n w =
     fold (noticed_by n) (concat (map (\<lambda>t. if tb_open t then replicate (tb_listeners t) (tb_id t) else []) (tw_tabs w))) w"

definition dec_notification_counter :: "tab_world \<Rightarrow> tab_world" where
  "dec_notification_counter w = w\<lparr>tw_unread := tw_unread w - 1\<rparr>"

subsection \<open>Runs\<close>

datatype tab_event =
    Opened tab_id
  | Closed tab_id
  | Crashed tab_id
  | Checks tab_id
  | Pings tab_id
  | Waits nat
  | Noticed notification
  | Acknowledged

fun tab_do :: "tab_event \<Rightarrow> tab_world \<Rightarrow> tab_world" where
  "tab_do (Opened i) w = open_tab i w"
| "tab_do (Closed i) w = destroy_tab i w"
| "tab_do (Crashed i) w = remove_tab i w"
| "tab_do (Checks i) w = check_fires i w"
| "tab_do (Pings i) w = ping_fires i w"
| "tab_do (Waits d) w = w\<lparr>tw_clock := tw_clock w + int d\<rparr>"
| "tab_do (Noticed n) w = notice n w"
| "tab_do Acknowledged w = dec_notification_counter w"

text \<open>
  A timer does not fire before its time, but it may fire at any later one: \<open>setTimeout\<close> bounds from below
  only, and a browser slows down the timers of tabs in the background. Identifiers are never drawn twice.
\<close>

fun tab_can :: "tab_event \<Rightarrow> tab_world \<Rightarrow> bool" where
  "tab_can (Opened i) w = (i \<notin> tb_id ` set (tw_tabs w) \<and> tw_stored w \<noteq> Some (Hello i))"
| "tab_can (Checks i) w = (\<exists>t \<in> set (tw_tabs w). tb_id t = i \<and> tb_check_at t \<le> tw_clock w)"
| "tab_can (Pings i) w = (\<exists>t \<in> set (tw_tabs w). tb_id t = i \<and> tb_ping_at t \<le> tw_clock w)"
| "tab_can (Closed i) w = (i \<in> tb_id ` set (tw_tabs w))"
| "tab_can (Crashed i) w = (i \<in> tb_id ` set (tw_tabs w))"
| "tab_can e w = True"

text \<open>A ping that is not heard by the other tabs is one that repeats the message stored last.\<close>

fun tab_heard :: "tab_event \<Rightarrow> tab_world \<Rightarrow> bool" where
  "tab_heard (Pings i) w = (tw_stored w \<noteq> Some (Ping i) \<or> length (tw_tabs w) = 1)"
| "tab_heard e w = True"

text \<open>
  No ping is more than six seconds late: together with the seventeen between two pings these are the
  twenty-three seconds after which a check forgets a tab. Nothing is asked of the checks.
\<close>

fun tab_prompt :: "tab_event \<Rightarrow> tab_world \<Rightarrow> bool" where
  "tab_prompt (Waits d) w = (\<forall>t \<in> set (tw_tabs w). tw_clock w + int d \<le> tb_ping_at t + 6000)"
| "tab_prompt e w = True"

fun run_ok :: "tab_event list \<Rightarrow> tab_world \<Rightarrow> bool" where
  "run_ok [] w = True"
| "run_ok (e # es) w = (tab_can e w \<and> tab_prompt e w \<and> run_ok es (tab_do e w))"

definition no_tabs :: "int \<Rightarrow> tab_world" where
  "no_tabs now = \<lparr>tw_clock = now, tw_stored = None, tw_unread = 0, tw_tabs = []\<rparr>"

inductive tabs_reach :: "tab_world \<Rightarrow> bool" where
  start: "tabs_reach (no_tabs now)"
| step: "tabs_reach w \<Longrightarrow> tab_can e w \<Longrightarrow> tab_heard e w \<Longrightarrow> tab_prompt e w \<Longrightarrow> tabs_reach (tab_do e w)"

subsection \<open>What a tab knows\<close>

text \<open>
  \<open>S\<close> holds the tabs that are open, each with the time of its next ping. A tab is sound when it has
  heard of each smaller one within the seventeen seconds before that time, and is no master above one.
\<close>

definition sound :: "(tab_id \<times> int) set \<Rightarrow> tab \<Rightarrow> bool" where
  "sound S t \<longleftrightarrow>
     (\<forall>(i, p) \<in> S. i < tb_id t \<longrightarrow> (\<exists>m. map_of (tb_others t) i = Some m \<and> p - 17000 \<le> m)) \<and>
     (tb_master t \<longrightarrow> (\<forall>(i, p) \<in> S. \<not> i < tb_id t))"

definition alive :: "tab_world \<Rightarrow> (tab_id \<times> int) set" where
  "alive w = (\<lambda>t. (tb_id t, tb_ping_at t)) ` set (tw_tabs w)"

definition tabs_inv :: "tab_world \<Rightarrow> bool" where
  "tabs_inv w \<longleftrightarrow>
     distinct (map tb_id (tw_tabs w)) \<and>
     (\<forall>(i, p) \<in> alive w. tw_clock w \<le> p + 6000 \<and> p \<le> tw_clock w + 17000) \<and>
     (\<forall>t \<in> set (tw_tabs w). sound (alive w) t)"

lemma wc_check_fields [simp]:
  "tb_id (wc_check now t) = tb_id t" "tb_ping_at (wc_check now t) = tb_ping_at t"
  "tb_others (wc_check now t) = filter (\<lambda>(i, m). \<not> m + 23000 < now) (tb_others t)"
  "tb_master (wc_check now t) \<longleftrightarrow> (\<forall>(i, m) \<in> set (tb_others t). \<not> m + 23000 < now \<longrightarrow> \<not> i < tb_id t)"
  by (auto simp: wc_check_def masterDidChange_def connect_def disconnect_def list_all_iff Let_def)

lemma wc_ping_fields [simp]:
  "tb_id (wc_ping i now t) = tb_id t" "tb_ping_at (wc_ping i now t) = tb_ping_at t"
  "tb_master (wc_ping i now t) = tb_master t" "tb_others (wc_ping i now t) = AList.update i now (tb_others t)"
  by (simp_all add: wc_ping_def)

lemma render_fields [simp]:
  "tb_id (render n t) = tb_id t" "tb_ping_at (render n t) = tb_ping_at t"
  "tb_master (render n t) = tb_master t" "tb_others (render n t) = tb_others t"
  by (simp_all add: render_def)

lemma handle_fields [simp]:
  "tb_id (fst (handleEvent now msg t)) = tb_id t" "tb_ping_at (fst (handleEvent now msg t)) = tb_ping_at t"
  by (cases msg; simp add: handleEvent_def wc_hello_def wc_bye_def Let_def)+

lemma map_of_filter_kept: "map_of xs k = Some v \<Longrightarrow> P (k, v) \<Longrightarrow> map_of (filter P xs) k = Some v"
  by (induction xs) (auto split: if_splits)

lemma sound_check:
  assumes "sound S t" "\<forall>(i, p) \<in> S. now \<le> p + 6000"
  shows "sound S (wc_check now t)"
  unfolding sound_def
proof (intro conjI ballI impI; clarify?)
  fix i p assume i: "(i, p) \<in> S" "i < tb_id (wc_check now t)"
  then obtain m where m: "map_of (tb_others t) i = Some m" "p - 17000 \<le> m"
    using assms(1) by (fastforce simp: sound_def)
  moreover have "now \<le> p + 6000" using assms(2) i by auto
  ultimately show "\<exists>m. map_of (tb_others (wc_check now t)) i = Some m \<and> p - 17000 \<le> m"
    using map_of_filter_kept [OF m(1), of "\<lambda>(i, m). \<not> m + 23000 < now"] by auto
next
  fix i p assume i: "tb_master (wc_check now t)" "(i, p) \<in> S" "i < tb_id (wc_check now t)"
  then obtain m where m: "(i, m) \<in> set (tb_others t)" "p - 17000 \<le> m"
    using assms(1) by (fastforce simp: sound_def dest: map_of_SomeD)
  moreover have "now \<le> p + 6000" using assms(2) i by auto
  ultimately show False using i by fastforce
qed

lemma sound_ping:
  assumes "sound S t" "\<forall>(i, p) \<in> S. p \<le> now + 17000"
  shows "sound S (wc_ping j now t)"
  using assms by (fastforce simp: sound_def update_conv')

lemma sound_bye:
  assumes "sound S t" "\<forall>(i, p) \<in> S. now \<le> p + 6000" "j \<notin> fst ` S"
  shows "sound S (wc_bye j now t)"
proof -
  have "sound S (t\<lparr>tb_others := AList.delete j (tb_others t)\<rparr>)"
    using assms(1,3) by (fastforce simp: sound_def delete_conv' image_iff)
  then show ?thesis using assms(2) by (simp add: wc_bye_def sound_check)
qed

lemma sound_hello:
  assumes "sound S t" "\<forall>(i, p) \<in> S. now \<le> p + 6000 \<and> p \<le> now + 17000" "j \<noteq> tb_id t"
  shows "sound (insert (j, now + 17000) S) (fst (wc_hello j now t))"
proof -
  let ?S = "insert (j, now + 17000) S"
  have k: "\<forall>(i, p) \<in> ?S. i < tb_id t \<longrightarrow> (\<exists>m. map_of (AList.update j now (tb_others t)) i = Some m \<and> p - 17000 \<le> m)"
    using assms(1,2) by (fastforce simp: sound_def update_conv')
  show ?thesis
  proof (cases "j < tb_id t")
    case True
    have "sound ?S ((wc_ping j now t)\<lparr>tb_master := False\<rparr>)" using k by (simp add: sound_def)
    then have "sound ?S (wc_check now ((wc_ping j now t)\<lparr>tb_master := False\<rparr>))"
      using assms(2) by (intro sound_check) auto
    moreover have "tb_master (wc_check now (t\<lparr>tb_master := b\<rparr>)) = tb_master (wc_check now t)" for b t
      by simp
    ultimately show ?thesis using True by (simp add: wc_hello_def Let_def sound_def)
  next
    case False
    then show ?thesis using assms(1) k by (auto simp: wc_hello_def sound_def Let_def)
  qed
qed

subsection \<open>Messages\<close>

lemma broadcast_lost: "tw_stored w = Some msg \<Longrightarrow> broadcast msg w = (w, [])"
  by (simp add: broadcast_def)

lemma announce_heard:
  "tw_stored w \<noteq> Some msg \<Longrightarrow> tw_tabs (announce msg w) = map (\<lambda>t. fst (handleEvent (tw_clock w) msg t)) (tw_tabs w)"
  by (simp add: announce_def broadcast_def)

lemma announce_simps [simp]:
  "tw_clock (announce msg w) = tw_clock w" "tw_stored (announce msg w) = Some msg"
  by (auto simp: announce_def broadcast_def)

lemma announce_all:
  assumes "distinct msgs" "\<forall>m \<in> set msgs. tw_stored w \<noteq> Some m"
  shows "tw_tabs (fold announce msgs w) = map (\<lambda>t. fold (\<lambda>m t. fst (handleEvent (tw_clock w) m t)) msgs t) (tw_tabs w) \<and>
    tw_clock (fold announce msgs w) = tw_clock w"
  using assms
proof (induction msgs arbitrary: w)
  case (Cons m msgs)
  have "\<forall>x \<in> set msgs. tw_stored (announce m w) \<noteq> Some x" using Cons.prems by auto
  from Cons.IH [OF _ this] Cons.prems show ?case by (simp add: announce_heard comp_def)
qed simp

lemma alive_map:
  "(\<And>t. t \<in> set (tw_tabs w) \<Longrightarrow> tb_id (f t) = tb_id t \<and> tb_ping_at (f t) = tb_ping_at t) \<Longrightarrow>
   alive (w\<lparr>tw_tabs := map f (tw_tabs w)\<rparr>) = alive w"
  by (force simp: alive_def image_iff)

lemma tabs_invI:
  assumes "distinct (map tb_id (tw_tabs w))" "\<forall>(i, p) \<in> alive w. tw_clock w \<le> p + 6000 \<and> p \<le> tw_clock w + 17000"
    "\<And>t. t \<in> set (tw_tabs w) \<Longrightarrow> sound (alive w) t"
  shows "tabs_inv w"
  using assms by (simp add: tabs_inv_def)

lemma tabs_invD:
  assumes "tabs_inv w"
  shows "distinct (map tb_id (tw_tabs w))" "\<forall>(i, p) \<in> alive w. tw_clock w \<le> p + 6000 \<and> p \<le> tw_clock w + 17000"
    "t \<in> set (tw_tabs w) \<Longrightarrow> sound (alive w) t"
  using assms by (simp_all add: tabs_inv_def)

text \<open>A change of each tab for itself that keeps who is there and keeps every tab sound.\<close>

lemma tabs_inv_map:
  assumes inv: "tabs_inv w" and tabs: "tw_tabs w' = map f (tw_tabs w)" and now: "tw_clock w' = tw_clock w"
    and same: "\<And>t. t \<in> set (tw_tabs w) \<Longrightarrow> tb_id (f t) = tb_id t \<and> tb_ping_at (f t) = tb_ping_at t"
    and sound: "\<And>t. t \<in> set (tw_tabs w) \<Longrightarrow> sound (alive w) t \<Longrightarrow> sound (alive w) (f t)"
  shows "tabs_inv w'"
proof -
  have a: "alive w' = alive w" using alive_map [of w f, OF same] tabs by (simp add: alive_def)
  have "map tb_id (map f (tw_tabs w)) = map tb_id (tw_tabs w)" using same by simp
  then show ?thesis
    using tabs_invD [OF inv] sound unfolding tabs_inv_def a by (auto simp: tabs now simp del: map_map)
qed

text \<open>Only \<open>hello\<close> is answered, so every other message is a change of each tab for itself.\<close>

lemma inv_announce:
  assumes "tabs_inv w" "\<And>i. msg \<noteq> Hello i" "\<And>i. msg = Bye i \<Longrightarrow> i \<notin> fst ` alive w"
  shows "tabs_inv (announce msg w)"
proof (cases "tw_stored w = Some msg")
  case True
  then show ?thesis using assms(1) by (simp add: announce_def broadcast_lost)
next
  case False
  note inv = tabs_invD [OF assms(1)]
  show ?thesis
  proof (rule tabs_inv_map [OF assms(1) announce_heard [OF False]])
    fix t assume t: "t \<in> set (tw_tabs w)" and s: "sound (alive w) t"
    have "sound (alive w) (wc_ping i (tw_clock w) t)" for i using s inv(2) by (intro sound_ping) auto
    moreover have "sound (alive w) (wc_bye i (tw_clock w) t)" if "msg = Bye i" for i
      using s inv(2) assms(3) [OF that] by (intro sound_bye) auto
    moreover have "sound (alive w) (render n t)" for n using s by (simp add: sound_def)
    ultimately show "sound (alive w) (fst (handleEvent (tw_clock w) msg t))"
      using s assms(2) by (cases msg) (auto simp: handleEvent_def)
  qed simp_all
qed

lemma inv_on_tab:
  assumes "tabs_inv w" "\<And>t. tb_id (f t) = tb_id t \<and> tb_ping_at (f t) = tb_ping_at t"
    "\<And>t. t \<in> set (tw_tabs w) \<Longrightarrow> sound (alive w) t \<Longrightarrow> sound (alive w) (f t)"
  shows "tabs_inv (on_tab i f w)"
  by (rule tabs_inv_map [OF assms(1), of _ "\<lambda>t. if tb_id t = i then f t else t"]) (use assms in \<open>auto simp: on_tab_def\<close>)

lemma sound_subset: "sound S t \<Longrightarrow> S' \<subseteq> S \<Longrightarrow> sound S' t"
  by (auto simp: sound_def)

lemma alive_remove: "alive (remove_tab i w) = {(j, p) \<in> alive w. j \<noteq> i}"
  by (auto simp: alive_def remove_tab_def)

lemma inv_remove:
  assumes "tabs_inv w"
  shows "tabs_inv (remove_tab i w)"
proof (rule tabs_invI)
  show "distinct (map tb_id (tw_tabs (remove_tab i w)))"
    using tabs_invD(1) [OF assms] by (simp add: remove_tab_def distinct_map_filter)
  show "\<forall>(j, p) \<in> alive (remove_tab i w). tw_clock (remove_tab i w) \<le> p + 6000 \<and> p \<le> tw_clock (remove_tab i w) + 17000"
    using tabs_invD(2) [OF assms] by (auto simp: alive_remove) (auto simp: remove_tab_def)
  have sub: "alive (remove_tab i w) \<subseteq> alive w" by (auto simp: alive_remove)
  show "sound (alive (remove_tab i w)) t" if "t \<in> set (tw_tabs (remove_tab i w))" for t
    using that by (intro sound_subset [OF tabs_invD(3) [OF assms] sub]) (simp add: remove_tab_def)
qed

lemma inv_destroy: "tabs_inv w \<Longrightarrow> tabs_inv (destroy_tab i w)"
  unfolding destroy_tab_def by (rule inv_announce) (auto simp: inv_remove alive_remove)

lemma inv_check: "tabs_inv w \<Longrightarrow> tabs_inv (check_fires i w)"
  unfolding check_fires_def
proof (rule inv_on_tab)
  fix t assume w: "tabs_inv w" "sound (alive w) t"
  have "sound (alive w) (wc_check (tw_clock w) t)" using w tabs_invD(2) [OF w(1)] by (intro sound_check) auto
  then show "sound (alive w) ((wc_check (tw_clock w) t)\<lparr>tb_check_at := tw_clock w + 9000\<rparr>)" by (simp add: sound_def)
qed simp_all

lemma inv_notice: "tabs_inv w \<Longrightarrow> tabs_inv (notice n w)"
proof -
  have one: "tabs_inv (noticed_by n i w)" if "tabs_inv w" for i w
  proof -
    have "tabs_inv (on_tab i (render n) (announce (Note i n) w))"
      by (rule inv_on_tab, rule inv_announce) (simp_all add: that sound_def)
    then show ?thesis by (simp add: noticed_by_def Let_def tabs_inv_def alive_def)
  qed
  have "tabs_inv w \<Longrightarrow> tabs_inv (fold (noticed_by n) is w)" for "is" w
    by (induction "is" arbitrary: w) (simp_all add: one)
  then show "tabs_inv w \<Longrightarrow> tabs_inv (notice n w)" by (simp add: notice_def)
qed

text \<open>The ping of a tab that is heard moves its next ping, and all others know of it.\<close>

lemma sound_moved:
  assumes "sound S t" "i \<noteq> tb_id t" "(i, p) \<in> S"
  shows "sound (insert (i, now + 17000) {(j, p) \<in> S. j \<noteq> i}) (wc_ping i now t)"
  using assms unfolding sound_def by (auto simp: update_conv')

lemma alive_moved:
  assumes "\<exists>t \<in> set (tw_tabs w). tb_id t = i"
  shows "alive (on_tab i (\<lambda>t. t\<lparr>tb_ping_at := q\<rparr>) w) = insert (i, q) {(j, p) \<in> alive w. j \<noteq> i}"
proof -
  obtain t where t: "t \<in> set (tw_tabs w)" "tb_id t = i" using assms by blast
  have "alive (on_tab i (\<lambda>t. t\<lparr>tb_ping_at := q\<rparr>) w) =
      (\<lambda>t. if tb_id t = i then (i, q) else (tb_id t, tb_ping_at t)) ` set (tw_tabs w)"
    by (simp add: alive_def on_tab_def image_image del: if_image_distrib) (rule image_cong, simp_all)
  also have "\<dots> = insert (i, q) {(j, p) \<in> alive w. j \<noteq> i}"
    using t by (auto simp: alive_def)
  finally show ?thesis .
qed

lemma inv_ping:
  assumes inv: "tabs_inv w" and i: "\<exists>t \<in> set (tw_tabs w). tb_id t = i"
    and heard: "tw_stored w \<noteq> Some (Ping i) \<or> length (tw_tabs w) = 1"
  shows "tabs_inv (ping_fires i w)"
proof -
  define w1 where "w1 = on_tab i (\<lambda>t. t\<lparr>tb_ping_at := tw_clock w + 17000\<rparr>) w"
  note I = tabs_invD [OF inv]
  let ?S = "insert (i, tw_clock w + 17000) {(j, p) \<in> alive w. j \<noteq> i}"
  have a1: "alive w1 = ?S" unfolding w1_def by (rule alive_moved [OF i])
  have ids: "map tb_id (tw_tabs w1) = map tb_id (tw_tabs w)" and c1: "tw_clock w1 = tw_clock w"
    by (auto simp: w1_def on_tab_def)
  have fire: "ping_fires i w = announce (Ping i) w1" by (simp add: ping_fires_def w1_def)
  have range: "\<forall>(j, p) \<in> ?S. tw_clock w \<le> p + 6000 \<and> p \<le> tw_clock w + 17000" using I(2) by auto
  show ?thesis
  proof (cases "tw_stored w = Some (Ping i)")
    case True
    then obtain t where t: "tw_tabs w = [t]" using heard by (auto simp: length_Suc_conv)
    then have "tw_tabs w1 = [t\<lparr>tb_ping_at := tw_clock w + 17000\<rparr>]" using i by (simp add: w1_def on_tab_def)
    moreover have "announce (Ping i) w1 = w1"
      using True by (simp add: announce_def broadcast_def w1_def on_tab_def)
    ultimately show ?thesis using i t by (simp add: fire tabs_inv_def alive_def sound_def c1)
  next
    case False
    have "tw_stored w1 \<noteq> Some (Ping i)" using False by (simp add: w1_def on_tab_def)
    note tabs = announce_heard [OF this, folded fire]
    have a: "alive (ping_fires i w) = ?S"
      using alive_map [of w1 "\<lambda>t. fst (handleEvent (tw_clock w1) (Ping i) t)"] a1 tabs by (simp add: alive_def)
    show ?thesis
    proof (rule tabs_invI; (unfold a)?)
      show "distinct (map tb_id (tw_tabs (ping_fires i w)))" using I(1) ids tabs by (simp add: comp_def)
      show "\<forall>(j, p) \<in> ?S. tw_clock (ping_fires i w) \<le> p + 6000 \<and> p \<le> tw_clock (ping_fires i w) + 17000"
        using range by (simp add: fire c1)
      fix t assume "t \<in> set (tw_tabs (ping_fires i w))"
      then obtain u where u: "u \<in> set (tw_tabs w)" and
        t: "t = fst (handleEvent (tw_clock w) (Ping i) (if tb_id u = i then u\<lparr>tb_ping_at := tw_clock w + 17000\<rparr> else u))"
        using tabs by (auto simp: w1_def on_tab_def)
      show "sound ?S t"
      proof (cases "tb_id u = i")
        case True
        then show ?thesis using I(3) [OF u] t by (fastforce simp: sound_def handleEvent_def)
      next
        case False
        moreover obtain p where "(i, p) \<in> alive w" using i by (auto simp: alive_def)
        ultimately show ?thesis using sound_moved [OF I(3) [OF u], of i p "tw_clock w"] t by (auto simp: handleEvent_def)
      qed
    qed
  qed
qed

text \<open>A new tab: all others hear of it, and it hears of every smaller one.\<close>

definition hear_all :: "int \<Rightarrow> wc_msg list \<Rightarrow> tab \<Rightarrow> tab" where
  "hear_all now msgs t = fold (\<lambda>m t. fst (handleEvent now m t)) msgs t"

lemma hear_all_simps [simp]:
  "hear_all now [] t = t" "hear_all now (m # ms) t = hear_all now ms (fst (handleEvent now m t))"
  by (simp_all add: hear_all_def)

lemma hear_ping: "fst (handleEvent now (Ping j) t) = (if j = tb_id t then t else wc_ping j now t)"
  by (simp add: handleEvent_def)

lemma hear_fields [simp]: "tb_id (hear_all now ms t) = tb_id t" "tb_ping_at (hear_all now ms t) = tb_ping_at t"
  by (induction ms arbitrary: t) simp_all

lemma hear_pings_master: "\<forall>m \<in> set ms. \<exists>i. m = Ping i \<Longrightarrow> tb_master (hear_all now ms t) = tb_master t"
  by (induction ms arbitrary: t) (auto simp: hear_ping split: if_splits)

lemma hear_pings_sound:
  "\<forall>m \<in> set ms. \<exists>i. m = Ping i \<Longrightarrow> sound S t \<Longrightarrow> \<forall>(i, p) \<in> S. p \<le> now + 17000 \<Longrightarrow> sound S (hear_all now ms t)"
proof (induction ms arbitrary: t)
  case (Cons m ms)
  then show ?case using sound_ping [of S t now] by (auto simp: hear_ping)
qed simp

lemma hear_pings_known:
  "\<forall>m \<in> set ms. \<exists>i. m = Ping i \<Longrightarrow> map_of (tb_others t) i = Some now \<or> Ping i \<in> set ms \<and> i \<noteq> tb_id t \<Longrightarrow>
   map_of (tb_others (hear_all now ms t)) i = Some now"
proof (induction ms arbitrary: t)
  case (Cons m ms)
  then obtain j where "m = Ping j" by auto
  then show ?case using Cons.prems Cons.IH [of "fst (handleEvent now m t)"] by (auto simp: hear_ping update_conv')
qed simp

lemma inv_open:
  assumes inv: "tabs_inv w" and n: "n \<notin> tb_id ` set (tw_tabs w)" "tw_stored w \<noteq> Some (Hello n)"
  shows "tabs_inv (open_tab n w)"
proof -
  define w1 where "w1 = w\<lparr>tw_tabs := tw_tabs w @ [WindowController n (tw_clock w)]\<rparr>"
  define rs where "rs = snd (broadcast (Hello n) w1)"
  let ?c = "tw_clock w" and ?w2 = "announce (Hello n) w1"
  let ?f = "\<lambda>t. hear_all ?c rs (fst (handleEvent ?c (Hello n) t))"
  let ?S = "insert (n, ?c + 17000) (alive w)"
  note I = tabs_invD [OF inv]
  have stored: "tw_stored w1 \<noteq> Some (Hello n)" and c1: "tw_clock w1 = ?c" using n(2) by (auto simp: w1_def)
  have rs: "rs = map (\<lambda>t. Ping (tb_id t)) (filter (\<lambda>t. tb_id t < n) (tw_tabs w))"
  proof -
    have "concat (map (\<lambda>t. snd (handleEvent ?c (Hello n) t)) ts) = map (\<lambda>t. Ping (tb_id t)) (filter (\<lambda>t. tb_id t < n) ts)"
      if "n \<notin> tb_id ` set ts" for ts
      using that by (induction ts) (auto simp: handleEvent_def wc_hello_def Let_def)
    then show ?thesis
      using n stored by (simp add: rs_def broadcast_def w1_def handleEvent_def WindowController_def)
  qed
  have pings: "\<forall>m \<in> set rs. \<exists>i. m = Ping i" and "distinct rs"
    using I(1) by (auto simp: rs distinct_map inj_on_def)
  then have all: "tw_tabs (fold announce rs ?w2) = map ?f (tw_tabs w1)" "tw_clock (fold announce rs ?w2) = ?c"
    using announce_all [of rs ?w2] announce_heard [OF stored] c1 by (auto simp: rs hear_all_def)
  have run: "open_tab n w = fold announce rs ?w2"
    by (simp add: open_tab_def w1_def rs_def announce_def case_prod_unfold)
  have same: "tb_id (?f t) = tb_id t \<and> tb_ping_at (?f t) = tb_ping_at t" for t
    by simp
  have "alive (open_tab n w) = (\<lambda>t. (tb_id t, tb_ping_at t)) ` set (tw_tabs w1)"
    by (simp add: alive_def run all image_image)
  then have a: "alive (open_tab n w) = ?S" by (simp add: w1_def alive_def WindowController_def)
  have range: "\<forall>(j, p) \<in> ?S. ?c \<le> p + 6000 \<and> p \<le> ?c + 17000" using I(2) by auto
  show ?thesis
  proof (rule tabs_invI; (unfold a)?)
    show "distinct (map tb_id (tw_tabs (open_tab n w)))"
      using I(1) n(1) by (simp add: run all comp_def) (simp add: w1_def WindowController_def)
    show "\<forall>(j, p) \<in> ?S. tw_clock (open_tab n w) \<le> p + 6000 \<and> p \<le> tw_clock (open_tab n w) + 17000"
      using range by (simp add: run all)
    fix t assume "t \<in> set (tw_tabs (open_tab n w))"
    then have "t \<in> ?f ` set (tw_tabs w1)" by (simp add: run all)
    then consider u where "u \<in> set (tw_tabs w)" "t = ?f u" | "t = ?f (WindowController n ?c)"
      by (auto simp: w1_def)
    then show "sound ?S t"
    proof cases
      case 1
      have "n \<noteq> tb_id u" using n(1) 1 by auto
      then have "sound ?S (fst (handleEvent ?c (Hello n) u))"
        using sound_hello [OF I(3) [OF 1(1)] I(2)] by (auto simp: handleEvent_def)
      then show ?thesis using hear_pings_sound [OF pings] range 1 by fastforce
    next
      case 2
      let ?n = "WindowController n ?c"
      have h: "fst (handleEvent ?c (Hello n) ?n) = ?n" by (simp add: handleEvent_def WindowController_def)
      have known: "map_of (tb_others t) i = Some ?c" if "(i, p) \<in> ?S" "i < n" for i p
      proof -
        have "Ping i \<in> set rs" using that by (auto simp: rs alive_def)
        then show ?thesis using hear_pings_known [OF pings, of ?n i ?c] that 2 h by (simp add: WindowController_def)
      qed
      have id: "tb_id t = n" "\<not> tb_master t"
        using 2 h hear_pings_master [OF pings, of ?c ?n] by (simp_all add: WindowController_def)
      show ?thesis using known range by (fastforce simp: sound_def id)
    qed
  qed
qed

lemma inv_unread [simp]: "tabs_inv (w\<lparr>tw_unread := u\<rparr>) \<longleftrightarrow> tabs_inv w"
  by (simp add: tabs_inv_def alive_def)

theorem tabs_reach_inv: "tabs_reach w \<Longrightarrow> tabs_inv w"
proof (induction rule: tabs_reach.induct)
  case (start now)
  show ?case by (simp add: no_tabs_def tabs_inv_def alive_def)
next
  case (step w e)
  show ?case
  proof (cases e)
    case (Waits d)
    then show ?thesis using step by (fastforce simp: tabs_inv_def alive_def)
  qed (use step in \<open>auto simp: inv_open inv_destroy inv_remove inv_check inv_notice dec_notification_counter_def
      intro!: inv_ping\<close>)
qed

fun heard_run :: "tab_event list \<Rightarrow> tab_world \<Rightarrow> bool" where
  "heard_run [] w = True"
| "heard_run (e # es) w = (tab_can e w \<and> tab_heard e w \<and> heard_run es (tab_do e w))"

fun prompt_run :: "tab_event list \<Rightarrow> tab_world \<Rightarrow> bool" where
  "prompt_run [] w = True"
| "prompt_run (e # es) w = (tab_can e w \<and> tab_heard e w \<and> tab_prompt e w \<and> prompt_run es (tab_do e w))"

lemma reach_run: "tabs_reach w \<Longrightarrow> prompt_run es w \<Longrightarrow> tabs_reach (fold tab_do es w)"
  by (induction es arbitrary: w) (auto intro: tabs_reach.step)

lemmas tab_defs = open_tab_def broadcast_def announce_def handleEvent_def wc_hello_def wc_ping_def wc_bye_def wc_check_def
  masterDidChange_def connect_def disconnect_def check_fires_def ping_fires_def on_tab_def remove_tab_def destroy_tab_def
  WindowController_def no_tabs_def counts_def notice_def noticed_by_def render_def named_method_def Let_def

subsection \<open>Properties\<close>

text \<open>C17:
  Whatever tabs are opened, closed and lost, as long as no ping is more than six seconds late, every ping is
  heard, and a message reaches the other tabs at once: a tab that is master has the smallest identifier of all
  that are open, and no other tab is master. Checks may be late by any time.
\<close>
theorem one_master:
  assumes "tabs_reach w" "s \<in> set (tw_tabs w)" "tb_master s" "t \<in> set (tw_tabs w)" "t \<noteq> s"
  shows "tb_id s < tb_id t \<and> \<not> tb_master t"
proof -
  note inv = tabs_reach_inv [OF assms(1)]
  have "tb_id s \<noteq> tb_id t"
    using tabs_invD(1) [OF inv] assms by (auto simp: distinct_map dest: inj_onD)
  moreover have "\<not> tb_id t < tb_id s" "tb_id s < tb_id t \<Longrightarrow> \<not> tb_master t"
    using tabs_invD(3) [OF inv assms(2)] tabs_invD(3) [OF inv assms(4)] assms by (force simp: sound_def alive_def)+
  ultimately show ?thesis by auto
qed

definition handed_over :: "tab_event list" where
  "handed_over = [Opened (1 / 2), Waits 500, Checks (1 / 2), Opened (1 / 4), Waits 500, Checks (1 / 4)]"

lemma one_master_witness:
  "map (\<lambda>t. (tb_id t, tb_master t)) (tw_tabs (fold tab_do handed_over (no_tabs 0))) = [(1 / 2, False), (1 / 4, True)] \<and>
   \<not> tb_master (tw_tabs (fold tab_do handed_over (no_tabs 0)) ! 0)"
proof -
  let ?w = "fold tab_do handed_over (no_tabs 0)"
  have run: "prompt_run handed_over (no_tabs 0)" by (simp add: handed_over_def tab_defs)
  have w: "map (\<lambda>t. (tb_id t, tb_master t)) (tw_tabs ?w) = [(1 / 2, False), (1 / 4, True)]"
    by (simp add: handed_over_def tab_defs)
  then obtain a b where t: "tw_tabs ?w = [a, b]" "tb_id a \<noteq> tb_id b" "tb_master b" by (auto simp: map_eq_Cons_conv)
  have "tb_id b < tb_id a \<and> \<not> tb_master a"
    by (rule one_master [OF reach_run [OF tabs_reach.start run]]) (use t in auto)
  then show ?thesis using w t by simp
qed

text \<open>
  A ping that repeats the message stored last reaches nobody, and then two tabs can be master at once,
  with every ping on time:
  a second tab opened five seconds after the first is answered, the next ping of the first repeats that
  answer, and twenty-seven and a half seconds later the second takes over although the first is there.
\<close>
definition split_run :: "tab_event list" where
  "split_run = [Opened (1 / 4), Waits 500, Checks (1 / 4), Waits 4500, Opened (1 / 2), Waits 500, Checks (1 / 2),
     Waits 4000, Checks (1 / 4), Waits 5000, Checks (1 / 2), Waits 2500, Pings (1 / 4), Waits 1500, Checks (1 / 4),
     Waits 3500, Pings (1 / 2), Waits 1500, Checks (1 / 2), Waits 4000, Checks (1 / 4), Waits 5000, Checks (1 / 2)]"

theorem two_masters:
  "run_ok split_run (no_tabs 0) \<and>
   map (\<lambda>t. (tb_id t, tb_master t)) (tw_tabs (fold tab_do split_run (no_tabs 0))) = [(1 / 4, True), (1 / 2, True)]"
  by (simp add: split_run_def tab_defs)

text \<open>
  Without promptness the claim fails although every ping is heard: the timers of the first tab, which is in the
  background, do not fire for twenty-three seconds, and the second takes over although the first is there.
\<close>
definition late_run :: "tab_event list" where
  "late_run = [Opened (1 / 4), Waits 500, Checks (1 / 4), Opened (1 / 2), Waits 500, Checks (1 / 2),
     Waits 22600, Checks (1 / 2)]"

theorem late_masters:
  "heard_run late_run (no_tabs 0) \<and> \<not> prompt_run late_run (no_tabs 0) \<and>
   map (\<lambda>t. (tb_id t, tb_master t)) (tw_tabs (fold tab_do late_run (no_tabs 0))) = [(1 / 4, True), (1 / 2, True)]"
  by (simp add: late_run_def tab_defs)

text \<open>
  A tab that was master, gave way to another and is master again hears no notification any more: giving
  way closed its connection, and becoming master only adds a listener to it. Here no tab shows anything.
\<close>
definition deaf_run :: "tab_event list" where
  "deaf_run = [Opened (1 / 2), Waits 500, Checks (1 / 2), Opened (1 / 4), Closed (1 / 4)]"

theorem deaf_master:
  "heard_run deaf_run (no_tabs 0) \<and>
   (let w = fold tab_do deaf_run (no_tabs 0)
    in map (\<lambda>t. (tb_id t, tb_master t)) (tw_tabs w) = [(1 / 2, True)] \<and> notice n w = w)"
  by (simp add: deaf_run_def tab_defs)

text \<open>Once every smaller tab has been silent for more than twenty-three seconds, the next check makes a tab master.\<close>
theorem takes_over:
  assumes "t \<in> set (tw_tabs w)" "\<forall>(i, m) \<in> set (tb_others t). i < tb_id t \<longrightarrow> m + 23000 < tw_clock w"
  shows "\<exists>u \<in> set (tw_tabs (check_fires (tb_id t) w)). tb_id u = tb_id t \<and> tb_master u"
proof -
  let ?u = "(wc_check (tw_clock w) t)\<lparr>tb_check_at := tw_clock w + 9000\<rparr>"
  have "?u \<in> set (tw_tabs (check_fires (tb_id t) w))" using assms(1) by (force simp: check_fires_def on_tab_def)
  moreover have "tb_master ?u" using assms(2) by fastforce
  ultimately show ?thesis by (intro bexI [of _ ?u]) simp_all
qed

text \<open>A notification is counted once for every tab, although all share the counter.\<close>
theorem counted_per_tab:
  assumes "tw_tabs w = ts" "distinct (map tb_id ts)" "m \<in> set ts" "tb_open m" "tb_listeners m = 1"
    "\<forall>t \<in> set ts. t \<noteq> m \<longrightarrow> tb_listeners t = 0" "named_method n" "tw_stored w \<noteq> Some (Note (tb_id m) n)"
  shows "tw_unread (notice n w) = tw_unread w + length ts"
proof -
  obtain xs ys where ts: "ts = xs @ m # ys" using split_list [OF assms(3)] by blast
  have other: "t \<noteq> m \<and> tb_id t \<noteq> tb_id m" if "t \<in> set xs \<union> set ys" for t
  proof -
    have "tb_id m \<notin> tb_id ` (set xs \<union> set ys)" using assms(2) unfolding ts by (simp add: image_Un)
    then have "tb_id m \<noteq> tb_id t" using that by (metis image_eqI)
    then show ?thesis by auto
  qed
  then have none: "\<forall>t \<in> set xs \<union> set ys. tb_listeners t = 0" using assms(6) ts other by simp
  have nil: "concat (map (\<lambda>t. if tb_open t then replicate (tb_listeners t) (tb_id t) else []) zs) = []"
    if "set zs \<subseteq> set xs \<union> set ys" for zs
    using none that by (auto simp: concat_eq_Nil_conv)
  have "concat (map (\<lambda>t. if tb_open t then replicate (tb_listeners t) (tb_id t) else []) ts) = [tb_id m]"
    using assms(4,5) by (simp add: ts nil del: concat_eq_Nil_conv)
  moreover have "filter (counts (Note (tb_id m) n)) ts = xs @ ys"
  proof -
    have "counts (Note (tb_id m) n) t" if "t \<in> set xs \<union> set ys" for t
      using other [OF that] assms(7) by (simp add: counts_def)
    then have "filter (counts (Note (tb_id m) n)) zs = zs" if "set zs \<subseteq> set xs \<union> set ys" for zs
      using that by (intro filter_True) auto
    moreover have "\<not> counts (Note (tb_id m) n) m" by (simp add: counts_def)
    ultimately show ?thesis by (simp add: ts)
  qed
  ultimately show ?thesis
    using assms(1,8) ts by (simp add: notice_def noticed_by_def announce_def broadcast_def on_tab_def Let_def)
qed

end
