(* ===== verification/AdminGraphs.thy ===== *)
theory AdminGraphs
  imports AdminConsole "HOL-Library.Word" "HOL-Library.Signed_Division" "HOL-Library.Multiset"
begin

section \<open>The management console: colours and graphs\<close>

text \<open>
  \<open>compat/styles.js\<close>, \<open>compat/math.js\<close> and the data of the graphs of \<open>compat/graphs.js\<close>; their titles, axes and
  layout are left out. Numbers of a bit operation are integers, and \<open>to_int32\<close> is what the operation makes of
  one; \<open>%\<close> takes the sign of its first argument. How a date is read is a parameter.
\<close>

subsection \<open>Colours\<close>

definition to_int32 :: "int \<Rightarrow> int" where
  "to_int32 n = (n + 2 ^ 31) mod 2 ^ 32 - 2 ^ 31"

definition hash_step :: "int \<Rightarrow> char \<Rightarrow> int" where
  "hash_step h c = to_int32 (of_char c + (to_int32 (h * 2 ^ 5) - h))"

definition string_hash :: "string \<Rightarrow> int" where
  "string_hash s = foldl hash_step 0 s"

definition in_range :: "int \<Rightarrow> int \<Rightarrow> int" where
  "in_range h n = ((h smod n) + n) smod n"

definition colorHash :: "string \<Rightarrow> string" where
  "colorHash s =
     (let hash = string_hash s
      in ''hsl('' @ show_int (in_range hash 360) @ '', '' @ show_int (in_range hash 25 + 75) @ ''%, '' @
         show_int (in_range hash 20 + 40) @ ''%)'')"

text \<open>The reference: the polynomial hash in 32-bit words.\<close>

definition word_hash :: "string \<Rightarrow> 32 word" where
  "word_hash s = foldl (\<lambda>h c. 31 * h + word_of_int (of_char c)) 0 s"

lemma to_int32_word: "to_int32 n = sint (word_of_int n :: 32 word)"
  by (simp add: to_int32_def sint_sbintrunc' signed_take_bit_eq_take_bit_shift take_bit_eq_mod)

lemma to_int32_of: "(word_of_int (to_int32 n) :: 32 word) = word_of_int n"
  by (simp add: to_int32_word)

lemma hash_step_word: "(word_of_int (hash_step h c) :: 32 word) = 31 * word_of_int h + word_of_int (of_char c)"
proof -
  have "(word_of_int (hash_step h c) :: 32 word) = word_of_int (of_char c) + (word_of_int (h * 32) - word_of_int h)"
    unfolding hash_step_def to_int32_of by (simp add: to_int32_of flip: wi_hom_syms)
  then show ?thesis by (simp add: flip: wi_hom_syms)
qed

lemma string_hash_word: "string_hash s = sint (word_hash s)"
proof -
  have "word_of_int (foldl hash_step h s) = foldl (\<lambda>h c. 31 * h + word_of_int (of_char c)) (word_of_int h :: 32 word) s" for h
    by (induction s arbitrary: h) (simp_all add: hash_step_word)
  from this [of 0] have w: "(word_of_int (string_hash s) :: 32 word) = word_hash s"
    by (simp add: string_hash_def word_hash_def)
  have r: "to_int32 (string_hash s) = string_hash s"
  proof (cases s rule: rev_cases)
    case (snoc t c)
    then show ?thesis by (simp add: string_hash_def hash_step_def to_int32_def)
  qed (simp add: string_hash_def to_int32_def)
  show ?thesis using to_int32_word [of "string_hash s"] unfolding r w .
qed

lemma in_range_mod: "0 < n \<Longrightarrow> in_range h n = h mod n"
proof -
  assume n: "0 < n"
  have "\<bar>h smod n\<bar> < n" using smod_int_range [of n h] n by auto
  then have "0 < h smod n + n" by linarith
  then have "in_range h n = (h smod n + n) mod n" using n by (simp add: in_range_def smod_int_alt_def)
  also have "\<dots> = h mod n" 
  proof -
    have "h smod n = h mod n \<or> h smod n = h mod n - n" by (simp add: signed_modulo_int_eq_modulo_int of_bool_def)
    then show ?thesis by auto
  qed
  finally show ?thesis .
qed

subsection \<open>Running sums\<close>

text \<open>\<open>p + i\<close>: texts and objects are joined as texts, everything else is added as numbers.\<close>

fun textual :: "jsval \<Rightarrow> bool" where
  "textual (Str s) = True"
| "textual (Arr xs) = True"
| "textual (Obj fs) = True"
| "textual v = False"

definition js_add :: "jsval \<Rightarrow> jsval \<Rightarrow> jsval" where
  "js_add a b =
     (if textual a \<or> textual b then Str (js_string a @ js_string b)
      else case (as_num a, as_num b) of (Some x, Some y) \<Rightarrow> Num (x + y) | _ \<Rightarrow> NaN)"

fun reduce_add :: "jsval list \<Rightarrow> jsval" where
  "reduce_add [] = Undef"
| "reduce_add (x # xs) = foldl js_add x xs"

definition cumulativeSum :: "jsval list \<Rightarrow> jsval list" where
  "cumulativeSum arr = map (\<lambda>i. reduce_add (take (i + 1) arr)) [0..<length arr]"

text \<open>The reference: one pass that carries the sum.\<close>

fun running :: "rat \<Rightarrow> rat list \<Rightarrow> rat list" where
  "running a [] = []"
| "running a (x # xs) = (a + x) # running (a + x) xs"

lemma js_add_Num [simp]: "js_add (Num a) (Num b) = Num (a + b)"
  by (simp add: js_add_def)

lemma reduce_add_Num: "xs \<noteq> [] \<Longrightarrow> reduce_add (map Num xs) = Num (sum_list xs)"
proof -
  have "foldl js_add (Num a) (map Num zs) = Num (a + sum_list zs)" for a zs
    by (induction zs arbitrary: a) simp_all
  then show "xs \<noteq> [] \<Longrightarrow> reduce_add (map Num xs) = Num (sum_list xs)" by (cases xs) simp_all
qed

lemma running_nth: "i < length xs \<Longrightarrow> running a xs ! i = a + sum_list (take (i + 1) xs)"
  by (induction xs arbitrary: a i) (auto simp: nth_Cons split: nat.split)

lemma length_running [simp]: "length (running a xs) = length xs"
  by (induction xs arbitrary: a) simp_all

lemma cumulativeSum_running: "cumulativeSum (map Num xs) = map Num (running 0 xs)"
proof (rule nth_equalityI)
  fix i
  assume "i < length (cumulativeSum (map Num xs))"
  then have "i < length xs" by (simp add: cumulativeSum_def)
  moreover have "take (i + 1) xs \<noteq> []" using \<open>i < length xs\<close> by auto
  then have "reduce_add (take (i + 1) (map Num xs)) = Num (sum_list (take (i + 1) xs))"
    unfolding take_map by (rule reduce_add_Num)
  ultimately show "cumulativeSum (map Num xs) ! i = map Num (running 0 xs) ! i"
    unfolding cumulativeSum_def by (simp add: running_nth)
qed (simp add: cumulativeSum_def)

subsection \<open>The graphs of an account\<close>

text \<open>They are drawn from three answers: solves, failed submissions and awards.\<close>

definition point_score :: "jsval \<Rightarrow> jsval" where
  "point_score t = (if nullish (oget t ''challenge'') then oget t ''value'' else oget (oget t ''challenge'') ''value'')"

definition score_items :: "jsval list \<Rightarrow> jsval list" where
  "score_items rs =
     (let s = oget (rs ! 0) ''data''; a = oget (rs ! 2) ''data'' in elems s @ (if is_arr a then elems a else [a]))"

definition score_graph :: "(jsval \<Rightarrow> int) \<Rightarrow> jsval list \<Rightarrow> exn + (int list \<times> jsval list)" where
  "score_graph date rs =
     (let sorted_points = sort_key (\<lambda>t. date (oget t ''date'')) (score_items rs)
      in if nullish (rs ! 0) \<or> nullish (rs ! 2) \<or> \<not> is_arr (oget (rs ! 0) ''data'') \<or> list_ex nullish (score_items rs)
         then Inl TypeError
         else Inr (map (\<lambda>t. date (oget t ''date'')) sorted_points, cumulativeSum (map point_score sorted_points)))"

definition index_of :: "'a \<Rightarrow> 'a list \<Rightarrow> nat" where
  "index_of x xs = length (takeWhile (\<lambda>y. y \<noteq> x) xs)"

definition first_ones :: "'a list \<Rightarrow> 'a list" where
  "first_ones xs = map (\<lambda>p. xs ! p) (filter (\<lambda>p. index_of (xs ! p) xs = p) [0..<length xs])"

definition category_breakdown :: "jsval list \<Rightarrow> exn + (jsval \<times> nat) list" where
  "category_breakdown rs =
     (let s = oget (rs ! 0) ''data''; cats = map (\<lambda>t. oget (oget t ''challenge'') ''category'') (elems s)
      in if nullish (rs ! 0) \<or> nullish s \<or> list_ex (\<lambda>t. nullish (oget t ''challenge'')) (elems s) then Inl TypeError
         else Inr (map (\<lambda>k. (k, count_list cats k)) (first_ones cats)))"

definition solve_percentages :: "jsval list \<Rightarrow> exn + (jsval \<times> jsval)" where
  "solve_percentages rs =
     (let s = oget (rs ! 0) ''data''; m = oget (rs ! 1) ''meta''
      in if nullish (rs ! 0) \<or> nullish s \<or> nullish (rs ! 1) \<or> nullish m then Inl TypeError
         else Inr (oget m ''count'', oget s ''length''))"

lemma index_of_less: "x \<in> set xs \<Longrightarrow> index_of x xs < length xs \<and> xs ! index_of x xs = x"
  by (induction xs) (auto simp: index_of_def)

lemma set_first_ones: "set (first_ones xs) = set xs"
proof -
  have "x \<in> set (first_ones xs)" if "x \<in> set xs" for x
    using index_of_less [OF that] unfolding first_ones_def by (auto intro!: image_eqI [of _ _ "index_of x xs"])
  then show ?thesis by (auto simp: first_ones_def)
qed

lemma distinct_first_ones: "distinct (first_ones xs)"
proof -
  have "inj_on (\<lambda>p. xs ! p) (set (filter (\<lambda>p. index_of (xs ! p) xs = p) [0..<length xs]))"
  proof (rule inj_onI)
    fix p q
    assume "p \<in> set (filter (\<lambda>p. index_of (xs ! p) xs = p) [0..<length xs])"
      "q \<in> set (filter (\<lambda>p. index_of (xs ! p) xs = p) [0..<length xs])" "xs ! p = xs ! q"
    then have "index_of (xs ! p) xs = p" "index_of (xs ! q) xs = q" by simp_all
    then show "p = q" using \<open>xs ! p = xs ! q\<close> by metis
  qed
  then show ?thesis by (simp add: first_ones_def distinct_map)
qed

lemma sum_counts:
  assumes "distinct ks" "set ks = set xs"
  shows "sum_list (map (count_list xs) ks) = length xs"
  using assms by (simp add: sum_list_distinct_conv_sum_set sum_count_set)

subsection \<open>Properties\<close>

text \<open>A colour is computed as if in 32-bit words: the hash is that of the polynomial with base 31, the hue lies
  between 0 and 359, the saturation between 75 and 99 and the lightness between 40 and 59 percent.\<close>
theorem color_hash:
  "\<exists>h s l. colorHash name = ''hsl('' @ show_int h @ '', '' @ show_int s @ ''%, '' @ show_int l @ ''%)'' \<and>
     h = sint (word_hash name) mod 360 \<and> s = 75 + sint (word_hash name) mod 25 \<and> l = 40 + sint (word_hash name) mod 20 \<and>
     h \<in> {0..359} \<and> s \<in> {75..99} \<and> l \<in> {40..59}"
proof -
  have "0 \<le> x mod n \<and> x mod n < n" if "0 < n" for x n :: int using that by simp
  from this [of 360] this [of 25] this [of 20] show ?thesis
    by (intro exI conjI) (auto simp: colorHash_def Let_def in_range_mod string_hash_word add.commute)
qed

text \<open>The pie of categories is complete: each category has one slice, and the slices add up to the solves.\<close>
theorem categories_complete:
  assumes "category_breakdown rs = Inr slices"
  shows "distinct (map fst slices) \<and> sum_list (map snd slices) = length (elems (oget (rs ! 0) ''data'')) \<and>
    0 \<notin> set (map snd slices)"
proof -
  define cats where "cats = map (\<lambda>t. oget (oget t ''challenge'') ''category'') (elems (oget (rs ! 0) ''data''))"
  have s: "slices = map (\<lambda>k. (k, count_list cats k)) (first_ones cats)"
    using assms by (simp add: category_breakdown_def cats_def Let_def split: if_splits)
  have "sum_list (map snd slices) = length cats"
    unfolding s using sum_counts [OF distinct_first_ones set_first_ones, of cats] by (simp add: comp_def)
  moreover have "distinct (map fst slices)" unfolding s by (simp add: comp_def distinct_first_ones)
  moreover have "0 \<notin> set (map snd slices)" unfolding s by (auto simp: set_first_ones count_list_0_iff)
  ultimately show ?thesis by (simp add: cats_def)
qed

text \<open>The graph of the score has a point for every solve and award, in the order of their dates, and when all of them
  are worth a number, each point shows the sum of what was won until then.\<close>
theorem score_points:
  assumes "score_graph date rs = Inr (ts, ys)"
  shows "\<exists>points. mset points = mset (score_items rs) \<and> ts = map (\<lambda>t. date (oget t ''date'')) points \<and> sorted ts \<and>
    length ys = length ts \<and> (\<forall>qs. map point_score points = map Num qs \<longrightarrow> ys = map Num (running 0 qs))"
proof -
  let ?date = "\<lambda>t. date (oget t ''date'')"
  have "ts = map ?date (sort_key ?date (score_items rs))" "ys = cumulativeSum (map point_score (sort_key ?date (score_items rs)))"
    using assms by (simp_all add: score_graph_def Let_def split: if_splits)
  then show ?thesis
    by (intro exI [of _ "sort_key ?date (score_items rs)"]) (simp add: cumulativeSum_running, simp add: cumulativeSum_def)
qed

definition three_answers :: "jsval list" where
  "three_answers =
     [Obj [(''data'', Arr [Obj [(''date'', Num 5), (''challenge'', Obj [(''value'', Num 100), (''category'', Str ''web'')])]])],
      Obj [(''meta'', Obj [(''count'', Num 3)])],
      Obj [(''data'', Arr [Obj [(''date'', Num 2), (''value'', Num 30)]])]]"

theorem score_points_witness:
  "score_graph (\<lambda>v. case v of Num q \<Rightarrow> \<lfloor>q\<rfloor> | _ \<Rightarrow> 0) three_answers = Inr ([2, 5], [Num 30, Num 130]) \<and> sorted [2, 5 :: int]"
proof -
  have run: "score_graph (\<lambda>v. case v of Num q \<Rightarrow> \<lfloor>q\<rfloor> | _ \<Rightarrow> 0) three_answers = Inr ([2, 5], [Num 30, Num 130])"
    by (simp add: score_graph_def score_items_def three_answers_def point_score_def nullish_def field_def cumulativeSum_def
        js_add_def Let_def)
  from score_points [OF run] run show ?thesis by simp
qed

theorem categories_complete_witness:
  "category_breakdown three_answers = Inr [(Str ''web'', 1)] \<and> distinct [Str ''web'']"
proof -
  have run: "category_breakdown three_answers = Inr [(Str ''web'', 1)]"
    by (simp add: category_breakdown_def three_answers_def first_ones_def index_of_def nullish_def field_def Let_def)
  from categories_complete [OF run] run show ?thesis by simp
qed

end
