(* ===== verification/AdminAccounts.thy ===== *)
theory AdminAccounts
  imports AdminGraphs
begin

section \<open>The management console: the page of a user or a team\<close>

text \<open>
  \<open>pages/user.js\<close> and \<open>pages/team.js\<close>: the forms that create, edit and award, deleting, the bulk actions on
  submissions and awards, members, and the statistics. \<open>USER_ID\<close> and \<open>TEAM_ID\<close> are arguments, the text of a
  question is where it holds escaped names, and \<open>redirect\<close> is where \<open>window.location\<close> is set to. The errors of an
  answer are shown in the form named, if the page has it.
\<close>

datatype drawn = Score_line "int list" "jsval list" | Category_pie "(jsval \<times> nat) list" | Solve_pie jsval jsval

record acworld = adworld +
  ac_badges :: "(string \<times> jsval) list"
  ac_invalid :: "(string \<times> string) list"
  ac_modal :: bool
  ac_invite :: string
  ac_graphs :: "drawn list"

subsection \<open>Forms\<close>

text \<open>\<open>property.match(/fields\[\d+\]/)\<close>, and the extra fields put into a list.\<close>

fun fields_index :: "string \<Rightarrow> bool" where
  "fields_index [] = False"
| "fields_index (c # s) =
     (starts_with ''fields['' (c # s) \<and>
        (let r = drop 7 (c # s); t = dropWhile is_digit r in takeWhile is_digit r \<noteq> [] \<and> t \<noteq> [] \<and> hd t = CHR '']'')
      \<or> fields_index s)"

definition field_id :: "string \<Rightarrow> jsval" where
  "field_id k = parseInt (butlast (drop 7 k))"

definition collect_fields :: "jsval \<Rightarrow> jsval" where
  "collect_fields params =
     (let p = set_field ''fields'' (Arr []) params
      in set_field ''fields''
           (Arr (map (\<lambda>(k, v). Obj [(''field_id'', field_id k), (''value'', v)])
              (filter (\<lambda>(k, v). fields_index k) (obj_fields p))))
           (Obj (filter (\<lambda>(k, v). \<not> fields_index k) (obj_fields p))))"

definition own_entries :: "jsval \<Rightarrow> exn + (string \<times> jsval) list" where
  "own_entries v = (if nullish v then Inl TypeError else Inr (obj_fields v))"

text \<open>Errors replace what the form shows and mark its inputs.\<close>

definition clear_results :: "string \<Rightarrow> 'z acworld_scheme \<Rightarrow> 'z acworld_scheme" where
  "clear_results f w = w\<lparr>ac_badges := filter (\<lambda>(g, b). g \<noteq> f) (ac_badges w)\<rparr>"

definition show_errors :: "string \<Rightarrow> string \<Rightarrow> (string \<times> jsval) list \<Rightarrow> 'z acworld_scheme \<Rightarrow> 'z acworld_scheme" where
  "show_errors results inputs es w =
     w\<lparr>ac_badges := ac_badges w @ map (\<lambda>(k, v). (results, v)) es,
       ac_invalid := ac_invalid w @ map (\<lambda>(k, v). (inputs, k)) es\<rparr>"

definition goto :: "string \<Rightarrow> 'z adworld_scheme \<Rightarrow> 'z adworld_scheme" where
  "goto url w = w\<lparr>redirect := Some (base_url w @ url)\<rparr>"

definition form_send :: "server \<Rightarrow> string \<Rightarrow> string \<Rightarrow> jsval \<Rightarrow> string \<Rightarrow> string \<Rightarrow>
    (jsval \<Rightarrow> (unit, 'z acworld_scheme) action) \<Rightarrow> (unit, 'z acworld_scheme) action" where
  "form_send srv m url data results inputs onok =
     bindM (ctfd_fetch srv m url (Some data)) (\<lambda>r.
     bindM (lift (resp_json r)) (\<lambda>d.
     bindM (lift (get d ''success'')) (\<lambda>ok.
       if truthy ok then onok d
       else bindM (upd (clear_results results)) (\<lambda>_.
            bindM (lift (own_entries (oget d ''errors''))) (\<lambda>es. upd (show_errors results inputs es))))))"

definition goto_new :: "string \<Rightarrow> jsval \<Rightarrow> (unit, 'z acworld_scheme) action" where
  "goto_new p d = bindM (lift (get (oget d ''data'') ''id'')) (\<lambda>i. upd (goto (p @ js_string i)))"

definition createUser :: "server \<Rightarrow> form_data \<Rightarrow> (unit, 'z acworld_scheme) action" where
  "createUser srv form =
     (let params = collect_fields (serializeJSON True form);
          url = (if oget params ''notify'' = BoolV True then ''/api/v1/users?notify=true'' else ''/api/v1/users'')
      in form_send srv ''POST'' url (del_field ''notify'' params) ''user-info-create-form'' ''user-info-form''
           (goto_new ''/admin/users/''))"

definition updateUser :: "server \<Rightarrow> jsval \<Rightarrow> form_data \<Rightarrow> (unit, 'z acworld_scheme) action" where
  "updateUser srv uid form =
     form_send srv ''PATCH'' (''/api/v1/users/'' @ js_string uid) (collect_fields (serializeJSON True form))
       ''user-info-edit-form'' ''user-info-edit-form'' (\<lambda>d. upd reload)"

definition awardUser :: "server \<Rightarrow> jsval \<Rightarrow> form_data \<Rightarrow> (unit, 'z acworld_scheme) action" where
  "awardUser srv uid form =
     form_send srv ''POST'' ''/api/v1/awards'' (set_field ''user_id'' uid (serializeJSON True form))
       ''user-award-form'' ''user-award-form'' (\<lambda>d. upd reload)"

definition createTeam :: "server \<Rightarrow> form_data \<Rightarrow> (unit, 'z acworld_scheme) action" where
  "createTeam srv form =
     form_send srv ''POST'' ''/api/v1/teams'' (collect_fields (serializeJSON True form))
       ''team-info-create-form'' ''team-info-create-form'' (goto_new ''/admin/teams/'')"

definition updateTeam :: "server \<Rightarrow> jsval \<Rightarrow> form_data \<Rightarrow> (unit, 'z acworld_scheme) action" where
  "updateTeam srv tid form =
     form_send srv ''PATCH'' (''/api/v1/teams/'' @ js_string tid) (collect_fields (serializeJSON True form))
       ''team-info-form'' ''team-info-form'' (\<lambda>d. upd reload)"

definition captain_submit :: "server \<Rightarrow> jsval \<Rightarrow> form_data \<Rightarrow> (unit, 'z acworld_scheme) action" where
  "captain_submit srv tid form =
     form_send srv ''PATCH'' (''/api/v1/teams/'' @ js_string tid) (serializeJSON True form)
       ''team-captain-form'' ''team-captain-form'' (\<lambda>d. upd reload)"

text \<open>An award to a team's member; \<open>member\<close> is the value of the selection list.\<close>

definition team_award :: "server \<Rightarrow> jsval \<Rightarrow> jsval \<Rightarrow> form_data \<Rightarrow> (unit, 'z acworld_scheme) action" where
  "team_award srv tid member form =
     bindM (upd (clear_results ''user-award-form'')) (\<lambda>_.
       if \<not> truthy member
       then upd (\<lambda>w. w\<lparr>ac_badges := ac_badges w @ [(''user-award-form'', Str ''Please select a team member'')]\<rparr>)
       else form_send srv ''POST'' ''/api/v1/awards''
              (set_field ''user_id'' (parseInt (js_string member))
                (set_field ''team_id'' tid (set_field ''user_id'' member (serializeJSON True form))))
              ''user-award-form'' ''user-award-form'' (\<lambda>d. upd reload))"

subsection \<open>Deleting and inviting\<close>

definition asked_delete :: "string \<Rightarrow> string \<Rightarrow> string \<Rightarrow> jsval option \<Rightarrow> server \<Rightarrow> bool \<Rightarrow>
    ('z adworld_scheme \<Rightarrow> 'z adworld_scheme) \<Rightarrow> (unit, 'z adworld_scheme) action" where
  "asked_delete title question url data srv yes after =
     bindM (upd (ask title question)) (\<lambda>_.
       if \<not> yes then ret ()
       else bindM (ctfd_fetch srv ''DELETE'' url data) (\<lambda>r.
            bindM (lift (resp_json r)) (\<lambda>d.
            bindM (lift (get d ''success'')) (\<lambda>ok. if truthy ok then upd after else ret ()))))"

definition deleteUser :: "string \<Rightarrow> server \<Rightarrow> jsval \<Rightarrow> bool \<Rightarrow> (unit, 'z adworld_scheme) action" where
  "deleteUser question srv uid yes =
     asked_delete ''Delete User'' question (''/api/v1/users/'' @ js_string uid) None srv yes (goto ''/admin/users'')"

definition delete_team :: "string \<Rightarrow> server \<Rightarrow> jsval \<Rightarrow> bool \<Rightarrow> (unit, 'z adworld_scheme) action" where
  "delete_team question srv tid yes =
     asked_delete ''Delete Team'' question (''/api/v1/teams/'' @ js_string tid) None srv yes (goto ''/admin/teams'')"

text \<open>The row of a member goes once the server has removed it; \<open>rows\<close> takes it away.\<close>

definition delete_member :: "string \<Rightarrow> server \<Rightarrow> jsval \<Rightarrow> jsval \<Rightarrow> bool \<Rightarrow> ('z adworld_scheme \<Rightarrow> 'z adworld_scheme) \<Rightarrow>
    (unit, 'z adworld_scheme) action" where
  "delete_member question srv tid member yes rows =
     asked_delete ''Remove Member'' question (''/api/v1/teams/'' @ js_string tid @ ''/members'')
       (Some (Obj [(''user_id'', member)])) srv yes rows"

definition invite_team :: "string \<Rightarrow> server \<Rightarrow> jsval \<Rightarrow> (unit, 'z acworld_scheme) action" where
  "invite_team origin srv tid =
     bindM (ctfd_fetch srv ''POST'' (''/api/v1/teams/'' @ js_string tid @ ''/members'') None) (\<lambda>r.
     bindM (lift (resp_json r)) (\<lambda>d.
     bindM (lift (get d ''success'')) (\<lambda>ok.
       if \<not> truthy ok then ret ()
       else bindM (lift (get (oget d ''data'') ''code'')) (\<lambda>code.
         upd (\<lambda>w. w\<lparr>ac_invite := origin @ base_url w @ ''/teams/invite?code='' @ js_string code, ac_modal := \<not> ac_modal w\<rparr>)))))"

subsection \<open>Bulk actions\<close>

definition user_correctSubmissions :: "server \<Rightarrow> int list \<Rightarrow> bool \<Rightarrow> 'z adworld_scheme \<Rightarrow> 'z adworld_scheme" where
  "user_correctSubmissions srv ids yes w =
     bulk ''Correct Submissions'' ''Are you sure you want to mark '' (counted (length ids) ''submission'' @ '' correct?'')
       answered srv (patch_url ''/api/v1/submissions/'' (mark_body ''correct'')) ids yes w"

definition user_deleteSelectedSubmissions :: "string \<Rightarrow> server \<Rightarrow> int list \<Rightarrow> bool \<Rightarrow> 'z adworld_scheme \<Rightarrow> 'z adworld_scheme" where
  "user_deleteSelectedSubmissions target srv ids yes w =
     (let (kind, title) = (if target = ''solves'' then (''solve'', ''Solves'') else (''fail'', ''Fails''))
      in bulk (''Delete '' @ title) sure_delete (counted (length ids) kind @ ''?'') readable srv submission_request ids yes w)"

definition deleteSelectedAwards :: "server \<Rightarrow> int list \<Rightarrow> bool \<Rightarrow> 'z adworld_scheme \<Rightarrow> 'z adworld_scheme" where
  "deleteSelectedAwards srv ids yes w =
     bulk ''Delete Awards'' sure_delete (counted (length ids) ''award'' @ ''?'') answered srv
       (delete_url ''/api/v1/awards/'') ids yes w"

definition solved_body :: "jsval \<Rightarrow> jsval \<Rightarrow> int \<Rightarrow> jsval" where
  "solved_body uid tid i =
     Obj [(''provided'', Str ''MARKED AS SOLVED BY ADMIN''), (''user_id'', uid), (''team_id'', tid),
          (''challenge_id'', Num (of_int i)), (''type'', Str ''correct'')]"

definition solved_request :: "jsval \<Rightarrow> jsval \<Rightarrow> int \<Rightarrow> 'z adworld_scheme \<Rightarrow> request" where
  "solved_request uid tid i w = ctfd_request ''POST'' ''/api/v1/submissions'' (Some (solved_body uid tid i)) w"

definition user_solveSelected :: "string \<Rightarrow> jsval \<Rightarrow> jsval \<Rightarrow> server \<Rightarrow> int list \<Rightarrow> bool \<Rightarrow> 'z adworld_scheme \<Rightarrow> 'z adworld_scheme" where
  "user_solveSelected name uid tid srv ids yes w =
     bulk ''Mark Correct'' ''Are you sure you want to mark ''
       (counted (length ids) ''challenge'' @ '' correct for '' @ name @ ''?'') answered srv (solved_request uid tid) ids yes w"

text \<open>For a team a second dialog asks which member solved them; \<open>chosen\<close> is the user's answer to it.\<close>

definition team_solveSelected :: "string \<Rightarrow> jsval \<Rightarrow> jsval \<Rightarrow> bool \<Rightarrow> server \<Rightarrow> int list \<Rightarrow> bool \<Rightarrow> 'z adworld_scheme \<Rightarrow>
    'z adworld_scheme" where
  "team_solveSelected name member tid yes srv ids chosen w =
     (let w1 = ask ''Mark Correct'' (''Are you sure you want to mark '' @ counted (length ids) ''challenge'' @
                 '' correct for '' @ name @ ''?'') w
      in if \<not> yes then w1
         else bulk ''User Attribution'' ''Which user on '' (name @ '' solved these challenges?'') answered srv
                (solved_request member tid) ids chosen w1)"

text \<open>Both pages carry the same code for submissions and awards.\<close>

definition team_correctSubmissions :: "server \<Rightarrow> int list \<Rightarrow> bool \<Rightarrow> 'z adworld_scheme \<Rightarrow> 'z adworld_scheme" where
  "team_correctSubmissions = user_correctSubmissions"

definition team_deleteSelectedSubmissions :: "string \<Rightarrow> server \<Rightarrow> int list \<Rightarrow> bool \<Rightarrow> 'z adworld_scheme \<Rightarrow> 'z adworld_scheme" where
  "team_deleteSelectedSubmissions = user_deleteSelectedSubmissions"

definition team_deleteSelectedAwards :: "server \<Rightarrow> int list \<Rightarrow> bool \<Rightarrow> 'z adworld_scheme \<Rightarrow> 'z adworld_scheme" where
  "team_deleteSelectedAwards = deleteSelectedAwards"

subsection \<open>Statistics\<close>

definition api_funcs :: "string \<Rightarrow> jsval \<Rightarrow> (exn + api_call) list" where
  "api_funcs type x =
     (if type = ''team'' then map (\<lambda>f. f (Obj [(''teamId'', x)])) [get_team_solves, get_team_fails, get_team_awards]
      else map (\<lambda>f. f (Obj [(''userId'', x)])) [get_user_solves, get_user_fails, get_user_awards])"

definition stats_requests :: "string \<Rightarrow> jsval \<Rightarrow> 'z adworld_scheme \<Rightarrow> request list" where
  "stats_requests type x w = concat (map (\<lambda>c. case c of Inl e \<Rightarrow> [] | Inr c \<Rightarrow> [API_request c w]) (api_funcs type x))"

definition read_reply :: "outcome \<Rightarrow> jsval" where
  "read_reply out = (case out of NetFail \<Rightarrow> Undef | Reply r \<Rightarrow> (case resp_json r of Inl e \<Rightarrow> Undef | Inr d \<Rightarrow> d))"

definition drawn_graphs :: "(jsval \<Rightarrow> int) \<Rightarrow> jsval list \<Rightarrow> drawn list" where
  "drawn_graphs date rs =
     (case score_graph date rs of
        Inl e \<Rightarrow> []
      | Inr (ts, ys) \<Rightarrow> Score_line ts ys #
          (case category_breakdown rs of
             Inl e \<Rightarrow> []
           | Inr slices \<Rightarrow> Category_pie slices #
               (case solve_percentages rs of Inl e \<Rightarrow> [] | Inr (fails, solves) \<Rightarrow> [Solve_pie fails solves])))"

text \<open>The three answers are waited for together; a graph whose data cannot be read ends the drawing.
  A call of the interval, every five minutes while the dialog is open, does the same.\<close>

definition createGraphs :: "(jsval \<Rightarrow> int) \<Rightarrow> string \<Rightarrow> jsval \<Rightarrow> server \<Rightarrow> 'z acworld_scheme \<Rightarrow> 'z acworld_scheme" where
  "createGraphs date type x srv w =
     (let qs = stats_requests type x w;
          (ok, w1) = promise_all readable srv qs w
      in if length qs = 3 \<and> ok
         then w1\<lparr>ac_graphs := ac_graphs w1 @ drawn_graphs date (map (\<lambda>(d, out). read_reply out) (replies srv (sent w) qs))\<rparr>
         else w1)"

definition updateGraphs :: "(jsval \<Rightarrow> int) \<Rightarrow> string \<Rightarrow> jsval \<Rightarrow> server \<Rightarrow> 'z acworld_scheme \<Rightarrow> 'z acworld_scheme" where
  "updateGraphs = createGraphs"

subsection \<open>The bulk actions keep the contract\<close>

lemma solved_request_inj: "solved_request uid tid i w = solved_request uid tid j w \<Longrightarrow> i = j"
  by (auto simp: solved_request_def solved_body_def split: if_splits)

interpretation user_correct: bulk_action user_correctSubmissions
    "patch_url ''/api/v1/submissions/'' (mark_body ''correct'')" answered
  by unfold_locales (simp_all add: user_correctSubmissions_def patch_url_def)

interpretation user_delete: bulk_action "user_deleteSelectedSubmissions target" submission_request readable for target
  by unfold_locales (simp_all add: user_deleteSelectedSubmissions_def submission_request_url Let_def)

interpretation awards_delete: bulk_action deleteSelectedAwards "delete_url ''/api/v1/awards/''" answered
  by unfold_locales (simp_all add: deleteSelectedAwards_def delete_url_def)

interpretation user_solve: bulk_action "user_solveSelected name uid tid" "solved_request uid tid" answered for name uid tid
  by unfold_locales (auto simp: user_solveSelected_def dest: solved_request_inj)

lemma solved_request_ask [simp]: "solved_request uid tid i (ask t x w) = solved_request uid tid i w"
  by (simp add: solved_request_def)

interpretation team_solve: bulk_action "team_solveSelected name member tid True" "solved_request member tid" answered
  for name member tid
  by unfold_locales (auto simp: team_solveSelected_def Let_def dest: solved_request_inj)

subsection \<open>Rules\<close>

lemma acworld_of_more:
  assumes "adworld.more w' = adworld.more w"
  shows "ac_badges w' = ac_badges w" "ac_invalid w' = ac_invalid w" "ac_modal w' = ac_modal w"
    "ac_invite w' = ac_invite w" "ac_graphs w' = ac_graphs w"
  using assms by (cases w; cases w'; simp)+

lemma adworld_more_of: "world.more w' = world.more w \<Longrightarrow> adworld.more w' = adworld.more w"
  by (cases w; cases w'; simp)

text \<open>What becomes of a form, for each answer.\<close>

definition form_answer :: "string \<Rightarrow> string \<Rightarrow> (jsval \<Rightarrow> (unit, 'z acworld_scheme) action) \<Rightarrow> outcome \<Rightarrow> (unit, 'z acworld_scheme) action" where
  "form_answer results inputs onok out =
     (case out of NetFail \<Rightarrow> throw NetworkError
      | Reply r \<Rightarrow> (case resp_json r of Inl e \<Rightarrow> throw e
          | Inr d \<Rightarrow> if nullish d then throw TypeError
              else if truthy (oget d ''success'') then onok d
              else bindM (upd (clear_results results)) (\<lambda>_.
                   bindM (lift (own_entries (oget d ''errors''))) (\<lambda>es. upd (show_errors results inputs es)))))"

lemma form_send_step:
  fixes w :: "'z acworld_scheme"
  obtains v where "form_send srv m url data results inputs onok w =
      form_answer results inputs onok (snd (srv (sent w) (ctfd_request m url (Some data) w))) v"
    "sent v = sent w @ [ctfd_request m url (Some data) w]" "base_url v = base_url w" "world.more v = world.more w"
proof -
  obtain x v where f: "ctfd_fetch srv m url (Some data) w = (x, v)" by (cases "ctfd_fetch srv m url (Some data) w")
  note s = ctfd_fetch_step [OF f]
  have "form_send srv m url data results inputs onok w =
      form_answer results inputs onok (snd (srv (sent w) (ctfd_request m url (Some data) w))) v"
    using s(4) f
    by (auto simp: form_send_def form_answer_def bindM_def lift_def throw_def get_null split: outcome.splits sum.splits)
  then show thesis using s that by blast
qed

definition form_accepted :: "outcome \<Rightarrow> bool" where
  "form_accepted out = (readable out \<and> \<not> nullish (read_reply out) \<and> truthy (oget (read_reply out) ''success''))"

definition form_refused :: "outcome \<Rightarrow> (string \<times> jsval) list option" where
  "form_refused out =
     (if readable out \<and> \<not> nullish (read_reply out) \<and> \<not> truthy (oget (read_reply out) ''success'') \<and>
         \<not> nullish (oget (read_reply out) ''errors'')
      then Some (obj_fields (oget (read_reply out) ''errors'')) else None)"

lemma form_answer_reload:
  fixes v :: "'z acworld_scheme"
  assumes "form_answer results inputs (\<lambda>d. upd reload) out v = (r, w')"
  shows "sent w' = sent v \<and> ad_reloads w' = ad_reloads v + (if form_accepted out then 1 else 0) \<and>
    (r = Inr () \<longleftrightarrow> form_accepted out \<or> form_refused out \<noteq> None) \<and>
    filter (\<lambda>(f, b). f \<noteq> results) (ac_badges w') = filter (\<lambda>(f, b). f \<noteq> results) (ac_badges v) \<and>
    (form_accepted out \<longrightarrow> ac_badges w' = ac_badges v) \<and>
    (\<forall>es. form_refused out = Some es \<longrightarrow> filter (\<lambda>(f, b). f = results) (ac_badges w') = map (\<lambda>(k, b). (results, b)) es)"
  using assms
  by (auto simp: form_answer_def form_accepted_def form_refused_def read_reply_def throw_def upd_def bindM_def lift_def
      clear_results_def show_errors_def own_entries_def reload_def case_prod_unfold filter_map comp_def
      split: outcome.splits sum.splits if_splits)

lemma filter_update_other: "\<not> P k \<Longrightarrow> filter (\<lambda>(k, v). P k) (AList.update k x fs) = filter (\<lambda>(k, v). P k) fs"
  by (induction fs) auto

lemma fields_index_name [simp]: "\<not> fields_index ''fields''"
  by code_simp

lemma digits_then: "list_all is_digit d \<Longrightarrow> \<not> is_digit c \<Longrightarrow> takeWhile is_digit (d @ c # s) = d \<and> dropWhile is_digit (d @ c # s) = c # s"
  by (induction d) auto

lemma fields_index_start:
  "takeWhile is_digit x \<noteq> [] \<Longrightarrow> dropWhile is_digit x \<noteq> [] \<Longrightarrow> hd (dropWhile is_digit x) = CHR '']'' \<Longrightarrow>
   fields_index (''fields['' @ x)"
  by (simp add: starts_with_def Let_def)

lemma badges_within: "f \<noteq> g \<Longrightarrow> filter (\<lambda>(h, b). h \<noteq> g) bs = filter (\<lambda>(h, b). h \<noteq> g) cs \<Longrightarrow>
    filter (\<lambda>(h, b). h = f) bs = filter (\<lambda>(h, b). h = f) cs"
proof -
  assume fg: "f \<noteq> g" and e: "filter (\<lambda>(h, b). h \<noteq> g) bs = filter (\<lambda>(h, b). h \<noteq> g) cs"
  have "filter (\<lambda>(h, b). h = f) ds = filter (\<lambda>(h, b). h = f) (filter (\<lambda>(h, b). h \<noteq> g) ds)" for ds :: "('a \<times> 'b) list"
    using fg by (induction ds) auto
  then show "filter (\<lambda>(h, b). h = f) bs = filter (\<lambda>(h, b). h = f) cs" using e by metis
qed

subsection \<open>Properties\<close>

text \<open>The extra fields of a form are sent as a list: each input named \<open>fields[n]\<close> becomes an entry with the
  number \<open>n\<close> and leaves the parameters, and every other parameter stays as it was.\<close>
theorem extra_fields:
  "oget (collect_fields (Obj fs)) ''fields'' =
     Arr (map (\<lambda>(k, v). Obj [(''field_id'', field_id k), (''value'', v)]) (filter (\<lambda>(k, v). fields_index k) fs)) \<and>
   (\<forall>k. k \<noteq> ''fields'' \<longrightarrow> map_of (obj_fields (collect_fields (Obj fs))) k = (if fields_index k then None else map_of fs k)) \<and>
   fields_index (''fields['' @ show_nat n @ '']'') \<and> field_id (''fields['' @ show_nat n @ '']'') = Num (of_nat n)"
proof (intro conjI allI impI)
  have f: "filter (\<lambda>(k, v). fields_index k) (AList.update ''fields'' x fs) = filter (\<lambda>(k, v). fields_index k) fs" for x
    by (rule filter_update_other) simp
  show "oget (collect_fields (Obj fs)) ''fields'' =
     Arr (map (\<lambda>(k, v). Obj [(''field_id'', field_id k), (''value'', v)]) (filter (\<lambda>(k, v). fields_index k) fs))"
    by (simp add: collect_fields_def set_field_def field_def update_conv' f Let_def)
  show "map_of (obj_fields (collect_fields (Obj fs))) k = (if fields_index k then None else map_of fs k)"
    if "k \<noteq> ''fields''" for k
    using that by (simp add: collect_fields_def map_of_filter_key update_conv' Let_def)
  have d: "list_all is_digit (show_nat n)" using show_nat_digits by (auto simp: list_all_iff)
  moreover have "\<not> is_digit (CHR '']'')" by code_simp
  ultimately have "takeWhile is_digit (show_nat n @ '']'') = show_nat n \<and> dropWhile is_digit (show_nat n @ '']'') = '']''"
    using digits_then by blast
  then show "fields_index (''fields['' @ show_nat n @ '']'')"
    by (intro fields_index_start) (simp_all only: list.sel show_nat_nonempty list.distinct not_False_eq_True)
  have "parseInt (show_int (int n)) = Num (of_int (int n))" by (rule parseInt_show_int)
  then show "field_id (''fields['' @ show_nat n @ '']'') = Num (of_nat n)"
    by (simp add: field_id_def show_int_def butlast_append)
qed

theorem extra_fields_witness:
  "oget (collect_fields (Obj [(''name'', Str ''a''), (''fields[3]'', Str ''x'')])) ''fields'' =
     Arr [Obj [(''field_id'', Num 3), (''value'', Str ''x'')]]"
proof -
  have "fields_index ''fields[3]''" "\<not> fields_index ''name''" "field_id ''fields[3]'' = Num 3" by code_simp+
  then show ?thesis using extra_fields [of "[(''name'', Str ''a''), (''fields[3]'', Str ''x'')]" 3]
    by (simp del: fields_index.simps)
qed

text \<open>Editing a user: one request is sent; the page is loaded anew exactly when the server accepts, and when it
  refuses, the form shows exactly the errors it gives; what other forms show does not change.\<close>
theorem edit_user:
  fixes w :: "'z acworld_scheme" and form :: form_data and uid :: jsval and srv :: server
  defines "q \<equiv> ctfd_request ''PATCH'' (''/api/v1/users/'' @ js_string uid) (Some (collect_fields (serializeJSON True form))) w"
  defines "out \<equiv> snd (srv (sent w) q)"
  shows "case updateUser srv uid form w of (r, w') \<Rightarrow>
    sent w' = sent w @ [q] \<and> ad_reloads w' = ad_reloads w + (if form_accepted out then 1 else 0) \<and>
    (r = Inr () \<longleftrightarrow> form_accepted out \<or> form_refused out \<noteq> None) \<and>
    filter (\<lambda>(f, b). f \<noteq> ''user-info-edit-form'') (ac_badges w') = filter (\<lambda>(f, b). f \<noteq> ''user-info-edit-form'') (ac_badges w) \<and>
    (\<forall>es. form_refused out = Some es \<longrightarrow>
      filter (\<lambda>(f, b). f = ''user-info-edit-form'') (ac_badges w') = map (\<lambda>(k, b). (''user-info-edit-form'', b)) es)"
proof -
  obtain v where v: "updateUser srv uid form w = form_answer ''user-info-edit-form'' ''user-info-edit-form'' (\<lambda>d. upd reload) out v"
    "sent v = sent w @ [q]" "world.more v = world.more w"
    unfolding updateUser_def out_def q_def by (rule form_send_step)
  obtain r w' where run: "form_answer ''user-info-edit-form'' ''user-info-edit-form'' (\<lambda>d. upd reload) out v = (r, w')"
    by (cases "form_answer ''user-info-edit-form'' ''user-info-edit-form'' (\<lambda>d. upd reload) out v")
  show ?thesis
    using form_answer_reload [OF run] v run adworld_of_more(2) [OF v(3)] acworld_of_more(1) [OF adworld_more_of [OF v(3)]]
    by simp
qed

text \<open>Whatever the server answers, editing a team never shows an error in the form the user filled in: the page has
  no form of the name they are written to.\<close>
theorem team_errors_unseen:
  fixes w :: "'z acworld_scheme"
  shows "case updateTeam srv tid form w of (r, w') \<Rightarrow>
    length (sent w') = length (sent w) + 1 \<and>
    filter (\<lambda>(f, b). f = ''team-info-edit-form'') (ac_badges w') = filter (\<lambda>(f, b). f = ''team-info-edit-form'') (ac_badges w)"
proof -
  let ?q = "ctfd_request ''PATCH'' (''/api/v1/teams/'' @ js_string tid) (Some (collect_fields (serializeJSON True form))) w"
  obtain v where v: "updateTeam srv tid form w =
      form_answer ''team-info-form'' ''team-info-form'' (\<lambda>d. upd reload) (snd (srv (sent w) ?q)) v"
    "sent v = sent w @ [?q]" "world.more v = world.more w"
    unfolding updateTeam_def by (rule form_send_step)
  obtain r w' where run: "form_answer ''team-info-form'' ''team-info-form'' (\<lambda>d. upd reload) (snd (srv (sent w) ?q)) v = (r, w')"
    by (cases "form_answer ''team-info-form'' ''team-info-form'' (\<lambda>d. upd reload) (snd (srv (sent w) ?q)) v")
  have "filter (\<lambda>(f, b). f \<noteq> ''team-info-form'') (ac_badges w') = filter (\<lambda>(f, b). f \<noteq> ''team-info-form'') (ac_badges w)"
    using form_answer_reload [OF run] acworld_of_more(1) [OF adworld_more_of [OF v(3)]] by simp
  then have "filter (\<lambda>(f, b). f = ''team-info-edit-form'') (ac_badges w') = filter (\<lambda>(f, b). f = ''team-info-edit-form'') (ac_badges w)"
    by (rule badges_within [rotated]) code_simp
  then show ?thesis using form_answer_reload [OF run] v(1,2) run by simp
qed

end
