(* ===== verification/AdminChallenge.thy ===== *)
theory AdminChallenge
  imports AdminAccounts
begin

section \<open>The management console: creating and editing a challenge\<close>

text \<open>
  \<open>pages/challenge.js\<close> and the upload of \<open>compat/helpers.js\<close>: the checks of the form, creating a challenge, its options
  with flag, limits and files, updating, deleting and the two kinds of scoring. The form with its files is the list of
  its entries, and the text of a status is a parameter. An upload is the request jQuery sends; the mounting of the
  page's components is not modelled.
\<close>

record chworld = adworld +
  ch_status :: "(string \<times> string) option"
  ch_finish_off :: bool
  ch_modal :: bool
  ch_new_id :: jsval
  ch_state :: jsval
  ch_badge :: string
  ch_dynamic :: bool
  ch_standard_off :: bool
  ch_dynamic_off :: bool
  ch_standard_needed :: bool
  ch_dynamic_needed :: bool

definition setCreateUploadStatus :: "string \<Rightarrow> string \<Rightarrow> 'z chworld_scheme \<Rightarrow> 'z chworld_scheme" where
  "setCreateUploadStatus t v w = w\<lparr>ch_status := Some (t, v)\<rparr>"

definition clearCreateUploadStatus :: "'z chworld_scheme \<Rightarrow> 'z chworld_scheme" where
  "clearCreateUploadStatus w = w\<lparr>ch_status := None\<rparr>"

subsection \<open>Checking name and file\<close>

definition name_class :: "string \<Rightarrow> string" where
  "name_class s = (if 40 < length s then ''text-danger'' else if 35 < length s then ''text-warning'' else ''text-muted'')"

definition name_validity :: "string \<Rightarrow> string" where
  "name_validity s = (if 40 < length s then ''Challenge name must not exceed 40 characters'' else [])"

definition maxSize :: int where "maxSize = 5 * 1024 * 1024"

definition size_mb :: "int \<Rightarrow> string" where
  "size_mb n = toFixed 2 (of_int n / (1024 * 1024))"

text \<open>The file chosen, if one is, by its size; whether the button that submits is disabled then.\<close>

definition file_change :: "int option \<Rightarrow> 'z adworld_scheme \<Rightarrow> bool \<times> 'z adworld_scheme" where
  "file_change file w =
     (case file of
        Some n \<Rightarrow> if maxSize < n
          then (True, ask ''File Too Large'' (''The selected PDF file ('' @ size_mb n @
                 ''MB) exceeds the 5MB limit. Please choose a smaller file before submitting.'') w)
          else (False, w)
      | None \<Rightarrow> (False, w))"

text \<open>What the check before submitting says, if it objects: title and text of the alert.\<close>

definition form_objection :: "string option \<Rightarrow> int option \<Rightarrow> (string \<times> string) option" where
  "form_objection name file =
     (case name of
        Some s \<Rightarrow> if 40 < length s then Some (''Validation Error'', ''Challenge name must not exceed 40 characters.'')
          else (case file of
              Some n \<Rightarrow> if maxSize < n then Some (''File Size Error'',
                  ''File size ('' @ size_mb n @ ''MB) exceeds the 5MB limit. Please select a smaller file.'') else None
            | None \<Rightarrow> None)
      | None \<Rightarrow> (case file of
              Some n \<Rightarrow> if maxSize < n then Some (''File Size Error'',
                  ''File size ('' @ size_mb n @ ''MB) exceeds the 5MB limit. Please select a smaller file.'') else None
            | None \<Rightarrow> None))"

subsection \<open>Uploading\<close>

definition upload_request :: "(string \<times> jsval) list \<Rightarrow> (string \<times> jsval) list \<Rightarrow> 'z adworld_scheme \<Rightarrow> request" where
  "upload_request entries extra w =
     \<lparr>req_method = ''POST'', req_url = base_url w @ ''/api/v1/files'', req_headers = [],
      req_body = Some (Obj (entries @ [(''nonce'', Str (ad_nonce w))] @ extra))\<rparr>"

definition upload :: "(response \<Rightarrow> string) \<Rightarrow> server \<Rightarrow> (string \<times> jsval) list \<Rightarrow> (string \<times> jsval) list \<Rightarrow>
    (unit, 'z adworld_scheme) action" where
  "upload status_text srv entries extra w =
     (let failed = (\<lambda>t v. (Inl (ErrMsg (Str (''File upload failed: '' @ t))), show_popup ''alert'' [Str t] v))
      in case fetch srv (upload_request entries extra w) w of
           (Inl e, v) \<Rightarrow> failed ''error'' v
         | (Inr r, v) \<Rightarrow>
             if \<not> resp_ok r then failed (status_text r) v
             else if status r = 200 then (Inr (), v)
             else let t = ''Unexpected response status: '' @ show_int (status r)
               in (Inl (ErrMsg (Str t)), show_popup ''alert'' [Str t] v))"

subsection \<open>Creating\<close>

text \<open>The texts of a refusal: the errors of each field, line by line.\<close>

definition join_lines :: "jsval \<Rightarrow> exn + string" where
  "join_lines v =
     (if is_arr v then Inr (join [CHR 0x0A] (map (\<lambda>x. if nullish x then [] else js_string x) (elems v))) else Inl TypeError)"

fun error_body :: "(string \<times> jsval) list \<Rightarrow> exn + string" where
  "error_body [] = Inr []"
| "error_body ((k, v) # es) =
     (case join_lines v of Inl e \<Rightarrow> Inl e
      | Inr t \<Rightarrow> (case error_body es of Inl e \<Rightarrow> Inl e | Inr u \<Rightarrow> Inr (t @ [CHR 0x0A] @ u)))"

definition alert_errors :: "jsval \<Rightarrow> (unit, 'z adworld_scheme) action" where
  "alert_errors d = bindM (lift (error_body (obj_fields (oget d ''errors'')))) (\<lambda>t. upd (show_popup ''Error'' [Str t]))"

definition create_params :: "(string \<times> string) list \<Rightarrow> jsval" where
  "create_params entries =
     fold (\<lambda>(n, v) p. set_field n (Str v) p) (filter (\<lambda>(n, v). n \<noteq> ''file_upload'') entries) (Obj [])"

definition create_files :: "(response \<Rightarrow> string) \<Rightarrow> server \<Rightarrow> (string \<times> jsval) list \<Rightarrow> jsval \<Rightarrow> (unit, 'z adworld_scheme) action" where
  "create_files status_text srv files i =
     (if files = [] then ret ()
      else catchM
        (bindM (upload status_text srv files [(''challenge_id'', i), (''type'', Str ''challenge'')]) (\<lambda>_.
           upd (show_popup ''Upload'' [Str ''File uploaded successfully.''])))
        (\<lambda>e. upd (show_popup ''Upload failed''
           [Str (if error_message e = [] then ''Could not upload file.'' else error_message e)])))"

definition create_submit :: "(response \<Rightarrow> string) \<Rightarrow> server \<Rightarrow> string option \<Rightarrow> int option \<Rightarrow> (string \<times> string) list \<Rightarrow>
    (string \<times> jsval) list \<Rightarrow> (unit, 'z chworld_scheme) action" where
  "create_submit status_text srv name file entries files w =
     (case form_objection name file of
        Some (t, b) \<Rightarrow> (Inr (), ask t b w)
      | None \<Rightarrow> catchM
          (bindM (ctfd_fetch srv ''POST'' (base_url w @ ''/api/v1/challenges'') (Some (create_params entries))) (\<lambda>r.
           bindM (lift (resp_json r)) (\<lambda>d.
           bindM (lift (get d ''success'')) (\<lambda>ok.
             if \<not> truthy ok then alert_errors d
             else bindM (lift (get (oget d ''data'') ''id'')) (\<lambda>i.
                  bindM (upd (\<lambda>w. w\<lparr>ch_new_id := i\<rparr>)) (\<lambda>_.
                  bindM (create_files status_text srv files i) (\<lambda>_.
                    upd (\<lambda>w. w\<lparr>ch_modal := True\<rparr>))))))))
          (\<lambda>e. upd (show_popup ''Error'' [Str ''Network error''])) w)"

subsection \<open>The options of a new challenge\<close>

definition is_on :: "jsval \<Rightarrow> bool" where
  "is_on v = (v = BoolV True \<or> v = Str ''true'' \<or> v = Str ''on'')"

definition limit_of :: "jsval \<Rightarrow> string \<Rightarrow> jsval" where
  "limit_of params k = parseInt10 (js_string (js_or (oget params k) (Str ''0'')))"

definition below_one :: "jsval \<Rightarrow> bool" where
  "below_one v = num_gt (Some 1) (as_num v)"

definition limits_objection :: "jsval \<Rightarrow> string option" where
  "limits_objection params =
     (if \<not> is_on (oget params ''require_deploy'') then None
      else if below_one (limit_of params ''cpu_limit'') \<or> below_one (limit_of params ''cpu_request'')
      then Some ''CPU limit/request must be greater than or equal to 1 (mCPU).''
      else if below_one (limit_of params ''memory_limit'') \<or> below_one (limit_of params ''memory_request'')
      then Some ''Memory limit/request must be greater than or equal to 1 (Mi).''
      else None)"

definition flag_params :: "jsval \<Rightarrow> jsval" where
  "flag_params params =
     Obj [(''challenge_id'', oget params ''challenge_id''), (''content'', js_or (oget params ''flag'') (Str [])),
          (''type'', oget params ''flag_type''),
          (''data'', if truthy (oget params ''flag_data'') then oget params ''flag_data'' else Str [])]"

definition patch_body :: "jsval \<Rightarrow> jsval" where
  "patch_body params =
     (let deploy = is_on (oget params ''require_deploy'')
      in Obj ([(''state'', oget params ''state''), (''max_deploy_count'', limit_of params ''max_deploy_count''),
               (''require_deploy'', BoolV deploy),
               (''shared_instant'', BoolV (deploy \<and> is_on (oget params ''shared_instant'')))] @
              (if deploy
               then map (\<lambda>k. (k, limit_of params k)) [''cpu_limit'', ''cpu_request'', ''memory_limit'', ''memory_request''] @
                    [(''use_gvisor'', BoolV (js_or (oget params ''use_gvisor'') (Str ''true'') = Str ''true'')),
                     (''harden_container'', BoolV (is_on (oget params ''harden_container'')))]
               else map (\<lambda>k. (k, Null)) [''cpu_limit'', ''cpu_request'', ''memory_limit'', ''memory_request'',
                      ''use_gvisor'', ''harden_container''])))"

definition flag_request :: "jsval \<Rightarrow> 'z adworld_scheme \<Rightarrow> request" where
  "flag_request params w = ctfd_request ''POST'' ''/api/v1/flags'' (Some (flag_params params)) w"

definition options_request :: "jsval \<Rightarrow> 'z adworld_scheme \<Rightarrow> request" where
  "options_request params w =
     ctfd_request ''PATCH'' (''/api/v1/challenges/'' @ js_string (oget params ''challenge_id'')) (Some (patch_body params)) w"

text \<open>Both are sent together; a flag whose request is lost is never settled, so that nothing follows.\<close>

definition options_requests :: "jsval \<Rightarrow> 'z adworld_scheme \<Rightarrow> request list" where
  "options_requests params w =
     (if oget (oget (flag_params params) ''content'') ''length'' = Num 0 then [] else [flag_request params w]) @
     [options_request params w]"

text \<open>The second step: \<open>files\<close> are the form's entries, present when one of the two inputs has a file.\<close>

definition options_upload :: "(response \<Rightarrow> string) \<Rightarrow> server \<Rightarrow> jsval \<Rightarrow> bool \<Rightarrow> bool \<Rightarrow> (string \<times> jsval) list \<Rightarrow>
    'z chworld_scheme \<Rightarrow> 'z chworld_scheme" where
  "options_upload status_text srv params has_file has_deploy files w =
     (if \<not> has_file \<and> \<not> has_deploy
      then (setCreateUploadStatus ''Challenge saved successfully.'' ''success'' w)\<lparr>ch_finish_off := False\<rparr>
      else case upload status_text srv files
               [(''challenge_id'', oget params ''challenge_id''), (''type'', Str ''challenge'')]
               (setCreateUploadStatus ''Uploading file(s)...'' ''info'' (w\<lparr>ch_finish_off := True\<rparr>)) of
          (Inr _, v) \<Rightarrow>
            (if is_on (oget params ''require_deploy'') \<and> has_deploy
             then setCreateUploadStatus ''Deploy request accepted. Executing workflow...'' ''info'' v
             else setCreateUploadStatus ''File upload successful.'' ''success'' v)\<lparr>ch_finish_off := False\<rparr>
        | (Inl e, v) \<Rightarrow>
            (setCreateUploadStatus (if error_message e = [] then ''File upload failed.'' else error_message e) ''danger'' v)
              \<lparr>ch_finish_off := False\<rparr>)"

definition options_redirect :: "jsval \<Rightarrow> 'z chworld_scheme \<Rightarrow> 'z chworld_scheme" where
  "options_redirect params w =
     w\<lparr>clock := clock w + 1200,
       redirect := Some (base_url w @ ''/admin/challenges/'' @ js_string (oget params ''challenge_id''))\<rparr>"

definition handleChallengeOptions :: "(response \<Rightarrow> string) \<Rightarrow> server \<Rightarrow> form_data \<Rightarrow> bool \<Rightarrow> bool \<Rightarrow> (string \<times> jsval) list \<Rightarrow>
    'z chworld_scheme \<Rightarrow> 'z chworld_scheme" where
  "handleChallengeOptions status_text srv form has_file has_deploy files w =
     (let w0 = clearCreateUploadStatus w; params = serializeJSON True form
      in case limits_objection params of
           Some t \<Rightarrow> ask ''Validation Error'' t w0
         | None \<Rightarrow> (case promise_all readable srv (options_requests params w0) w0 of
               (ok, w1) \<Rightarrow> if \<not> ok then w1
                 else options_redirect params (options_upload status_text srv params has_file has_deploy files w1)))"

subsection \<open>Updating and deleting\<close>

definition show_updated :: "jsval \<Rightarrow> 'z chworld_scheme \<Rightarrow> 'z chworld_scheme" where
  "show_updated st w =
     show_popup ''Success'' [Str ''Your challenge has been updated!'']
       (w\<lparr>ch_state := st,
          ch_badge := (if st = Str ''visible'' then ''badge-success'' else if st = Str ''hidden'' then ''badge-danger'' else ch_badge w)\<rparr>)"

definition update_challenge :: "server \<Rightarrow> jsval \<Rightarrow> jsval \<Rightarrow> (unit, 'z chworld_scheme) action" where
  "update_challenge srv cid params =
     bindM (ctfd_fetch srv ''PATCH'' (''/api/v1/challenges/'' @ js_string cid) (Some params)) (\<lambda>r.
     bindM (lift (resp_json r)) (\<lambda>d.
     bindM (lift (get d ''success'')) (\<lambda>ok.
       if truthy ok then bindM (lift (get (oget d ''data'') ''state'')) (\<lambda>st. upd (show_updated st))
       else alert_errors d)))"

definition missing_flags :: string where
  "missing_flags = ''This challenge does not have any flags meaning it may be unsolveable. Are you sure you'd like to update this challenge?''"

definition update_submit :: "server \<Rightarrow> jsval \<Rightarrow> form_data \<Rightarrow> bool \<Rightarrow> (unit, 'z chworld_scheme) action" where
  "update_submit srv cid form yes =
     (let params = serializeJSON True form
      in bindM (ctfd_fetch srv ''GET'' (''/api/v1/challenges/'' @ js_string cid @ ''/flags'') None) (\<lambda>r.
         bindM (lift (resp_json r)) (\<lambda>d.
         bindM (lift (get d ''data'')) (\<lambda>flags.
         bindM (lift (get flags ''length'')) (\<lambda>n.
           if n = Num 0 \<and> oget params ''state'' = Str ''visible''
           then bindM (upd (ask ''Missing Flags'' missing_flags)) (\<lambda>_.
                  if yes then update_challenge srv cid params else ret ())
           else update_challenge srv cid params)))))"

definition delete_challenge_click :: "string \<Rightarrow> server \<Rightarrow> jsval \<Rightarrow> bool \<Rightarrow> (unit, 'z adworld_scheme) action" where
  "delete_challenge_click question srv cid yes =
     asked_delete ''Delete Challenge'' question (''/api/v1/challenges/'' @ js_string cid) None srv yes (goto ''/admin/challenges'')"

subsection \<open>Standard and dynamic scoring\<close>

definition toggleScoringType :: "bool \<Rightarrow> 'z chworld_scheme \<Rightarrow> 'z chworld_scheme" where
  "toggleScoringType dynamic w =
     w\<lparr>ch_dynamic := dynamic, ch_standard_off := dynamic, ch_standard_needed := \<not> dynamic,
       ch_dynamic_off := \<not> dynamic, ch_dynamic_needed := dynamic\<rparr>"

definition scoring_click :: "bool \<Rightarrow> bool \<Rightarrow> 'z chworld_scheme \<Rightarrow> 'z chworld_scheme" where
  "scoring_click disabled dynamic w = (if disabled then w else toggleScoringType dynamic w)"

subsection \<open>Rules\<close>

lemma chworld_of_more:
  assumes "adworld.more w' = adworld.more w"
  shows "ch_status w' = ch_status w" "ch_finish_off w' = ch_finish_off w" "ch_modal w' = ch_modal w"
    "ch_new_id w' = ch_new_id w" "ch_state w' = ch_state w" "ch_badge w' = ch_badge w"
  using assms by (cases w; cases w'; simp)+

lemma fetch_effect:
  assumes "fetch srv q w = (x, v)"
  shows "sent v = sent w @ [q] \<and> base_url v = base_url w \<and> redirect v = redirect w \<and> world.more v = world.more w"
  using assms by (cases "srv (sent w) q"; cases "snd (srv (sent w) q)"; auto simp: fetch_def receive_def Let_def)

lemma upload_effect:
  assumes "upload status_text srv entries extra w = (x, v)"
  shows "sent v = sent w @ [upload_request entries extra w] \<and> base_url v = base_url w \<and> redirect v = redirect w \<and>
    world.more v = world.more w"
proof -
  obtain y u where f: "fetch srv (upload_request entries extra w) w = (y, u)"
    by (cases "fetch srv (upload_request entries extra w) w")
  show ?thesis using assms fetch_effect [OF f] f
    by (auto simp: upload_def Let_def split: sum.splits if_splits)
qed

lemma options_requests_cong:
  "base_url v = base_url w \<Longrightarrow> ad_nonce v = ad_nonce w \<Longrightarrow> options_requests params v = options_requests params w"
  using ctfd_request_cong [of v w] by (simp add: options_requests_def flag_request_def options_request_def)

lemma upload_request_cong:
  "base_url v = base_url w \<Longrightarrow> ad_nonce v = ad_nonce w \<Longrightarrow> upload_request entries extra v = upload_request entries extra w"
  by (simp add: upload_request_def)

lemma parseInt10_cases: "parseInt10 s = NaN \<or> (\<exists>n. parseInt10 s = Num n)"
  by (simp add: parseInt10_def JSValue.signed_def Let_def split: option.split)

lemma below_one_limit: "\<not> below_one (limit_of params k) \<longleftrightarrow>
    limit_of params k = NaN \<or> (\<exists>n. limit_of params k = Num n \<and> 1 \<le> n)"
  using parseInt10_cases [of "js_string (js_or (oget params k) (Str ''0''))"]
  by (auto simp: limit_of_def below_one_def num_gt_def)

lemma create_files_effect:
  fixes w :: "'z adworld_scheme"
  obtains v qs where "create_files st srv files i w = (Inr (), v)" "sent v = sent w @ qs" "length qs \<le> 1"
proof (cases "files = []")
  case True
  then show thesis using that [of w "[]"] by (simp add: create_files_def ret_def)
next
  case False
  obtain x u where up: "upload st srv files [(''challenge_id'', i), (''type'', Str ''challenge'')] w = (x, u)"
    by (cases "upload st srv files [(''challenge_id'', i), (''type'', Str ''challenge'')] w")
  show thesis
    using that False upload_effect [OF up] up
    by (cases x) (auto simp: create_files_def catchM_def bindM_def upd_def)
qed

lemma alert_errors_sent [simp]: "sent (snd (alert_errors d w)) = sent w"
  by (auto simp: alert_errors_def bindM_def lift_def upd_def split: sum.splits)

text \<open>
  What the options are meant to do, from the values of the form: a box that is ticked, a number read from
  a text, the objection to a limit below one, the two requests, and the status after the files.
\<close>

definition ticked :: "jsval \<Rightarrow> bool" where
  "ticked v = (v \<in> {BoolV True, Str ''true'', Str ''on''})"

definition typed_number :: "jsval \<Rightarrow> jsval" where
  "typed_number v = parseInt10 (if truthy v then js_string v else ''0'')"

definition too_low :: "jsval \<Rightarrow> bool" where
  "too_low v = (case typed_number v of Num n \<Rightarrow> n < 1 | _ \<Rightarrow> False)"

definition wanted_objection :: "(string \<Rightarrow> jsval) \<Rightarrow> string option" where
  "wanted_objection P =
     (if ticked (P ''require_deploy'') \<and> (too_low (P ''cpu_limit'') \<or> too_low (P ''cpu_request''))
      then Some ''CPU limit/request must be greater than or equal to 1 (mCPU).''
      else if ticked (P ''require_deploy'') \<and> (too_low (P ''memory_limit'') \<or> too_low (P ''memory_request''))
      then Some ''Memory limit/request must be greater than or equal to 1 (Mi).''
      else None)"

definition wanted_flag :: "(string \<Rightarrow> jsval) \<Rightarrow> jsval" where
  "wanted_flag P = Obj
     [(''challenge_id'', P ''challenge_id''), (''content'', if truthy (P ''flag'') then P ''flag'' else Str []),
      (''type'', P ''flag_type''), (''data'', if truthy (P ''flag_data'') then P ''flag_data'' else Str [])]"

definition wanted_options :: "(string \<Rightarrow> jsval) \<Rightarrow> jsval" where
  "wanted_options P = Obj (
     (''state'', P ''state'') # (''max_deploy_count'', typed_number (P ''max_deploy_count'')) #
     (if ticked (P ''require_deploy'')
      then [(''require_deploy'', BoolV True), (''shared_instant'', BoolV (ticked (P ''shared_instant''))),
        (''cpu_limit'', typed_number (P ''cpu_limit'')), (''cpu_request'', typed_number (P ''cpu_request'')),
        (''memory_limit'', typed_number (P ''memory_limit'')), (''memory_request'', typed_number (P ''memory_request'')),
        (''use_gvisor'', BoolV (\<not> truthy (P ''use_gvisor'') \<or> P ''use_gvisor'' = Str ''true'')),
        (''harden_container'', BoolV (ticked (P ''harden_container'')))]
      else [(''require_deploy'', BoolV False), (''shared_instant'', BoolV False),
        (''cpu_limit'', Null), (''cpu_request'', Null), (''memory_limit'', Null), (''memory_request'', Null),
        (''use_gvisor'', Null), (''harden_container'', Null)]))"

definition wanted_requests :: "(string \<Rightarrow> jsval) \<Rightarrow> 'z adworld_scheme \<Rightarrow> request list" where
  "wanted_requests P w =
     (if truthy (P ''flag'') \<and> oget (P ''flag'') ''length'' \<noteq> Num 0
      then [ctfd_request ''POST'' ''/api/v1/flags'' (Some (wanted_flag P)) w] else []) @
     [ctfd_request ''PATCH'' (''/api/v1/challenges/'' @ js_string (P ''challenge_id'')) (Some (wanted_options P)) w]"

definition wanted_upload :: "(string \<times> jsval) list \<Rightarrow> (string \<Rightarrow> jsval) \<Rightarrow> 'z adworld_scheme \<Rightarrow> request" where
  "wanted_upload files P w = \<lparr>req_method = ''POST'', req_url = base_url w @ ''/api/v1/files'', req_headers = [],
     req_body = Some (Obj (files @ [(''nonce'', Str (ad_nonce w)), (''challenge_id'', P ''challenge_id''),
       (''type'', Str ''challenge'')]))\<rparr>"

definition wanted_status :: "(response \<Rightarrow> string) \<Rightarrow> bool \<Rightarrow> outcome \<Rightarrow> string \<times> string" where
  "wanted_status st deploys out =
     (case out of
        NetFail \<Rightarrow> (''File upload failed: error'', ''danger'')
      | Reply r \<Rightarrow>
          if \<not> resp_ok r then (''File upload failed: '' @ st r, ''danger'')
          else if status r \<noteq> 200 then (''Unexpected response status: '' @ show_int (status r), ''danger'')
          else if deploys then (''Deploy request accepted. Executing workflow...'', ''info'')
          else (''File upload successful.'', ''success''))"

lemma ticked_on: "is_on v = ticked v"
  by (auto simp: is_on_def ticked_def)

lemma limit_typed: "limit_of params k = typed_number (oget params k)"
  by (simp add: limit_of_def typed_number_def js_or_def)

lemma below_too_low: "below_one (limit_of params k) = too_low (oget params k)"
  using parseInt10_cases [of "js_string (js_or (oget params k) (Str ''0''))"]
  by (auto simp: below_one_def too_low_def limit_typed num_gt_def typed_number_def js_or_def split: if_splits)

lemma limits_wanted: "limits_objection params = wanted_objection (oget params)"
  by (simp add: limits_objection_def wanted_objection_def ticked_on below_too_low)

lemma options_wanted: "options_requests params w = wanted_requests (oget params) w"
proof -
  have body: "patch_body params = wanted_options (oget params)"
    by (simp add: patch_body_def wanted_options_def ticked_on limit_typed js_or_def Let_def)
  have flag: "flag_params params = wanted_flag (oget params)"
    by (simp add: flag_params_def wanted_flag_def js_or_def)
  have "oget (oget (wanted_flag (oget params)) ''content'') ''length'' = Num 0 \<longleftrightarrow>
      \<not> (truthy (oget params ''flag'') \<and> oget (oget params ''flag'') ''length'' \<noteq> Num 0)"
    by (simp add: wanted_flag_def)
  then show ?thesis
    by (simp add: options_requests_def wanted_requests_def flag_request_def options_request_def body flag)
qed

text \<open>The answer to an upload, and what the second step leaves, apart from the request it may send.\<close>

lemma upload_answer:
  assumes "upload st srv entries extra w = (x, v)"
  defines "out \<equiv> snd (srv (sent w) (upload_request entries extra w))"
  shows "(case x of
      Inr _ \<Rightarrow> wanted_status st b out =
        (if b then (''Deploy request accepted. Executing workflow...'', ''info'') else (''File upload successful.'', ''success''))
    | Inl e \<Rightarrow> error_message e \<noteq> [] \<and> wanted_status st b out = (error_message e, ''danger''))"
proof (cases "srv (sent w) (upload_request entries extra w)")
  case (Pair d o')
  then show ?thesis
    using assms(1) unfolding out_def
    by (cases o') (auto simp: upload_def fetch_def receive_def wanted_status_def Let_def split: if_splits)
qed

lemma options_upload_effect:
  fixes w :: "'z chworld_scheme" and files :: "(string \<times> jsval) list" and params :: jsval
  assumes "ad_nonce w = ad_nonce u" "base_url w = base_url u"
  defines "q \<equiv> wanted_upload files (oget params) u"
  shows "case options_upload st srv params hfile hdep files w of w' \<Rightarrow>
    sent w' = sent w @ (if hfile \<or> hdep then [q] else []) \<and> base_url w' = base_url u \<and> \<not> ch_finish_off w' \<and>
    ch_status w' = Some (if hfile \<or> hdep
      then wanted_status st (ticked (oget params ''require_deploy'') \<and> hdep) (snd (srv (sent w) q))
      else (''Challenge saved successfully.'', ''success''))"
proof (cases "\<not> hfile \<and> \<not> hdep")
  case True
  then show ?thesis using assms by (simp add: options_upload_def setCreateUploadStatus_def)
next
  case False
  let ?ex = "[(''challenge_id'', oget params ''challenge_id''), (''type'', Str ''challenge'')]"
  define w1 where "w1 = setCreateUploadStatus ''Uploading file(s)...'' ''info'' (w\<lparr>ch_finish_off := True\<rparr>)"
  have w1: "sent w1 = sent w" "base_url w1 = base_url u" "ad_nonce w1 = ad_nonce u"
    using assms by (simp_all add: w1_def setCreateUploadStatus_def)
  obtain x v where up: "upload st srv files ?ex w1 = (x, v)" by (cases "upload st srv files ?ex w1")
  note e = upload_effect [OF up]
  have q: "upload_request files ?ex w1 = q" using w1 by (simp add: upload_request_def q_def wanted_upload_def)
  show ?thesis using False e up w1 upload_answer [OF up, of "ticked (oget params ''require_deploy'') \<and> hdep"]
    unfolding q options_upload_def w1_def [symmetric] ticked_on
    by (auto simp: setCreateUploadStatus_def split: sum.splits)
qed

subsection \<open>Properties\<close>

text \<open>C37: The options of a challenge go out in order. When a deployment is required and a limit reads as a
  number below one, nothing is sent and the objection is shown; limits are not looked at otherwise. With
  no objection the flag, unless it is empty, and the options are sent together, and the files, if
  there are any, only after both were answered with something readable. Then the page moves on, the button is free
  and the status says how it ended, a failed upload with its error; without both answers the page stays
  as it is.\<close>
theorem options_in_order:
  fixes w :: "'z chworld_scheme" and form :: form_data and srv :: server and files :: "(string \<times> jsval) list"
  defines "P \<equiv> oget (serializeJSON True form)"
  defines "qs \<equiv> wanted_requests P w" and "q \<equiv> wanted_upload files P w"
  defines "go \<equiv> list_all (\<lambda>(d, out). readable out) (replies srv (sent w) qs)"
  shows "case handleChallengeOptions st srv form has_file has_deploy files w of w' \<Rightarrow>
    (case wanted_objection P of
       Some t \<Rightarrow> sent w' = sent w \<and> redirect w' = redirect w \<and> popups w' = popups w @ [Popup ''Validation Error'' [Str t]]
     | None \<Rightarrow>
         sent w' = sent w @ qs @ (if go \<and> (has_file \<or> has_deploy) then [q] else []) \<and>
         redirect w' = (if go then Some (base_url w @ ''/admin/challenges/'' @ js_string (P ''challenge_id''))
           else redirect w) \<and>
         ch_finish_off w' = (\<not> go \<and> ch_finish_off w) \<and>
         ch_status w' = (if \<not> go then None
           else Some (if has_file \<or> has_deploy
             then wanted_status st (ticked (P ''require_deploy'') \<and> has_deploy) (snd (srv (sent w @ qs) q))
             else (''Challenge saved successfully.'', ''success''))))"
proof -
  define params where "params = serializeJSON True form"
  define w0 where "w0 = clearCreateUploadStatus w"
  have w0: "sent w0 = sent w" "base_url w0 = base_url w" "ad_nonce w0 = ad_nonce w" "redirect w0 = redirect w"
    "popups w0 = popups w" "ch_finish_off w0 = ch_finish_off w" "ch_status w0 = None"
    by (simp_all add: w0_def clearCreateUploadStatus_def)
  have P: "oget params = P" by (simp add: params_def P_def)
  have qs: "options_requests params w0 = qs"
    using options_requests_cong [of w0 w params] w0 options_wanted [of params w] by (simp add: qs_def P)
  note objection = limits_wanted [of params, unfolded P]
  show ?thesis
  proof (cases "wanted_objection P")
    case (Some t)
    then show ?thesis
      using w0 objection by (simp add: handleChallengeOptions_def Let_def ask_def flip: params_def w0_def)
  next
    case None
    obtain b w1 where p: "promise_all readable srv qs w0 = (b, w1)" by (cases "promise_all readable srv qs w0")
    have b: "b = go" and w1: "sent w1 = sent w @ qs" "base_url w1 = base_url w" "redirect w1 = redirect w" "ad_nonce w1 = ad_nonce w"
      "ch_finish_off w1 = ch_finish_off w" "ch_status w1 = None"
      using p w0 unfolding promise_all_def Let_def go_def by auto
    have e: "handleChallengeOptions st srv form has_file has_deploy files w =
        (if \<not> go then w1 else options_redirect params (options_upload st srv params has_file has_deploy files w1))"
      using None objection p b qs by (simp add: handleChallengeOptions_def Let_def flip: params_def w0_def)
    show ?thesis
      using options_upload_effect [where w = w1 and u = w and files = files and params = params and st = st and srv = srv
          and hfile = has_file and hdep = has_deploy] None w1 e P
      by (simp add: options_redirect_def q_def)
  qed
qed

text \<open>The limits that pass: each is a number from one, or not a number at all, which is sent as \<open>null\<close>.\<close>
theorem limits_that_pass:
  "limits_objection params = None \<longleftrightarrow> \<not> is_on (oget params ''require_deploy'') \<or>
     list_all (\<lambda>k. limit_of params k = NaN \<or> (\<exists>n. limit_of params k = Num n \<and> 1 \<le> n))
       [''cpu_limit'', ''cpu_request'', ''memory_limit'', ''memory_request'']"
proof -
  have "limits_objection params = None \<longleftrightarrow> \<not> is_on (oget params ''require_deploy'') \<or>
     (\<not> below_one (limit_of params ''cpu_limit'') \<and> \<not> below_one (limit_of params ''cpu_request'') \<and>
      \<not> below_one (limit_of params ''memory_limit'') \<and> \<not> below_one (limit_of params ''memory_request''))"
    by (auto simp: limits_objection_def)
  then show ?thesis unfolding below_one_limit by simp
qed

text \<open>A refusal by the server counts for nothing: with any two answers that can be read, the challenge is said to be saved.\<close>
theorem refusal_unseen:
  fixes w :: "'z chworld_scheme"
  assumes "limits_objection (serializeJSON True form) = None"
    "list_all (\<lambda>(d, out). readable out) (replies srv (sent w) (options_requests (serializeJSON True form) w))"
  shows "ch_status (handleChallengeOptions st srv form False False files w) = Some (''Challenge saved successfully.'', ''success'')"
proof -
  let ?w0 = "clearCreateUploadStatus w"
  have "options_requests (serializeJSON True form) ?w0 = options_requests (serializeJSON True form) w"
    by (rule options_requests_cong) (simp_all add: clearCreateUploadStatus_def)
  then show ?thesis
    using assms by (simp add: handleChallengeOptions_def promise_all_def Let_def case_prod_unfold options_redirect_def
        options_upload_def setCreateUploadStatus_def clearCreateUploadStatus_def)
qed

text \<open>Making a challenge visible that has no flags asks first: without the answer yes the challenge is not changed.\<close>
theorem update_asks:
  fixes w :: "'z chworld_scheme" and cid :: jsval and form :: form_data and srv :: server
  defines "q \<equiv> ctfd_request ''GET'' (''/api/v1/challenges/'' @ js_string cid @ ''/flags'') None w"
  assumes "snd (srv (sent w) q) = Reply r" "resp_json r = Inr (Obj [(''data'', Arr [])])"
    "oget (serializeJSON True form) ''state'' = Str ''visible''"
  shows "case update_submit srv cid form yes w of (x, w') \<Rightarrow>
    sent w' = sent w @ [q] @ (if yes then [ctfd_request ''PATCH'' (''/api/v1/challenges/'' @ js_string cid)
      (Some (serializeJSON True form)) w] else []) \<and>
    (if yes then True else x = Inr () \<and> ch_state w' = ch_state w)"
proof -
  let ?p = "serializeJSON True form"
  obtain x v where f: "ctfd_fetch srv ''GET'' (''/api/v1/challenges/'' @ js_string cid @ ''/flags'') None w = (x, v)"
    by (cases "ctfd_fetch srv ''GET'' (''/api/v1/challenges/'' @ js_string cid @ ''/flags'') None w")
  note s = ctfd_fetch_step [OF f, folded q_def]
  have x: "x = Inr r" using s(4) assms(2) by simp
  define v1 where "v1 = ask ''Missing Flags'' missing_flags v"
  obtain y u where g: "ctfd_fetch srv ''PATCH'' (''/api/v1/challenges/'' @ js_string cid) (Some ?p) v1 = (y, u)"
    by (cases "ctfd_fetch srv ''PATCH'' (''/api/v1/challenges/'' @ js_string cid) (Some ?p) v1")
  have e: "ctfd_request ''PATCH'' (''/api/v1/challenges/'' @ js_string cid) (Some ?p) v1 =
      ctfd_request ''PATCH'' (''/api/v1/challenges/'' @ js_string cid) (Some ?p) w"
    using s(2) adworld_of_more(1) [OF s(3)] by (intro ctfd_request_cong) (simp_all add: v1_def)
  note t = ctfd_fetch_step [OF g, unfolded e]
  have run: "update_submit srv cid form yes w = (if yes then update_challenge srv cid ?p v1 else (Inr (), v1))"
    using f x assms(3,4) by (simp add: update_submit_def bindM_def lift_def upd_def ret_def get_null field_def nullish_def v1_def Let_def)
  have "sent (snd (update_challenge srv cid ?p v1)) = sent u"
    using g by (auto simp: update_challenge_def bindM_def lift_def upd_def ret_def alert_errors_def show_updated_def split: prod.splits sum.splits)
  moreover have "ch_state v1 = ch_state w"
    using s(3) by (intro chworld_of_more(5) adworld_more_of) (simp add: v1_def)
  ultimately show ?thesis using run t(1) s(1) by (simp add: v1_def case_prod_unfold)
qed

text \<open>Creating a challenge never throws, and with too long a name or too large a file nothing is sent.\<close>
theorem create_checked:
  "case create_submit st srv name file entries files w of (r, w') \<Rightarrow> r = Inr () \<and>
    (case form_objection name file of
       Some tb \<Rightarrow> sent w' = sent w \<and> popups w' = popups w @ [Popup (fst tb) [Str (snd tb)]]
     | None \<Rightarrow> \<exists>qs. sent w' = sent w @ ctfd_request ''POST'' (base_url w @ ''/api/v1/challenges'') (Some (create_params entries)) w # qs \<and>
         length qs \<le> 1)"
proof (cases "form_objection name file")
  case (Some tb)
  then show ?thesis by (simp add: create_submit_def ask_def case_prod_unfold)
next
  case None
  let ?q = "ctfd_request ''POST'' (base_url w @ ''/api/v1/challenges'') (Some (create_params entries)) w"
  let ?rest = "\<lambda>r. bindM (lift (resp_json r)) (\<lambda>d. bindM (lift (get d ''success'')) (\<lambda>ok.
      if \<not> truthy ok then alert_errors d
      else bindM (lift (get (oget d ''data'') ''id'')) (\<lambda>i. bindM (upd (\<lambda>w. w\<lparr>ch_new_id := i\<rparr>)) (\<lambda>_.
        bindM (create_files st srv files i) (\<lambda>_. upd (\<lambda>w. w\<lparr>ch_modal := True\<rparr>))))))"
  obtain x v where f: "ctfd_fetch srv ''POST'' (base_url w @ ''/api/v1/challenges'') (Some (create_params entries)) w = (x, v)"
    by (cases "ctfd_fetch srv ''POST'' (base_url w @ ''/api/v1/challenges'') (Some (create_params entries)) w")
  have rest: "\<exists>qs. sent (snd (?rest r v)) = sent v @ qs \<and> length qs \<le> 1" for r
  proof (cases "resp_json r")
    case (Inr d)
    show ?thesis
    proof (cases "nullish d \<or> \<not> truthy (oget d ''success'') \<or> nullish (oget d ''data'')")
      case True
      then have "sent (snd (?rest r v)) = sent v"
        using Inr by (auto simp: bindM_def lift_def get_null)
      then show ?thesis by simp
    next
      case False
      obtain u qs where "create_files st srv files (oget (oget d ''data'') ''id'') (v\<lparr>ch_new_id := oget (oget d ''data'') ''id''\<rparr>) = (Inr (), u)"
        "sent u = sent v @ qs" "length qs \<le> 1"
        by (rule create_files_effect [of st srv files "oget (oget d ''data'') ''id''" "v\<lparr>ch_new_id := oget (oget d ''data'') ''id''\<rparr>"]) auto
      then show ?thesis using Inr False by (simp add: bindM_def lift_def get_null upd_def)
    qed
  qed (simp add: bindM_def lift_def)
  have run: "create_submit st srv name file entries files w =
      (case (case x of Inl e \<Rightarrow> (Inl e, v) | Inr r \<Rightarrow> ?rest r v) of
         (Inl e, u) \<Rightarrow> upd (show_popup ''Error'' [Str ''Network error'']) u | (Inr y, u) \<Rightarrow> (Inr y, u))"
    using None f by (cases x) (simp_all add: create_submit_def catchM_def bindM_def [of "ctfd_fetch srv m u b" for m u b])
  show ?thesis
  proof (cases x)
    case (Inl e)
    then show ?thesis using run ctfd_fetch_step(1) [OF f] None by (simp add: upd_def)
  next
    case (Inr r)
    obtain y u where y: "?rest r v = (y, u)" by (cases "?rest r v")
    then show ?thesis using run rest [of r] ctfd_fetch_step(1) [OF f] None Inr by (cases y) (auto simp: upd_def)
  qed
qed

end
