(* ===== verification/AdminTime.thy ===== *)
theory AdminTime
  imports AdminChallenge
begin

section \<open>The management console: the times of a contest\<close>

text \<open>
  The time settings of \<open>pages/configs.js\<close> and the names of time zones of \<open>timezones.js\<close>. The date library is a
  parameter, \<open>date_lib\<close>: what it reads from a text in a zone, the parts of an instant in a zone (the month from
  zero), and its texts; it knows every zone it is asked about. An input holds a text, a selection list without a
  selected entry the empty text. Each of start, end and freeze has its own inputs.
\<close>

subsection \<open>Time zones\<close>

definition tz_africa :: "string list" where
  "tz_africa = [
    ''Africa/Abidjan'', ''Africa/Accra'', ''Africa/Addis_Ababa'', ''Africa/Algiers'', ''Africa/Asmara'',
    ''Africa/Asmera'', ''Africa/Bamako'', ''Africa/Bangui'', ''Africa/Banjul'', ''Africa/Bissau'',
    ''Africa/Blantyre'', ''Africa/Brazzaville'', ''Africa/Bujumbura'', ''Africa/Cairo'',
    ''Africa/Casablanca'', ''Africa/Ceuta'', ''Africa/Conakry'', ''Africa/Dakar'', ''Africa/Dar_es_Salaam'',
    ''Africa/Djibouti'', ''Africa/Douala'', ''Africa/El_Aaiun'', ''Africa/Freetown'', ''Africa/Gaborone'',
    ''Africa/Harare'', ''Africa/Johannesburg'', ''Africa/Juba'', ''Africa/Kampala'', ''Africa/Khartoum'',
    ''Africa/Kigali'', ''Africa/Kinshasa'', ''Africa/Lagos'', ''Africa/Libreville'', ''Africa/Lome'',
    ''Africa/Luanda'', ''Africa/Lubumbashi'', ''Africa/Lusaka'', ''Africa/Malabo'', ''Africa/Maputo'',
    ''Africa/Maseru'', ''Africa/Mbabane'', ''Africa/Mogadishu'', ''Africa/Monrovia'', ''Africa/Nairobi'',
    ''Africa/Ndjamena'', ''Africa/Niamey'', ''Africa/Nouakchott'', ''Africa/Ouagadougou'',
    ''Africa/Porto-Novo'', ''Africa/Sao_Tome'', ''Africa/Timbuktu'', ''Africa/Tripoli'', ''Africa/Tunis'',
    ''Africa/Windhoek'']"

definition tz_america :: "string list" where
  "tz_america = [
    ''America/Adak'', ''America/Anchorage'', ''America/Anguilla'', ''America/Antigua'',
    ''America/Araguaina'', ''America/Argentina/Buenos_Aires'', ''America/Argentina/Catamarca'',
    ''America/Argentina/ComodRivadavia'', ''America/Argentina/Cordoba'', ''America/Argentina/Jujuy'',
    ''America/Argentina/La_Rioja'', ''America/Argentina/Mendoza'', ''America/Argentina/Rio_Gallegos'',
    ''America/Argentina/Salta'', ''America/Argentina/San_Juan'', ''America/Argentina/San_Luis'',
    ''America/Argentina/Tucuman'', ''America/Argentina/Ushuaia'', ''America/Aruba'', ''America/Asuncion'',
    ''America/Atikokan'', ''America/Atka'', ''America/Bahia'', ''America/Bahia_Banderas'',
    ''America/Barbados'', ''America/Belem'', ''America/Belize'', ''America/Blanc-Sablon'',
    ''America/Boa_Vista'', ''America/Bogota'', ''America/Boise'', ''America/Buenos_Aires'',
    ''America/Cambridge_Bay'', ''America/Campo_Grande'', ''America/Cancun'', ''America/Caracas'',
    ''America/Catamarca'', ''America/Cayenne'', ''America/Cayman'', ''America/Chicago'',
    ''America/Chihuahua'', ''America/Coral_Harbour'', ''America/Cordoba'', ''America/Costa_Rica'',
    ''America/Creston'', ''America/Cuiaba'', ''America/Curacao'', ''America/Danmarkshavn'',
    ''America/Dawson'', ''America/Dawson_Creek'', ''America/Denver'', ''America/Detroit'',
    ''America/Dominica'', ''America/Edmonton'', ''America/Eirunepe'', ''America/El_Salvador'',
    ''America/Ensenada'', ''America/Fort_Nelson'', ''America/Fort_Wayne'', ''America/Fortaleza'',
    ''America/Glace_Bay'', ''America/Godthab'', ''America/Goose_Bay'', ''America/Grand_Turk'',
    ''America/Grenada'', ''America/Guadeloupe'', ''America/Guatemala'', ''America/Guayaquil'',
    ''America/Guyana'', ''America/Halifax'', ''America/Havana'', ''America/Hermosillo'',
    ''America/Indiana/Indianapolis'', ''America/Indiana/Knox'', ''America/Indiana/Marengo'',
    ''America/Indiana/Petersburg'', ''America/Indiana/Tell_City'', ''America/Indiana/Vevay'',
    ''America/Indiana/Vincennes'', ''America/Indiana/Winamac'', ''America/Indianapolis'', ''America/Inuvik'',
    ''America/Iqaluit'', ''America/Jamaica'', ''America/Jujuy'', ''America/Juneau'',
    ''America/Kentucky/Louisville'', ''America/Kentucky/Monticello'', ''America/Knox_IN'',
    ''America/Kralendijk'', ''America/La_Paz'', ''America/Lima'', ''America/Los_Angeles'',
    ''America/Louisville'', ''America/Lower_Princes'', ''America/Maceio'', ''America/Managua'',
    ''America/Manaus'', ''America/Marigot'', ''America/Martinique'', ''America/Matamoros'',
    ''America/Mazatlan'', ''America/Mendoza'', ''America/Menominee'', ''America/Merida'',
    ''America/Metlakatla'', ''America/Mexico_City'', ''America/Miquelon'', ''America/Moncton'',
    ''America/Monterrey'', ''America/Montevideo'', ''America/Montreal'', ''America/Montserrat'',
    ''America/Nassau'', ''America/New_York'', ''America/Nipigon'', ''America/Nome'', ''America/Noronha'',
    ''America/North_Dakota/Beulah'', ''America/North_Dakota/Center'', ''America/North_Dakota/New_Salem'',
    ''America/Nuuk'', ''America/Ojinaga'', ''America/Panama'', ''America/Pangnirtung'',
    ''America/Paramaribo'', ''America/Phoenix'', ''America/Port-au-Prince'', ''America/Port_of_Spain'',
    ''America/Porto_Acre'', ''America/Porto_Velho'', ''America/Puerto_Rico'', ''America/Punta_Arenas'',
    ''America/Rainy_River'', ''America/Rankin_Inlet'', ''America/Recife'', ''America/Regina'',
    ''America/Resolute'', ''America/Rio_Branco'', ''America/Rosario'', ''America/Santa_Isabel'',
    ''America/Santarem'', ''America/Santiago'', ''America/Santo_Domingo'', ''America/Sao_Paulo'',
    ''America/Scoresbysund'', ''America/Shiprock'', ''America/Sitka'', ''America/St_Barthelemy'',
    ''America/St_Johns'', ''America/St_Kitts'', ''America/St_Lucia'', ''America/St_Thomas'',
    ''America/St_Vincent'', ''America/Swift_Current'', ''America/Tegucigalpa'', ''America/Thule'',
    ''America/Thunder_Bay'', ''America/Tijuana'', ''America/Toronto'', ''America/Tortola'',
    ''America/Vancouver'', ''America/Virgin'', ''America/Whitehorse'', ''America/Winnipeg'',
    ''America/Yakutat'', ''America/Yellowknife'']"

definition tz_antarctica :: "string list" where
  "tz_antarctica = [
    ''Antarctica/Casey'', ''Antarctica/Davis'', ''Antarctica/DumontDUrville'', ''Antarctica/Macquarie'',
    ''Antarctica/Mawson'', ''Antarctica/McMurdo'', ''Antarctica/Palmer'', ''Antarctica/Rothera'',
    ''Antarctica/South_Pole'', ''Antarctica/Syowa'', ''Antarctica/Troll'', ''Antarctica/Vostok'']"

definition tz_asia :: "string list" where
  "tz_asia = [
    ''Arctic/Longyearbyen'', ''Asia/Aden'', ''Asia/Almaty'', ''Asia/Amman'', ''Asia/Anadyr'', ''Asia/Aqtau'',
    ''Asia/Aqtobe'', ''Asia/Ashgabat'', ''Asia/Ashkhabad'', ''Asia/Atyrau'', ''Asia/Baghdad'',
    ''Asia/Bahrain'', ''Asia/Baku'', ''Asia/Bangkok'', ''Asia/Barnaul'', ''Asia/Beirut'', ''Asia/Bishkek'',
    ''Asia/Brunei'', ''Asia/Calcutta'', ''Asia/Chita'', ''Asia/Choibalsan'', ''Asia/Chongqing'',
    ''Asia/Chungking'', ''Asia/Colombo'', ''Asia/Dacca'', ''Asia/Damascus'', ''Asia/Dhaka'', ''Asia/Dili'',
    ''Asia/Dubai'', ''Asia/Dushanbe'', ''Asia/Famagusta'', ''Asia/Gaza'', ''Asia/Harbin'', ''Asia/Hebron'',
    ''Asia/Ho_Chi_Minh'', ''Asia/Hong_Kong'', ''Asia/Hovd'', ''Asia/Irkutsk'', ''Asia/Istanbul'',
    ''Asia/Jakarta'', ''Asia/Jayapura'', ''Asia/Jerusalem'', ''Asia/Kabul'', ''Asia/Kamchatka'',
    ''Asia/Karachi'', ''Asia/Kashgar'', ''Asia/Kathmandu'', ''Asia/Katmandu'', ''Asia/Khandyga'',
    ''Asia/Kolkata'', ''Asia/Krasnoyarsk'', ''Asia/Kuala_Lumpur'', ''Asia/Kuching'', ''Asia/Kuwait'',
    ''Asia/Macao'', ''Asia/Macau'', ''Asia/Magadan'', ''Asia/Makassar'', ''Asia/Manila'', ''Asia/Muscat'',
    ''Asia/Nicosia'', ''Asia/Novokuznetsk'', ''Asia/Novosibirsk'', ''Asia/Omsk'', ''Asia/Oral'',
    ''Asia/Phnom_Penh'', ''Asia/Pontianak'', ''Asia/Pyongyang'', ''Asia/Qatar'', ''Asia/Qostanay'',
    ''Asia/Qyzylorda'', ''Asia/Rangoon'', ''Asia/Riyadh'', ''Asia/Saigon'', ''Asia/Sakhalin'',
    ''Asia/Samarkand'', ''Asia/Seoul'', ''Asia/Shanghai'', ''Asia/Singapore'', ''Asia/Srednekolymsk'',
    ''Asia/Taipei'', ''Asia/Tashkent'', ''Asia/Tbilisi'', ''Asia/Tehran'', ''Asia/Tel_Aviv'',
    ''Asia/Thimbu'', ''Asia/Thimphu'', ''Asia/Tokyo'', ''Asia/Tomsk'', ''Asia/Ujung_Pandang'',
    ''Asia/Ulaanbaatar'', ''Asia/Ulan_Bator'', ''Asia/Urumqi'', ''Asia/Ust-Nera'', ''Asia/Vientiane'',
    ''Asia/Vladivostok'', ''Asia/Yakutsk'', ''Asia/Yangon'', ''Asia/Yekaterinburg'', ''Asia/Yerevan'']"

definition tz_atlantic :: "string list" where
  "tz_atlantic = [
    ''Atlantic/Azores'', ''Atlantic/Bermuda'', ''Atlantic/Canary'', ''Atlantic/Cape_Verde'',
    ''Atlantic/Faeroe'', ''Atlantic/Faroe'', ''Atlantic/Jan_Mayen'', ''Atlantic/Madeira'',
    ''Atlantic/Reykjavik'', ''Atlantic/South_Georgia'', ''Atlantic/St_Helena'', ''Atlantic/Stanley'']"

definition tz_australia :: "string list" where
  "tz_australia = [
    ''Australia/ACT'', ''Australia/Adelaide'', ''Australia/Brisbane'', ''Australia/Broken_Hill'',
    ''Australia/Canberra'', ''Australia/Currie'', ''Australia/Darwin'', ''Australia/Eucla'',
    ''Australia/Hobart'', ''Australia/LHI'', ''Australia/Lindeman'', ''Australia/Lord_Howe'',
    ''Australia/Melbourne'', ''Australia/NSW'', ''Australia/North'', ''Australia/Perth'',
    ''Australia/Queensland'', ''Australia/South'', ''Australia/Sydney'', ''Australia/Tasmania'',
    ''Australia/Victoria'', ''Australia/West'', ''Australia/Yancowinna'']"

definition tz_brazil_to_cuba :: "string list" where
  "tz_brazil_to_cuba = [
    ''Brazil/Acre'', ''Brazil/DeNoronha'', ''Brazil/East'', ''Brazil/West'', ''CET'', ''CST6CDT'',
    ''Canada/Atlantic'', ''Canada/Central'', ''Canada/Eastern'', ''Canada/Mountain'',
    ''Canada/Newfoundland'', ''Canada/Pacific'', ''Canada/Saskatchewan'', ''Canada/Yukon'',
    ''Chile/Continental'', ''Chile/EasterIsland'', ''Cuba'']"

definition tz_fixed :: "string list" where
  "tz_fixed = [
    ''EET'', ''EST'', ''EST5EDT'', ''Egypt'', ''Eire'', ''Etc/GMT'', ''Etc/GMT+0'', ''Etc/GMT+1'',
    ''Etc/GMT+10'', ''Etc/GMT+11'', ''Etc/GMT+12'', ''Etc/GMT+2'', ''Etc/GMT+3'', ''Etc/GMT+4'',
    ''Etc/GMT+5'', ''Etc/GMT+6'', ''Etc/GMT+7'', ''Etc/GMT+8'', ''Etc/GMT+9'', ''Etc/GMT-0'', ''Etc/GMT-1'',
    ''Etc/GMT-10'', ''Etc/GMT-11'', ''Etc/GMT-12'', ''Etc/GMT-13'', ''Etc/GMT-14'', ''Etc/GMT-2'',
    ''Etc/GMT-3'', ''Etc/GMT-4'', ''Etc/GMT-5'', ''Etc/GMT-6'', ''Etc/GMT-7'', ''Etc/GMT-8'', ''Etc/GMT-9'',
    ''Etc/GMT0'', ''Etc/Greenwich'', ''Etc/UCT'', ''Etc/UTC'', ''Etc/Universal'', ''Etc/Zulu'']"

definition tz_europe :: "string list" where
  "tz_europe = [
    ''Europe/Amsterdam'', ''Europe/Andorra'', ''Europe/Astrakhan'', ''Europe/Athens'', ''Europe/Belfast'',
    ''Europe/Belgrade'', ''Europe/Berlin'', ''Europe/Bratislava'', ''Europe/Brussels'', ''Europe/Bucharest'',
    ''Europe/Budapest'', ''Europe/Busingen'', ''Europe/Chisinau'', ''Europe/Copenhagen'', ''Europe/Dublin'',
    ''Europe/Gibraltar'', ''Europe/Guernsey'', ''Europe/Helsinki'', ''Europe/Isle_of_Man'',
    ''Europe/Istanbul'', ''Europe/Jersey'', ''Europe/Kaliningrad'', ''Europe/Kiev'', ''Europe/Kirov'',
    ''Europe/Lisbon'', ''Europe/Ljubljana'', ''Europe/London'', ''Europe/Luxembourg'', ''Europe/Madrid'',
    ''Europe/Malta'', ''Europe/Mariehamn'', ''Europe/Minsk'', ''Europe/Monaco'', ''Europe/Moscow'',
    ''Europe/Nicosia'', ''Europe/Oslo'', ''Europe/Paris'', ''Europe/Podgorica'', ''Europe/Prague'',
    ''Europe/Riga'', ''Europe/Rome'', ''Europe/Samara'', ''Europe/San_Marino'', ''Europe/Sarajevo'',
    ''Europe/Saratov'', ''Europe/Simferopol'', ''Europe/Skopje'', ''Europe/Sofia'', ''Europe/Stockholm'',
    ''Europe/Tallinn'', ''Europe/Tirane'', ''Europe/Tiraspol'', ''Europe/Ulyanovsk'', ''Europe/Uzhgorod'',
    ''Europe/Vaduz'', ''Europe/Vatican'', ''Europe/Vienna'', ''Europe/Vilnius'', ''Europe/Volgograd'',
    ''Europe/Warsaw'', ''Europe/Zagreb'', ''Europe/Zaporozhye'', ''Europe/Zurich'']"

definition tz_gb_to_indian :: "string list" where
  "tz_gb_to_indian = [
    ''GB'', ''GB-Eire'', ''GMT'', ''GMT+0'', ''GMT-0'', ''GMT0'', ''Greenwich'', ''HST'', ''Hongkong'',
    ''Iceland'', ''Indian/Antananarivo'', ''Indian/Chagos'', ''Indian/Christmas'', ''Indian/Cocos'',
    ''Indian/Comoro'', ''Indian/Kerguelen'', ''Indian/Mahe'', ''Indian/Maldives'', ''Indian/Mauritius'',
    ''Indian/Mayotte'', ''Indian/Reunion'']"

definition tz_iran_to_nz :: "string list" where
  "tz_iran_to_nz = [
    ''Iran'', ''Israel'', ''Jamaica'', ''Japan'', ''Kwajalein'', ''Libya'', ''MET'', ''MST'', ''MST7MDT'',
    ''Mexico/BajaNorte'', ''Mexico/BajaSur'', ''Mexico/General'', ''NZ'', ''NZ-CHAT'', ''Navajo'', ''PRC'',
    ''PST8PDT'']"

definition tz_pacific :: "string list" where
  "tz_pacific = [
    ''Pacific/Apia'', ''Pacific/Auckland'', ''Pacific/Bougainville'', ''Pacific/Chatham'', ''Pacific/Chuuk'',
    ''Pacific/Easter'', ''Pacific/Efate'', ''Pacific/Enderbury'', ''Pacific/Fakaofo'', ''Pacific/Fiji'',
    ''Pacific/Funafuti'', ''Pacific/Galapagos'', ''Pacific/Gambier'', ''Pacific/Guadalcanal'',
    ''Pacific/Guam'', ''Pacific/Honolulu'', ''Pacific/Johnston'', ''Pacific/Kiritimati'', ''Pacific/Kosrae'',
    ''Pacific/Kwajalein'', ''Pacific/Majuro'', ''Pacific/Marquesas'', ''Pacific/Midway'', ''Pacific/Nauru'',
    ''Pacific/Niue'', ''Pacific/Norfolk'', ''Pacific/Noumea'', ''Pacific/Pago_Pago'', ''Pacific/Palau'',
    ''Pacific/Pitcairn'', ''Pacific/Pohnpei'', ''Pacific/Ponape'', ''Pacific/Port_Moresby'',
    ''Pacific/Rarotonga'', ''Pacific/Saipan'', ''Pacific/Samoa'', ''Pacific/Tahiti'', ''Pacific/Tarawa'',
    ''Pacific/Tongatapu'', ''Pacific/Truk'', ''Pacific/Wake'', ''Pacific/Wallis'', ''Pacific/Yap'']"

definition tz_poland_to_zulu :: "string list" where
  "tz_poland_to_zulu = [
    ''Poland'', ''Portugal'', ''ROC'', ''ROK'', ''Singapore'', ''Turkey'', ''UCT'', ''US/Alaska'',
    ''US/Aleutian'', ''US/Arizona'', ''US/Central'', ''US/East-Indiana'', ''US/Eastern'', ''US/Hawaii'',
    ''US/Indiana-Starke'', ''US/Michigan'', ''US/Mountain'', ''US/Pacific'', ''US/Pacific-New'',
    ''US/Samoa'', ''UTC'', ''Universal'', ''W-SU'', ''WET'', ''Zulu'']"

definition timezones :: "string list" where
  "timezones =
     tz_africa @ tz_america @ tz_antarctica @ tz_asia @ tz_atlantic @ tz_australia @ tz_brazil_to_cuba @
     tz_fixed @ tz_europe @ tz_gb_to_indian @ tz_iran_to_nz @ tz_pacific @ tz_poland_to_zulu"

definition DEFAULT_TIMEZONE :: string where
  "DEFAULT_TIMEZONE = ''Asia/Ho_Chi_Minh''"

subsection \<open>The inputs of a time\<close>

record date_lib =
  dl_parse :: "string \<Rightarrow> string \<Rightarrow> int option"
  dl_month :: "int \<Rightarrow> string \<Rightarrow> int"
  dl_date :: "int \<Rightarrow> string \<Rightarrow> int"
  dl_year :: "int \<Rightarrow> string \<Rightarrow> int"
  dl_hour :: "int \<Rightarrow> string \<Rightarrow> int"
  dl_minute :: "int \<Rightarrow> string \<Rightarrow> int"
  dl_local :: "int \<Rightarrow> string"
  dl_zoned :: "int \<Rightarrow> string \<Rightarrow> string"
  dl_guess :: string

record time_inputs =
  ti_stamp :: string
  ti_month :: string
  ti_day :: string
  ti_year :: string
  ti_hour :: string
  ti_minute :: string
  ti_zone :: string
  ti_local :: string
  ti_zonetime :: string

definition two_chars :: "string \<Rightarrow> string" where
  "two_chars s = (if length s = 1 then ''0'' @ s else s)"

definition date_string :: "string \<Rightarrow> string \<Rightarrow> string \<Rightarrow> string \<Rightarrow> string \<Rightarrow> string" where
  "date_string month day year hour minute =
     year @ ''-'' @ two_chars month @ ''-'' @ two_chars day @ '' '' @ two_chars hour @ '':'' @ two_chars minute @ '':00''"

definition convertDateToMoment :: "date_lib \<Rightarrow> string \<Rightarrow> string \<Rightarrow> string \<Rightarrow> string \<Rightarrow> string \<Rightarrow> string \<Rightarrow> int option" where
  "convertDateToMoment lib month day year hour minute timezoneString =
     dl_parse lib (date_string month day year hour minute) timezoneString"

definition reading :: "date_lib \<Rightarrow> time_inputs \<Rightarrow> int option" where
  "reading lib f = convertDateToMoment lib (ti_month f) (ti_day f) (ti_year f) (ti_hour f) (ti_minute f) (ti_zone f)"

definition loadDateValues :: "date_lib \<Rightarrow> time_inputs \<Rightarrow> time_inputs" where
  "loadDateValues lib f =
     (case reading lib f of
        Some t \<Rightarrow>
          if ti_zone f \<noteq> [] \<and> ti_month f \<noteq> [] \<and> ti_day f \<noteq> [] \<and> ti_year f \<noteq> [] \<and> ti_hour f \<noteq> [] \<and> ti_minute f \<noteq> []
          then f\<lparr>ti_stamp := show_int t, ti_local := dl_local lib t, ti_zonetime := dl_zoned lib t (ti_zone f)\<rparr>
          else f\<lparr>ti_stamp := [], ti_local := [], ti_zonetime := []\<rparr>
      | None \<Rightarrow> f\<lparr>ti_stamp := [], ti_local := [], ti_zonetime := []\<rparr>)"

definition loadTimestamp :: "date_lib \<Rightarrow> string \<Rightarrow> time_inputs \<Rightarrow> time_inputs" where
  "loadTimestamp lib timestamp f =
     (let zone = (if ti_zone f = [] then DEFAULT_TIMEZONE else ti_zone f)
      in case parseInt10 timestamp of
           Num q \<Rightarrow>
             (let ts = \<lfloor>q\<rfloor>
              in loadDateValues lib (f\<lparr>ti_month := show_int (dl_month lib ts zone + 1), ti_day := show_int (dl_date lib ts zone),
                   ti_year := show_int (dl_year lib ts zone), ti_hour := show_int (dl_hour lib ts zone),
                   ti_minute := show_int (dl_minute lib ts zone)\<rparr>))
         | _ \<Rightarrow> f)"

subsection \<open>The list of zones\<close>

text \<open>A \<open>Set\<close> keeps the order in which its members came first. Choosing an entry that is not there leaves none chosen.\<close>

definition js_set :: "string list \<Rightarrow> string list" where
  "js_set xs = rev (remdups (rev xs))"

definition zone_options :: "date_lib \<Rightarrow> string \<Rightarrow> string list" where
  "zone_options lib selected = js_set ([selected, dl_guess lib] @ timezones)"

definition choose_entry :: "string list \<Rightarrow> string \<Rightarrow> string" where
  "choose_entry opts x = (if x \<in> set opts then x else [])"

definition insertTimezones :: "date_lib \<Rightarrow> string \<Rightarrow> time_inputs \<Rightarrow> time_inputs" where
  "insertTimezones lib data_selected f =
     (let selected = (if data_selected = [] then DEFAULT_TIMEZONE else data_selected);
          opts = zone_options lib selected;
          v1 = choose_entry opts selected;
          v2 = (if v1 = [] then choose_entry opts DEFAULT_TIMEZONE else v1)
      in f\<lparr>ti_zone := (if v2 = [] then choose_entry opts (dl_guess lib) else v2)\<rparr>)"

subsection \<open>The page\<close>

text \<open>
  The page keeps the inputs of each place. An event gives the part of a date that was typed, or the
  time stamp that was; the page computes the rest.
\<close>

datatype place = Start | End | Freeze

datatype time_event =
    Month_typed string
  | Day_typed string
  | Year_typed string
  | Hour_typed string
  | Minute_typed string
  | Zone_chosen string
  | Stamp_typed string

fun place_event :: "date_lib \<Rightarrow> time_event \<Rightarrow> time_inputs \<Rightarrow> time_inputs" where
  "place_event lib (Month_typed s) f = loadDateValues lib (f\<lparr>ti_month := s\<rparr>)"
| "place_event lib (Day_typed s) f = loadDateValues lib (f\<lparr>ti_day := s\<rparr>)"
| "place_event lib (Year_typed s) f = loadDateValues lib (f\<lparr>ti_year := s\<rparr>)"
| "place_event lib (Hour_typed s) f = loadDateValues lib (f\<lparr>ti_hour := s\<rparr>)"
| "place_event lib (Minute_typed s) f = loadDateValues lib (f\<lparr>ti_minute := s\<rparr>)"
| "place_event lib (Zone_chosen s) f = loadDateValues lib (f\<lparr>ti_zone := s\<rparr>)"
| "place_event lib (Stamp_typed s) f =
     (let g = f\<lparr>ti_stamp := s\<rparr> in if s \<noteq> [] then loadTimestamp lib s g else g)"

definition init_place :: "date_lib \<Rightarrow> string \<Rightarrow> time_inputs \<Rightarrow> time_inputs" where
  "init_place lib data_selected f =
     (let g = insertTimezones lib data_selected f
      in if ti_stamp g \<noteq> [] then loadTimestamp lib (ti_stamp g) g else g)"

definition initTimeConfigSection :: "date_lib \<Rightarrow> (place \<Rightarrow> string) \<Rightarrow> (place \<Rightarrow> time_inputs) \<Rightarrow> place \<Rightarrow> time_inputs" where
  "initTimeConfigSection lib selected page = (\<lambda>p. init_place lib (selected p) (page p))"

definition time_step :: "date_lib \<Rightarrow> place \<times> time_event \<Rightarrow> (place \<Rightarrow> time_inputs) \<Rightarrow> place \<Rightarrow> time_inputs" where
  "time_step lib e page = (case e of (p, ev) \<Rightarrow> page(p := place_event lib ev (page p)))"

text \<open>The page as the server renders it: the stored stamps, no other input filled.\<close>

definition rendered :: "string \<Rightarrow> time_inputs" where
  "rendered stamp = \<lparr>ti_stamp = stamp, ti_month = [], ti_day = [], ti_year = [], ti_hour = [], ti_minute = [],
     ti_zone = [], ti_local = [], ti_zonetime = []\<rparr>"

inductive time_page :: "date_lib \<Rightarrow> (place \<Rightarrow> string) \<Rightarrow> (place \<Rightarrow> string) \<Rightarrow> (place \<Rightarrow> time_inputs) \<Rightarrow> bool"
  for lib selected stored where
  opened: "time_page lib selected stored (initTimeConfigSection lib selected (\<lambda>p. rendered (stored p)))"
| event: "time_page lib selected stored pg \<Longrightarrow> time_page lib selected stored (time_step lib e pg)"

subsection \<open>Rules\<close>

lemma set_js_set [simp]: "set (js_set xs) = set xs"
  by (simp add: js_set_def)

lemma distinct_js_set [simp]: "distinct (js_set xs)"
  by (simp add: js_set_def)

lemma hd_js_set: "\<exists>ys. js_set (x # xs) = x # ys"
proof -
  have "\<exists>ys. remdups (zs @ [x]) = ys @ [x]" for zs by (induction zs) auto
  then obtain ys where "remdups (rev xs @ [x]) = ys @ [x]" by blast
  then show ?thesis by (simp add: js_set_def)
qed

lemma load_inputs [simp]:
  "ti_month (loadDateValues lib f) = ti_month f" "ti_day (loadDateValues lib f) = ti_day f"
  "ti_year (loadDateValues lib f) = ti_year f" "ti_hour (loadDateValues lib f) = ti_hour f"
  "ti_minute (loadDateValues lib f) = ti_minute f" "ti_zone (loadDateValues lib f) = ti_zone f"
  by (simp_all add: loadDateValues_def split: option.split)

lemma reading_load [simp]: "reading lib (loadDateValues lib f) = reading lib f"
  by (simp add: reading_def)

lemma time_step_at: "time_step lib (q, ev) pg p = (if p = q then place_event lib ev (pg p) else pg p)"
  by (simp add: time_step_def)

text \<open>What the page would save is what its date fields say, is empty, or is no number.\<close>

definition stamp_agrees :: "date_lib \<Rightarrow> time_inputs \<Rightarrow> bool" where
  "stamp_agrees lib f =
     (ti_stamp f = [] \<or> parseInt10 (ti_stamp f) = NaN \<or> (\<exists>t. reading lib f = Some t \<and> ti_stamp f = show_int t))"

lemma stamp_agrees_load [simp]: "stamp_agrees lib (loadDateValues lib f)"
  by (cases "reading lib f") (auto simp: stamp_agrees_def loadDateValues_def reading_def)

lemma parseInt10_shape: "(\<exists>q. parseInt10 s = Num q) \<or> parseInt10 s = NaN"
  using parseInt10_cases by auto

lemma stamp_agrees_stamp: "stamp_agrees lib (loadTimestamp lib (ti_stamp f) f)"
  using parseInt10_shape [of "ti_stamp f"]
  by (auto simp: loadTimestamp_def Let_def; simp add: stamp_agrees_def)

lemma stamp_agrees_event: "stamp_agrees lib (place_event lib e f)"
proof (cases e)
  case (Stamp_typed s)
  then show ?thesis
    using stamp_agrees_stamp [of lib "f\<lparr>ti_stamp := s\<rparr>"] by (auto simp: Let_def stamp_agrees_def)
qed simp_all

lemma stamp_agrees_init: "stamp_agrees lib (init_place lib sel f)"
  using stamp_agrees_stamp [of lib "insertTimezones lib sel f"]
  by (auto simp: init_place_def Let_def; simp add: stamp_agrees_def)

lemma two_chars_pad: "0 \<le> n \<Longrightarrow> n < 100 \<Longrightarrow> two_chars (show_int n) = pad_left 2 (show_int n)"
proof -
  assume n: "0 \<le> n" "n < 100"
  have "length (show_nat (nat n)) = (if n < 10 then 1 else 2)"
    using n by (subst show_nat.simps) (auto simp: show_nat.simps [of "nat n div 10"])
  then show ?thesis using n by (auto simp: two_chars_def pad_left_def show_int_def numeral_2_eq_2)
qed

subsection \<open>Properties\<close>

text \<open>
  The stamps a page would save agree with the dates it shows, in every state: whatever was stored and
  whatever is typed, a stamp is empty, no number, or what the library reads from the date fields.
\<close>
theorem stamps_agree:
  assumes "time_page lib selected stored pg"
  shows "stamp_agrees lib (pg p)"
  using assms
proof (induction rule: time_page.induct)
  case opened
  then show ?case by (simp add: initTimeConfigSection_def stamp_agrees_init)
next
  case (event pg e)
  then show ?case by (cases e) (simp add: time_step_at stamp_agrees_event)
qed

text \<open>
  Loading a stored stamp writes its parts, in the chosen zone, as the text \<open>YYYY-MM-DD HH:MM:00\<close> with two
  digits each, and keeps what the library reads from it; so the seconds of the stored stamp are lost, and
  saving the page without touching it moves the time to the full minute.
\<close>
theorem loaded_stamp:
  assumes "ti_zone f = z" "z \<noteq> []"
    "0 \<le> dl_month lib ts z" "dl_month lib ts z < 12" "0 \<le> dl_date lib ts z" "dl_date lib ts z < 32"
    "0 \<le> dl_hour lib ts z" "dl_hour lib ts z < 24" "0 \<le> dl_minute lib ts z" "dl_minute lib ts z < 60"
  shows "ti_stamp (loadTimestamp lib (show_int ts) f) =
    (case dl_parse lib
       (show_int (dl_year lib ts z) @ ''-'' @ pad_left 2 (show_int (dl_month lib ts z + 1)) @ ''-'' @
        pad_left 2 (show_int (dl_date lib ts z)) @ '' '' @ pad_left 2 (show_int (dl_hour lib ts z)) @ '':'' @
        pad_left 2 (show_int (dl_minute lib ts z)) @ '':00'') z of
       Some t \<Rightarrow> show_int t | None \<Rightarrow> [])"
  using assms
  by (simp add: loadTimestamp_def loadDateValues_def reading_def convertDateToMoment_def date_string_def two_chars_pad
      Let_def split: option.split)

text \<open>
  The list of zones never ends without a choice: the stored zone is always among the entries, known or
  not, and is the one chosen, so the two fallbacks of the code are never reached.
\<close>
theorem zone_chosen:
  "ti_zone (insertTimezones lib sel f) = (if sel = [] then DEFAULT_TIMEZONE else sel) \<and>
   ti_zone (insertTimezones lib sel f) \<noteq> [] \<and>
   distinct (zone_options lib (ti_zone (insertTimezones lib sel f))) \<and>
   (\<exists>zs. zone_options lib (ti_zone (insertTimezones lib sel f)) = ti_zone (insertTimezones lib sel f) # zs)"
proof -
  define s where "s = (if sel = [] then DEFAULT_TIMEZONE else sel)"
  have s: "s \<noteq> []" by (simp add: s_def DEFAULT_TIMEZONE_def)
  have "s \<in> set (zone_options lib s)" by (simp add: zone_options_def)
  then have "ti_zone (insertTimezones lib sel f) = s"
    using s by (simp add: insertTimezones_def choose_entry_def s_def [symmetric] Let_def)
  then show ?thesis using s hd_js_set [of s "dl_guess lib # timezones"] by (simp add: s_def zone_options_def)
qed

end
