(* ===== verification/AdminConfig.thy ===== *)
theory AdminConfig
  imports AdminTime
begin

section \<open>The management console: the configuration\<close>

text \<open>
  The rest of \<open>pages/configs.js\<close>: saving a section, the logo and the small icon, the imports, and the tabs with
  their place in the address. \<open>URL\<close> is a parameter where an address that is no fragment is taken apart
  (\<open>url_hash\<close>); the encoding of characters in addresses is not modelled. The theme editors are not modelled but for
  the colour: the page has no such editor.
\<close>

subsection \<open>Saving a section\<close>

definition mail_credentials :: "jsval \<Rightarrow> jsval" where
  "mail_credentials obj =
     (if oget obj ''mail_useauth'' = BoolV False
      then set_field ''mail_password'' Null (set_field ''mail_username'' Null obj)
      else (let o1 = (if oget obj ''mail_username'' = Str [] then del_field ''mail_username'' obj else obj)
            in if oget o1 ''mail_password'' = Str [] then del_field ''mail_password'' o1 else o1))"

definition config_value :: "jsval \<Rightarrow> jsval" where
  "config_value v = (if v = Str ''true'' then BoolV True else if v = Str ''false'' then BoolV False else v)"

definition config_params :: "jsval \<Rightarrow> jsval" where
  "config_params obj = fold (\<lambda>(k, v) p. set_field k (config_value v) p) (obj_fields obj) (Obj [])"

definition saved_config :: "form_data \<Rightarrow> jsval" where
  "saved_config form = config_params (mail_credentials (serializeJSON False form))"

definition updateConfigs :: "server \<Rightarrow> form_data \<Rightarrow> (unit, 'z adworld_scheme) action" where
  "updateConfigs srv form =
     bindM (call_api srv (patched_patch_config_list (saved_config form) (Obj []))) (\<lambda>r.
     bindM (lift (get r ''success'')) (\<lambda>ok.
       if truthy ok then upd reload
       else bindM (lift (get (oget r ''errors'') ''value'')) (\<lambda>v.
            bindM (lift (join_lines v)) (\<lambda>t. upd (show_popup ''Error!'' [Str t])))))"

subsection \<open>Logo and small icon\<close>

definition first_location :: "jsval \<Rightarrow> exn + jsval" where
  "first_location d =
     (case get d ''data'' of Inl e \<Rightarrow> Inl e
      | Inr xs \<Rightarrow> if nullish xs then Inl TypeError
          else get (case elems xs of [] \<Rightarrow> Undef | x # _ \<Rightarrow> x) ''location'')"

text \<open>The upload's answer is what the server replied to it; the setting then gets the place of the file.\<close>

definition upload_config :: "string \<Rightarrow> string \<Rightarrow> (response \<Rightarrow> string) \<Rightarrow> server \<Rightarrow> (string \<times> jsval) list \<Rightarrow>
    (unit, 'z adworld_scheme) action" where
  "upload_config setting failed status_text srv entries w =
     (let d = read_reply (snd (srv (sent w) (upload_request entries [] w)))
      in bindM (upload status_text srv entries []) (\<lambda>_.
         bindM (lift (first_location d)) (\<lambda>loc.
         bindM (ctfd_fetch srv ''PATCH'' (''/api/v1/configs/'' @ setting) (Some (Obj [(''value'', loc)]))) (\<lambda>r.
         bindM (lift (resp_json r)) (\<lambda>v.
         bindM (lift (get v ''success'')) (\<lambda>ok.
           if truthy ok then upd reload else upd (show_popup ''Error!'' [Str failed])))))) w)"

definition uploadLogo :: "(response \<Rightarrow> string) \<Rightarrow> server \<Rightarrow> (string \<times> jsval) list \<Rightarrow> (unit, 'z adworld_scheme) action" where
  "uploadLogo = upload_config ''ctf_logo'' ''Logo uploading failed!''"

definition doSmallIconUpload :: "(response \<Rightarrow> string) \<Rightarrow> server \<Rightarrow> (string \<times> jsval) list \<Rightarrow> (unit, 'z adworld_scheme) action" where
  "doSmallIconUpload = upload_config ''ctf_small_icon'' ''Icon uploading failed!''"

text \<open>What the browser finds when it loads the chosen file as an image.\<close>

datatype image = Image nat nat | Unreadable

definition smallIconUpload :: "(response \<Rightarrow> string) \<Rightarrow> server \<Rightarrow> (string \<times> image) option \<Rightarrow> (string \<times> jsval) list \<Rightarrow>
    (unit, 'z adworld_scheme) action" where
  "smallIconUpload status_text srv file entries =
     (case file of
        None \<Rightarrow> upd (show_popup ''Error!'' [Str ''Please select a file.''])
      | Some (type, img) \<Rightarrow>
          if type \<noteq> ''image/png'' then upd (show_popup ''Invalid file type'' [Str ''Only PNG files are accepted.''])
          else case img of
              Unreadable \<Rightarrow> upd (show_popup ''Error!'' [Str ''Could not read the image file.''])
            | Image wd ht \<Rightarrow>
                if wd \<noteq> 32 \<or> ht \<noteq> 32
                then upd (show_popup ''Invalid dimensions'' [Str (''Image must be exactly 32x32px. Uploaded image is '' @
                       show_nat wd @ ''x'' @ show_nat ht @ ''px.'')])
                else doSmallIconUpload status_text srv entries)"

text \<open>Removing reloads the page whatever the server answered, as long as it can be read.\<close>

definition remove_config :: "string \<Rightarrow> string \<Rightarrow> server \<Rightarrow> bool \<Rightarrow> (unit, 'z adworld_scheme) action" where
  "remove_config setting question srv yes =
     bindM (upd (ask ''Remove logo'' question)) (\<lambda>_.
       if \<not> yes then ret ()
       else bindM (call_api srv (patched_patch_config (Obj [(''value'', Null)]) (Obj [(''configKey'', Str setting)]))) (\<lambda>_. upd reload))"

definition removeLogo :: "server \<Rightarrow> bool \<Rightarrow> (unit, 'z adworld_scheme) action" where
  "removeLogo = remove_config ''ctf_logo'' ''Are you sure you'd like to remove the CTF logo?''"

definition removeSmallIcon :: "server \<Rightarrow> bool \<Rightarrow> (unit, 'z adworld_scheme) action" where
  "removeSmallIcon = remove_config ''ctf_small_icon'' ''Are you sure you'd like to remove the small site icon?''"

subsection \<open>Imports\<close>

text \<open>
  An import sends one request; what follows are events of it: progress of the upload, the end, an
  answer with status 500, and time. \<open>im_timers\<close> are the armed timeouts with their times, in
  milliseconds of \<open>clock\<close>; \<open>im_bar\<close> is the width of the bar shown, in per cent.
\<close>

datatype import_timer = Hide_bar | Reload_page

record imworld = adworld +
  im_bar :: "rat option"
  im_timers :: "(int \<times> import_timer) list"

datatype import_event =
    Progress bool rat rat
  | Imported
  | Failed_500 string
  | Elapsed nat

definition import_request :: "string \<Rightarrow> (string \<times> jsval) list \<Rightarrow> 'z adworld_scheme \<Rightarrow> request" where
  "import_request url entries w =
     \<lparr>req_method = ''POST'', req_url = base_url w @ url, req_headers = [],
      req_body = Some (Obj (entries @ [(''nonce'', Str (ad_nonce w))]))\<rparr>"

definition importCSV :: "jsval \<Rightarrow> string \<Rightarrow> 'z imworld_scheme \<Rightarrow> 'z imworld_scheme" where
  "importCSV csv_file csv_type w =
     (let q = import_request ''/admin/import/csv'' [(''csv_file'', csv_file), (''csv_type'', Str csv_type)] w
      in (send q w)\<lparr>im_bar := Some 0\<rparr>)"

definition importConfig :: "jsval \<Rightarrow> 'z imworld_scheme \<Rightarrow> 'z imworld_scheme" where
  "importConfig import_file w = (send (import_request ''/admin/import'' [(''backup'', import_file)] w) w)\<lparr>im_bar := Some 0\<rparr>"

definition set_timeout :: "int \<Rightarrow> import_timer \<Rightarrow> 'z imworld_scheme \<Rightarrow> 'z imworld_scheme" where
  "set_timeout d t w = w\<lparr>im_timers := im_timers w @ [(clock w + d, t)]\<rparr>"

definition run_timer :: "import_timer \<Rightarrow> 'z imworld_scheme \<Rightarrow> 'z imworld_scheme" where
  "run_timer t w = (case t of Hide_bar \<Rightarrow> w\<lparr>im_bar := None\<rparr> | Reload_page \<Rightarrow> reload w)"

definition pass_time :: "nat \<Rightarrow> 'z imworld_scheme \<Rightarrow> 'z imworld_scheme" where
  "pass_time d w =
     (let now = clock w + int d; due = filter (\<lambda>(m, t). m \<le> now) (im_timers w)
      in fold (\<lambda>(m, t). run_timer t) due
           (w\<lparr>clock := now, im_timers := filter (\<lambda>(m, t). \<not> m \<le> now) (im_timers w)\<rparr>))"

fun nth_elem :: "nat \<Rightarrow> jsval \<Rightarrow> jsval" where
  "nth_elem i v = (if i < length (elems v) then elems v ! i else Undef)"

definition stringified :: "jsval \<Rightarrow> string" where
  "stringified v = (if v = Undef then ''undefined'' else json_text v)"

fun error_text :: "jsval list \<Rightarrow> exn + string" where
  "error_text [] = Inr []"
| "error_text (e # es) =
     (if nullish e then Inl TypeError
      else case error_text es of Inl x \<Rightarrow> Inl x
        | Inr t \<Rightarrow> Inr (''Line '' @ js_string (nth_elem 0 e) @ '': '' @ stringified (nth_elem 1 e) @ [CHR 0x0A] @ t))"

definition csv_errors :: "string \<Rightarrow> exn + string" where
  "csv_errors text =
     (case parse_text text of Inl e \<Rightarrow> Inl e | Inr v \<Rightarrow> if is_arr v then error_text (elems v) else Inl TypeError)"

definition show_progress :: "bool \<Rightarrow> rat \<Rightarrow> rat \<Rightarrow> 'z imworld_scheme \<Rightarrow> 'z imworld_scheme" where
  "show_progress computable loaded size_all w = (if computable then w\<lparr>im_bar := Some (loaded / size_all * 100)\<rparr> else w)"

text \<open>A handler that throws changes nothing; the bar then stays on the page.\<close>

fun csv_event :: "import_event \<Rightarrow> 'z imworld_scheme \<Rightarrow> 'z imworld_scheme" where
  "csv_event (Progress c l t) w = show_progress c l t w"
| "csv_event Imported w = set_timeout 700 Reload_page (set_timeout 500 Hide_bar (w\<lparr>im_bar := Some 100\<rparr>))"
| "csv_event (Failed_500 text) w =
     (case csv_errors text of Inl e \<Rightarrow> w
      | Inr t \<Rightarrow> set_timeout 500 Hide_bar ((show_popup ''alert'' [Str t] w)\<lparr>im_bar := Some 100\<rparr>))"
| "csv_event (Elapsed d) w = pass_time d w"

fun config_event :: "import_event \<Rightarrow> 'z imworld_scheme \<Rightarrow> 'z imworld_scheme" where
  "config_event (Progress c l t) w = show_progress c l t w"
| "config_event Imported w = goto ''/admin/import'' (w\<lparr>im_bar := Some 100\<rparr>)"
| "config_event (Failed_500 text) w = show_popup ''alert'' [Str text] w"
| "config_event (Elapsed d) w = pass_time d w"

definition exportConfig :: "string \<Rightarrow> 'z adworld_scheme \<Rightarrow> 'z adworld_scheme" where
  "exportConfig href w = w\<lparr>redirect := Some href\<rparr>"

subsection \<open>Tabs and the address\<close>

text \<open>
  The page has tabs, known by their fragments, and inner tabs in the section of some of them. What is
  shown is the tab and, for each section, its inner tab. An anchor is an outer one or one of a section.
\<close>

record tab_page =
  tp_tabs :: "string list"
  tp_inner :: "(string \<times> string list) list"

record tabs_shown =
  ts_tab :: string
  ts_inner :: "(string \<times> string) list"

record address =
  ad_params :: "(string \<times> string) list"
  ad_hash :: string

datatype anchor = Outer string | Inner string string

text \<open>\<open>querySelector\<close> on the whole page, and within the section \<open>#backup\<close>. The first anchor counts.\<close>

definition find_anchor :: "tab_page \<Rightarrow> string \<Rightarrow> anchor option" where
  "find_anchor pg h =
     (if h \<in> set (tp_tabs pg) then Some (Outer h)
      else map_option (\<lambda>(s, ts). Inner s h) (find (\<lambda>(s, ts). h \<in> set ts) (tp_inner pg)))"

definition find_in_backup :: "tab_page \<Rightarrow> string \<Rightarrow> anchor option" where
  "find_in_backup pg h =
     map_option (\<lambda>(s, ts). Inner s h) (find (\<lambda>(s, ts). s = ''#backup'' \<and> h \<in> set ts) (tp_inner pg))"

definition showTab :: "anchor option \<Rightarrow> tabs_shown \<Rightarrow> tabs_shown" where
  "showTab a v =
     (case a of None \<Rightarrow> v
      | Some (Outer h) \<Rightarrow> v\<lparr>ts_tab := h\<rparr>
      | Some (Inner s h) \<Rightarrow> v\<lparr>ts_inner := AList.update s h (ts_inner v)\<rparr>)"

text \<open>\<open>searchParams.set\<close> puts the value where the name stands first, \<open>delete\<close> removes every one of the name.\<close>

definition set_hash :: "string \<Rightarrow> string" where
  "set_hash h = (let t = (if starts_with ''#'' h then drop 1 h else h) in if t = [] then [] else ''#'' @ t)"

fun param_set :: "string \<Rightarrow> string \<Rightarrow> (string \<times> string) list \<Rightarrow> (string \<times> string) list" where
  "param_set k x [] = [(k, x)]"
| "param_set k x ((n, v) # ps) = (if n = k then (k, x) # filter (\<lambda>(m, y). m \<noteq> k) ps else (n, v) # param_set k x ps)"

definition setUrl :: "string \<Rightarrow> string \<Rightarrow> address \<Rightarrow> address" where
  "setUrl h backupTab a =
     (if backupTab \<noteq> []
      then \<lparr>ad_params = param_set ''backup_tab'' backupTab (ad_params a), ad_hash = set_hash ''#backup''\<rparr>
      else \<lparr>ad_params = filter (\<lambda>(n, v). n \<noteq> ''backup_tab'') (ad_params a), ad_hash = set_hash h\<rparr>)"

definition extractHash :: "(string \<Rightarrow> string) \<Rightarrow> string \<Rightarrow> string" where
  "extractHash url_hash href = (if href = [] then [] else if starts_with ''#'' href then href else url_hash href)"

text \<open>What the handlers of \<open>click\<close> and \<open>shown.bs.tab\<close> do; \<open>inner\<close> says whether the anchor is within \<open>#backup\<close>.\<close>

definition tab_changed :: "(string \<Rightarrow> string) \<Rightarrow> string \<Rightarrow> bool \<Rightarrow> address \<Rightarrow> address" where
  "tab_changed url_hash href inner a =
     (let target = extractHash url_hash href
      in if target = [] \<or> \<not> starts_with ''#'' target then a
         else if inner \<and> target \<noteq> ''#backup'' then setUrl [] (drop 1 target) a
         else if target = ''#backup'' then setUrl ''#backup'' [] a
         else setUrl target [] a)"

definition in_backup :: "anchor \<Rightarrow> bool" where
  "in_backup b = (case b of Outer h \<Rightarrow> False | Inner s h \<Rightarrow> s = ''#backup'')"

fun anchor_href :: "anchor \<Rightarrow> string" where
  "anchor_href (Outer h) = h"
| "anchor_href (Inner s h) = h"

text \<open>A click shows the tab; the address changes at the click and again once the tab is shown.\<close>

definition tab_click :: "(string \<Rightarrow> string) \<Rightarrow> anchor \<Rightarrow> tabs_shown \<times> address \<Rightarrow> tabs_shown \<times> address" where
  "tab_click url_hash b va =
     (let change = tab_changed url_hash (anchor_href b) (in_backup b)
      in (showTab (Some b) (fst va), change (change (snd va))))"

text \<open>
  Opening the page: \<open>first\<close> is what it shows without an address. \<open>styles.js\<close> shows, besides, the tab that was
  shown last in the same browser session, from session storage; this is not modelled.
\<close>

definition open_tabs :: "tab_page \<Rightarrow> tabs_shown \<Rightarrow> address \<Rightarrow> tabs_shown" where
  "open_tabs pg first a =
     (let backupTab = (case map_of (ad_params a) ''backup_tab'' of Some t \<Rightarrow> t | None \<Rightarrow> [])
      in if backupTab \<noteq> [] then showTab (find_in_backup pg (''#'' @ backupTab)) (showTab (find_anchor pg ''#backup'') first)
         else if ad_hash a \<noteq> [] then showTab (find_anchor pg (ad_hash a)) first
         else first)"

subsection \<open>The colour of the theme\<close>

text \<open>\<open>replace(/theme-color: (.*);/, r)\<close>: the first line with such a declaration, up to its last semicolon.\<close>

definition COLOR :: string where
  "COLOR = ''theme-color: ''"

definition NEWLINE :: char where
  "NEWLINE = CHR 0x0A"

fun replace_color :: "string \<Rightarrow> string \<Rightarrow> string" where
  "replace_color r [] = []"
| "replace_color r (c # s) =
     (let rest = drop (length COLOR) (c # s); line = takeWhile (\<lambda>x. x \<noteq> NEWLINE) rest
      in if starts_with COLOR (c # s) \<and> CHR '';'' \<in> set line
         then r @ rev (takeWhile (\<lambda>x. x \<noteq> CHR '';'') (rev line)) @ dropWhile (\<lambda>x. x \<noteq> NEWLINE) rest
         else c # replace_color r s)"

definition fresh_css :: "string \<Rightarrow> string" where
  "fresh_css hex_code =
     ''<style id=\"theme-color\">'' @ [NEWLINE] @ '':root {--theme-color: '' @ hex_code @ '';}'' @ [NEWLINE] @
     ''.navbar{background-color: var(--theme-color) !important;}'' @ [NEWLINE] @
     ''.jumbotron{background-color: var(--theme-color) !important;}'' @ [NEWLINE] @ ''</style>'' @ [NEWLINE]"

definition config_color_update :: "string \<Rightarrow> string option \<Rightarrow> string option" where
  "config_color_update hex_code editor =
     (case editor of None \<Rightarrow> None
      | Some user_css \<Rightarrow>
          Some (if user_css \<noteq> [] then replace_color (''theme-color: '' @ hex_code @ '';'') user_css else fresh_css hex_code))"

subsection \<open>Rules\<close>

lemma distinct_serializeJSON: "distinct (map fst (obj_fields (serializeJSON b f)))"
proof -
  have "distinct (map fst (obj_fields p)) \<Longrightarrow>
      distinct (map fst (obj_fields (fold (\<lambda>(n, v) p. if Q n v then p else set_field n v p) xs p)))"
    for Q and xs :: "(string \<times> jsval) list" and p
    by (induction xs arbitrary: p) (auto simp: distinct_update case_prod_unfold)
  from this [of "Obj []"] show ?thesis unfolding serializeJSON_def by simp
qed

lemma distinct_mail_credentials:
  "distinct (map fst (obj_fields obj)) \<Longrightarrow> distinct (map fst (obj_fields (mail_credentials obj)))"
  by (auto simp: mail_credentials_def del_field_def distinct_update Let_def intro!: distinct_fst_filter)

lemma config_params_fields:
  assumes "distinct (map fst (obj_fields obj))"
  shows "map_of (obj_fields (config_params obj)) k = map_option config_value (map_of (obj_fields obj) k)"
proof -
  have "distinct (map fst xs) \<Longrightarrow>
      map_of (obj_fields (fold (\<lambda>(k, v) p. set_field k (config_value v) p) xs p)) k =
      (case map_of xs k of Some v \<Rightarrow> Some (config_value v) | None \<Rightarrow> map_of (obj_fields p) k)" for xs p
  proof (induction xs arbitrary: p)
    case (Cons x xs)
    then have "map_of xs (fst x) = None" by (simp add: map_of_eq_None_iff)
    then show ?case using Cons by (auto simp: case_prod_unfold update_conv' split: option.split)
  qed simp
  from this [OF assms, of "Obj []"] show ?thesis by (simp add: config_params_def split: option.split)
qed

lemma config_value_simps [simp]:
  "config_value Undef = Undef" "config_value v = Undef \<longleftrightarrow> v = Undef" "config_value Null = Null"
  "config_value v \<noteq> Str ''true''" "config_value v \<noteq> Str ''false''"
  by (auto simp: config_value_def)

lemma oget_fields_of: "obj = Obj fs \<Longrightarrow> oget obj k = (case map_of fs k of Some v \<Rightarrow> v | None \<Rightarrow> Undef)"
  by (simp add: field_def split: option.split)

lemma config_params_obj: "\<exists>fs. config_params obj = Obj fs"
proof -
  have "\<exists>fs. fold (\<lambda>(k, v) p. set_field k (config_value v) p) xs (Obj gs) = Obj fs" for xs gs
    by (induction xs arbitrary: gs) (auto simp: set_field_def)
  then show ?thesis unfolding config_params_def .
qed

lemma param_set_get [simp]: "map_of (param_set k x ps) k = Some x"
  by (induction k x ps rule: param_set.induct) auto

lemma param_gone [simp]: "map_of (filter (\<lambda>(n, v). n \<noteq> k) ps) k = None"
  by (simp add: map_of_filter_key)

lemma oget_del_field [simp]: "oget (del_field k v) n = (if n = k then Undef else field (obj_fields v) n)"
  using map_of_del_field [of k v n] by (simp add: del_field_def field_def)

text \<open>What is sent of each field of the form.\<close>

lemma saved_field:
  "oget (saved_config form) k =
    (let o' = serializeJSON False form
     in if k = ''mail_username'' \<or> k = ''mail_password''
        then if oget o' ''mail_useauth'' = BoolV False then Null
          else if oget o' k = Str [] then Undef else config_value (oget o' k)
        else config_value (oget o' k))"
proof -
  obtain fs where o': "serializeJSON False form = Obj fs" using serializeJSON_obj by blast
  have d: "distinct (map fst fs)" using distinct_serializeJSON [of False form] o' by simp
  obtain gs where g: "saved_config form = Obj gs" using config_params_obj by (auto simp: saved_config_def)
  have "map_of gs k = map_option config_value (map_of (obj_fields (mail_credentials (Obj fs))) k)"
    using g config_params_fields [OF distinct_mail_credentials, of "Obj fs" k] d o' by (simp add: saved_config_def)
  then show ?thesis
    by (auto simp: o' g field_def mail_credentials_def Let_def update_conv' split: option.splits)
qed

definition tabs_ok :: "tab_page \<Rightarrow> bool" where
  "tabs_ok pg \<longleftrightarrow>
     ''#backup'' \<in> set (tp_tabs pg) \<and> distinct (map fst (tp_inner pg)) \<and>
     list_all (\<lambda>h. starts_with ''#'' h \<and> 1 < length h) (tp_tabs pg) \<and>
     list_all (\<lambda>(s, ts). list_all (\<lambda>h. starts_with ''#'' h \<and> 1 < length h \<and> h \<notin> set (tp_tabs pg)) ts) (tp_inner pg)"

lemma tabs_okD:
  assumes "tabs_ok pg"
  shows "''#backup'' \<in> set (tp_tabs pg)"
    "h \<in> set (tp_tabs pg) \<Longrightarrow> \<exists>x. h = ''#'' @ x \<and> x \<noteq> []"
    "(s, ts) \<in> set (tp_inner pg) \<Longrightarrow> h \<in> set ts \<Longrightarrow> h \<notin> set (tp_tabs pg) \<and> (\<exists>x. h = ''#'' @ x \<and> x \<noteq> [])"
  using assms by (fastforce simp: tabs_ok_def list_all_iff starts_with_iff)+

lemma find_section:
  assumes "distinct (map fst xs)" "(s, ts) \<in> set xs" "P ts"
  shows "find (\<lambda>(s', ts'). s' = s \<and> P ts') xs = Some (s, ts)"
  using assms by (induction xs) (auto, force)

lemma set_hash_hash: "x \<noteq> [] \<Longrightarrow> set_hash (''#'' @ x) = ''#'' @ x"
  by (simp add: set_hash_def starts_with_def)

lemma extractHash_hash [simp]: "extractHash u (''#'' @ x) = ''#'' @ x" "extractHash u (CHR ''#'' # x) = CHR ''#'' # x"
  by (simp_all add: extractHash_def starts_with_def)

lemma hash_starts [simp]: "starts_with ''#'' (CHR ''#'' # x)"
  by (simp add: starts_with_def)

lemma outer_address:
  assumes "x \<noteq> []"
  shows "ad_hash (tab_changed u (''#'' @ x) False a) = ''#'' @ x"
    "map_of (ad_params (tab_changed u (''#'' @ x) False a)) ''backup_tab'' = None"
  using assms set_hash_hash [OF assms] by (auto simp: tab_changed_def setUrl_def Let_def set_hash_def)

lemma backup_address:
  assumes "x \<noteq> []" "x \<noteq> ''backup''"
  shows "map_of (ad_params (tab_changed u (''#'' @ x) True a)) ''backup_tab'' = Some x"
  using assms by (auto simp: tab_changed_def setUrl_def Let_def)

subsection \<open>Properties\<close>

text \<open>
  Saving a section sends one request with the settings of its form: no setting is the text
  \<open>true\<close> or \<open>false\<close>, switching mail authentication off clears both credentials, and otherwise a
  credential left blank is not sent, so the stored one stays; every other field is sent as it is.
\<close>
theorem save_config:
  "sent (snd (updateConfigs srv form w)) = sent w @
     [API_request \<lparr>call_verb = ''PATCH'', call_path = ''/configs'', call_body = saved_config form, call_query = Obj []\<rparr> w] \<and>
   (oget (serializeJSON False form) ''mail_useauth'' = BoolV False \<longrightarrow>
      oget (saved_config form) ''mail_username'' = Null \<and> oget (saved_config form) ''mail_password'' = Null) \<and>
   oget (saved_config form) ''mail_password'' \<noteq> Str [] \<and>
   oget (saved_config form) k \<notin> {Str ''true'', Str ''false''} \<and>
   (k \<notin> {''mail_username'', ''mail_password''} \<longrightarrow>
      oget (saved_config form) k = config_value (oget (serializeJSON False form) k))"
proof -
  have c: "patched_patch_config_list (saved_config form) (Obj []) =
      Inr \<lparr>call_verb = ''PATCH'', call_path = ''/configs'', call_body = saved_config form, call_query = Obj []\<rparr>"
    by (simp add: patched_patch_config_list_def default_params_def merge_all_def)
  obtain x v where x: "call_api srv (patched_patch_config_list (saved_config form) (Obj [])) w = (x, v)"
    by (cases "call_api srv (patched_patch_config_list (saved_config form) (Obj [])) w")
  have "sent (snd (updateConfigs srv form w)) = sent v"
    using x by (cases x) (auto simp: updateConfigs_def bindM_def lift_def upd_def reload_def split: sum.splits)
  moreover have "sent v = sent w @ [API_request \<lparr>call_verb = ''PATCH'', call_path = ''/configs'',
      call_body = saved_config form, call_query = Obj []\<rparr> w]"
    using x call_api_sent [of srv "patched_patch_config_list (saved_config form) (Obj [])" w] c by simp
  moreover have "oget (saved_config form) ''mail_password'' \<noteq> Str []"
    by (auto simp: saved_field config_value_def Let_def split: if_splits)
  ultimately show ?thesis by (simp add: saved_field Let_def)
qed

text \<open>C40:
  A reload keeps the tab: after a click on a tab, the page opened anew shows it, and after a click on an
  inner tab of the backup section it shows that section and that inner tab. The inner tabs of other
  sections are not kept: after a click on one, the page opens on its first tab.
\<close>
theorem tab_kept:
  assumes ok: "tabs_ok pg"
  shows "(\<forall>h \<in> set (tp_tabs pg). ts_tab (open_tabs pg first (snd (tab_click u (Outer h) va))) = h) \<and>
    (\<forall>(s, ts) \<in> set (tp_inner pg). \<forall>h \<in> set ts.
       (let r = open_tabs pg first (snd (tab_click u (Inner s h) va))
        in if s = ''#backup'' then ts_tab r = ''#backup'' \<and> map_of (ts_inner r) s = Some h
           else ts_tab r = ts_tab first))"
proof (intro conjI ballI; clarify?)
  fix h assume h: "h \<in> set (tp_tabs pg)"
  then obtain x where x: "h = ''#'' @ x" "x \<noteq> []" using tabs_okD(2) [OF ok] by blast
  show "ts_tab (open_tabs pg first (snd (tab_click u (Outer h) va))) = h"
    using h x outer_address [OF x(2)]
    by (simp add: open_tabs_def tab_click_def in_backup_def find_anchor_def showTab_def Let_def)
next
  fix s ts h assume i: "(s, ts) \<in> set (tp_inner pg)" "h \<in> set ts"
  obtain x where x: "h = ''#'' @ x" "x \<noteq> []" and out: "h \<notin> set (tp_tabs pg)"
    using tabs_okD(3) [OF ok i] by blast
  let ?r = "open_tabs pg first (snd (tab_click u (Inner s h) va))"
  have "x \<noteq> ''backup''" using out x tabs_okD(1) [OF ok] by auto
  note b = backup_address [OF x(2) this]
  have f: "find_in_backup pg h = Some (Inner ''#backup'' h)" if "s = ''#backup''"
    using find_section [of "tp_inner pg" "''#backup''" ts "\<lambda>ts. h \<in> set ts"] i that ok
    by (simp add: find_in_backup_def tabs_ok_def)
  show "let r = ?r in if s = ''#backup'' then ts_tab r = ''#backup'' \<and> map_of (ts_inner r) s = Some h else ts_tab r = ts_tab first"
  proof (cases "s = ''#backup''")
    case True
    then show ?thesis using b x f [OF True] tabs_okD(1) [OF ok]
      by (simp add: open_tabs_def tab_click_def in_backup_def find_anchor_def showTab_def Let_def update_conv')
  next
    case False
    then show ?thesis using x out outer_address [OF x(2)]
      by (auto simp: open_tabs_def tab_click_def in_backup_def find_anchor_def showTab_def Let_def split: option.split)
  qed
qed

text \<open>The page of the configuration as the server writes it.\<close>

definition config_page :: tab_page where
  "config_page =
     \<lparr>tp_tabs = [''#general'', ''#logo'', ''#visibility'', ''#ctftime'', ''#pause'', ''#brackets'', ''#fields'', ''#backup'', ''#sanitize''],
      tp_inner = [(''#ctftime'', [''#start-date'', ''#end-date'', ''#freeze-date'']), (''#fields'', [''#user-fields'', ''#team-fields'']),
        (''#backup'', [''#export-ctf'', ''#import-ctf'', ''#save-csv'', ''#import-csv''])]\<rparr>"

lemma tab_kept_witness:
  "ts_tab (open_tabs config_page \<lparr>ts_tab = ''#general'', ts_inner = []\<rparr>
     (snd (tab_click (\<lambda>h. []) (Inner ''#ctftime'' ''#end-date'') (\<lparr>ts_tab = ''#ctftime'', ts_inner = []\<rparr>, \<lparr>ad_params = [], ad_hash = ''#ctftime''\<rparr>)))) =
   ''#general''"
proof -
  have "tabs_ok config_page" by (simp add: tabs_ok_def config_page_def starts_with_def)
  from tab_kept [OF this, THEN conjunct2, THEN bspec, of "(''#ctftime'', [''#start-date'', ''#end-date'', ''#freeze-date''])"
      "\<lparr>ts_tab = ''#general'', ts_inner = []\<rparr>" "\<lambda>h. []" "(\<lparr>ts_tab = ''#ctftime'', ts_inner = []\<rparr>, \<lparr>ad_params = [], ad_hash = ''#ctftime''\<rparr>)"]
  show ?thesis by (auto simp: config_page_def Let_def)
qed

text \<open>The small icon is sent only when the chosen file is a PNG of 32 by 32 pixels; everything else is refused with a text.\<close>
theorem icon_checked:
  "file \<noteq> Some (''image/png'', Image 32 32) \<Longrightarrow>
   \<exists>t b. smallIconUpload st srv file entries w = (Inr (), show_popup t [Str b] w)"
  by (auto simp: smallIconUpload_def upd_def split: option.split image.split)

text \<open>After a successful import the bar goes after half a second, and the page is loaded anew after seven tenths.\<close>
theorem import_reloads:
  "im_timers w = [] \<Longrightarrow>
   ad_reloads (csv_event (Elapsed d) (csv_event Imported w)) = ad_reloads w + (if 700 \<le> d then 1 else 0) \<and>
   im_bar (csv_event (Elapsed d) (csv_event Imported w)) = (if 500 \<le> d then None else Some 100)"
  by (simp add: set_timeout_def pass_time_def run_timer_def reload_def Let_def)

lemma replace_color_skip: "\<not> starts_with COLOR (c # s) \<Longrightarrow> replace_color r (c # s) = c # replace_color r s"
  by (simp add: Let_def)

lemma replace_color_hit:
  assumes "CHR '';'' \<notin> set c1" "NEWLINE \<notin> set c1"
  shows "replace_color r (COLOR @ c1 @ '';}'' @ NEWLINE # post) = r @ ''}'' @ NEWLINE # post"
proof -
  let ?s = "COLOR @ c1 @ '';}'' @ NEWLINE # post"
  have l: "takeWhile (\<lambda>x. x \<noteq> NEWLINE) (c1 @ '';}'' @ NEWLINE # post) = c1 @ '';}''"
    "dropWhile (\<lambda>x. x \<noteq> NEWLINE) (c1 @ '';}'' @ NEWLINE # post) = NEWLINE # post"
    using assms(2) by (induction c1) (auto simp: NEWLINE_def)
  obtain c t where c: "?s = c # t" by (simp add: COLOR_def)
  have d: "drop (length COLOR) (c # t) = c1 @ '';}'' @ NEWLINE # post" using c [symmetric] by simp
  have "starts_with COLOR (c # t)" using c [symmetric] by simp
  then show ?thesis unfolding c using d l by (simp add: Let_def)
qed

lemma fresh_css_parts: "\<exists>pre post. \<forall>c. fresh_css c = pre @ COLOR @ c @ '';}'' @ NEWLINE # post \<and>
    (\<forall>r s. replace_color r (pre @ COLOR @ s) = pre @ replace_color r (COLOR @ s))"
proof -
  let ?pre = "''<style id=\"theme-color\">'' @ [NEWLINE] @ '':root {--''"
  have "replace_color r (?pre @ COLOR @ s) = ?pre @ replace_color r (COLOR @ s)" for r s
    by (simp add: replace_color_skip starts_with_def COLOR_def NEWLINE_def del: replace_color.simps)
  moreover have "\<exists>post. \<forall>c. fresh_css c = ?pre @ COLOR @ c @ '';}'' @ NEWLINE # post"
    by (simp add: fresh_css_def COLOR_def)
  ultimately show ?thesis by blast
qed

text \<open>In the style the page writes itself, choosing a colour replaces the one chosen before and nothing else.\<close>
theorem color_replaced:
  assumes "CHR '';'' \<notin> set c1" "NEWLINE \<notin> set c1"
  shows "config_color_update c2 (config_color_update c1 (Some [])) = config_color_update c2 (Some [])"
proof -
  obtain pre post where p: "fresh_css c = pre @ COLOR @ c @ '';}'' @ NEWLINE # post"
    "replace_color r (pre @ COLOR @ s) = pre @ replace_color r (COLOR @ s)" for c r s
    using fresh_css_parts by blast
  have "fresh_css c1 \<noteq> []" by (simp add: fresh_css_def)
  moreover have "replace_color (''theme-color: '' @ c2 @ '';'') (fresh_css c1) = fresh_css c2"
    unfolding p(1) p(2) replace_color_hit [OF assms] by (simp add: COLOR_def)
  ultimately show ?thesis by (simp add: config_color_update_def)
qed

end
