(* ===== verification/AdminStats.thy ===== *)
theory AdminStats
  imports AdminChallenge Standings "HOL-Library.Product_Lexorder"
begin

section \<open>The management console: statistics\<close>

text \<open>
  \<open>pages/statistics.js\<close>: the cached analytics, the table made of them, their export as CSV, and the data of the
  graphs; titles, axes and layout of a graph are left out. The cache holds a promise, here the position of its request
  among those sent, so that several users of it share one answer. Counts and averages are numbers, as the server
  sends them; other values count as 0 in a calculation. \<open>toFixed\<close> and rounding are exact.
\<close>

subsection \<open>Numbers as texts\<close>

definition round_half_up :: "rat \<Rightarrow> int" where
  "round_half_up x = \<lfloor>x + 1 / 2\<rfloor>"

definition formatDuration :: "jsval \<Rightarrow> string" where
  "formatDuration v =
     (if nullish v then ''-''
      else let secs = max 0 (round_half_up (num_val v)); hours = secs div 3600; minutes = secs mod 3600 div 60
        in if 0 < hours then show_int hours @ ''h '' @ show_int minutes @ ''m'' else show_int minutes @ ''m'')"

definition formatPercent :: "jsval \<Rightarrow> string" where
  "formatPercent v = (if nullish v then ''-'' else toFixed 1 (num_val v) @ ''%'')"

definition formatNumber :: "jsval \<Rightarrow> nat \<Rightarrow> string" where
  "formatNumber v d = (if nullish v then ''-'' else toFixed d (num_val v))"

definition count_of :: "jsval \<Rightarrow> string \<Rightarrow> rat" where
  "count_of r k = num_val (js_or (oget r k) (Num 0))"

definition solveConversionPct :: "jsval \<Rightarrow> rat option" where
  "solveConversionPct r =
     (let attempters = count_of r ''attempter_count''; solves = count_of r ''solve_count''
      in if attempters \<le> 0 then None else Some (solves / attempters * 100))"

subsection \<open>Sorting with a comparator\<close>

text \<open>\<open>Array.sort\<close> is stable: an element stays before those that the comparator does not put before it.\<close>

fun insert_by :: "('a \<Rightarrow> 'a \<Rightarrow> rat) \<Rightarrow> 'a \<Rightarrow> 'a list \<Rightarrow> 'a list" where
  "insert_by cmp x [] = [x]"
| "insert_by cmp x (y # ys) = (if cmp x y \<le> 0 then x # y # ys else y # insert_by cmp x ys)"

definition sort_by :: "('a \<Rightarrow> 'a \<Rightarrow> rat) \<Rightarrow> 'a list \<Rightarrow> 'a list" where
  "sort_by cmp xs = foldr (insert_by cmp) xs []"

lemma insert_by_key: "(\<And>x y. cmp x y \<le> 0 \<longleftrightarrow> f x \<le> f y) \<Longrightarrow> insert_by cmp x ys = insort_key (f :: 'a \<Rightarrow> 'b :: linorder) x ys"
  by (induction ys) auto

lemma sort_by_key: "(\<And>x y. cmp x y \<le> 0 \<longleftrightarrow> f x \<le> f y) \<Longrightarrow> sort_by cmp xs = sort_key (f :: 'a \<Rightarrow> 'b :: linorder) xs"
  unfolding sort_by_def sort_key_def using insert_by_key [of cmp f] by (metis (no_types, lifting) ext)

subsection \<open>The cached analytics\<close>

record stworld = adworld +
  st_cache :: "nat option"
  st_cache_at :: int

definition analyticsEndpoint :: string where "analyticsEndpoint = ''/api/v1/statistics/challenges/analytics''"

definition analyticsCacheMs :: int where "analyticsCacheMs = 60000"

definition analytics_request :: "'z adworld_scheme \<Rightarrow> request" where
  "analytics_request w = ctfd_request ''GET'' analyticsEndpoint None w"

definition fetchChallengeAnalytics :: "bool \<Rightarrow> 'z stworld_scheme \<Rightarrow> nat \<times> 'z stworld_scheme" where
  "fetchChallengeAnalytics force w =
     (case st_cache w of
        Some i \<Rightarrow> if force \<or> analyticsCacheMs < clock w - st_cache_at w
          then (length (sent w), (send (analytics_request w) w)\<lparr>st_cache := Some (length (sent w)), st_cache_at := clock w\<rparr>)
          else (i, w)
      | None \<Rightarrow> (length (sent w), (send (analytics_request w) w)\<lparr>st_cache := Some (length (sent w)), st_cache_at := clock w\<rparr>))"

text \<open>What a promise ends with, once the server has answered.\<close>

definition promise_value :: "server \<Rightarrow> nat \<Rightarrow> 'z adworld_scheme \<Rightarrow> exn + jsval" where
  "promise_value srv i w =
     (case snd (srv (take i (sent w)) (sent w ! i)) of NetFail \<Rightarrow> Inl NetworkError | Reply r \<Rightarrow> resp_json r)"

subsection \<open>The table\<close>

definition retry_load :: "jsval \<Rightarrow> rat" where
  "retry_load r = count_of r ''avg_attempts_per_attempter''"

definition harder_first :: "jsval \<Rightarrow> jsval \<Rightarrow> rat" where
  "harder_first a b =
     (case (solveConversionPct a, solveConversionPct b) of
        (None, Some y) \<Rightarrow> 1
      | (Some x, None) \<Rightarrow> - 1
      | (Some x, Some y) \<Rightarrow> if x \<noteq> y then x - y else retry_load b - retry_load a
      | (None, None) \<Rightarrow> retry_load b - retry_load a)"

definition fraction_text :: "jsval \<Rightarrow> string" where
  "fraction_text r = show_num (count_of r ''solve_count'') @ ''/'' @ show_num (count_of r ''attempter_count'')"

definition analytics_cells :: "jsval \<Rightarrow> string list" where
  "analytics_cells r =
     (let conversion = (case solveConversionPct r of None \<Rightarrow> ''-''
            | Some c \<Rightarrow> formatPercent (Num c) @ '' ('' @ fraction_text r @ '')'');
          cap = (if truthy (oget r ''max_attempts'') \<and> 0 < num_val (oget r ''max_attempts'')
            then '' / cap '' @ js_string (oget r ''max_attempts'') else []);
          tries = (let v = oget r ''avg_attempts_per_attempter'' in if nullish v then ''-'' else formatNumber v 2 @ cap)
      in [js_string (js_or (oget r ''name'') (Str ''-'')), conversion, tries,
          formatPercent (oget r ''pct_solvers_used_hints''), formatNumber (oget r ''avg_hints_per_solve'') 2])"

datatype table = No_data | Table "string list list"

record analytics_view =
  av_table :: table
  av_most :: string
  av_least :: string

definition name_or_dash :: "jsval \<Rightarrow> string" where
  "name_or_dash v = js_string (js_or (oget v ''name'') (Str ''-''))"

definition analytics_rows :: "jsval \<Rightarrow> jsval list" where
  "analytics_rows data = elems (js_or (oget data ''challenges'') (Arr []))"

text \<open>Nothing is shown for a reply without success; a success without data throws. Rendering sorts the rows of the
  reply themselves, which the cache and so the export share: the second component is the reply it leaves.\<close>

definition renderChallengeAnalytics :: "jsval \<Rightarrow> exn + (analytics_view option \<times> jsval)" where
  "renderChallengeAnalytics reply =
     (if nullish reply \<or> \<not> truthy (oget reply ''success'') then Inr (None, reply)
      else let data = oget reply ''data'' in
        if nullish data then Inl TypeError
        else let rows = sort_by harder_first (analytics_rows data)
          in Inr (Some \<lparr>av_table = (if rows = [] then No_data else Table (map analytics_cells rows)),
                         av_most = name_or_dash (oget data ''category_most_solved''),
                         av_least = name_or_dash (oget data ''category_least_solved'')\<rparr>,
                  if rows = [] then reply else set_field ''data'' (set_field ''challenges'' (Arr rows) data) reply))"

subsection \<open>The export\<close>

definition double_quotes :: "string \<Rightarrow> string" where
  "double_quotes s = concat (map (\<lambda>c. if c = CHR 0x22 then [CHR 0x22, CHR 0x22] else [c]) s)"

definition csv_name :: "jsval \<Rightarrow> string" where
  "csv_name r = CHR 0x22 # double_quotes (js_string (oget r ''name'')) @ [CHR 0x22]"

definition csv_header :: string where
  "csv_header = ''Challenge,Solve Conversion (%),Solved,Attempted,Avg Tries/Attempter,Solvers Using Hint (%),Avg Hints/Solve,Max Attempts''"

definition csv_cell :: "jsval \<Rightarrow> string" where
  "csv_cell v = (if nullish v then [] else js_string v)"

definition csv_line :: "jsval \<Rightarrow> string" where
  "csv_line r =
     join '',''
       [csv_name r,
        (case solveConversionPct r of None \<Rightarrow> [] | Some c \<Rightarrow> toFixed 1 c),
        show_num (count_of r ''solve_count''), show_num (count_of r ''attempter_count''),
        csv_cell (oget r ''avg_attempts_per_attempter''), csv_cell (oget r ''pct_solvers_used_hints''),
        csv_cell (oget r ''avg_hints_per_solve''), js_string (js_nn (oget r ''max_attempts'') (Num 0))]"

definition exportChallengeAnalytics :: "jsval \<Rightarrow> string option" where
  "exportChallengeAnalytics reply =
     (if nullish reply \<or> \<not> truthy (oget reply ''success'') then None
      else Some (join [CHR 0x0A] (csv_header # map csv_line (analytics_rows (oget reply ''data'')))))"

subsection \<open>The data of the graphs\<close>

definition descending :: "('a \<Rightarrow> jsval) \<Rightarrow> 'a \<Rightarrow> 'a \<Rightarrow> rat" where
  "descending f a b = num_val (f b) - num_val (f a)"

definition solves_graph :: "jsval \<Rightarrow> (jsval \<times> jsval) list" where
  "solves_graph data =
     (let solves = fold (\<lambda>c o'. set_field (js_string (oget c ''id''))
            (Obj [(''name'', oget c ''name''), (''solves'', oget c ''solves'')]) o') (elems data) (Obj [])
      in map (\<lambda>(k, v). (oget v ''name'', oget v ''solves'')) (sort_by (descending (\<lambda>(k, v). oget v ''solves'')) (entries solves)))"

definition keys_pie_graph :: "jsval \<Rightarrow> (string \<times> jsval) list" where
  "keys_pie_graph data = [(''Fails'', oget data ''incorrect''), (''Solves'', oget data ''correct'')]"

definition categories_pie_graph :: "jsval \<Rightarrow> (jsval \<times> jsval) list" where
  "categories_pie_graph data =
     map (\<lambda>(k, v). (Str k, v)) (entries data) @ map (\<lambda>d. (oget d ''category'', oget d ''count'')) (elems data)"

definition category_solves_graph :: "jsval \<Rightarrow> (string \<times> jsval) list" where
  "category_solves_graph reply = sort_by (descending snd) (entries (js_or (oget (oget reply ''data'') ''categories'') (Obj [])))"

definition percentages_graph :: "jsval \<Rightarrow> (jsval \<times> rat \<times> string) list" where
  "percentages_graph data =
     map (\<lambda>(k, d). let p = num_val (oget d ''percentage'') * 100 in (oget d ''name'', p, show_int (round_half_up p) @ ''%''))
       (entries data)"

definition solve_time_graph :: "jsval \<Rightarrow> (jsval \<times> int) list" where
  "solve_time_graph reply =
     map (\<lambda>(n, v). (n, round_half_up (num_val v / 60)))
       (take 20 (sort_by (descending snd)
         (map (\<lambda>r. (oget r ''name'', oget r ''avg_solve_seconds''))
           (filter (\<lambda>r. oget r ''avg_solve_seconds'' \<noteq> Null) (analytics_rows (oget reply ''data''))))))"

definition wrong_attempts_graph :: "jsval \<Rightarrow> (jsval \<times> jsval) list" where
  "wrong_attempts_graph reply =
     take 20 (sort_by (descending snd)
       (map (\<lambda>r. (oget r ''name'', js_or (oget r ''wrong_attempts'') (Num 0))) (analytics_rows (oget reply ''data''))))"

text \<open>The ranges of scores: each starts where the one before it ends.\<close>

fun score_ranges :: "string \<Rightarrow> jsval \<Rightarrow> rat list \<Rightarrow> (string \<times> jsval) list" where
  "score_ranges start data [] = []"
| "score_ranges start data (k # ks) =
     (start @ '' - '' @ show_num k, oget data (show_num k)) # score_ranges (show_num k) data ks"

definition distribution_graph :: "jsval \<Rightarrow> (string \<times> jsval) list" where
  "distribution_graph data = score_ranges ''<0'' data (sort_by (\<lambda>a b. a - b) (map (\<lambda>(k, v). num_val (parseInt k)) (entries data)))"

subsection \<open>Use of the cache\<close>

text \<open>
  The page's requests with the time on the clock when each was sent. Only \<open>fetchChallengeAnalytics\<close> asks for
  the analytics; what else the page sends is any other request.
\<close>

inductive st_step :: "'z stworld_scheme \<Rightarrow> 'z stworld_scheme \<Rightarrow> bool" where
  use: "st_step w (snd (fetchChallengeAnalytics force w))"
| other: "q \<noteq> analytics_request w \<Longrightarrow> st_step w (send q w)"
| wait: "0 \<le> d \<Longrightarrow> st_step w (w\<lparr>clock := clock w + d\<rparr>)"

definition logged :: "'z stworld_scheme \<Rightarrow> 'z stworld_scheme \<Rightarrow> int list \<Rightarrow> int list" where
  "logged w v ts = ts @ replicate (length (sent v) - length (sent w)) (clock w)"

inductive st_log :: "'z stworld_scheme \<Rightarrow> 'z stworld_scheme \<Rightarrow> int list \<Rightarrow> bool" where
  here: "st_log w w []"
| more: "st_log w v ts \<Longrightarrow> st_step v u \<Longrightarrow> st_log w u (logged v u ts)"

definition cache_ok :: "'z stworld_scheme \<Rightarrow> int list \<Rightarrow> bool" where
  "cache_ok w ts = (length ts = length (sent w) \<and>
     (case st_cache w of None \<Rightarrow> analytics_request w \<notin> set (sent w)
      | Some i \<Rightarrow> i < length ts \<and> sent w ! i = analytics_request w \<and> ts ! i = st_cache_at w \<and> st_cache_at w \<le> clock w \<and>
          (\<forall>j < length ts. sent w ! j = analytics_request w \<longrightarrow> ts ! j \<le> st_cache_at w)))"

lemma st_send [simp]:
  "st_cache (send q w) = st_cache w" "st_cache_at (send q w) = st_cache_at w" "analytics_request (send q w) = analytics_request w"
  by (simp_all add: send_def analytics_request_def ctfd_request_def ctfd_headers_def)

lemma analytics_request_cong:
  "base_url v = base_url w \<Longrightarrow> ad_nonce v = ad_nonce w \<Longrightarrow> analytics_request v = analytics_request w"
  unfolding analytics_request_def by (rule ctfd_request_cong)

lemma analytics_request_upd [simp]:
  "analytics_request (w\<lparr>st_cache := c, st_cache_at := t\<rparr>) = analytics_request w"
  "analytics_request (w\<lparr>clock := t\<rparr>) = analytics_request w"
  by (rule analytics_request_cong; simp)+

text \<open>The two outcomes: the promise that is kept, or a new one.\<close>

lemma fetch_analytics_cases:
  assumes "fetchChallengeAnalytics force w = (i, v)"
  obtains "\<not> force" "st_cache w = Some i" "clock w - st_cache_at w \<le> 60000" "v = w"
  | "force \<or> st_cache w = None \<or> 60000 < clock w - st_cache_at w" "i = length (sent w)"
    "v = (send (analytics_request w) w)\<lparr>st_cache := Some i, st_cache_at := clock w\<rparr>"
proof (cases "force \<or> st_cache w = None \<or> 60000 < clock w - st_cache_at w")
  case True
  then have "fetchChallengeAnalytics force w = (length (sent w),
      (send (analytics_request w) w)\<lparr>st_cache := Some (length (sent w)), st_cache_at := clock w\<rparr>)"
    by (cases "st_cache w") (auto simp: fetchChallengeAnalytics_def analyticsCacheMs_def)
  with assms show thesis by (intro that(2) [OF True]) auto
next
  case False
  then obtain k where "st_cache w = Some k" by auto
  with False have "fetchChallengeAnalytics force w = (k, w)"
    by (simp add: fetchChallengeAnalytics_def analyticsCacheMs_def)
  then have "i = k" "v = w" using assms by simp_all
  then show thesis using that(1) False \<open>st_cache w = Some k\<close> by simp
qed

lemma cache_ok_new:
  assumes "cache_ok w ts"
  shows "cache_ok ((send (analytics_request w) w)\<lparr>st_cache := Some (length (sent w)), st_cache_at := clock w\<rparr>) (ts @ [clock w])"
  using assms by (auto simp: cache_ok_def nth_append less_Suc_eq in_set_conv_nth split: option.splits)

lemma cache_ok_step: "st_step w v \<Longrightarrow> cache_ok w ts \<Longrightarrow> cache_ok v (logged w v ts)"
proof (induction rule: st_step.induct)
  case (use w force)
  obtain i v where f: "fetchChallengeAnalytics force w = (i, v)" by (cases "fetchChallengeAnalytics force w")
  from f show ?case
  proof (cases rule: fetch_analytics_cases)
    case 1
    then show ?thesis using f use by (simp add: logged_def)
  next
    case 2
    then have "logged w v ts = ts @ [clock w]" by (simp add: logged_def)
    then show ?thesis using 2(2,3) f cache_ok_new [OF use] by simp
  qed
next
  case (other q w)
  then show ?case by (auto simp: cache_ok_def logged_def nth_append less_Suc_eq split: option.splits)
next
  case (wait d w)
  then show ?case by (auto simp: cache_ok_def logged_def split: option.splits)
qed

lemma cache_ok_log: "st_log w v ts \<Longrightarrow> sent w = [] \<Longrightarrow> st_cache w = None \<Longrightarrow> cache_ok v ts"
  by (induction rule: st_log.induct) (auto simp: cache_ok_step, simp add: cache_ok_def)

subsection \<open>Rules\<close>

definition hardness :: "jsval \<Rightarrow> bool \<times> rat \<times> rat" where
  "hardness r = (solveConversionPct r = None, case solveConversionPct r of None \<Rightarrow> 0 | Some c \<Rightarrow> c, - retry_load r)"

lemma harder_first_key: "harder_first a b \<le> 0 \<longleftrightarrow> hardness a \<le> hardness b"
  by (auto simp: harder_first_def hardness_def less_eq_prod_def split: option.splits)

lemma sort_harder_first: "sort_by harder_first rs = sort_key hardness rs"
  by (rule sort_by_key) (rule harder_first_key)

fun read_quoted :: "string \<Rightarrow> (string \<times> string) option" where
  "read_quoted (c # d # s) =
     (if c \<noteq> CHR 0x22 then map_option (\<lambda>(a, b). (c # a, b)) (read_quoted (d # s))
      else if d = CHR 0x22 then map_option (\<lambda>(a, b). (c # a, b)) (read_quoted s)
      else Some ([], d # s))"
| "read_quoted [c] = (if c = CHR 0x22 then Some ([], []) else None)"
| "read_quoted [] = None"

lemma read_double_quotes:
  "d \<noteq> CHR 0x22 \<Longrightarrow> read_quoted (double_quotes s @ CHR 0x22 # d # t) = Some (s, d # t)"
proof (induction s)
  case (Cons c s)
  show ?case
  proof (cases "c = CHR 0x22")
    case True
    then show ?thesis using Cons by (simp add: double_quotes_def)
  next
    case False
    obtain e u where "double_quotes s @ CHR 0x22 # d # t = e # u" by (cases "double_quotes s @ CHR 0x22 # d # t") auto
    then show ?thesis using False Cons by (simp add: double_quotes_def)
  qed
qed (simp add: double_quotes_def)

lemma render_ok: "\<not> nullish reply \<Longrightarrow> truthy (oget reply ''success'') \<Longrightarrow> \<not> nullish (oget reply ''data'') \<Longrightarrow>
    \<exists>view reply'. renderChallengeAnalytics reply = Inr (Some view, reply')"
  by (simp add: renderChallengeAnalytics_def Let_def)

lemma minutes_split: "60 * (s div 3600) + s mod 3600 div 60 = (s :: int) div 60"
proof -
  have "s mod (60 * 60) = 60 * (s div 60 mod 60) + s mod 60" by (rule zmod_zmult2_eq) simp
  then have "s mod 3600 div 60 = s div 60 mod 60" by simp
  moreover have "s div 3600 = s div 60 div 60" using zdiv_zmult2_eq [of 60 s 60] by simp
  ultimately show ?thesis by simp
qed

lemma minutes_bound: "(s :: int) mod 3600 div 60 < 60" "0 \<le> s mod 3600 div 60" "0 \<le> s \<Longrightarrow> 0 \<le> s div 3600"
proof -
  have "s mod 3600 < 60 * 60" "0 \<le> s mod 3600" by simp_all
  then show "s mod 3600 div 60 < 60" "0 \<le> s mod 3600 div 60" by linarith+
  show "0 \<le> s \<Longrightarrow> 0 \<le> s div 3600" by linarith
qed

subsection \<open>Properties\<close>

text \<open>C38: The analytics are asked for once a minute at most, unless forced. In every run since the page was
  loaded, with the time at which each request was sent: whoever needs them gets the answer to a request of the
  analytics that was sent at most a minute ago, and a new request goes out exactly if it is forced or every
  request of the analytics so far was sent more than a minute ago.\<close>
theorem analytics_shared:
  assumes "st_log w u ts" "sent w = []" "st_cache w = None" "fetchChallengeAnalytics force u = (i, v)"
  shows "i < length (sent v) \<and> sent v ! i = analytics_request v \<and> clock v - logged u v ts ! i \<le> 60000 \<and>
    sent v = sent u @ (if force \<or> (\<forall>j < length (sent u). sent u ! j = analytics_request u \<longrightarrow> 60000 < clock u - ts ! j)
      then [analytics_request u] else [])"
proof -
  have ok: "cache_ok u ts" using cache_ok_log assms(1-3) by blast
  from assms(4) show ?thesis
  proof (cases rule: fetch_analytics_cases)
    case 1
    then have "i < length ts" "length ts = length (sent u)" "sent u ! i = analytics_request u" "ts ! i = st_cache_at u"
      using ok by (auto simp: cache_ok_def)
    then show ?thesis using 1 by (auto simp: logged_def)
  next
    case 2
    have "force \<or> (\<forall>j < length (sent u). sent u ! j = analytics_request u \<longrightarrow> 60000 < clock u - ts ! j)"
    proof (cases "force")
      case False
      have "60000 < clock u - ts ! j" if "j < length (sent u)" "sent u ! j = analytics_request u" for j
      proof (cases "st_cache u")
        case None
        then show ?thesis using ok that nth_mem [OF that(1)] by (simp add: cache_ok_def)
      next
        case (Some k)
        then have "ts ! j \<le> st_cache_at u" "60000 < clock u - st_cache_at u"
          using ok that 2(1) False by (auto simp: cache_ok_def)
        then show ?thesis by simp
      qed
      then show ?thesis by blast
    qed blast
    moreover have "length ts = length (sent u)" using ok by (simp add: cache_ok_def)
    ultimately show ?thesis using 2(2,3) by (auto simp: logged_def nth_append)
  qed
qed

definition stats0 :: stworld where
  "stats0 = \<lparr>store = [], clock = 100, sent = [], path = ''/admin/statistics'', redirect = None, popups = [], fired = [],
     base_url = [], ad_nonce = ''n'', ad_reloads = 0, ad_exporting = False, ad_saved = [], ad_dropdown = False,
     ad_include = False, ad_include_disabled = False, ad_warning = False, ad_busy = False, st_cache = None, st_cache_at = 0\<rparr>"

theorem analytics_shared_witness:
  "let u = (snd (fetchChallengeAnalytics False stats0))\<lparr>clock := 60100\<rparr>;
       late = (snd (fetchChallengeAnalytics False stats0))\<lparr>clock := 60101\<rparr> in
   sent (snd (fetchChallengeAnalytics False u)) = sent u \<and>
   sent (snd (fetchChallengeAnalytics False late)) = sent late @ [analytics_request late]"
proof -
  define u0 where "u0 = snd (fetchChallengeAnalytics False stats0)"
  have u0: "clock u0 = 100" "sent u0 = [analytics_request u0]"
    by (simp_all add: u0_def fetchChallengeAnalytics_def stats0_def)
  have start: "sent stats0 = []" "st_cache stats0 = None" by (simp_all add: stats0_def)
  have "st_log stats0 u0 (logged stats0 u0 [])"
    unfolding u0_def by (rule st_log.more [OF st_log.here use])
  moreover have "logged stats0 u0 [] = [100]" using u0(2) by (simp add: logged_def stats0_def)
  ultimately have log: "st_log stats0 u0 [100]" by simp
  have r: "st_log stats0 (u0\<lparr>clock := 100 + d\<rparr>) [100]" if "0 \<le> d" for d
    using st_log.more [OF log wait [OF that]] u0 by (simp add: logged_def)
  note step = analytics_shared [OF r start, where force = False]
  show ?thesis
    using step [of 60000 "fst (fetchChallengeAnalytics False (u0\<lparr>clock := 60100\<rparr>))" "snd (fetchChallengeAnalytics False (u0\<lparr>clock := 60100\<rparr>))"]
      step [of 60001 "fst (fetchChallengeAnalytics False (u0\<lparr>clock := 60101\<rparr>))" "snd (fetchChallengeAnalytics False (u0\<lparr>clock := 60101\<rparr>))"]
      u0 by (simp add: Let_def flip: u0_def)
qed

text \<open>The table is in the order its comparator asks for: the rows are those of the reply, no row comes before one
  that is harder, and rows that are equally hard keep the order of the reply.\<close>
theorem table_order:
  assumes "renderChallengeAnalytics reply = Inr (Some view, reply')" "analytics_rows (oget reply ''data'') \<noteq> []"
  shows "\<exists>rows. av_table view = Table (map analytics_cells rows) \<and>
    mset rows = mset (analytics_rows (oget reply ''data'')) \<and>
    (\<forall>i j. i < j \<longrightarrow> j < length rows \<longrightarrow> harder_first (rows ! i) (rows ! j) \<le> 0) \<and>
    (\<forall>k. filter (\<lambda>r. hardness r = k) rows = filter (\<lambda>r. hardness r = k) (analytics_rows (oget reply ''data''))) \<and>
    exportChallengeAnalytics reply' = Some (join [CHR 0x0A] (csv_header # map csv_line rows))"
proof -
  let ?rs = "analytics_rows (oget reply ''data'')"
  define rows where "rows = sort_key hardness ?rs"
  have ne: "rows \<noteq> []" using assms(2) by (metis rows_def length_0_conv length_sort)
  have ok: "\<not> nullish reply" "truthy (oget reply ''success'')"
    and view: "av_table view = Table (map analytics_cells rows)"
    and reply': "reply' = set_field ''data'' (set_field ''challenges'' (Arr rows) (oget reply ''data'')) reply"
    using assms(1) ne by (auto simp: renderChallengeAnalytics_def Let_def sort_harder_first rows_def split: if_splits)
  have "harder_first (rows ! i) (rows ! j) \<le> 0" if "i < j" "j < length rows" for i j
  proof -
    have "sorted (map hardness rows)" by (simp add: rows_def)
    then have "map hardness rows ! i \<le> map hardness rows ! j" using that by (intro sorted_nth_mono) simp_all
    then show ?thesis using that by (simp add: harder_first_key)
  qed
  moreover have "filter (\<lambda>r. hardness r = k) rows = filter (\<lambda>r. hardness r = k) ?rs" for k
    unfolding rows_def by (rule sort_key_stable)
  moreover have "exportChallengeAnalytics reply' = Some (join [CHR 0x0A] (csv_header # map csv_line rows))"
    using ok ne by (cases reply) (simp_all add: reply' exportChallengeAnalytics_def analytics_rows_def set_field_def field_def
        update_conv' nullish_def js_or_def split: option.splits)
  ultimately show ?thesis using view by (intro exI [of _ rows]) (simp add: rows_def)
qed

text \<open>C39: The export can be read back: the first field of a line, in quotes, gives the challenge's name exactly, whatever
  quotes and commas it has.\<close>
theorem csv_name_back:
  "\<exists>line rest. csv_line r = CHR 0x22 # line \<and> read_quoted line = Some (js_string (oget r ''name''), CHR '','' # rest)"
proof -
  obtain rest where "csv_line r = csv_name r @ CHR '','' # rest" by (auto simp: csv_line_def)
  moreover have "read_quoted (double_quotes (js_string (oget r ''name'')) @ CHR 0x22 # CHR '','' # rest) =
      Some (js_string (oget r ''name''), CHR '','' # rest)"
    by (rule read_double_quotes) simp
  ultimately show ?thesis by (simp add: csv_name_def)
qed

definition two_rows :: jsval where
  "two_rows = Obj [(''success'', BoolV True), (''data'', Obj [(''challenges'', Arr
     [Obj [(''name'', Str ''easy''), (''solve_count'', Num 9), (''attempter_count'', Num 10)],
      Obj [(''name'', Str ''hard''), (''solve_count'', Num 1), (''attempter_count'', Num 10)]])])]"

theorem table_order_witness:
  "\<exists>(view :: analytics_view) rows. av_table view = Table (map analytics_cells rows) \<and> length rows = 2 \<and> harder_first (rows ! 0) (rows ! 1) \<le> 0"
proof -
  have rs: "length (analytics_rows (oget two_rows ''data'')) = 2"
    by (simp add: two_rows_def analytics_rows_def field_def js_or_def)
  then have ne: "analytics_rows (oget two_rows ''data'') \<noteq> []" by auto
  obtain view reply' where run: "renderChallengeAnalytics two_rows = Inr (Some view, reply')"
  proof -
    have "\<not> nullish two_rows" "truthy (oget two_rows ''success'')" "\<not> nullish (oget two_rows ''data'')"
      by (simp_all add: two_rows_def field_def nullish_def)
    from render_ok [OF this] show thesis using that by blast
  qed
  from table_order [OF run ne] obtain rows where rows: "av_table view = Table (map analytics_cells rows)"
    "mset rows = mset (analytics_rows (oget two_rows ''data''))"
    "\<forall>i j. i < j \<longrightarrow> j < length rows \<longrightarrow> harder_first (rows ! i) (rows ! j) \<le> 0"
    by blast
  have l: "length rows = 2" using mset_eq_length [OF rows(2)] rs by simp
  have "harder_first (rows ! 0) (rows ! 1) \<le> 0" using rows(3) [rule_format, of 0 1] l by simp
  then show ?thesis using rows(1) l by blast
qed

text \<open>A duration is shown in whole minutes, rounded down from the nearest second, with at most 59 minutes beside the hours.\<close>
theorem duration_shown:
  "\<exists>h m. 0 \<le> h \<and> 0 \<le> m \<and> m < 60 \<and> 60 * h + m = max 0 (round_half_up x) div 60 \<and>
     formatDuration (Num x) = (if 0 < h then show_int h @ ''h '' else []) @ show_int m @ ''m''"
proof -
  define secs where "secs = max 0 (round_half_up x)"
  have "0 \<le> secs" by (simp add: secs_def)
  have f: "formatDuration (Num x) = (if 0 < secs div 3600 then show_int (secs div 3600) @ ''h '' else []) @
      show_int (secs mod 3600 div 60) @ ''m''"
  proof -
    have n: "nullish (Num x) = False" and v: "num_val (Num x) = x" by (simp_all add: nullish_def num_val_def)
    show ?thesis unfolding formatDuration_def n v Let_def secs_def [symmetric]
      by (cases "0 < secs div 3600") (simp_all only: if_True if_False append.simps append_assoc)
  qed
  show ?thesis unfolding secs_def [symmetric] f
    using minutes_split [of secs] minutes_bound [of secs] \<open>0 \<le> secs\<close> by (intro exI conjI) (assumption | rule refl)+
qed

end
