(* ===== verification/AdminWidgets.thy ===== *)
theory AdminWidgets
  imports AdminConfig AdminStats
begin

section \<open>The management console: tables, tabs, texts and comments\<close>

text \<open>
  What every page of the admin theme gets from \<open>styles.js\<close>, \<open>String.format\<close> of \<open>compat/format.js\<close>, and the
  comments of \<open>compat/helpers.js\<close>. A table is the list of its rows below the heading, a row the texts of its
  cells. \<open>localeCompare\<close> is a parameter; the editors and widgets of other libraries are not modelled.
\<close>

subsection \<open>Sortable tables\<close>

record table_state =
  ta_rows :: "string list list"
  ta_asc :: "nat \<Rightarrow> bool"

definition cell_value :: "string list \<Rightarrow> nat \<Rightarrow> string" where
  "cell_value r i = (if i < length r then r ! i else [])"

definition isNumeric :: "string \<Rightarrow> bool" where
  "isNumeric s = (trim s \<noteq> [] \<and> str_num s \<noteq> None)"

definition comparer :: "(string \<Rightarrow> string \<Rightarrow> rat) \<Rightarrow> nat \<Rightarrow> string list \<Rightarrow> string list \<Rightarrow> rat" where
  "comparer localeCompare i a b =
     (let x = cell_value a i; y = cell_value b i
      in if isNumeric x \<and> isNumeric y then the (str_num x) - the (str_num y) else localeCompare x y)"

definition sort_click :: "(string \<Rightarrow> string \<Rightarrow> rat) \<Rightarrow> nat \<Rightarrow> table_state \<Rightarrow> table_state" where
  "sort_click localeCompare i t =
     (let rows = sort_by (comparer localeCompare i) (ta_rows t); asc = (\<not> ta_asc t i)
      in t\<lparr>ta_asc := (ta_asc t)(i := asc), ta_rows := (if asc then rows else rev rows)\<rparr>)"

text \<open>The box in the heading of a column sets the boxes of that column.\<close>

definition check_all :: "bool \<Rightarrow> nat \<Rightarrow> (nat \<times> nat \<times> bool) list \<Rightarrow> (nat \<times> nat \<times> bool) list" where
  "check_all checked i boxes = map (\<lambda>(r, c, b). (r, c, if c = i then checked else b)) boxes"

definition page_select :: "string \<Rightarrow> (string \<times> string) list \<Rightarrow> (string \<times> string) list" where
  "page_select v ps = param_set ''page'' v ps"

subsection \<open>The tab shown last\<close>

text \<open>Session storage holds the fragment of the tab; \<open>hrefs\<close> are those of the page, \<open>shown\<close> the one in view.\<close>

definition tab_shown :: "string \<Rightarrow> storage \<Rightarrow> storage" where
  "tab_shown href s = set_item ''activeTab'' (Raw href) s"

definition restore_tab :: "string list \<Rightarrow> string \<Rightarrow> storage \<Rightarrow> string \<times> storage" where
  "restore_tab hrefs shown s =
     (case get_item s ''activeTab'' of
        None \<Rightarrow> (shown, s)
      | Some v \<Rightarrow>
          if item_text v = [] then (shown, s)
          else if item_text v \<in> set hrefs then (item_text v, tab_shown (item_text v) s)
          else (shown, remove_item ''activeTab'' s))"

subsection \<open>Texts with places\<close>

text \<open>
  \<open>s.replace(/{i}/gm, a)\<close>: every place, with the patterns of the replacement expanded; \<open>pre\<close> is what
  stands before in the whole text. The places are filled from the last to the first.
\<close>

lemma find_sub_parts: "find_sub p s = Some (a, b) \<Longrightarrow> s = a @ p @ b"
  by (induction p s arbitrary: a rule: find_sub.induct) (auto simp: starts_with_iff split: if_splits)

function replace_all :: "string \<Rightarrow> string \<Rightarrow> string \<Rightarrow> string \<Rightarrow> string" where
  "replace_all pre p r s =
     (if p = [] then s
      else case find_sub p s of
          None \<Rightarrow> s
        | Some (a, b) \<Rightarrow> a @ substitution (pre @ a) p b r @ replace_all (pre @ a @ p) p r b)"
  by pat_completeness auto
termination
  by (relation "measure (\<lambda>(pre, p, r, s). length s)") (auto dest!: find_sub_parts)

declare replace_all.simps [simp del]

definition place_text :: "nat \<Rightarrow> string" where
  "place_text i = ''{'' @ show_nat i @ ''}''"

definition js_format :: "string \<Rightarrow> string list \<Rightarrow> string" where
  "js_format s args = fold (\<lambda>i t. replace_all [] (place_text i) (args ! i) t) (rev [0..<length args]) s"

subsection \<open>Comments\<close>

definition get_comments :: "server \<Rightarrow> (string \<times> string) list \<Rightarrow> (jsval, 'z adworld_scheme) action" where
  "get_comments srv extra =
     bindM (ctfd_fetch srv ''GET'' (''/api/v1/comments?'' @ search_string extra) None) (\<lambda>r. lift (resp_json r))"

definition add_comment :: "server \<Rightarrow> string \<Rightarrow> string \<Rightarrow> (string \<times> jsval) list \<Rightarrow> (jsval \<Rightarrow> (unit, 'z adworld_scheme) action) option \<Rightarrow>
    (unit, 'z adworld_scheme) action" where
  "add_comment srv comment type extra cb =
     bindM (ctfd_fetch srv ''POST'' ''/api/v1/comments''
              (Some (fold (\<lambda>(k, v) b. set_field k v b) extra (Obj [(''content'', Str comment), (''type'', Str type)])))) (\<lambda>r.
     bindM (lift (resp_json r)) (\<lambda>d. case cb of Some f \<Rightarrow> f d | None \<Rightarrow> ret ()))"

definition delete_comment :: "server \<Rightarrow> string \<Rightarrow> (jsval, 'z adworld_scheme) action" where
  "delete_comment srv i =
     bindM (ctfd_fetch srv ''DELETE'' (''/api/v1/comments/'' @ i) None) (\<lambda>r. lift (resp_json r))"

subsection \<open>Properties\<close>

lemma insert_by_on:
  "(\<And>y. y \<in> set ys \<Longrightarrow> cmp x y \<le> 0 \<longleftrightarrow> f x \<le> f y) \<Longrightarrow> insert_by cmp x ys = insort_key (f :: 'a \<Rightarrow> 'b :: linorder) x ys"
  by (induction ys) auto

lemma sort_by_on:
  "(\<And>x y. x \<in> set xs \<Longrightarrow> y \<in> set xs \<Longrightarrow> cmp x y \<le> 0 \<longleftrightarrow> f x \<le> f y) \<Longrightarrow>
   sort_by cmp xs = sort_key (f :: 'a \<Rightarrow> 'b :: linorder) xs"
proof (induction xs)
  case (Cons x xs)
  then have "sort_by cmp xs = sort_key f xs" by simp
  then show ?case using Cons.prems insert_by_on [of "sort_key f xs" cmp x f] by (simp add: sort_by_def)
qed (simp add: sort_by_def)

lemma sort_key_again: "sort_key (f :: 'a \<Rightarrow> 'b :: linorder) (sort_key f xs) = sort_key f xs"
proof -
  have "sorted (map f ys) \<Longrightarrow> sort_key f ys = ys" for ys by (induction ys) (auto intro: insort_is_Cons)
  then show ?thesis by simp
qed

lemma sort_by_numbers:
  "\<forall>r \<in> set tr. isNumeric (cell_value r i) \<Longrightarrow>
   sort_by (comparer lc i) tr = sort_key (\<lambda>r. the (str_num (cell_value r i))) tr"
  by (rule sort_by_on) (auto simp: comparer_def Let_def)

text \<open>
  A column of numbers is sorted by a click on its heading, rows of equal numbers keeping their order, and
  the next click turns it round; the rows stay the same rows.
\<close>
theorem column_sorted:
  assumes "\<forall>r \<in> set (ta_rows t). isNumeric (cell_value r i)" "\<not> ta_asc t i"
  defines "num \<equiv> \<lambda>r. the (str_num (cell_value r i))"
  shows "ta_rows (sort_click lc i t) = sort_key num (ta_rows t) \<and>
    ta_rows (sort_click lc i (sort_click lc i t)) = rev (sort_key num (ta_rows t))"
proof -
  have first: "ta_rows (sort_click lc i t) = sort_key num (ta_rows t)" "ta_asc (sort_click lc i t) i"
    using sort_by_numbers [OF assms(1)] assms(2) by (simp_all add: sort_click_def num_def Let_def)
  have "\<forall>r \<in> set (sort_key num (ta_rows t)). isNumeric (cell_value r i)" using assms(1) by simp
  from sort_by_numbers [OF this, of lc]
  have "sort_by (comparer lc i) (ta_rows (sort_click lc i t)) = sort_key num (ta_rows t)"
    using sort_key_again [of num "ta_rows t"] by (simp add: first num_def)
  then show ?thesis using first by (simp add: sort_click_def [of lc i "sort_click lc i t"] Let_def)
qed

text \<open>The tab shown last is shown again when the page opens, as long as the page still has it; otherwise it is forgotten.\<close>
theorem tab_restored:
  "h \<noteq> [] \<Longrightarrow> restore_tab hrefs first (tab_shown h s) =
     (if h \<in> set hrefs then (h, tab_shown h (tab_shown h s)) else (first, remove_item ''activeTab'' (tab_shown h s)))"
  by (simp add: restore_tab_def tab_shown_def)

lemma place_zero: "place_text 0 = ''{0}''"
  by code_simp

text \<open>A place is filled with the text given, unless the text has a dollar sign: then it may stay empty or show the place.\<close>
theorem place_filled:
  assumes "find_sub ''{0}'' s = Some (a, b)" "find_sub ''{0}'' b = None" "CHR ''$'' \<notin> set x"
  shows "js_format s [x] = a @ x @ b"
  using assms
  by (simp add: js_format_def place_zero replace_all.simps [of _ _ _ s] replace_all.simps [of _ _ _ b] substitution_plain)

theorem dollar_shows_place: "js_format ''Delete {0}?'' [''$&''] = ''Delete {0}?''"
  by (simp add: js_format_def place_zero replace_all.simps starts_with_def)

end
