(* ===== verification/CoreTheme.thy ===== *)
theory CoreTheme
  imports AdminAccounts "HOL-Library.Multiset"
begin

section \<open>The core theme of the management platform\<close>

text \<open>
  \<open>CTFd/themes/core-beta/assets/js\<close>: the components of \<open>challenges.js\<close>, \<open>settings.js\<close>, \<open>setup.js\<close>,
  \<open>teams/private.js\<close> and \<open>theme/times.js\<close>. The library \<open>@ctfdio/ctfd-js\<close> behind \<open>CTFd.pages\<close> is a
  parameter, \<open>pages\<close>: for the calls made before and a call it gives what the call returns or throws; a question to
  the user (\<open>displayUnlock\<close>) is such a call. A form is what \<open>serializeJSON\<close> of that library returns for it.
\<close>

datatype core_call = Call string "jsval list"

type_synonym core_lib = "core_call list \<Rightarrow> core_call \<Rightarrow> exn + jsval"

record coreworld =
  co_calls :: "core_call list"
  co_clock :: int

definition call :: "core_lib \<Rightarrow> string \<Rightarrow> jsval list \<Rightarrow> (jsval, 'z coreworld_scheme) action" where
  "call pages name args w =
     (pages (co_calls w) (Call name args), w\<lparr>co_calls := co_calls w @ [Call name args]\<rparr>)"

subsection \<open>Hints\<close>

record hintworld = coreworld +
  hi_html :: jsval
  hi_open :: bool
  hi_errors :: "jsval list"

definition show_html :: "(jsval \<Rightarrow> jsval) \<Rightarrow> jsval \<Rightarrow> (unit, 'z hintworld_scheme) action" where
  "show_html addTargetBlank hint = bindM (lift (get hint ''html'')) (\<lambda>h. upd (\<lambda>w. w\<lparr>hi_html := addTargetBlank h\<rparr>))"

definition showHint :: "core_lib \<Rightarrow> (jsval \<Rightarrow> jsval) \<Rightarrow> jsval \<Rightarrow> (unit, 'z hintworld_scheme) action" where
  "showHint pages addTargetBlank i w =
     (if \<not> hi_open w then ret ()
      else bindM (call pages ''loadHint'' [i]) (\<lambda>r.
           bindM (lift (get r ''data'')) (\<lambda>hint.
           bindM (lift (get hint ''content'')) (\<lambda>content.
             if truthy content then show_html addTargetBlank hint
             else bindM (call pages ''displayUnlock'' [i]) (\<lambda>answer.
               if \<not> truthy answer then upd (\<lambda>w. w\<lparr>hi_open := False\<rparr>)
               else bindM (call pages ''loadUnlock'' [i]) (\<lambda>unlock.
                    bindM (lift (get unlock ''success'')) (\<lambda>ok.
                      if truthy ok
                      then bindM (call pages ''loadHint'' [i]) (\<lambda>r.
                           bindM (lift (get r ''data'')) (show_html addTargetBlank))
                      else upd (\<lambda>w. w\<lparr>hi_open := False, hi_errors := hi_errors w @ [unlock]\<rparr>)))))))) w"

subsection \<open>The board of challenges\<close>

record boardworld = coreworld +
  bo_loaded :: bool
  bo_challenges :: "jsval list"
  bo_shown :: jsval
  bo_hash :: string
  bo_modal :: bool

text \<open>
  What the browser keeps of a fragment, and \<open>decodeURIComponent\<close>, which fails on a percent sign that
  starts no escaped character.
\<close>

definition fragment_char :: "char \<Rightarrow> string" where
  "fragment_char c = (let n = (of_char c :: nat) in
     if 33 \<le> n \<and> n \<le> 126 \<and> n \<notin> set [34, 60, 62, 96] then [c]
     else if n < 128 then percent n
     else percent (192 + n div 64) @ percent (128 + n mod 64))"

definition fragment :: "string \<Rightarrow> string" where
  "fragment s = concat (map fragment_char s)"

fun byte_at :: "string \<Rightarrow> (nat \<times> string) option" where
  "byte_at (p # a # b # s) =
     (if p \<noteq> CHR ''%'' then None
      else case hex_val a of None \<Rightarrow> None
        | Some x \<Rightarrow> (case hex_val b of None \<Rightarrow> None | Some y \<Rightarrow> Some (16 * x + y, s)))"
| "byte_at s = None"

lemma byte_at_shorter: "byte_at s = Some (n, t) \<Longrightarrow> length t < length s"
  by (cases s rule: byte_at.cases) (auto split: if_splits option.splits)

function decodeURIComponent :: "string \<Rightarrow> string option" where
  "decodeURIComponent s =
     (case s of
        [] \<Rightarrow> Some []
      | c # u \<Rightarrow>
          if c \<noteq> CHR ''%'' then map_option (\<lambda>t. c # t) (decodeURIComponent u)
          else case byte_at s of
              None \<Rightarrow> None
            | Some (n, u) \<Rightarrow>
                if n < 128 then map_option (\<lambda>t. char_of n # t) (decodeURIComponent u)
                else if n \<noteq> 194 \<and> n \<noteq> 195 then None
                else case byte_at u of
                    None \<Rightarrow> None
                  | Some (m, v) \<Rightarrow>
                      if m < 128 \<or> 192 \<le> m then None
                      else map_option (\<lambda>t. char_of (64 * (n - 192) + (m - 128)) # t) (decodeURIComponent v))"
  by pat_completeness auto
termination
  by (relation "measure length") (auto dest!: byte_at_shorter)

declare decodeURIComponent.simps [simp del]

text \<open>What follows the last hyphen, if there is one.\<close>

definition after_hyphen :: "string \<Rightarrow> string option" where
  "after_hyphen s = (if CHR ''-'' \<in> set s then Some (rev (takeWhile (\<lambda>c. c \<noteq> CHR ''-'') (rev s))) else None)"

definition hash_text :: "jsval \<Rightarrow> string \<Rightarrow> string" where
  "hash_text name i = fragment (js_string name @ ''-'' @ i)"

definition loadChallenges :: "core_lib \<Rightarrow> (unit, 'z boardworld_scheme) action" where
  "loadChallenges pages = bindM (call pages ''getChallenges'' []) (\<lambda>r. upd (\<lambda>w. w\<lparr>bo_challenges := elems r\<rparr>))"

text \<open>The callback of \<open>displayChallenge\<close> gets the challenge it loaded.\<close>

definition loadChallenge :: "core_lib \<Rightarrow> (jsval \<Rightarrow> jsval) \<Rightarrow> string \<Rightarrow> (unit, 'z boardworld_scheme) action" where
  "loadChallenge pages addTargetBlank i =
     bindM (call pages ''displayChallenge'' [Str i]) (\<lambda>challenge.
     bindM (lift (get challenge ''data'')) (\<lambda>d.
     bindM (lift (get d ''view'')) (\<lambda>view.
       upd (\<lambda>w. w\<lparr>bo_shown := set_field ''view'' (addTargetBlank view) d, bo_modal := True,
                  bo_hash := hash_text (oget d ''name'') i\<rparr>))))"

definition board_init :: "core_lib \<Rightarrow> (jsval \<Rightarrow> jsval) \<Rightarrow> (unit, 'z boardworld_scheme) action" where
  "board_init pages addTargetBlank =
     bindM (loadChallenges pages) (\<lambda>_.
     bindM (upd (\<lambda>w. w\<lparr>bo_loaded := True\<rparr>)) (\<lambda>_ w.
       (if bo_hash w = [] then ret ()
        else case decodeURIComponent (bo_hash w) of
            None \<Rightarrow> throw (ErrMsg (Str ''URI malformed''))
          | Some chalHash \<Rightarrow>
              (case after_hyphen chalHash of None \<Rightarrow> ret () | Some i \<Rightarrow> loadChallenge pages addTargetBlank i)) w))"

definition board_closed :: "'z boardworld_scheme \<Rightarrow> 'z boardworld_scheme" where
  "board_closed w = w\<lparr>bo_modal := False, bo_hash := []\<rparr>"

text \<open>The order is that of a function in the theme's settings, if there is one that works; \<open>order\<close> is what it makes of a list.\<close>

fun add_new :: "jsval list \<Rightarrow> jsval \<Rightarrow> jsval list" where
  "add_new ks k = (if k \<in> set ks then ks else ks @ [k])"

definition board_getCategories :: "(jsval list \<Rightarrow> jsval list) option \<Rightarrow> jsval list \<Rightarrow> jsval list" where
  "board_getCategories order challenges =
     (let ks = foldl add_new [] (map (\<lambda>c. oget c ''category'') challenges)
      in case order of None \<Rightarrow> ks | Some f \<Rightarrow> f ks)"

text \<open>The second result is the list of the board, which sorting all challenges changes in place.\<close>

definition getChallenges :: "(jsval list \<Rightarrow> jsval list) option \<Rightarrow> jsval \<Rightarrow> jsval list \<Rightarrow> jsval list \<times> jsval list" where
  "getChallenges order category challenges =
     (if category = Null
      then (let cs = (case order of None \<Rightarrow> challenges | Some f \<Rightarrow> f challenges) in (cs, cs))
      else (let cs = filter (\<lambda>c. seq (oget c ''category'') category) challenges
            in (case order of None \<Rightarrow> cs | Some f \<Rightarrow> f cs, challenges)))"

subsection \<open>A challenge\<close>

record challengeworld = coreworld +
  cg_submission :: string
  cg_response :: jsval
  cg_reloads :: nat
  cg_solves :: "jsval list"

definition getStyles :: "jsval \<Rightarrow> string list" where
  "getStyles window =
     ''modal-dialog'' #
     (if window = Str ''sm'' then [''modal-sm''] else if window = Str ''lg'' then [''modal-lg'']
      else if window = Str ''xl'' then [''modal-xl''] else [])"

definition renderSubmissionResponse :: "(unit, 'z challengeworld_scheme) action" where
  "renderSubmissionResponse w =
     bindM (lift (get (oget (cg_response w) ''data'') ''status'')) (\<lambda>st.
       upd (\<lambda>w. (if st = Str ''correct'' then w\<lparr>cg_submission := []\<rparr> else w)\<lparr>cg_reloads := cg_reloads w + 1\<rparr>)) w"

definition submitChallenge :: "core_lib \<Rightarrow> string \<Rightarrow> (unit, 'z challengeworld_scheme) action" where
  "submitChallenge pages challenge_id w =
     bindM (call pages ''submitChallenge'' [Str challenge_id, Str (cg_submission w)]) (\<lambda>r.
     bindM (upd (\<lambda>w. w\<lparr>cg_response := r\<rparr>)) (\<lambda>_. renderSubmissionResponse)) w"

definition showSolves :: "core_lib \<Rightarrow> (jsval \<Rightarrow> string) \<Rightarrow> string \<Rightarrow> (unit, 'z challengeworld_scheme) action" where
  "showSolves pages format challenge_id =
     bindM (call pages ''loadSolves'' [Str challenge_id]) (\<lambda>r.
       upd (\<lambda>w. w\<lparr>cg_solves := map (\<lambda>s. set_field ''date'' (Str (format (oget s ''date''))) s) (elems r)\<rparr>))"

subsection \<open>Settings\<close>

text \<open>
  A form shows success, an error, or neither; the list of errors is beside them. \<open>fm_resets\<close> are the
  times of the armed timeouts that take the notice away.
\<close>

record noticeworld = coreworld +
  no_success :: "bool option"
  no_error :: "bool option"
  no_errors :: "jsval list"
  no_resets :: "int list"

definition notice_off :: "'z noticeworld_scheme \<Rightarrow> 'z noticeworld_scheme" where
  "notice_off w = w\<lparr>no_success := None, no_error := None\<rparr>"

definition notice_refused :: "jsval \<Rightarrow> (unit, 'z noticeworld_scheme) action" where
  "notice_refused response =
     bindM (upd (\<lambda>w. w\<lparr>no_success := Some False, no_error := Some True\<rparr>)) (\<lambda>_.
     bindM (lift (own_entries (oget response ''errors''))) (\<lambda>es.
       upd (\<lambda>w. w\<lparr>no_errors := no_errors w @ map snd es\<rparr>)))"

definition notice_accepted :: "'z noticeworld_scheme \<Rightarrow> 'z noticeworld_scheme" where
  "notice_accepted w = w\<lparr>no_success := Some True, no_error := Some False, no_resets := no_resets w @ [co_clock w + 3000]\<rparr>"

definition save_profile :: "core_lib \<Rightarrow> string \<Rightarrow> jsval \<Rightarrow> (unit, 'z noticeworld_scheme) action" where
  "save_profile pages name data =
     bindM (call pages name [collect_fields data]) (\<lambda>r.
     bindM (lift (get r ''success'')) (\<lambda>ok. if truthy ok then upd notice_accepted else notice_refused r))"

definition updateProfile :: "core_lib \<Rightarrow> jsval \<Rightarrow> (unit, 'z noticeworld_scheme) action" where
  "updateProfile pages data =
     bindM (upd (\<lambda>w. (notice_off w)\<lparr>no_errors := []\<rparr>)) (\<lambda>_. save_profile pages ''updateSettings'' data)"

definition team_updateProfile :: "core_lib \<Rightarrow> jsval \<Rightarrow> (unit, 'z noticeworld_scheme) action" where
  "team_updateProfile pages data = save_profile pages ''updateTeamSettings'' data"

definition notice_time :: "nat \<Rightarrow> 'z noticeworld_scheme \<Rightarrow> 'z noticeworld_scheme" where
  "notice_time d w =
     (let now = co_clock w + int d; v = w\<lparr>co_clock := now, no_resets := filter (\<lambda>m. now < m) (no_resets w)\<rparr>
      in if list_ex (\<lambda>m. m \<le> now) (no_resets w) then notice_off v else v)"

record tokenworld = coreworld +
  tk_rows :: "jsval list"
  tk_selected :: jsval
  tk_value :: jsval
  tk_modal :: bool

definition generateToken :: "core_lib \<Rightarrow> jsval \<Rightarrow> (unit, 'z tokenworld_scheme) action" where
  "generateToken pages data =
     bindM (call pages ''generateToken'' [if truthy (oget data ''expiration'') then data else del_field ''expiration'' data]) (\<lambda>r.
     bindM (lift (get r ''data'')) (\<lambda>d.
     bindM (lift (get d ''value'')) (\<lambda>v. upd (\<lambda>w. w\<lparr>tk_value := v, tk_modal := True\<rparr>))))"

definition deleteTokenModal :: "jsval \<Rightarrow> 'z tokenworld_scheme \<Rightarrow> 'z tokenworld_scheme" where
  "deleteTokenModal tokenId w = w\<lparr>tk_selected := tokenId, tk_modal := True\<rparr>"

definition deleteSelectedToken :: "core_lib \<Rightarrow> (unit, 'z tokenworld_scheme) action" where
  "deleteSelectedToken pages w =
     bindM (call pages ''deleteToken'' [tk_selected w]) (\<lambda>_. upd (\<lambda>w. w\<lparr>tk_rows := filter (\<lambda>r. r \<noteq> tk_selected w) (tk_rows w)\<rparr>)) w"

subsection \<open>Teams\<close>

record teamworld = noticeworld +
  te_reloads :: nat
  te_link :: string
  te_invited :: bool
  te_alerts :: "jsval list"

definition updateCaptain :: "core_lib \<Rightarrow> jsval \<Rightarrow> (unit, 'z teamworld_scheme) action" where
  "updateCaptain pages data =
     bindM (call pages ''updateTeamSettings'' [data]) (\<lambda>r.
     bindM (lift (get r ''success'')) (\<lambda>ok.
       if truthy ok then upd (\<lambda>w. w\<lparr>te_reloads := te_reloads w + 1\<rparr>) else notice_refused r))"

definition disbandTeam :: "core_lib \<Rightarrow> (unit, 'z teamworld_scheme) action" where
  "disbandTeam pages =
     bindM (call pages ''disbandTeam'' []) (\<lambda>r.
     bindM (lift (get r ''success'')) (\<lambda>ok.
       if truthy ok then upd (\<lambda>w. w\<lparr>te_reloads := te_reloads w + 1\<rparr>)
       else bindM (lift (get (oget r ''errors'') [])) (\<lambda>es. upd (\<lambda>w. w\<lparr>no_errors := elems es\<rparr>))))"

definition inviteMembers :: "string \<Rightarrow> core_lib \<Rightarrow> (unit, 'z teamworld_scheme) action" where
  "inviteMembers base pages =
     bindM (call pages ''getInviteToken'' []) (\<lambda>r.
     bindM (lift (get r ''success'')) (\<lambda>ok.
       if truthy ok
       then bindM (lift (get (oget r ''data'') ''code'')) (\<lambda>code.
              upd (\<lambda>w. w\<lparr>te_link := base @ ''/teams/invite?code='' @ js_string code, te_invited := True\<rparr>))
       else bindM (lift (own_entries (oget r ''errors''))) (\<lambda>es. upd (\<lambda>w. w\<lparr>te_alerts := te_alerts w @ map snd es\<rparr>))))"

text \<open>The share of a count; with nothing counted the text is \<open>NaN\<close>.\<close>

definition share_text :: "rat \<Rightarrow> rat \<Rightarrow> string" where
  "share_text part other = (if part + other = 0 then ''NaN'' else toFixed 2 (part / (part + other) * 100))"

definition getCategoryBreakdown :: "jsval list \<Rightarrow> (string \<times> nat \<times> rat) list" where
  "getCategoryBreakdown solves =
     (let cats = map (\<lambda>s. js_string (oget (oget s ''challenge'') ''category'')) solves
      in map (\<lambda>k. (k, count_list cats k, of_nat (count_list cats k) / of_nat (length cats) * 100)) (first_ones cats))"

definition team_stats :: "core_lib \<Rightarrow> (jsval list, 'z coreworld_scheme) action" where
  "team_stats pages =
     bindM (call pages ''teamSolves'' [Str ''me'']) (\<lambda>s.
     bindM (call pages ''teamFails'' [Str ''me'']) (\<lambda>f.
     bindM (call pages ''teamAwards'' [Str ''me'']) (\<lambda>a.
     bindM (lift (get (oget s ''meta'') ''count'')) (\<lambda>n.
     bindM (lift (get (oget f ''meta'') ''count'')) (\<lambda>m.
     bindM (lift (get (oget a ''meta'') ''count'')) (\<lambda>k. ret [n, m, k]))))))"

subsection \<open>The first set-up\<close>

text \<open>A tab is left only when all its inputs are valid; the marks are those of the invalid ones.\<close>

definition switchTab :: "string \<Rightarrow> (string \<times> bool) list \<Rightarrow> string \<times> string list \<Rightarrow> string \<times> string list" where
  "switchTab target inputs v =
     (let wrong = map fst (filter (\<lambda>(n, ok). \<not> ok) inputs); marks = snd v @ filter (\<lambda>n. n \<notin> set (snd v)) wrong
      in (if wrong = [] then target else fst v, marks))"

definition input_changed :: "string \<Rightarrow> bool \<Rightarrow> string list \<Rightarrow> string list" where
  "input_changed n ok marks = (if ok then filter (\<lambda>m. m \<noteq> n) marks else if n \<in> set marks then marks else marks @ [n])"

definition validateFileSize :: "nat \<Rightarrow> nat \<Rightarrow> bool \<Rightarrow> string \<Rightarrow> string" where
  "validateFileSize bytes limit confirmed v = (if limit < bytes \<and> \<not> confirmed then [] else v)"

definition processDateTime :: "(string \<Rightarrow> int option) \<Rightarrow> string \<Rightarrow> string \<Rightarrow> string" where
  "processDateTime unix d t = (case unix (d @ '' '' @ t) of None \<Rightarrow> [] | Some n \<Rightarrow> show_int n)"

subsection \<open>Times\<close>

text \<open>
  \<open>theme/times.js\<close>, which the admin theme has too. The date library reads a text as local time, as
  universal time, or as the constructor \<open>Date\<close> does.
\<close>

definition sign_first :: "string \<Rightarrow> bool" where
  "sign_first s = (case s of [] \<Rightarrow> False | c # t \<Rightarrow> c = CHR ''+'' \<or> c = CHR ''-'')"

definition two_digits :: "string \<Rightarrow> string option" where
  "two_digits s = (case s of a # b # t \<Rightarrow> if is_digit a \<and> is_digit b then Some t else None | _ \<Rightarrow> None)"

text \<open>The end of a text, read backwards, is an offset: two digits and a sign, or two more digits between, with a colon or without.\<close>

definition offset_end :: "string \<Rightarrow> bool" where
  "offset_end r =
     (case two_digits r of None \<Rightarrow> False
      | Some t \<Rightarrow> sign_first t \<or>
          (case two_digits (if starts_with '':'' t then drop 1 t else t) of None \<Rightarrow> False | Some u \<Rightarrow> sign_first u))"

definition hasExplicitTimezone :: "string \<Rightarrow> bool" where
  "hasExplicitTimezone raw =
     (let r = rev (lower raw)
      in starts_with ''z'' r \<or> starts_with (rev ''utc'') r \<or> starts_with (rev ''gmt'') r \<or> offset_end r)"

fun cut_fraction :: "string \<Rightarrow> string" where
  "cut_fraction [] = []"
| "cut_fraction (c # s) =
     (let ds = takeWhile is_digit s
      in if c = CHR ''.'' \<and> 3 < length ds then c # take 3 s @ dropWhile is_digit s else c # cut_fraction s)"

definition candidates :: "string \<Rightarrow> string list" where
  "candidates raw =
     concat (map (\<lambda>c. [c, cut_fraction c]) [raw, replace_first '' '' ''T'' raw])"

fun first_some :: "('a \<Rightarrow> 'b option) \<Rightarrow> 'a list \<Rightarrow> 'b option" where
  "first_some f [] = None"
| "first_some f (x # xs) = (case f x of None \<Rightarrow> first_some f xs | Some y \<Rightarrow> Some y)"

definition parseAsLocal :: "(string \<Rightarrow> int option) \<Rightarrow> (string \<Rightarrow> int option) \<Rightarrow> (string \<Rightarrow> int option) \<Rightarrow> jsval \<Rightarrow> int option" where
  "parseAsLocal as_local as_utc as_date rawValue =
     (if nullish rawValue then None
      else let raw = trim (js_string rawValue)
        in if raw = [] then None
           else if list_all is_digit raw then Some (int (read_nat raw) * (if length raw \<le> 10 then 1000 else 1))
           else case first_some (if hasExplicitTimezone raw then as_local else as_utc) (candidates raw) of
               Some t \<Rightarrow> Some t
             | None \<Rightarrow> as_date raw)"

definition renderTimes :: "(jsval \<Rightarrow> int option) \<Rightarrow> (int \<Rightarrow> string \<Rightarrow> string) \<Rightarrow> jsval \<Rightarrow> string \<Rightarrow> string" where
  "renderTimes parse show_as time format_attr =
     (let f = (if format_attr = [] then ''MMMM Do, h:mm:ss A'' else format_attr)
      in case parse time of Some t \<Rightarrow> show_as t f | None \<Rightarrow> if truthy time then js_string time else [])"

subsection \<open>Rules\<close>

lemma of_char_less [simp]: "(of_char c :: nat) < 256"
  using nat_of_char_less_256 .

lemma hex_val_digit [simp]: "k < 16 \<Longrightarrow> hex_val (hex_digit k) = Some k"
  by (auto simp: hex_val_def hex_digit_def is_digit_def Let_def)

lemma byte_at_percent [simp]: "n < 256 \<Longrightarrow> byte_at (percent n @ s) = Some (n, s)"
  by (simp add: percent_def)

lemma decode_empty [simp]: "decodeURIComponent [] = Some []"
  by (simp add: decodeURIComponent.simps)

lemma decode_plain [simp]:
  "c \<noteq> CHR ''%'' \<Longrightarrow> decodeURIComponent (c # s) = map_option (\<lambda>t. c # t) (decodeURIComponent s)"
  by (subst decodeURIComponent.simps) simp

lemma decode_byte [simp]:
  "n < 128 \<Longrightarrow> decodeURIComponent (percent n @ s) = map_option (\<lambda>t. char_of n # t) (decodeURIComponent s)"
  using byte_at_percent [of n s] by (subst decodeURIComponent.simps) (simp add: percent_def)

lemma decode_two [simp]:
  assumes "n = 194 \<or> n = 195" "128 \<le> m" "m < 192"
  shows "decodeURIComponent (percent n @ percent m @ s) =
    map_option (\<lambda>t. char_of (64 * (n - 192) + (m - 128)) # t) (decodeURIComponent s)"
  using assms byte_at_percent [of n "percent m @ s"] byte_at_percent [of m s]
  by (subst decodeURIComponent.simps) (auto simp: percent_def)

lemma decode_fragment_char:
  assumes "c \<noteq> CHR ''%''"
  shows "decodeURIComponent (fragment_char c @ s) = map_option (\<lambda>t. c # t) (decodeURIComponent s)"
proof -
  define n where "n = (of_char c :: nat)"
  have n: "n < 256" "char_of n = c" by (simp_all add: n_def)
  consider "33 \<le> n \<and> n \<le> 126 \<and> n \<notin> set [34, 60, 62, 96]" | "\<not> (33 \<le> n \<and> n \<le> 126 \<and> n \<notin> set [34, 60, 62, 96])" "n < 128"
    | "128 \<le> n" by linarith
  then show ?thesis
  proof cases
    case 1
    then show ?thesis using assms by (simp add: fragment_char_def n_def [symmetric] Let_def)
  next
    case 2
    then have "fragment_char c = percent n" by (auto simp: fragment_char_def n_def [symmetric] Let_def)
    then show ?thesis using 2 n by simp
  next
    case 3
    then have f: "fragment_char c = percent (192 + n div 64) @ percent (128 + n mod 64)"
      by (simp add: fragment_char_def n_def [symmetric] Let_def)
    have "n div 64 = 2 \<or> n div 64 = 3" using 3 n(1) by linarith
    moreover have "64 * (n div 64) + n mod 64 = n" by simp
    ultimately show ?thesis using n(2) by (auto simp: f)
  qed
qed

lemma decode_fragment: "CHR ''%'' \<notin> set s \<Longrightarrow> decodeURIComponent (fragment s) = Some s"
  by (induction s) (auto simp: fragment_def decode_fragment_char)

lemma after_last_hyphen: "CHR ''-'' \<notin> set i \<Longrightarrow> after_hyphen (a @ ''-'' @ i) = Some i"
  by (simp add: after_hyphen_def takeWhile_append)

lemma set_foldl_add: "set (foldl add_new ks xs) = set ks \<union> set xs"
  by (induction xs arbitrary: ks) auto

lemma distinct_foldl_add: "distinct ks \<Longrightarrow> distinct (foldl add_new ks xs)"
  by (induction xs arbitrary: ks) auto

lemma mset_by_keys:
  assumes "distinct ks" "\<forall>x \<in> set xs. f x \<in> set ks"
  shows "mset (concat (map (\<lambda>k. filter (\<lambda>x. f x = k) xs) ks)) = mset xs"
proof -
  have one: "mset (concat (map (\<lambda>k. if f x = k then [x] else []) ks)) = {#x#}" if "distinct ks" "f x \<in> set ks" for x ks
    using that by (induction ks) (auto simp: concat_eq_Nil_conv)
  have parts: "mset (concat (map (\<lambda>k. (if P k then [x] else []) @ g k) ks)) =
      mset (concat (map (\<lambda>k. if P k then [x] else []) ks)) + mset (concat (map g ks))" for x g P ks
    by (induction ks) auto
  show ?thesis using assms(2)
  proof (induction xs)
    case (Cons x xs)
    have "concat (map (\<lambda>k. filter (\<lambda>y. f y = k) (x # xs)) ks) =
        concat (map (\<lambda>k. (if f x = k then [x] else []) @ filter (\<lambda>y. f y = k) xs) ks)"
      by (rule arg_cong [of _ _ concat]) simp
    then have "mset (concat (map (\<lambda>k. filter (\<lambda>y. f y = k) (x # xs)) ks)) =
        mset (concat (map (\<lambda>k. if f x = k then [x] else []) ks)) + mset (concat (map (\<lambda>k. filter (\<lambda>y. f y = k) xs) ks))"
      by (simp only: parts)
    then show ?case using Cons one [OF assms(1), of x] by simp
  qed simp
qed

subsection \<open>Properties\<close>

text \<open>
  The board's link leads back: the fragment written when a challenge is opened, read when the page opens,
  names the same challenge, whatever hyphens its name has, unless the name has a percent sign.
\<close>
theorem board_link:
  assumes "CHR ''%'' \<notin> set name" "CHR ''%'' \<notin> set i" "CHR ''-'' \<notin> set i"
  shows "map_option after_hyphen (decodeURIComponent (hash_text (Str name) i)) = Some (Some i)"
  using decode_fragment [of "name @ ''-'' @ i"] after_last_hyphen [OF assms(3), of name] assms
  by (simp add: hash_text_def)

lemma board_link_witness:
  "map_option after_hyphen (decodeURIComponent (hash_text (Str ''baby-heap v2'') ''12'')) = Some (Some ''12'')"
  by (rule board_link) simp_all

text \<open>A name with a percent sign may make its link one that cannot be read: the board then stops with an error.\<close>
theorem percent_link: "decodeURIComponent (hash_text (Str ''100% pwn'') ''5'') = None"
proof -
  have "fragment ''100% pwn-5'' = ''100%%20pwn-5''"
    by code_simp
  moreover have "byte_at ''%%20pwn-5'' = None" by (simp add: hex_val_def is_digit_def)
  ultimately show ?thesis by (simp add: hash_text_def decodeURIComponent.simps [of "CHR ''%'' # _"])
qed

text \<open>
  With no order in the theme's settings the categories part the board: every challenge is listed under
  exactly one category, and no category is empty.
\<close>
theorem categories_part:
  assumes "\<forall>c \<in> set board. is_str (oget c ''category'')"
  shows "mset (concat (map (\<lambda>k. fst (getChallenges None k board)) (board_getCategories None board))) = mset board \<and>
    distinct (board_getCategories None board) \<and>
    (\<forall>k \<in> set (board_getCategories None board). fst (getChallenges None k board) \<noteq> [])"
proof -
  have ks: "set (board_getCategories None board) = (\<lambda>c. oget c ''category'') ` set board" "distinct (board_getCategories None board)"
    by (simp_all add: board_getCategories_def set_foldl_add distinct_foldl_add)
  have str: "is_str k" if "k \<in> set (board_getCategories None board)" for k using that ks(1) assms by auto
  have get: "fst (getChallenges None k board) = filter (\<lambda>c. oget c ''category'' = k) board"
    if "k \<in> set (board_getCategories None board)" for k
    using str [OF that] by (cases k) (auto simp: getChallenges_def Let_def)
  have "map (\<lambda>k. fst (getChallenges None k board)) (board_getCategories None board) =
      map (\<lambda>k. filter (\<lambda>c. oget c ''category'' = k) board) (board_getCategories None board)"
    using get by (intro map_cong) simp_all
  then have "mset (concat (map (\<lambda>k. fst (getChallenges None k board)) (board_getCategories None board))) = mset board"
    by (simp only:) (rule mset_by_keys [OF ks(2)], simp add: ks(1))
  moreover have "fst (getChallenges None k board) \<noteq> []" if "k \<in> set (board_getCategories None board)" for k
    using that get [OF that] ks(1) by (auto simp: filter_empty_conv)
  ultimately show ?thesis using ks(2) by blast
qed

text \<open>A hint is unlocked only after the user agreed, once, and nothing is called when the hint is being closed.\<close>
theorem core_hint:
  assumes "showHint pages blank i w = (r, w')"
  shows "\<exists>cs. co_calls w' = co_calls w @ cs \<and>
    cs \<in> set (if hi_open w then map (\<lambda>n. take n (map (\<lambda>c. Call c [i]) [''loadHint'', ''displayUnlock'', ''loadUnlock'', ''loadHint''])) [1, 2, 3, 4]
             else [[]]) \<and>
    (Call ''loadUnlock'' [i] \<in> set cs \<longrightarrow>
       (\<exists>a. pages (co_calls w @ [Call ''loadHint'' [i]]) (Call ''displayUnlock'' [i]) = Inr a \<and> truthy a))"
  using assms
  by (auto simp: showHint_def show_html_def call_def bindM_def lift_def upd_def ret_def split: if_splits sum.splits)

text \<open>
  The form of the settings shows the errors of the last refusal, that of a team those of every refusal;
  and a success leaves a timeout that takes away the notice of a refusal that comes soon after.
\<close>
theorem errors_shown:
  assumes "pages (co_calls w) (Call ''updateSettings'' [collect_fields data]) = Inr r"
    "pages (co_calls w) (Call ''updateTeamSettings'' [collect_fields data]) = Inr r"
    "r = Obj [(''success'', BoolV False), (''errors'', Obj es)]"
  shows "no_errors (snd (updateProfile pages data w)) = map snd es"
    "no_errors (snd (team_updateProfile pages data w)) = no_errors w @ map snd es"
    "no_error (snd (updateProfile pages data w)) = Some True"
    "m \<in> set (no_resets w) \<Longrightarrow> m \<le> co_clock w + int d \<Longrightarrow> no_error (notice_time d (snd (updateProfile pages data w))) = None"
  using assms
  by (auto simp: updateProfile_def team_updateProfile_def save_profile_def notice_refused_def notice_off_def notice_time_def
      call_def bindM_def lift_def upd_def get_def own_entries_def field_def list_ex_iff Let_def)

text \<open>A token's row goes although the server refused to delete the token.\<close>
theorem token_row_goes:
  "pages (co_calls w) (Call ''deleteToken'' [tk_selected w]) = Inr r \<Longrightarrow>
   tk_selected w \<notin> set (tk_rows (snd (deleteSelectedToken pages w)))"
  by (simp add: deleteSelectedToken_def call_def bindM_def upd_def)

text \<open>Every solve is counted in exactly one category of the breakdown.\<close>
theorem breakdown_complete:
  "sum_list (map (\<lambda>(k, n, p). n) (getCategoryBreakdown solves)) = length solves"
  using sum_counts [OF distinct_first_ones set_first_ones, of "map (\<lambda>s. js_string (oget (oget s ''challenge'') ''category'')) solves"]
  by (simp add: getCategoryBreakdown_def Let_def comp_def)

lemma show_nat_length: "length (show_nat n) \<le> Suc k \<longleftrightarrow> n < 10 ^ Suc k"
proof (induction n arbitrary: k rule: show_nat.induct)
  case (1 n)
  show ?case
  proof (cases "n < 10")
    case True
    moreover have "(10 :: nat) \<le> 10 ^ Suc k" by simp
    ultimately show ?thesis by (simp add: show_nat.simps [of n] del: power_Suc)
  next
    case False
    show ?thesis
    proof (cases k)
      case 0
      then show ?thesis using False by (simp add: show_nat.simps [of n])
    next
      case (Suc j)
      have "n div 10 < 10 ^ Suc j \<longleftrightarrow> n < 10 ^ Suc k" using Suc by (simp add: div_less_iff_less_mult mult.commute)
      then show ?thesis using 1 [OF False, of j] False Suc by (simp add: show_nat.simps [of n])
    qed
  qed
qed

lemma trim_digits: "list_all is_digit s \<Longrightarrow> trim s = s"
proof -
  have "dropWhile is_ws s = s" if "list_all is_digit s" for s
    using that is_digit_not_ws by (cases s) auto
  then show "list_all is_digit s \<Longrightarrow> trim s = s" by (simp add: trim_def)
qed

text \<open>A number of at most ten digits counts seconds, a longer one milliseconds; a date without a time passes for one with an offset.\<close>
theorem time_texts:
  "parseAsLocal f g h (Str (show_nat n)) = Some (int n * (if n < 10 ^ 10 then 1000 else 1)) \<and>
   hasExplicitTimezone ''2024-01-05'' \<and> \<not> hasExplicitTimezone ''2024-01-05 08:30:00''"
proof -
  have d: "list_all is_digit (show_nat n)" by (simp add: list_all_iff show_nat_digits)
  have "parseAsLocal f g h (Str (show_nat n)) = Some (int n * (if n < 10 ^ 10 then 1000 else 1))"
    using show_nat_length [of n 9] d by (simp add: parseAsLocal_def trim_digits Let_def)
  then show ?thesis
    by (simp add: hasExplicitTimezone_def offset_end_def two_digits_def sign_first_def lower_def lower_char_def
        starts_with_def is_digit_def Let_def)
qed

end
