(* ===== verification/Spec2Isabelle.thy ===== *)
theory Spec2Isabelle
  imports TimerSpec HealthCheck ChallengeView PanelView ContestPages ChartLines ProfilePage Activity PortalLayout AdminPreview AdminTabs AdminWidgets CoreTheme
begin

text \<open>
  \<^bold>\<open>Verification library of the contestant portal and the management console (FCTF).\<close>

  The repository is a platform for capture-the-flag contests: servers in C\#, Go and Python, the
  contestant portal, a React application in TypeScript under \<open>src/ContestantPortal/src\<close>, and the
  management console, the admin theme of the Python server, in JavaScript under
  \<open>src/FCTF-ManagementPlatform/CTFd/themes/admin/assets/js\<close> (\<open>js\<close> below). This library models the last
  two. The portal keeps a session (token and user) in the browser's local storage, asks the backend
  over HTTP, lists the challenges of a contest with their prerequisites, starts, watches and stops the
  instances of challenges, and submits flags. The console edits users, teams, challenges and the
  configuration of a contest with requests to the server's API, and shows its statistics.

  \<^bold>\<open>The model.\<close> A JavaScript value is a \<open>jsval\<close> (\<open>JSValue\<close>); numbers are rationals and \<open>NaN\<close>, so
  rounding of doubles is not modelled. \<open>JsonText\<close> is \<open>JSON.parse\<close> and \<open>JSON.stringify\<close>;
  \<open>WebStorage\<close> is local storage, with its contract as the locale \<open>web_storage\<close>. A browser tab is the
  record \<open>world\<close> (\<open>World\<close>): storage, clock, requests sent, location, pop-ups and dispatched events. The delay of an answer is that of its headers; the time it takes to read a body and the time a message
  takes from one tab to another are not modelled. An
  asynchronous function that nothing interrupts is an action, a function of the world that returns
  a value or throws (\<open>bindM\<close>, \<open>catchM\<close>, \<open>finallyM\<close>); where other code may run in between, the
  function is cut at its requests into steps (the timer service, the health check service, the rounds
  of the watching loop, the polling of a preview, the cached analytics). The backend is a parameter,
  \<open>server\<close>: for the requests sent before and a request it says how long the answer takes and what it
  is; nothing is assumed of it except in named hypotheses. React state extends the world: a handler
  reads the state of its render. On the pages of the console a form is the list of its fields, in
  the order of the page, and a confirmation of the user is an argument.

  \<^bold>\<open>Theories and code, the portal.\<close>
  \<^item> \<open>Prelude\<close>: lists, texts, decimal numbers, the named collections of rules. \<open>Regex\<close>: the anchored
    regular expressions of the forms. \<open>Paging\<close>: slices of a list (locale \<open>pager\<close>).
  \<^item> \<open>Effects\<close>: rules for what actions send and what they leave alone (locale \<open>effect_rel\<close>).
  \<^item> \<open>Api\<close>: \<open>config/endpoints.ts\<close>, \<open>services/api.ts\<close> (\<open>fetchWithAuth\<close>, \<open>downloadFile\<close>) and the
    accessors of the session in \<open>services/authService.ts\<close>.
  \<^item> \<open>Auth\<close>: \<open>services/authService.ts\<close> (login, choosing a contest, logout, registration).
  \<^item> \<open>Session\<close>: \<open>context/AuthContext.tsx\<close>, \<open>context/ThemeContext.tsx\<close>, the guards of routes and the
    routes of \<open>App.tsx\<close>.
  \<^item> \<open>Config\<close>: \<open>services/configService.ts\<close> (locale \<open>ttl_cache\<close>), \<open>services/envService.ts\<close>.
  \<^item> \<open>Timers\<close>: \<open>services/challengeTimerService.ts\<close> as operations and as events (\<open>tstep\<close>); \<open>TimerSpec\<close>:
    the registry it refines. \<open>HealthCheck\<close>: \<open>services/healthCheckService.ts\<close>.
  \<^item> \<open>Services\<close>: the challenge, action log, scoreboard, public scoreboard and contest services,
    \<open>safeSwal.ts\<close>, \<open>utils/timezone.ts\<close>.
  \<^item> \<open>ChallengeList\<close>, \<open>ChallengeView\<close>: the component \<open>Challenges\<close> of \<open>pages/Challenges.tsx\<close>, its state and
    handlers, and what it shows. \<open>Panel\<close>, \<open>PanelDeploy\<close>, \<open>PanelFlag\<close>, \<open>PanelView\<close>: its component
    \<open>ChallengeDetailPanel\<close>: texts, cooldown and countdown; instances; flags, hints and files; what is
    rendered and the viewer of documents.
  \<^item> \<open>Accounts\<close>: \<open>pages/Login.tsx\<close>, \<open>pages/Register.tsx\<close>. \<open>NewContest\<close>: \<open>pages/CreateContest.tsx\<close>,
    \<open>pages/ImportParticipants.tsx\<close>. \<open>ContestPages\<close>: \<open>pages/ContestList.tsx\<close>, \<open>pages/PullChallenges.tsx\<close>.
  \<^item> \<open>Standings\<close>, \<open>ChartLines\<close>: \<open>pages/Scoreboard.tsx\<close>, \<open>pages/PublicScoreboard.tsx\<close>, the points and
    the lines of \<open>components/ChartComponent.tsx\<close> and \<open>PublicChartComponent.tsx\<close>.
    \<open>Support\<close>: \<open>pages/Tickets.tsx\<close>, \<open>TicketDetail.tsx\<close>, \<open>Instances.tsx\<close>. \<open>ProfilePage\<close>:
    \<open>pages/Profile.tsx\<close>. \<open>Activity\<close>: \<open>components/ActionLogs.tsx\<close>, \<open>pages/ActionLogsPage.tsx\<close>.
    \<open>PortalLayout\<close>: \<open>components/Layout.tsx\<close>.

  \<^bold>\<open>Theories and code, the console.\<close>
  \<^item> \<open>AdminBase\<close>: \<open>js/compat/fetch.js\<close>, the reading of forms by \<open>js/compat/json.js\<close>, and the contract of a
    bulk action (locale \<open>bulk_action\<close>). \<open>ApiClient\<close>: \<open>js/compat/api.js\<close> method by method, and
    \<open>js/compat/patch.js\<close>.
  \<^item> \<open>AdminConsole\<close>: the lists \<open>js/pages/users.js\<close>, \<open>teams.js\<close>, \<open>submissions.js\<close>, \<open>challenges.js\<close>,
    \<open>scoreboard.js\<close>. \<open>AdminPreview\<close>: previews and their polling in \<open>challenges.js\<close>.
  \<^item> \<open>AdminGraphs\<close>: \<open>js/compat/styles.js\<close>, \<open>math.js\<close>, the data of \<open>graphs.js\<close>. \<open>AdminAccounts\<close>:
    \<open>js/pages/user.js\<close>, \<open>team.js\<close>. \<open>AdminChallenge\<close>: \<open>js/pages/challenge.js\<close>, the upload of
    \<open>js/compat/helpers.js\<close>. \<open>AdminStats\<close>: \<open>js/pages/statistics.js\<close>.
  \<^item> \<open>AdminTime\<close>, \<open>AdminConfig\<close>: \<open>js/pages/configs.js\<close> and \<open>js/timezones.js\<close>. \<open>AdminTabs\<close>: \<open>js/compat/wc.js\<close> and
    \<open>events.js\<close>, the state of all tabs of a browser and its steps (\<open>tabs_reach\<close>). \<open>AdminWidgets\<close>:
    \<open>js/styles.js\<close>, \<open>js/compat/format.js\<close>, the comments of \<open>helpers.js\<close>.
  \<^item> \<open>CoreTheme\<close>: the theme of the contestants in the same server, \<open>CTFd/themes/core-beta/assets/js\<close>
    (\<open>challenges.js\<close>, \<open>settings.js\<close>, \<open>setup.js\<close>, \<open>teams/private.js\<close>, \<open>theme/times.js\<close>).

  \<^bold>\<open>Interfaces.\<close> \<open>web_storage\<close> (what a lookup returns after a change), \<open>timer_registry\<close> (what the panel
  relies on when it starts, stops and reads timers), \<open>effect_rel\<close> (relations between worlds that
  sequencing preserves), \<open>ttl_cache\<close> (a value asked for again once it is old), \<open>pager\<close> (the pages of a
  list, for challenges, scoreboards and action logs) and \<open>bulk_action\<close> (one request per ticked
  row, none without a confirmation; interpreted on fourteen actions of the console) are locales; each is
  interpreted on the definitions of the model.

  \<^bold>\<open>What the lemmas show.\<close> Each theory ends with its properties. Invariants: the context agrees with the
  stored session, one timer and one armed timeout per challenge in every reachable state, the
  clean-up of health checks, the pages of scoreboards and logs exist, the questions of a preview are
  bounded when the server keeps up (and not otherwise), analytics are asked for once a minute. Safety: at
  most one tab is master as long as every ping is heard and no more than six seconds late (and two can be
  otherwise), private pages are guarded, a refused flag sends nothing and an
  accepted one is submitted once, a hint is paid for only after a confirmation, a stop sends one
  request, the end of a countdown leaves nothing behind, the export of passwords asks first, the
  options of a challenge are sent in order. Refinement: the timer service and its registry.
  Equivalence: the window of a contest and the server's checks (\<open>CTFd/utils/dates\<close>, the one piece of
  another language that is modelled, as a reference), the hash of a colour and its
  polynomial. Round trips: the cooldown and the tab of the configuration across a reload, a name
  through the CSV export, the link of a challenge.
  Termination: the loop that watches an instance. Error: the list of instances whatever the server says.

  \<^bold>\<open>Bounds and fuel.\<close> The watching loop has no limit of its own: \<open>health_loop\<close> takes fuel, and
  \<open>health_check_ends\<close> shows that fuel for the requests missing until the server answers for good, and
  one more, is enough; \<open>health_check_unlimited\<close> that no fuel is when it never does. Every other
  function is total. \<open>setTimeout\<close>'s 32-bit delay is written out in \<open>js_delay\<close>, the 32-bit hash of a
  colour in words.

  \<^bold>\<open>Parameters.\<close> The backend (\<open>server\<close>), the HTML sanitiser and the date library (\<open>date_lib\<close>), the answers of
  the user to confirmations, the clipboard, and the library behind the core theme (\<open>core_lib\<close>).

  \<^bold>\<open>Not modelled.\<close> The servers (other languages). Of the portal: layout, colours, animations and the
  components that only present (\<open>Skeleton\<close>, \<open>PageLoader\<close>, the toasts), and a page for debugging that no
  route shows. Of the console: the Vue components, the editors of other libraries, the pop-ups' markup
  (\<open>ezq.js\<close>), the transport of the generated client (a library's request object), the layout of charts,
  and scripts that no page loads (\<open>js/challenges\<close>). Of the core theme: chart options, the sharing of a
  solve, the newsletter, and the pages of other users and teams, which repeat the statistics modelled.
  The load tests and the documentation site, which have no logic of the program.
  A failed write to local storage (quota) and interleavings of two handlers of the same component
  other than those written as steps are not modelled either.
\<close>

end
